(* ===== verification/Prelude.thy ===== *)
theory Prelude
  imports Main "HOL-Library.Word" "HOL-Library.Monad_Syntax"
begin

text \<open>
  Shared vocabulary of the development: the machine integers of the target (xtensa, 32-bit,
  little endian), C strings, allocated memory blocks with checked accesses, and the generic
  lemmas on lists and blocks that the component theories use.

  A computation of the C program that can go wrong is an \<open>option\<close>: \<open>None\<close> is an
  undefined behaviour of C (an access outside a block, a dereference of NULL, a signed
  overflow, an oversized shift), \<open>Some\<close> carries the result. An error code of the program
  (such as a returned -1) is an ordinary result.
\<close>

unbundle bit_operations_syntax

section \<open>Machine integers and strings\<close>

type_synonym u8 = "8 word"
type_synonym u16 = "16 word"
type_synonym u32 = "32 word"

text \<open>A C string is the list of its bytes before the terminating zero byte.\<close>

type_synonym cstring = "u8 list"

named_theorems mem_simps \<open>evaluation of checked accesses to memory blocks\<close>

section \<open>Memory blocks\<close>

text \<open>
  A pointer to an allocated block is modelled by the block's bytes and an index into it.
  NULL is the empty block: every access to it is undefined.
\<close>

definition rd :: "'a list \<Rightarrow> nat \<Rightarrow> 'a option" where
  "rd m i = (if i < length m then Some (m ! i) else None)"

definition wr :: "'a list \<Rightarrow> nat \<Rightarrow> 'a \<Rightarrow> 'a list option" where
  "wr m i v = (if i < length m then Some (m[i := v]) else None)"

definition rd_block :: "'a list \<Rightarrow> nat \<Rightarrow> nat \<Rightarrow> 'a list option" where
  "rd_block m i n = (if i + n \<le> length m then Some (take n (drop i m)) else None)"

definition wr_block :: "'a list \<Rightarrow> nat \<Rightarrow> 'a list \<Rightarrow> 'a list option" where
  "wr_block m i xs =
     (if i + length xs \<le> length m
      then Some (take i m @ xs @ drop (i + length xs) m) else None)"

lemma rd_in [mem_simps]: "i < length m \<Longrightarrow> rd m i = Some (m ! i)"
  by (simp add: rd_def)

lemma wr_in [mem_simps]: "i < length m \<Longrightarrow> wr m i v = Some (m[i := v])"
  by (simp add: wr_def)

lemma rd_block_in [mem_simps]:
  "i + n \<le> length m \<Longrightarrow> rd_block m i n = Some (take n (drop i m))"
  by (simp add: rd_block_def)

lemma wr_block_in [mem_simps]:
  "i + length xs \<le> length m \<Longrightarrow>
     wr_block m i xs = Some (take i m @ xs @ drop (i + length xs) m)"
  by (simp add: wr_block_def)

lemma rd_SomeD: "rd m i = Some v \<Longrightarrow> i < length m \<and> v = m ! i"
  by (simp add: rd_def split: if_splits)

lemma wr_SomeD: "wr m i v = Some m' \<Longrightarrow> i < length m \<and> m' = m[i := v]"
  by (simp add: wr_def split: if_splits)

lemma wr_block_SomeD:
  "wr_block m i xs = Some m' \<Longrightarrow>
     i + length xs \<le> length m \<and> m' = take i m @ xs @ drop (i + length xs) m"
  by (simp add: wr_block_def split: if_splits)

lemma length_wr_block: "wr_block m i xs = Some m' \<Longrightarrow> length m' = length m"
  by (auto dest: wr_block_SomeD)

lemma take_list_update_append:
  "i < length m \<Longrightarrow> take (Suc i) (m[i := v]) = take i m @ [v]"
  by (simp add: take_Suc_conv_app_nth)

lemma take_wr_block:
  "wr_block m i xs = Some m' \<Longrightarrow> take (i + length xs) m' = take i m @ xs"
  by (auto dest: wr_block_SomeD)

section \<open>Words\<close>

lemma unat_inc: "w < v \<Longrightarrow> unat (w + 1) = Suc (unat w)"
  for w v :: "'a::len word"
proof -
  assume "w < v"
  then have "unat w < unat v" by (simp only: word_less_nat_alt)
  moreover have "unat v < 2 ^ LENGTH('a)" by (rule unsigned_less)
  ultimately have "Suc (unat w) < 2 ^ LENGTH('a)" by linarith
  then show ?thesis by (simp add: unat_word_ariths)
qed

text \<open>The register masks that are made of single bits.\<close>

definition bits :: "nat list \<Rightarrow> u32" where
  "bits ns = foldr (\<lambda>n w. push_bit n 1 OR w) ns 0"

lemma bit_bits: "bit (bits ns) n \<longleftrightarrow> n \<in> set ns \<and> n < 32"
proof (induction ns)
  case Nil
  then show ?case by (simp add: bits_def)
next
  case (Cons k ns)
  have "bit (push_bit k 1 :: u32) n \<longleftrightarrow> n = k \<and> n < 32"
    by (subst bit_push_bit_iff) (auto simp: bit_1_iff)
  then show ?case using Cons by (auto simp: bits_def bit_or_iff)
qed

lemma and_bits_eq: "n < 32 \<Longrightarrow> w AND bits [n] = bits [n] \<longleftrightarrow> bit w n" for w :: u32
proof
  assume "n < 32" and "w AND bits [n] = bits [n]"
  then have "bit (w AND bits [n]) n" by (simp add: bit_bits)
  then show "bit w n" by (simp add: bit_and_iff)
next
  assume "n < 32" and "bit w n"
  then show "w AND bits [n] = bits [n]" by (intro bit_word_eqI) (auto simp: bit_and_iff bit_bits)
qed

lemma and_bits_nonzero: "n < 32 \<Longrightarrow> w AND bits [n] \<noteq> 0 \<longleftrightarrow> bit w n" for w :: u32
proof -
  assume n: "n < 32"
  then have "bit (w AND bits [n]) m \<longleftrightarrow> m = n \<and> bit w n" for m
    by (auto simp: bit_and_iff bit_bits)
  then show ?thesis by (auto simp: bit_eq_iff [of "w AND bits [n]" 0] n)
qed

text \<open>A 32-bit number in memory, least significant byte first.\<close>

definition le32 :: "u32 \<Rightarrow> u8 list" where
  "le32 w = [ucast w, ucast (drop_bit 8 w), ucast (drop_bit 16 w), ucast (drop_bit 24 w)]"

definition of_le32 :: "u8 list \<Rightarrow> u32" where
  "of_le32 b = ucast (b ! 0) OR push_bit 8 (ucast (b ! 1)) OR push_bit 16 (ucast (b ! 2))
     OR push_bit 24 (ucast (b ! 3))"

lemma length_le32 [simp]: "length (le32 w) = 4"
  by (simp add: le32_def)

lemma of_le32_le32 [simp]: "of_le32 (le32 w) = w"
proof (rule bit_word_eqI)
  fix n
  assume "n < LENGTH(32)"
  then consider "n < 8" | "8 \<le> n" "n < 16" | "16 \<le> n" "n < 24" | "24 \<le> n" "n < 32" by force
  then show "bit (of_le32 (le32 w)) n \<longleftrightarrow> bit w n"
    by cases (simp_all add: of_le32_def le32_def bit_or_iff bit_push_bit_iff bit_unsigned_iff
        bit_drop_bit_eq, auto)
qed

text \<open>A block cut into consecutive pieces of given sizes.\<close>

fun chop :: "nat list \<Rightarrow> 'a list \<Rightarrow> 'a list list" where
  "chop [] xs = []"
| "chop (n # ns) xs = take n xs # chop ns (drop n xs)"

lemma chop_concat: "map length xss = ns \<Longrightarrow> chop ns (concat xss) = xss"
  by (induction xss arbitrary: ns) auto

section \<open>C strings in memory\<close>

text \<open>The bytes of a literal, and the string functions of C on a block: \<open>None\<close> outside it.\<close>

definition lit :: "string \<Rightarrow> cstring" where
  "lit s = map of_char s"

definition c_string :: "u8 list \<Rightarrow> cstring option" where
  "c_string m = (if 0 \<in> set m then Some (takeWhile (\<lambda>b. b \<noteq> 0) m) else None)"

definition c_strcpy :: "u8 list \<Rightarrow> cstring \<Rightarrow> u8 list option" where
  "c_strcpy m s = wr_block m 0 (s @ [0])"

definition c_strcat :: "u8 list \<Rightarrow> cstring \<Rightarrow> u8 list option" where
  "c_strcat m s = do { old \<leftarrow> c_string m; wr_block m (length old) (s @ [0]) }"

lemma takeWhile_string: "0 \<notin> set s \<Longrightarrow> takeWhile (\<lambda>b. b \<noteq> 0) (s @ 0 # rest) = s" for s :: cstring
  by (induction s) auto

lemma c_string_terminated [simp]: "0 \<notin> set s \<Longrightarrow> c_string (s @ 0 # rest) = Some s"
  by (simp add: c_string_def takeWhile_string)

lemma c_string_no_zero: "c_string m = Some s \<Longrightarrow> 0 \<notin> set s"
  by (auto simp: c_string_def split: if_splits dest: set_takeWhileD)

lemma c_strcpy_fits: "length s < length m \<Longrightarrow> c_strcpy m s = Some (s @ 0 # drop (Suc (length s)) m)"
  by (simp add: c_strcpy_def wr_block_def)

lemma c_strcat_fits:
  "0 \<notin> set a \<Longrightarrow> length s \<le> length rest \<Longrightarrow>
     c_strcat (a @ 0 # rest) s = Some ((a @ s) @ 0 # drop (length s) rest)"
  by (simp add: c_strcat_def wr_block_def)

text \<open>Two distances below the size of a ring lead to different cells.\<close>

lemma ring_index_distinct:
  fixes n :: nat
  assumes "k < f" and "f < n"
  shows "(p + k) mod n \<noteq> (p + f) mod n"
proof
  assume "(p + k) mod n = (p + f) mod n"
  then have "(p + f - (p + k)) mod n = 0"
    using assms by (metis add_le_mono1 add.commute less_imp_le mod_eq_dvd_iff_nat dvd_imp_mod_0)
  with assms show False by simp
qed

section \<open>Interfaces of a bounded byte queue\<close>

text \<open>
  \<open>put_list\<close> puts a list of elements one by one and stops at the first refusal: it is the
  shape of every client of a queue whose put returns -1 when the queue is full.
\<close>

fun put_list :: "('q \<Rightarrow> 'a \<Rightarrow> (int \<times> 'q) option) \<Rightarrow> 'q \<Rightarrow> 'a list \<Rightarrow> (int \<times> 'q) option" where
  "put_list put q [] = Some (0, q)"
| "put_list put q (x # xs) =
     do {
       (r, q') \<leftarrow> put q x;
       if r = -1 then Some (-1, q') else put_list put q' xs
     }"

locale bounded_fifo =
  fixes put :: "'q \<Rightarrow> 'a \<Rightarrow> (int \<times> 'q) option"
    and get :: "'q \<Rightarrow> 'a \<Rightarrow> (int \<times> 'a \<times> 'q) option"
    and items :: "'q \<Rightarrow> 'a list"
    and cap :: "'q \<Rightarrow> nat"
    and invar :: "'q \<Rightarrow> bool"
  assumes put_ok: "invar q \<Longrightarrow> length (items q) < cap q \<Longrightarrow>
      \<exists>q'. put q x = Some (0, q') \<and> invar q' \<and> items q' = items q @ [x] \<and> cap q' = cap q"
    and put_full: "invar q \<Longrightarrow> cap q \<le> length (items q) \<Longrightarrow> put q x = Some (-1, q)"
    and get_ok: "invar q \<Longrightarrow> items q = y # ys \<Longrightarrow>
      \<exists>q'. get q x = Some (0, y, q') \<and> invar q' \<and> items q' = ys \<and> cap q' = cap q"
    and get_empty: "invar q \<Longrightarrow> items q = [] \<Longrightarrow> get q x = Some (-1, x, q)"
    and items_cap: "invar q \<Longrightarrow> length (items q) \<le> cap q"
begin

lemma put_list_fits:
  assumes "invar q" and "length (items q) + length xs \<le> cap q"
  shows "\<exists>q'. put_list put q xs = Some (0, q') \<and> invar q' \<and>
           items q' = items q @ xs \<and> cap q' = cap q"
  using assms
proof (induction xs arbitrary: q)
  case Nil
  then show ?case by simp
next
  case (Cons x xs)
  then have "length (items q) < cap q" by simp
  with Cons.prems(1) obtain q1 where
    q1: "put q x = Some (0, q1)" "invar q1" "items q1 = items q @ [x]" "cap q1 = cap q"
    using put_ok by blast
  from q1 Cons.prems Cons.IH [of q1] show ?case by auto
qed

lemma put_list_overflows:
  assumes "invar q" and "cap q < length (items q) + length xs"
  shows "\<exists>q'. put_list put q xs = Some (-1, q') \<and> invar q' \<and> cap q' = cap q \<and>
           items q' = items q @ take (cap q - length (items q)) xs"
  using assms
proof (induction xs arbitrary: q)
  case Nil
  with items_cap [of q] show ?case by simp
next
  case (Cons x xs)
  show ?case
  proof (cases "length (items q) < cap q")
    case True
    with Cons.prems(1) obtain q1 where
      q1: "put q x = Some (0, q1)" "invar q1" "items q1 = items q @ [x]" "cap q1 = cap q"
      using put_ok by blast
    moreover from True have "cap q - length (items q) = Suc (cap q - Suc (length (items q)))"
      by simp
    ultimately show ?thesis using Cons.prems Cons.IH [of q1] by auto
  next
    case False
    then show ?thesis using put_full [of q x] Cons.prems(1) by simp
  qed
qed

end

section \<open>Invariants of step relations\<close>

text \<open>
  A component that reacts to events is a step relation; what every step keeps holds in every
  reachable state.
\<close>

locale step_invariant =
  fixes step :: "'s \<Rightarrow> 's \<Rightarrow> bool"
    and inv :: "'s \<Rightarrow> bool"
  assumes step_inv: "inv s \<Longrightarrow> step s t \<Longrightarrow> inv t"
begin

lemma reachable_inv: "step\<^sup>*\<^sup>* s t \<Longrightarrow> inv s \<Longrightarrow> inv t"
  by (induction rule: rtranclp_induct) (auto intro: step_inv)

end

section \<open>Implementation of a specification\<close>

text \<open>
  A component that takes events one after the other and answers each: \<open>run_steps\<close> is the program, which
  may go wrong, \<open>run_spec\<close> the specification, a function on an abstract state.
\<close>

fun run_steps :: "('e \<Rightarrow> 's \<Rightarrow> ('o \<times> 's) option) \<Rightarrow> 'e list \<Rightarrow> 's \<Rightarrow> ('o list \<times> 's) option" where
  "run_steps step [] s = Some ([], s)"
| "run_steps step (e # es) s =
     do { (x, s) \<leftarrow> step e s; (xs, s) \<leftarrow> run_steps step es s; Some (x # xs, s) }"

fun run_spec :: "('e \<Rightarrow> 'a \<Rightarrow> 'o \<times> 'a) \<Rightarrow> 'e list \<Rightarrow> 'a \<Rightarrow> 'o list \<times> 'a" where
  "run_spec spec [] a = ([], a)"
| "run_spec spec (e # es) a =
     (let (x, a) = spec e a; (xs, a) = run_spec spec es a in (x # xs, a))"

text \<open>
  Every step of the program from a good state is defined, keeps the state good, and commutes with
  the abstraction: then so does every run.
\<close>

locale simulation =
  fixes step :: "'e \<Rightarrow> 's \<Rightarrow> ('o \<times> 's) option"
    and spec :: "'e \<Rightarrow> 'a \<Rightarrow> 'o \<times> 'a"
    and view :: "'s \<Rightarrow> 'a"
    and inv :: "'s \<Rightarrow> bool"
    and admissible :: "'e \<Rightarrow> bool"
  assumes simulates: "inv s \<Longrightarrow> admissible e \<Longrightarrow>
      \<exists>s'. step e s = Some (fst (spec e (view s)), s') \<and> inv s' \<and> view s' = snd (spec e (view s))"
begin

lemma run_simulates:
  "inv s \<Longrightarrow> list_all admissible es \<Longrightarrow>
     \<exists>s'. run_steps step es s = Some (fst (run_spec spec es (view s)), s') \<and> inv s' \<and>
       view s' = snd (run_spec spec es (view s))"
proof (induction es arbitrary: s)
  case Nil
  then show ?case by simp
next
  case (Cons e es)
  then obtain s1 where s1: "step e s = Some (fst (spec e (view s)), s1)" "inv s1"
      "view s1 = snd (spec e (view s))"
    using simulates [of s e] by auto
  with Cons obtain s2 where "run_steps step es s1 = Some (fst (run_spec spec es (view s1)), s2)" "inv s2"
      "view s2 = snd (run_spec spec es (view s1))"
    using Cons.IH [of s1] Cons.prems by auto
  with s1 show ?case by (auto simp: split_beta Let_def)
qed

end

text \<open>The condition of a simulation is an invariant of the admissible steps.\<close>

sublocale simulation \<subseteq> steps: step_invariant
  "\<lambda>s t. \<exists>e x. admissible e \<and> step e s = Some (x, t)" inv
  by unfold_locales (auto dest: simulates)

context simulation
begin

lemma never_stuck:
  assumes "(\<lambda>s t. \<exists>e x. admissible e \<and> step e s = Some (x, t))\<^sup>*\<^sup>* s t" and "inv s" and "admissible e"
  shows "\<exists>x t'. step e t = Some (x, t')"
  using simulates [OF steps.reachable_inv [OF assms(1,2)] assms(3)] by blast

end

end
