(* ===== verification/Mqtt_Msg.thy ===== *)
theory Mqtt_Msg
  imports Prelude
begin

text \<open>
  MQTT 3.1 control packets: \<open>src/mqtt/mqtt_msg.c\<close> and \<open>mqtt_msg.h\<close>, as configured by
  \<open>mqtt_config.h\<close> (\<open>PROTOCOL_NAMEv31\<close>). A connection owns the output buffer; the packet
  builders write into it through \<open>message.length\<close> and leave in \<open>message.data\<close> where the
  packet starts. The decoders read a received packet. This theory holds the translations;
  \<open>Mqtt_Msg_Props\<close> proves them correct.
\<close>

section \<open>Data (mqtt\_msg.h)\<close>

datatype mqtt_message_type =
    CONNECT | CONNACK | PUBLISH | PUBACK | PUBREC | PUBREL | PUBCOMP | SUBSCRIBE | SUBACK
  | UNSUBSCRIBE | UNSUBACK | PINGREQ | PINGRESP | DISCONNECT

fun msg_type :: "mqtt_message_type \<Rightarrow> int" where
  "msg_type CONNECT = 1"
| "msg_type CONNACK = 2"
| "msg_type PUBLISH = 3"
| "msg_type PUBACK = 4"
| "msg_type PUBREC = 5"
| "msg_type PUBREL = 6"
| "msg_type PUBCOMP = 7"
| "msg_type SUBSCRIBE = 8"
| "msg_type SUBACK = 9"
| "msg_type UNSUBSCRIBE = 10"
| "msg_type UNSUBACK = 11"
| "msg_type PINGREQ = 12"
| "msg_type PINGRESP = 13"
| "msg_type DISCONNECT = 14"

text \<open>
  \<open>msg_data\<close> points into the connection's buffer: it is an offset, \<open>None\<close> for NULL.
  The builders return \<open>&connection->message\<close>, which is part of the returned connection.
\<close>

record mqtt_message =
  msg_data :: "nat option"
  msg_length :: u16

record mqtt_connection =
  message :: mqtt_message
  message_id :: u16
  buffer :: "u8 list"
  buffer_length :: u16

record mqtt_connect_info =
  client_id :: "cstring option"
  username :: "cstring option"
  password :: "cstring option"
  will_topic :: "cstring option"
  will_message :: "cstring option"
  keepalive :: int
  will_qos :: int
  will_retain :: int
  clean_session :: int

definition mqtt_get_type :: "u8 list \<Rightarrow> int option" where
  "mqtt_get_type buf = do { b \<leftarrow> rd buf 0; Some (uint (drop_bit 4 (b AND 0xf0))) }"

definition mqtt_get_dup :: "u8 list \<Rightarrow> int option" where
  "mqtt_get_dup buf = do { b \<leftarrow> rd buf 0; Some (uint (drop_bit 3 (b AND 0x08))) }"

definition mqtt_get_qos :: "u8 list \<Rightarrow> int option" where
  "mqtt_get_qos buf = do { b \<leftarrow> rd buf 0; Some (uint (drop_bit 1 (b AND 0x06))) }"

definition mqtt_get_retain :: "u8 list \<Rightarrow> int option" where
  "mqtt_get_retain buf = do { b \<leftarrow> rd buf 0; Some (uint (b AND 0x01)) }"

section \<open>Writing into the connection's buffer\<close>

text \<open>\<open>connection->buffer[connection->message.length++] = b\<close>\<close>

definition push_byte :: "mqtt_connection \<Rightarrow> u8 \<Rightarrow> mqtt_connection option" where
  "push_byte c b =
     do {
       m \<leftarrow> wr (buffer c) (unat (msg_length (message c))) b;
       Some (c\<lparr>buffer := m,
               message := (message c)\<lparr>msg_length := msg_length (message c) + 1\<rparr>\<rparr>)
     }"

text \<open>
  \<open>memcpy(connection->buffer + connection->message.length, src, len)\<close> followed by
  \<open>connection->message.length += len\<close>; a negative length is undefined behaviour
\<close>

definition push_block :: "mqtt_connection \<Rightarrow> u8 list \<Rightarrow> int \<Rightarrow> mqtt_connection option" where
  "push_block c src len =
     do {
       bytes \<leftarrow> (if len < 0 then None else rd_block src 0 (nat len));
       m \<leftarrow> wr_block (buffer c) (unat (msg_length (message c))) bytes;
       Some (c\<lparr>buffer := m,
               message := (message c)\<lparr>msg_length := msg_length (message c) + word_of_int len\<rparr>\<rparr>)
     }"

definition append_string :: "mqtt_connection \<Rightarrow> u8 list \<Rightarrow> int \<Rightarrow> (int \<times> mqtt_connection) option" where
  "append_string c str len =
     (if uint (msg_length (message c)) + len + 2 > uint (buffer_length c) then Some (-1, c)
      else do {
        c1 \<leftarrow> push_byte c (word_of_int (drop_bit 8 len));
        c2 \<leftarrow> push_byte c1 (word_of_int (len AND 0xff));
        c3 \<leftarrow> push_block c2 str len;
        Some (len + 2, c3)
      })"

text \<open>\<open>while(message_id == 0) message_id = ++connection->message_id;\<close>\<close>

function assign_message_id :: "u16 \<Rightarrow> u16 \<Rightarrow> u16 \<times> u16" where
  "assign_message_id mid conn_id =
     (if mid = 0 then assign_message_id (conn_id + 1) (conn_id + 1) else (mid, conn_id))"
  by pat_completeness auto
termination
  by (relation "measure (\<lambda>(mid, conn_id). if mid \<noteq> 0 then 0 else if conn_id + 1 = 0 then 2 else 1)")
    auto

declare assign_message_id.simps [simp del]

definition append_message_id :: "mqtt_connection \<Rightarrow> u16 \<Rightarrow> (u16 \<times> mqtt_connection) option" where
  "append_message_id c mid =
     (let (mid, conn_id) = assign_message_id mid (message_id c);
          c = c\<lparr>message_id := conn_id\<rparr>
      in if uint (msg_length (message c)) + 2 > uint (buffer_length c) then Some (0, c)
         else do {
           c1 \<leftarrow> push_byte c (ucast (drop_bit 8 mid));
           c2 \<leftarrow> push_byte c1 (ucast (mid AND 0xff));
           Some (mid, c2)
         })"

definition init_message :: "mqtt_connection \<Rightarrow> int \<times> mqtt_connection" where
  "init_message c = (3, c\<lparr>message := (message c)\<lparr>msg_length := 3\<rparr>\<rparr>)"

definition fail_message :: "mqtt_connection \<Rightarrow> mqtt_connection" where
  "fail_message c = c\<lparr>message := (message c)\<lparr>msg_data := Some 0, msg_length := 0\<rparr>\<rparr>"

definition header_byte :: "int \<Rightarrow> int \<Rightarrow> int \<Rightarrow> int \<Rightarrow> u8" where
  "header_byte type dup qos retain =
     word_of_int (push_bit 4 (type AND 0x0f) OR push_bit 3 (dup AND 1)
                  OR push_bit 1 (qos AND 3) OR (retain AND 1))"

definition fini_message ::
  "mqtt_connection \<Rightarrow> int \<Rightarrow> int \<Rightarrow> int \<Rightarrow> int \<Rightarrow> mqtt_connection option" where
  "fini_message c type dup qos retain =
     (let remaining_length = uint (msg_length (message c)) - 3
      in if remaining_length > 127 then do {
           b0 \<leftarrow> wr (buffer c) 0 (header_byte type dup qos retain);
           b1 \<leftarrow> wr b0 1 (word_of_int (0x80 OR (remaining_length mod 128)));
           b2 \<leftarrow> wr b1 2 (word_of_int (remaining_length div 128));
           Some (c\<lparr>buffer := b2,
                   message := \<lparr>msg_data = Some 0, msg_length = word_of_int (remaining_length + 3)\<rparr>\<rparr>)
         } else do {
           b1 \<leftarrow> wr (buffer c) 1 (header_byte type dup qos retain);
           b2 \<leftarrow> wr b1 2 (word_of_int remaining_length);
           Some (c\<lparr>buffer := b2,
                   message := \<lparr>msg_data = Some 1, msg_length = word_of_int (remaining_length + 2)\<rparr>\<rparr>)
         })"

definition mqtt_msg_init :: "u8 list \<Rightarrow> u16 \<Rightarrow> mqtt_connection" where
  "mqtt_msg_init buf len =
     \<lparr>message = \<lparr>msg_data = None, msg_length = 0\<rparr>, message_id = 0,
      buffer = buf, buffer_length = len\<rparr>"

section \<open>Decoding received packets\<close>

text \<open>\<open>x << n\<close> of a non-negative \<open>int\<close>, and \<open>int\<close> addition: undefined on overflow.\<close>

definition shl_int :: "int \<Rightarrow> nat \<Rightarrow> int option" where
  "shl_int x n = (if n < 32 \<and> x * 2 ^ n < 2 ^ 31 then Some (x * 2 ^ n) else None)"

definition add_int :: "int \<Rightarrow> int \<Rightarrow> int option" where
  "add_int x y = (if x + y < 2 ^ 31 then Some (x + y) else None)"

text \<open>
  The loop over the remaining-length bytes, shared by the first three decoders: it returns
  the index after the field and the accumulated length.
\<close>

function rem_length_loop :: "u8 list \<Rightarrow> nat \<Rightarrow> nat \<Rightarrow> int \<Rightarrow> (nat \<times> int) option" where
  "rem_length_loop buf len i totlen =
     (if i < len then
        (case rd buf i of
           None \<Rightarrow> None
         | Some b \<Rightarrow>
             (case Option.bind (shl_int (uint (b AND 0x7f)) (7 * (i - 1))) (add_int totlen) of
                None \<Rightarrow> None
              | Some totlen' \<Rightarrow>
                  if b AND 0x80 = 0 then Some (Suc i, totlen')
                  else rem_length_loop buf len (Suc i) totlen'))
      else Some (i, totlen))"
  by pat_completeness auto
termination
  by (relation "measure (\<lambda>(buf, len, i, t). len - i)") auto

declare rem_length_loop.simps [simp del]

definition mqtt_get_total_length :: "u8 list \<Rightarrow> u16 \<Rightarrow> int option" where
  "mqtt_get_total_length buf len =
     do { (i, totlen) \<leftarrow> rem_length_loop buf (unat len) 1 0; add_int totlen (int i) }"

text \<open>The 16-bit big-endian number at an index.\<close>

definition rd_be16 :: "u8 list \<Rightarrow> nat \<Rightarrow> nat option" where
  "rd_be16 buf i =
     do { hi \<leftarrow> rd buf i; lo \<leftarrow> rd buf (Suc i); Some (256 * unat hi + unat lo) }"

text \<open>
  Topic and data of a PUBLISH: the returned pointer is an offset into the buffer, \<open>None\<close>
  for NULL; the second result is the in-out length.
\<close>

definition mqtt_get_publish_topic :: "u8 list \<Rightarrow> u16 \<Rightarrow> (nat option \<times> u16) option" where
  "mqtt_get_publish_topic buf len =
     do {
       (i, totlen) \<leftarrow> rem_length_loop buf (unat len) 1 0;
       _ \<leftarrow> add_int totlen (int i);
       if i + 2 \<ge> unat len then Some (None, len)
       else do {
         topiclen \<leftarrow> rd_be16 buf i;
         let i = i + 2;
         if i + topiclen > unat len then Some (None, len)
         else Some (Some i, of_nat topiclen)
       }
     }"

definition mqtt_get_publish_data :: "u8 list \<Rightarrow> u16 \<Rightarrow> (nat option \<times> u16) option" where
  "mqtt_get_publish_data buf len =
     do {
       let blength = unat len;
       (i, totlen) \<leftarrow> rem_length_loop buf blength 1 0;
       totlen \<leftarrow> add_int totlen (int i);
       if i + 2 \<ge> blength then Some (None, 0)
       else do {
         topiclen \<leftarrow> rd_be16 buf i;
         let i = i + 2;
         if i + topiclen \<ge> blength then Some (None, 0)
         else do {
           let i = i + topiclen;
           qos \<leftarrow> mqtt_get_qos buf;
           if qos > 0 \<and> i + 2 \<ge> blength then Some (None, 0)
           else do {
             let i = (if qos > 0 then i + 2 else i);
             if totlen < int i then Some (None, 0)
             else if totlen \<le> int blength then Some (Some i, word_of_int (totlen - int i))
             else Some (Some i, of_nat (blength - i))
           }
         }
       }
     }"

text \<open>The loop of \<open>mqtt_get_id\<close> over the remaining-length bytes, which adds nothing up.\<close>

function skip_length_loop :: "u8 list \<Rightarrow> nat \<Rightarrow> nat \<Rightarrow> nat option" where
  "skip_length_loop buf len i =
     (if i < len then
        (case rd buf i of
           None \<Rightarrow> None
         | Some b \<Rightarrow> if b AND 0x80 = 0 then Some (Suc i) else skip_length_loop buf len (Suc i))
      else Some i)"
  by pat_completeness auto
termination
  by (relation "measure (\<lambda>(buf, len, i). len - i)") auto

declare skip_length_loop.simps [simp del]

definition mqtt_get_id :: "u8 list \<Rightarrow> u16 \<Rightarrow> u16 option" where
  "mqtt_get_id buf len =
     (if unat len < 1 then Some 0
      else do {
        type \<leftarrow> mqtt_get_type buf;
        if type = msg_type PUBLISH then do {
          i \<leftarrow> skip_length_loop buf (unat len) 1;
          if i + 2 \<ge> unat len then Some 0
          else do {
            topiclen \<leftarrow> rd_be16 buf i;
            let i = i + 2;
            if i + topiclen \<ge> unat len then Some 0
            else do {
              let i = i + topiclen;
              qos \<leftarrow> mqtt_get_qos buf;
              if qos > 0 then
                (if i + 2 \<ge> unat len then Some 0
                 else do { mid \<leftarrow> rd_be16 buf i; Some (of_nat mid) })
              else Some 0
            }
          }
        }
        else if type \<in> {msg_type PUBACK, msg_type PUBREC, msg_type PUBREL, msg_type PUBCOMP,
                        msg_type SUBACK, msg_type UNSUBACK, msg_type SUBSCRIBE} then
          (if unat len \<ge> 4 then do {
             b1 \<leftarrow> rd buf 1;
             if b1 AND 0x80 = 0 then do { mid \<leftarrow> rd_be16 buf 2; Some (of_nat mid) } else Some 0
           } else Some 0)
        else Some 0
      })"

section \<open>Building packets\<close>

text \<open>
  \<open>mqtt_msg_connect\<close>: the variable header is written through a pointer to offset 3 of the
  buffer (length, magic, version, flags, keep-alive), the flags byte at offset 12 is updated
  after each optional field.
\<close>

definition set_flags :: "mqtt_connection \<Rightarrow> u8 \<Rightarrow> mqtt_connection option" where
  "set_flags c f =
     do { old \<leftarrow> rd (buffer c) 12; m \<leftarrow> wr (buffer c) 12 (old OR f); Some (c\<lparr>buffer := m\<rparr>) }"

definition present :: "cstring option \<Rightarrow> bool" where
  "present s \<longleftrightarrow> (case s of None \<Rightarrow> False | Some str \<Rightarrow> str \<noteq> [])"

definition str_of :: "cstring option \<Rightarrow> cstring" where
  "str_of s = (case s of None \<Rightarrow> [] | Some str \<Rightarrow> str)"

definition connect_header :: "mqtt_connection \<Rightarrow> mqtt_connect_info \<Rightarrow> mqtt_connection option" where
  "connect_header c info =
     do {
       m \<leftarrow> wr_block (buffer c) (unat (msg_length (message c)))
              [0, 6, 0x4D, 0x51, 0x49, 0x73, 0x64, 0x70, 3, 0,
               word_of_int (drop_bit 8 (keepalive info)), word_of_int (keepalive info AND 0xff)];
       Some (c\<lparr>buffer := m,
               message := (message c)\<lparr>msg_length := msg_length (message c) + 12\<rparr>\<rparr>)
     }"

definition connect_will ::
  "mqtt_connection \<Rightarrow> mqtt_connect_info \<Rightarrow> (bool \<times> mqtt_connection) option" where
  "connect_will c info =
     (if \<not> present (will_topic info) then Some (True, c)
      else do {
        (r, c) \<leftarrow> append_string c (str_of (will_topic info)) (int (length (str_of (will_topic info))));
        if r < 0 then Some (False, c)
        else do {
          msg \<leftarrow> will_message info;
          (r, c) \<leftarrow> append_string c msg (int (length msg));
          if r < 0 then Some (False, c)
          else do {
            c \<leftarrow> set_flags c 4;
            c \<leftarrow> (if will_retain info \<noteq> 0 then set_flags c 32 else Some c);
            c \<leftarrow> set_flags c (word_of_int (push_bit 3 (will_qos info AND 3)));
            Some (True, c)
          }
        }
      })"

definition connect_credential ::
  "mqtt_connection \<Rightarrow> cstring option \<Rightarrow> u8 \<Rightarrow> (bool \<times> mqtt_connection) option" where
  "connect_credential c cred flag =
     (if \<not> present cred then Some (True, c)
      else do {
        (r, c) \<leftarrow> append_string c (str_of cred) (int (length (str_of cred)));
        if r < 0 then Some (False, c)
        else do { c \<leftarrow> set_flags c flag; Some (True, c) }
      })"

definition mqtt_msg_connect ::
  "mqtt_connection \<Rightarrow> mqtt_connect_info \<Rightarrow> mqtt_connection option" where
  "mqtt_msg_connect c info =
     (let c = snd (init_message c)
      in if uint (msg_length (message c)) + 12 > uint (buffer_length c) then Some (fail_message c)
         else do {
           c \<leftarrow> connect_header c info;
           c \<leftarrow> (if clean_session info \<noteq> 0 then set_flags c 2 else Some c);
           if \<not> present (client_id info) then Some (fail_message c)
           else do {
             (r, c) \<leftarrow> append_string c (str_of (client_id info))
                          (int (length (str_of (client_id info))));
             if r < 0 then Some (fail_message c)
             else do {
               (ok, c) \<leftarrow> connect_will c info;
               if \<not> ok then Some (fail_message c)
               else do {
                 (ok, c) \<leftarrow> connect_credential c (username info) 128;
                 if \<not> ok then Some (fail_message c)
                 else do {
                   (ok, c) \<leftarrow> connect_credential c (password info) 64;
                   if \<not> ok then Some (fail_message c)
                   else fini_message c (msg_type CONNECT) 0 0 0
                 }
               }
             }
           }
         })"

text \<open>The second component is the value behind the out-pointer \<open>message_id\<close>.\<close>

definition mqtt_msg_publish ::
  "mqtt_connection \<Rightarrow> cstring option \<Rightarrow> u8 list \<Rightarrow> int \<Rightarrow> int \<Rightarrow> int \<Rightarrow> u16
     \<Rightarrow> (mqtt_connection \<times> u16) option" where
  "mqtt_msg_publish c topic data data_length qos retain mid =
     (let c = snd (init_message c)
      in if \<not> present topic then Some (fail_message c, mid)
         else do {
           (r, c) \<leftarrow> append_string c (str_of topic) (int (length (str_of topic)));
           if r < 0 then Some (fail_message c, mid)
           else do {
             (mid, c) \<leftarrow> (if qos > 0 then append_message_id c 0 else Some (0, c));
             if qos > 0 \<and> mid = 0 then Some (fail_message c, mid)
             else if uint (msg_length (message c)) + data_length > uint (buffer_length c)
             then Some (fail_message c, mid)
             else do {
               c \<leftarrow> push_block c data data_length;
               c \<leftarrow> fini_message c (msg_type PUBLISH) 0 qos retain;
               Some (c, mid)
             }
           }
         })"

definition mqtt_msg_puback :: "mqtt_connection \<Rightarrow> u16 \<Rightarrow> mqtt_connection option" where
  "mqtt_msg_puback c mid =
     do {
       (r, c) \<leftarrow> append_message_id (snd (init_message c)) mid;
       if r = 0 then Some (fail_message c) else fini_message c (msg_type PUBACK) 0 0 0
     }"

definition mqtt_msg_pubrec :: "mqtt_connection \<Rightarrow> u16 \<Rightarrow> mqtt_connection option" where
  "mqtt_msg_pubrec c mid =
     do {
       (r, c) \<leftarrow> append_message_id (snd (init_message c)) mid;
       if r = 0 then Some (fail_message c) else fini_message c (msg_type PUBREC) 0 0 0
     }"

definition mqtt_msg_pubrel :: "mqtt_connection \<Rightarrow> u16 \<Rightarrow> mqtt_connection option" where
  "mqtt_msg_pubrel c mid =
     do {
       (r, c) \<leftarrow> append_message_id (snd (init_message c)) mid;
       if r = 0 then Some (fail_message c) else fini_message c (msg_type PUBREL) 0 1 0
     }"

definition mqtt_msg_pubcomp :: "mqtt_connection \<Rightarrow> u16 \<Rightarrow> mqtt_connection option" where
  "mqtt_msg_pubcomp c mid =
     do {
       (r, c) \<leftarrow> append_message_id (snd (init_message c)) mid;
       if r = 0 then Some (fail_message c) else fini_message c (msg_type PUBCOMP) 0 0 0
     }"

definition mqtt_msg_subscribe ::
  "mqtt_connection \<Rightarrow> cstring option \<Rightarrow> int \<Rightarrow> u16 \<Rightarrow> (mqtt_connection \<times> u16) option" where
  "mqtt_msg_subscribe c topic qos mid =
     (let c = snd (init_message c)
      in if \<not> present topic then Some (fail_message c, mid)
         else do {
           (mid, c) \<leftarrow> append_message_id c 0;
           if mid = 0 then Some (fail_message c, mid)
           else do {
             (r, c) \<leftarrow> append_string c (str_of topic) (int (length (str_of topic)));
             if r < 0 then Some (fail_message c, mid)
             else if uint (msg_length (message c)) + 1 > uint (buffer_length c)
             then Some (fail_message c, mid)
             else do {
               c \<leftarrow> push_byte c (word_of_int qos);
               c \<leftarrow> fini_message c (msg_type SUBSCRIBE) 0 1 0;
               Some (c, mid)
             }
           }
         })"

definition mqtt_msg_unsubscribe ::
  "mqtt_connection \<Rightarrow> cstring option \<Rightarrow> u16 \<Rightarrow> (mqtt_connection \<times> u16) option" where
  "mqtt_msg_unsubscribe c topic mid =
     (let c = snd (init_message c)
      in if \<not> present topic then Some (fail_message c, mid)
         else do {
           (mid, c) \<leftarrow> append_message_id c 0;
           if mid = 0 then Some (fail_message c, mid)
           else do {
             (r, c) \<leftarrow> append_string c (str_of topic) (int (length (str_of topic)));
             if r < 0 then Some (fail_message c, mid)
             else do {
               c \<leftarrow> fini_message c (msg_type UNSUBSCRIBE) 0 1 0;
               Some (c, mid)
             }
           }
         })"

definition mqtt_msg_pingreq :: "mqtt_connection \<Rightarrow> mqtt_connection option" where
  "mqtt_msg_pingreq c = fini_message (snd (init_message c)) (msg_type PINGREQ) 0 0 0"

definition mqtt_msg_pingresp :: "mqtt_connection \<Rightarrow> mqtt_connection option" where
  "mqtt_msg_pingresp c = fini_message (snd (init_message c)) (msg_type PINGRESP) 0 0 0"

definition mqtt_msg_disconnect :: "mqtt_connection \<Rightarrow> mqtt_connection option" where
  "mqtt_msg_disconnect c = fini_message (snd (init_message c)) (msg_type DISCONNECT) 0 0 0"

end
