(* ===== verification/Mqtt_Msg_Props.thy ===== *)
theory Mqtt_Msg_Props
  imports Mqtt_Msg
begin

text \<open>
  Correctness of the packet builders and decoders of \<open>Mqtt_Msg\<close>: every builder either
  produces exactly the packet that the MQTT 3.1 format prescribes or reports failure with
  length 0, never writing outside the buffer, and the decoders read back what was built.
\<close>

section \<open>The packet format\<close>

definition be16 :: "nat \<Rightarrow> u8 list" where
  "be16 n = [of_nat (n div 256), of_nat (n mod 256)]"

definition mqtt_string :: "cstring \<Rightarrow> u8 list" where
  "mqtt_string s = be16 (length s) @ s"

text \<open>The remaining-length field: seven bits per byte, the top bit says that more follow.\<close>

fun varint :: "nat \<Rightarrow> u8 list" where
  "varint n = (if n < 128 then [of_nat n] else of_nat (128 + n mod 128) # varint (n div 128))"

declare varint.simps [simp del]

definition packet :: "u8 \<Rightarrow> u8 list \<Rightarrow> u8 list" where
  "packet hdr body = hdr # varint (length body) @ body"

definition publish_body :: "cstring \<Rightarrow> nat \<Rightarrow> u16 \<Rightarrow> u8 list \<Rightarrow> u8 list" where
  "publish_body topic qos mid data =
     mqtt_string topic @ (if qos > 0 then be16 (unat mid) else []) @ data"

definition connect_flags :: "mqtt_connect_info \<Rightarrow> u8" where
  "connect_flags info =
     (if clean_session info \<noteq> 0 then 2 else 0)
     OR (if present (will_topic info)
         then 4 OR (if will_retain info \<noteq> 0 then 32 else 0)
              OR word_of_int (push_bit 3 (will_qos info AND 3))
         else 0)
     OR (if present (username info) then 128 else 0)
     OR (if present (password info) then 64 else 0)"

definition connect_body :: "mqtt_connect_info \<Rightarrow> u8 list" where
  "connect_body info =
     mqtt_string [0x4D, 0x51, 0x49, 0x73, 0x64, 0x70]
     @ [3, connect_flags info, word_of_int (drop_bit 8 (keepalive info)),
        word_of_int (keepalive info AND 0xff)]
     @ mqtt_string (str_of (client_id info))
     @ (if present (will_topic info)
        then mqtt_string (str_of (will_topic info)) @ mqtt_string (str_of (will_message info))
        else [])
     @ (if present (username info) then mqtt_string (str_of (username info)) else [])
     @ (if present (password info) then mqtt_string (str_of (password info)) else [])"

text \<open>The packet a connection holds, and the invariant of its buffer.\<close>

definition packet_bytes :: "mqtt_connection \<Rightarrow> u8 list" where
  "packet_bytes c =
     (case msg_data (message c) of
        None \<Rightarrow> []
      | Some i \<Rightarrow> take (unat (msg_length (message c))) (drop i (buffer c)))"

definition conn_ok :: "mqtt_connection \<Rightarrow> bool" where
  "conn_ok c \<longleftrightarrow> length (buffer c) = unat (buffer_length c) \<and> 3 \<le> length (buffer c)"

definition message_inside :: "mqtt_connection \<Rightarrow> bool" where
  "message_inside c \<longleftrightarrow>
     (case msg_data (message c) of
        None \<Rightarrow> False
      | Some i \<Rightarrow> i < length (buffer c) \<and> i + unat (msg_length (message c)) \<le> length (buffer c))"

section \<open>The partly built packet\<close>

definition building :: "mqtt_connection \<Rightarrow> u8 list \<Rightarrow> bool" where
  "building c body \<longleftrightarrow>
     conn_ok c \<and> 3 + length body \<le> length (buffer c) \<and>
     unat (msg_length (message c)) = 3 + length body \<and>
     take (length body) (drop 3 (buffer c)) = body"

definition same_conn :: "mqtt_connection \<Rightarrow> mqtt_connection \<Rightarrow> bool" where
  "same_conn c c' \<longleftrightarrow> buffer_length c' = buffer_length c \<and>
     length (buffer c') = length (buffer c) \<and> message_id c' = message_id c"

lemma same_conn_refl [simp]: "same_conn c c"
  by (simp add: same_conn_def)

lemma same_conn_trans [trans]: "same_conn a b \<Longrightarrow> same_conn b c \<Longrightarrow> same_conn a c"
  by (simp add: same_conn_def)

lemma building_buffer_length: "building c body \<Longrightarrow> uint (buffer_length c) = int (length (buffer c))"
  unfolding uint_nat by (simp add: building_def conn_ok_def)

lemma building_msg_length: "building c body \<Longrightarrow> uint (msg_length (message c)) = int (3 + length body)"
  unfolding uint_nat by (simp add: building_def)

lemma conn_length: "conn_ok c \<Longrightarrow> length (buffer c) < 2 ^ 16"
proof -
  assume "conn_ok c"
  moreover have "unat (buffer_length c) < 2 ^ LENGTH(16)" by (rule unsigned_less)
  ultimately show ?thesis by (simp add: conn_ok_def)
qed

lemma conn_buffer_length: "conn_ok c \<Longrightarrow> uint (buffer_length c) = int (length (buffer c))"
  unfolding uint_nat by (simp add: conn_ok_def)

lemma building_conn: "building c body \<Longrightarrow> conn_ok c"
  by (simp add: building_def)

lemma building_init: "conn_ok c \<Longrightarrow> building (snd (init_message c)) []"
  by (simp add: building_def conn_ok_def init_message_def)

lemma same_conn_init: "same_conn c (snd (init_message c))"
  by (simp add: same_conn_def init_message_def)

lemma push_byte_building:
  assumes b: "building c body" and room: "3 + length body < length (buffer c)"
  shows "\<exists>c'. push_byte c v = Some c' \<and> building c' (body @ [v]) \<and> same_conn c c'"
proof -
  let ?n = "unat (msg_length (message c))"
  from b have n: "?n = 3 + length body" and len: "length (buffer c) = unat (buffer_length c)"
    and pre: "take (length body) (drop 3 (buffer c)) = body"
    by (simp_all add: building_def conn_ok_def)
  have "msg_length (message c) < buffer_length c"
    using room n len by (simp add: word_less_nat_alt)
  then have inc: "unat (msg_length (message c) + 1) = Suc ?n" by (rule unat_inc)
  have "take (Suc (length body)) (drop 3 ((buffer c)[?n := v])) = body @ [v]"
    using room len pre by (simp add: n drop_update_swap take_list_update_append)
  with b room inc n len show ?thesis
    by (auto simp: push_byte_def mem_simps building_def conn_ok_def same_conn_def)
qed

lemma push_block_building:
  assumes b: "building c body" and room: "3 + length body + length xs \<le> length (buffer c)"
    and len: "n = int (length xs)"
  shows "\<exists>c'. push_block c xs n = Some c' \<and> building c' (body @ xs) \<and> same_conn c c'"
proof -
  let ?n = "unat (msg_length (message c))"
  from b have n: "?n = 3 + length body" and blen: "length (buffer c) = unat (buffer_length c)"
    and pre: "take (length body) (drop 3 (buffer c)) = body"
    by (simp_all add: building_def conn_ok_def)
  have lt: "3 + length body + length xs < 2 ^ 16"
    using room conn_length [OF building_conn [OF b]] by simp
  have "msg_length (message c) = of_nat (3 + length body)"
    by (simp flip: n)
  then have "msg_length (message c) + word_of_int n = of_nat (3 + length body + length xs)"
    using len by simp
  then have inc: "unat (msg_length (message c) + word_of_int n) = 3 + length body + length xs"
    using lt by (simp add: unat_of_nat take_bit_nat_eq_self del: of_nat_add of_nat_numeral)
  define m where "m = take ?n (buffer c) @ xs @ drop (?n + length xs) (buffer c)"
  have "take (length body + length xs) (drop 3 m) = body @ xs"
    using room blen pre unfolding m_def n by (simp add: drop_take)
  moreover have "length m = length (buffer c)"
    using room blen n by (simp add: m_def)
  ultimately show ?thesis
    using b room inc n blen len
    by (auto simp: push_block_def mem_simps building_def conn_ok_def same_conn_def m_def)
qed

lemma int_byte_hi: "word_of_int (drop_bit 8 (int n)) = (of_nat (n div 256) :: u8)"
proof -
  have "drop_bit 8 (int n) = int (n div 256)" by (simp add: drop_bit_eq_div zdiv_int)
  then show ?thesis by (simp only: of_int_of_nat_eq)
qed

lemma int_byte_lo: "word_of_int (int n AND 0xff) = (of_nat (n mod 256) :: u8)"
proof -
  have "int n AND 0xff = take_bit 8 (int n)" by (simp add: take_bit_eq_mask mask_eq_exp_minus_1)
  also have "\<dots> = int (n mod 256)" by (simp add: take_bit_eq_mod zmod_int)
  finally show ?thesis by (simp only: of_int_of_nat_eq)
qed

lemma push_be16_building:
  assumes b: "building c body" and room: "3 + length body + 2 \<le> length (buffer c)"
    and hi: "hi = of_nat (n div 256)" and lo: "lo = of_nat (n mod 256)"
  shows "\<exists>c' c''. push_byte c hi = Some c' \<and> push_byte c' lo = Some c'' \<and>
           building c'' (body @ be16 n) \<and> same_conn c c''"
proof -
  obtain c1 where c1: "push_byte c hi = Some c1" "building c1 (body @ [hi])" "same_conn c c1"
    using push_byte_building [OF b, of hi] room by auto
  obtain c2 where c2: "push_byte c1 lo = Some c2" "building c2 (body @ [hi] @ [lo])" "same_conn c1 c2"
    using push_byte_building [OF c1(2), of lo] room c1(3) by (auto simp: same_conn_def)
  show ?thesis
    using c1(1) c2(1,2) same_conn_trans [OF c1(3) c2(3)] by (simp add: hi lo be16_def)
qed

lemma append_string_fits:
  assumes b: "building c body" and room: "3 + length body + (2 + length s) \<le> length (buffer c)"
  shows "\<exists>c'. append_string c s (int (length s)) = Some (int (length s) + 2, c') \<and>
           building c' (body @ mqtt_string s) \<and> same_conn c c'"
proof -
  have fits: "\<not> uint (msg_length (message c)) + int (length s) + 2 > uint (buffer_length c)"
    using room by (simp add: building_buffer_length [OF b] building_msg_length [OF b])
  obtain c1 c2 where
    c1: "push_byte c (word_of_int (drop_bit 8 (int (length s)))) = Some c1" and
    c2: "push_byte c1 (word_of_int (int (length s) AND 0xff)) = Some c2"
      "building c2 (body @ be16 (length s))" "same_conn c c2"
    using push_be16_building [OF b _ int_byte_hi int_byte_lo] room by fastforce
  obtain c3 where c3: "push_block c2 s (int (length s)) = Some c3"
    "building c3 (body @ mqtt_string s)" "same_conn c2 c3"
    using push_block_building [OF c2(2), of s "int (length s)"] room c2(3)
    by (auto simp: be16_def mqtt_string_def same_conn_def)
  show ?thesis
    using fits c1 c2(1) c3(1,2) same_conn_trans [OF c2(3) c3(3)] by (simp add: append_string_def)
qed

lemma append_string_fails:
  assumes b: "building c body" and room: "length (buffer c) < 3 + length body + (2 + length s)"
  shows "append_string c s (int (length s)) = Some (-1, c)"
  using room by (simp add: append_string_def building_buffer_length [OF b] building_msg_length [OF b])

section \<open>Message identifiers\<close>

lemma assign_message_id_given: "mid \<noteq> 0 \<Longrightarrow> assign_message_id mid cid = (mid, cid)"
  by (simp add: assign_message_id.simps)

lemma assign_message_id_fresh:
  "assign_message_id 0 cid = (if cid + 1 = 0 then (1, 1) else (cid + 1, cid + 1))"
  by (simp add: assign_message_id.simps [of 0] assign_message_id.simps [of "cid + 1"]
      assign_message_id.simps [of 1])

text \<open>The identifier that the next packet without a given identifier gets: 65535 is followed by 1.\<close>

definition next_id :: "u16 \<Rightarrow> u16" where
  "next_id cid = (if cid + 1 = 0 then 1 else cid + 1)"

lemma next_id_not_0: "next_id cid \<noteq> 0"
  by (simp add: next_id_def)

lemma assign_message_id_next: "assign_message_id 0 cid = (next_id cid, next_id cid)"
  by (simp add: assign_message_id_fresh next_id_def)

definition used_id :: "u16 \<Rightarrow> mqtt_connection \<Rightarrow> u16" where
  "used_id mid c = (if mid = 0 then next_id (message_id c) else mid)"

lemma used_id_not_0: "used_id mid c \<noteq> 0"
  by (simp add: used_id_def next_id_not_0)

definition with_id :: "u16 \<Rightarrow> mqtt_connection \<Rightarrow> mqtt_connection" where
  "with_id mid c = (if mid = 0 then c\<lparr>message_id := next_id (message_id c)\<rparr> else c)"

lemma building_with_id: "building c body \<Longrightarrow> building (with_id mid c) body"
  by (simp add: with_id_def building_def conn_ok_def)

lemma buffer_with_id [simp]: "buffer (with_id mid c) = buffer c"
  by (simp add: with_id_def)

lemma append_message_id_unfold:
  "append_message_id c mid =
     (if uint (msg_length (message c)) + 2 > uint (buffer_length c) then Some (0, with_id mid c)
      else do {
        c1 \<leftarrow> push_byte (with_id mid c) (ucast (drop_bit 8 (used_id mid c)));
        c2 \<leftarrow> push_byte c1 (ucast (used_id mid c AND 0xff));
        Some (used_id mid c, c2)
      })"
  by (simp add: append_message_id_def with_id_def used_id_def assign_message_id_given
      assign_message_id_next)

lemma word_byte_hi: "ucast (drop_bit 8 w) = (of_nat (unat w div 256) :: u8)" for w :: u16
proof -
  have "ucast (drop_bit 8 w) = (of_nat (unat (drop_bit 8 w)) :: u8)" by simp
  also have "unat (drop_bit 8 w) = unat w div 256"
    unfolding unat_drop_bit_eq by (simp add: drop_bit_eq_div)
  finally show ?thesis .
qed

lemma word_byte_lo: "ucast (w AND 0xff) = (of_nat (unat w mod 256) :: u8)" for w :: u16
proof -
  have "w AND 0xff = take_bit 8 w" by (simp add: take_bit_eq_mask mask_eq_exp_minus_1)
  moreover have "unat (take_bit 8 w) = unat w mod 256"
    unfolding unsigned_take_bit_eq by (simp add: take_bit_eq_mod)
  moreover have "ucast (w AND 0xff) = (of_nat (unat (w AND 0xff)) :: u8)" by simp
  ultimately show ?thesis by simp
qed

lemma append_message_id_fits:
  assumes b: "building c body" and room: "3 + length body + 2 \<le> length (buffer c)"
  shows "\<exists>c'. append_message_id c mid = Some (used_id mid c, c') \<and>
           building c' (body @ be16 (unat (used_id mid c))) \<and> same_conn (with_id mid c) c'"
proof -
  let ?w = "used_id mid c"
  have "\<not> uint (msg_length (message c)) + 2 > uint (buffer_length c)"
    using room by (simp add: building_buffer_length [OF b] building_msg_length [OF b])
  moreover obtain c1 c2 where
    "push_byte (with_id mid c) (ucast (drop_bit 8 ?w)) = Some c1"
    "push_byte c1 (ucast (?w AND 0xff)) = Some c2"
    "building c2 (body @ be16 (unat ?w))" "same_conn (with_id mid c) c2"
    using push_be16_building [OF building_with_id [OF b, of mid] _ word_byte_hi [of ?w] word_byte_lo [of ?w]]
      room by auto
  ultimately show ?thesis by (simp add: append_message_id_unfold)
qed

lemma append_message_id_fails:
  assumes b: "building c body" and room: "length (buffer c) < 3 + length body + 2"
  shows "append_message_id c mid = Some (0, with_id mid c)"
  using room
  by (simp add: append_message_id_unfold building_buffer_length [OF b] building_msg_length [OF b])

section \<open>The fixed header\<close>

lemma varint_short: "n < 128 \<Longrightarrow> varint n = [of_nat n]"
  by (simp add: varint.simps)

lemma varint_two: "128 \<le> n \<Longrightarrow> n < 16384 \<Longrightarrow> varint n = [of_nat (128 + n mod 128), of_nat (n div 128)]"
  by (simp add: varint.simps [of n] varint_short)

lemma continuation_byte: "word_of_int (0x80 OR (int n mod 128)) = (of_nat (128 + n mod 128) :: u8)"
proof -
  have "(0x80 :: int) + take_bit 7 (int n) = 0x80 OR take_bit 7 (int n)"
  proof (rule disjunctive_add)
    fix k
    have "bit (0x80 :: int) k \<longleftrightarrow> k = 7" using bit_exp_iff [where ?'a = int, of 7 k] by simp
    then show "\<not> bit (0x80 :: int) k \<or> \<not> bit (take_bit 7 (int n)) k"
      by (simp add: bit_take_bit_iff)
  qed
  then have "0x80 OR (int n mod 128) = int (128 + n mod 128)"
    by (simp add: take_bit_eq_mod zmod_int)
  then show ?thesis by (simp only: of_int_of_nat_eq)
qed

lemma high_length_byte: "word_of_int (int n div 128) = (of_nat (n div 128) :: u8)"
proof -
  have "int n div 128 = int (n div 128)" by (simp add: zdiv_int)
  then show ?thesis by (simp only: of_int_of_nat_eq)
qed

lemma unat_u16_of_int: "n < 2 ^ 16 \<Longrightarrow> i = int n \<Longrightarrow> unat (word_of_int i :: u16) = n"
  by (simp add: unat_of_nat take_bit_nat_eq_self)

text \<open>\<open>fini_message\<close> produces the packet when the two length bytes it has are enough.\<close>

lemma fini_message_ok:
  assumes b: "building c body" and small: "length body < 16384"
  shows "\<exists>c'. fini_message c t d q r = Some c' \<and>
           packet_bytes c' = packet (header_byte t d q r) body \<and>
           conn_ok c' \<and> message_inside c' \<and> same_conn c c'"
proof -
  obtain x y z rest where buf: "buffer c = x # y # z # rest"
  proof -
    have "3 \<le> length (buffer c)" using b by (simp add: building_def)
    then show ?thesis using that
      by (auto simp: numeral_3_eq_3 Suc_le_length_iff)
  qed
  have bd: "take (length body) rest = body" and len: "length body \<le> length rest"
    and ok: "conn_ok c"
    using b by (simp_all add: building_def buf)
  have lt: "length (buffer c) < 2 ^ 16" by (rule conn_length [OF ok])
  have rl: "uint (msg_length (message c)) - 3 = int (length body)"
    by (simp add: building_msg_length [OF b])
  show ?thesis
  proof (cases "length body < 128")
    case True
    let ?h = "header_byte t d q r"
    have u: "unat (word_of_int (int (length body) + 2) :: u16) = length body + 2"
      by (rule unat_u16_of_int) (use True in simp_all)
    have "fini_message c t d q r =
        Some (c\<lparr>buffer := x # ?h # of_nat (length body) # rest,
                message := \<lparr>msg_data = Some 1, msg_length = word_of_int (int (length body) + 2)\<rparr>\<rparr>)"
      unfolding fini_message_def rl using True
      by (simp add: Let_def mem_simps buf numeral_2_eq_2)
    then show ?thesis
      using ok bd len
      by (simp add: conn_ok_def same_conn_def packet_bytes_def message_inside_def packet_def
          varint_short [OF True] u buf del: of_int_add)
  next
    case False
    let ?h = "header_byte t d q r"
    have u: "unat (word_of_int (int (length body) + 3) :: u16) = length body + 3"
      by (rule unat_u16_of_int) (use len lt in \<open>simp_all add: buf\<close>)
    have "fini_message c t d q r =
        Some (c\<lparr>buffer := ?h # of_nat (128 + length body mod 128) # of_nat (length body div 128) # rest,
                message := \<lparr>msg_data = Some 0, msg_length = word_of_int (int (length body) + 3)\<rparr>\<rparr>)"
      unfolding fini_message_def rl using False
      by (simp add: continuation_byte high_length_byte Let_def mem_simps buf numeral_2_eq_2 del: of_nat_add of_int_add)
    then show ?thesis
      using ok bd len False small
      by (simp add: conn_ok_def same_conn_def packet_bytes_def message_inside_def packet_def
          varint_two u buf numeral_3_eq_3 del: of_nat_add of_int_add)
  qed
qed

section \<open>The builders\<close>

text \<open>What a failed builder leaves: length 0, and nothing else of the connection broken.\<close>

definition failed :: "mqtt_connection \<Rightarrow> bool" where
  "failed c \<longleftrightarrow> conn_ok c \<and> message_inside c \<and> msg_length (message c) = 0"

lemma failed_fail_message: "conn_ok c \<Longrightarrow> failed (fail_message c)"
  by (auto simp: failed_def conn_ok_def message_inside_def fail_message_def)

text \<open>The rules of the builder proofs, for a builder that starts from the empty body.\<close>

lemma building_start:
  "conn_ok c \<Longrightarrow> building (snd (init_message c)) [] \<and> same_conn c (snd (init_message c))"
  by (simp add: building_init same_conn_init)

lemma length_mqtt_string [simp]: "length (mqtt_string s) = 2 + length s"
  by (simp add: mqtt_string_def be16_def)

lemma length_be16 [simp]: "length (be16 n) = 2"
  by (simp add: be16_def)

lemma with_id_init [simp]:
  "used_id mid (snd (init_message c)) = used_id mid c"
  by (simp add: used_id_def init_message_def)

text \<open>The packets that carry only an identifier.\<close>

lemma ack_packet:
  assumes ok: "conn_ok c"
  shows "\<exists>c'. (do { (r, c) \<leftarrow> append_message_id (snd (init_message c)) mid;
                    if r = 0 then Some (fail_message c) else fini_message c t 0 q 0 }) = Some c' \<and>
           (if 5 \<le> length (buffer c)
            then conn_ok c' \<and> message_inside c' \<and>
                 packet_bytes c' = packet (header_byte t 0 q 0) (be16 (unat (used_id mid c)))
            else failed c') \<and>
           buffer_length c' = buffer_length c"
proof -
  let ?c0 = "snd (init_message c)"
  have b0: "building ?c0 []" and s0: "same_conn c ?c0" using building_start [OF ok] by auto
  have len: "length (buffer ?c0) = length (buffer c)" using s0 by (simp add: same_conn_def)
  show ?thesis
  proof (cases "5 \<le> length (buffer c)")
    case True
    then obtain c1 where c1: "append_message_id ?c0 mid = Some (used_id mid c, c1)"
      "building c1 (be16 (unat (used_id mid c)))" "same_conn (with_id mid ?c0) c1"
      using append_message_id_fits [OF b0, of mid] len by auto
    obtain c2 where "fini_message c1 t 0 q 0 = Some c2"
      "packet_bytes c2 = packet (header_byte t 0 q 0) (be16 (unat (used_id mid c)))"
      "conn_ok c2" "message_inside c2" "same_conn c1 c2"
      using fini_message_ok [OF c1(2), of t 0 q 0] by auto
    with True c1 s0 show ?thesis
      by (auto simp: used_id_not_0 same_conn_def with_id_def)
  next
    case False
    then have "append_message_id ?c0 mid = Some (0, with_id mid ?c0)"
      using append_message_id_fails [OF b0, of mid] len by simp
    moreover have "failed (fail_message (with_id mid ?c0))"
      by (rule failed_fail_message) (rule building_conn [OF building_with_id [OF b0]])
    ultimately show ?thesis using False s0
      by (simp add: same_conn_def with_id_def fail_message_def)
  qed
qed

lemma empty_packet:
  assumes ok: "conn_ok c"
  shows "\<exists>c'. fini_message (snd (init_message c)) t 0 0 0 = Some c' \<and> conn_ok c' \<and>
           message_inside c' \<and> packet_bytes c' = [header_byte t 0 0 0, 0] \<and> same_conn c c'"
proof -
  from building_start [OF ok] have b0: "building (snd (init_message c)) []"
    and s0: "same_conn c (snd (init_message c))" by auto
  from fini_message_ok [OF b0, of t 0 0 0] obtain c' where
    "fini_message (snd (init_message c)) t 0 0 0 = Some c'"
    "packet_bytes c' = packet (header_byte t 0 0 0) []" "conn_ok c'" "message_inside c'"
    "same_conn (snd (init_message c)) c'" by auto
  with same_conn_trans [OF s0, of c'] show ?thesis by (simp add: packet_def varint_short)
qed

text \<open>
  The outcome of a builder: the packet when it fits into the buffer, failure otherwise.
  Beyond 16386 bytes of buffer the two length bytes of \<open>fini_message\<close> would not be enough.
\<close>

definition built :: "mqtt_connection \<Rightarrow> u8 list \<Rightarrow> u8 \<Rightarrow> mqtt_connection \<Rightarrow> bool" where
  "built c body hdr c' \<longleftrightarrow>
     buffer_length c' = buffer_length c \<and> conn_ok c' \<and> message_inside c' \<and>
     (if 3 + length body \<le> length (buffer c) then packet_bytes c' = packet hdr body
      else msg_length (message c') = 0)"

definition small_conn :: "mqtt_connection \<Rightarrow> bool" where
  "small_conn c \<longleftrightarrow> conn_ok c \<and> length (buffer c) \<le> 16386"

lemma built_failed:
  assumes "building c1 x" and "buffer_length c1 = buffer_length c"
    and "length (buffer c) < 3 + length body"
  shows "built c body hdr (fail_message c1)"
  using failed_fail_message [OF building_conn [OF assms(1)]] assms(2,3)
  by (simp add: built_def failed_def fail_message_def)

lemma built_fini:
  assumes b: "building c1 body" and c: "small_conn c" and bl: "buffer_length c1 = buffer_length c"
  shows "\<exists>c'. fini_message c1 t d q r = Some c' \<and> built c body (header_byte t d q r) c' \<and>
           same_conn c1 c'"
proof -
  have len: "length (buffer c1) = length (buffer c)"
    using b c bl by (simp add: building_def conn_ok_def small_conn_def)
  then have "length body < 16384" and "3 + length body \<le> length (buffer c)"
    using b c by (simp_all add: building_def small_conn_def)
  with fini_message_ok [OF b, of t d q r] bl show ?thesis
    by (auto simp: built_def same_conn_def)
qed

text \<open>A topic and, above QoS 0, a fresh identifier: the first part of PUBLISH.\<close>

lemma topic_id_step:
  fixes topic :: cstring and qos :: int
  assumes ok: "conn_ok c"
  defines "pre \<equiv> mqtt_string topic @ (if qos > 0 then be16 (unat (used_id 0 c)) else [])"
  shows "if 3 + length pre \<le> length (buffer c)
         then \<exists>c1 m c2. append_string (snd (init_message c)) topic (int (length topic)) =
                  Some (int (length topic) + 2, c1) \<and>
                (if qos > 0 then append_message_id c1 0 else Some (0, c1)) = Some (m, c2) \<and>
                (qos > 0 \<longrightarrow> m \<noteq> 0) \<and> building c2 pre \<and> buffer_length c2 = buffer_length c \<and>
                length (buffer c2) = length (buffer c) \<and>
                message_id c2 = (if qos > 0 then used_id 0 c else message_id c)
         else \<exists>c1 x. building c1 x \<and> buffer_length c1 = buffer_length c \<and>
                (append_string (snd (init_message c)) topic (int (length topic)) = Some (-1, c1) \<or>
                 (\<exists>c2. qos > 0 \<and> append_string (snd (init_message c)) topic (int (length topic)) =
                    Some (int (length topic) + 2, c2) \<and> append_message_id c2 0 = Some (0, c1)))"
proof -
  let ?c0 = "snd (init_message c)" and ?n = "length (buffer c)"
  have b0: "building ?c0 []" and s0: "same_conn c ?c0" using building_start [OF ok] by auto
  show ?thesis
  proof (cases "3 + (2 + length topic) \<le> ?n")
    case False
    with append_string_fails [OF b0, of topic] s0 b0 show ?thesis
      by (auto simp: pre_def same_conn_def)
  next
    case True
    then obtain c1 where c1: "append_string ?c0 topic (int (length topic)) = Some (int (length topic) + 2, c1)"
      "building c1 (mqtt_string topic)" "same_conn c c1"
      using append_string_fits [OF b0, of topic] s0 by (auto simp: same_conn_def)
    then have u1: "used_id 0 c1 = used_id 0 c" "length (buffer c1) = ?n"
      by (auto simp: same_conn_def used_id_def)
    show ?thesis
    proof (cases "qos > 0 \<and> ?n < 3 + length pre")
      case True
      with append_message_id_fails [OF c1(2), of 0] c1 u1 building_with_id [OF c1(2), of 0] show ?thesis
        by (auto simp: pre_def same_conn_def with_id_def)
    next
      case False
      with append_message_id_fits [OF c1(2), of 0] c1 u1 True show ?thesis
        by (auto simp: pre_def used_id_not_0 same_conn_def with_id_def) (simp_all add: used_id_def)
    qed
  qed
qed

lemma mqtt_msg_publish_built:
  assumes c: "small_conn c" and topic: "topic \<noteq> []"
  defines "body \<equiv> \<lambda>qos data. publish_body topic (nat qos) (used_id 0 c) data"
  shows "\<exists>c' mid'. mqtt_msg_publish c (Some topic) data (int (length data)) qos retain mid = Some (c', mid') \<and>
           built c (body qos data) (header_byte (msg_type PUBLISH) 0 qos retain) c' \<and>
           (3 + length (body qos data) \<le> length (buffer c) \<longrightarrow>
             message_id c' = (if qos > 0 then used_id 0 c else message_id c))"
proof -
  let ?n = "length (buffer c)" and ?h = "header_byte (msg_type PUBLISH) 0 qos retain"
  have ok: "conn_ok c" using c by (simp add: small_conn_def)
  define pre where "pre = mqtt_string topic @ (if qos > 0 then be16 (unat (used_id 0 c)) else [])"
  have bd: "body qos data = pre @ data" by (simp add: pre_def body_def publish_body_def)
  note step = topic_id_step [OF ok, of topic qos, folded pre_def]
  show ?thesis
  proof (cases "3 + length pre \<le> ?n")
    case False
    with step topic built_failed [of _ _ c "body qos data" ?h] show ?thesis
      by (auto simp: mqtt_msg_publish_def present_def str_of_def bd)
  next
    case True
    with step obtain c1 m c2 where
      c1: "append_string (snd (init_message c)) topic (int (length topic)) = Some (int (length topic) + 2, c1)" and
      c2: "(if qos > 0 then append_message_id c1 0 else Some (0, c1)) = Some (m, c2)" "qos > 0 \<longrightarrow> m \<noteq> 0"
      "building c2 pre" "buffer_length c2 = buffer_length c" "length (buffer c2) = ?n"
      "message_id c2 = (if qos > 0 then used_id 0 c else message_id c)"
      by auto
    show ?thesis
    proof (cases "?n < 3 + length pre + length data")
      case True
      with c1 c2 topic built_failed [OF c2(3,4), of "body qos data" ?h] show ?thesis
        by (auto simp: mqtt_msg_publish_def present_def str_of_def bd
            conn_buffer_length [OF ok] building_msg_length [OF c2(3)] split del: if_split)
    next
      case False
      then obtain c3 where c3: "push_block c2 data (int (length data)) = Some c3"
        "building c3 (body qos data)" "same_conn c2 c3"
        using push_block_building [OF c2(3), of data "int (length data)"] c2(5) by (auto simp: bd)
      obtain c4 where "fini_message c3 (msg_type PUBLISH) 0 qos retain = Some c4"
        "built c (body qos data) ?h c4" "same_conn c3 c4"
        using built_fini [OF c3(2) c, of "msg_type PUBLISH" 0 qos retain] c3(3) c2(4)
        by (auto simp: same_conn_def)
      with False c1 c2 c3(1,3) topic show ?thesis
        by (auto simp: mqtt_msg_publish_def present_def str_of_def same_conn_def
            conn_buffer_length [OF ok] building_msg_length [OF c2(3)] split del: if_split)
    qed
  qed
qed

text \<open>An identifier, a topic and a tail: the common part of SUBSCRIBE and UNSUBSCRIBE.\<close>

lemma id_topic_step:
  fixes topic :: cstring
  assumes ok: "conn_ok c"
  defines "pre \<equiv> be16 (unat (used_id 0 c)) @ mqtt_string topic"
  shows "if 3 + length pre \<le> length (buffer c)
         then \<exists>c1 c2. append_message_id (snd (init_message c)) 0 = Some (used_id 0 c, c1) \<and>
                append_string c1 topic (int (length topic)) = Some (int (length topic) + 2, c2) \<and>
                building c2 pre \<and> buffer_length c2 = buffer_length c \<and>
                length (buffer c2) = length (buffer c)
         else \<exists>c1. building c1 (if 5 \<le> length (buffer c) then be16 (unat (used_id 0 c)) else []) \<and>
                buffer_length c1 = buffer_length c \<and>
                (append_message_id (snd (init_message c)) 0 = Some (0, c1) \<or>
                 append_message_id (snd (init_message c)) 0 = Some (used_id 0 c, c1) \<and>
                 append_string c1 topic (int (length topic)) = Some (-1, c1))"
proof -
  let ?c0 = "snd (init_message c)" and ?n = "length (buffer c)"
  have b0: "building ?c0 []" and s0: "same_conn c ?c0" using building_start [OF ok] by auto
  show ?thesis
  proof (cases "5 \<le> ?n")
    case True
    then obtain c1 where c1: "append_message_id ?c0 0 = Some (used_id 0 c, c1)"
      "building c1 (be16 (unat (used_id 0 c)))" "same_conn (with_id 0 ?c0) c1"
      using append_message_id_fits [OF b0, of 0] s0 by (auto simp: same_conn_def)
    have bl: "buffer_length c1 = buffer_length c" "length (buffer c1) = ?n"
      using c1(3) s0 by (simp_all add: same_conn_def with_id_def)
    show ?thesis
    proof (cases "3 + length pre \<le> ?n")
      case True
      with append_string_fits [OF c1(2), of topic] bl c1(1) show ?thesis
        by (auto simp: pre_def same_conn_def)
    next
      case False
      with append_string_fails [OF c1(2), of topic] bl c1(1,2) \<open>5 \<le> ?n\<close> show ?thesis
        by (auto simp: pre_def)
    qed
  next
    case False
    with append_message_id_fails [OF b0, of 0] s0 building_with_id [OF b0, of 0] show ?thesis
      by (auto simp: pre_def same_conn_def with_id_def)
  qed
qed

definition subscribe_body :: "u16 \<Rightarrow> cstring \<Rightarrow> u8 list" where
  "subscribe_body mid topic = be16 (unat mid) @ mqtt_string topic"

lemma mqtt_msg_subscribe_built:
  assumes c: "small_conn c" and topic: "topic \<noteq> []"
  shows "\<exists>c' mid'. mqtt_msg_subscribe c (Some topic) qos mid = Some (c', mid') \<and>
           built c (subscribe_body (used_id 0 c) topic @ [word_of_int qos])
             (header_byte (msg_type SUBSCRIBE) 0 1 0) c'"
proof -
  have ok: "conn_ok c" using c by (simp add: small_conn_def)
  let ?pre = "subscribe_body (used_id 0 c) topic" and ?n = "length (buffer c)"
  note step = id_topic_step [OF ok, of topic, folded subscribe_body_def]
  show ?thesis
  proof (cases "3 + length ?pre \<le> ?n")
    case True
    with step obtain c1 c2 where
      c1: "append_message_id (snd (init_message c)) 0 = Some (used_id 0 c, c1)" and
      c2: "append_string c1 topic (int (length topic)) = Some (int (length topic) + 2, c2)"
      "building c2 ?pre" "buffer_length c2 = buffer_length c" "length (buffer c2) = ?n"
      by auto
    show ?thesis
    proof (cases "3 + length ?pre < ?n")
      case False
      with c1 c2 topic built_failed [OF c2(2,3), of "?pre @ [word_of_int qos]"] show ?thesis
        by (auto simp: mqtt_msg_subscribe_def present_def str_of_def used_id_not_0
            conn_buffer_length [OF ok] building_msg_length [OF c2(2)])
    next
      case True
      with push_byte_building [OF c2(2), of "word_of_int qos"] c2(4) obtain c3 where
        c3: "push_byte c2 (word_of_int qos) = Some c3" "building c3 (?pre @ [word_of_int qos])"
        "same_conn c2 c3" by auto
      obtain c4 where "fini_message c3 (msg_type SUBSCRIBE) 0 1 0 = Some c4"
        "built c (?pre @ [word_of_int qos]) (header_byte (msg_type SUBSCRIBE) 0 1 0) c4"
        using built_fini [OF c3(2) c, of "msg_type SUBSCRIBE" 0 1 0] c3(3) c2(3)
        by (auto simp: same_conn_def)
      with True c1 c2 c3(1) topic show ?thesis
        by (auto simp: mqtt_msg_subscribe_def present_def str_of_def used_id_not_0
            conn_buffer_length [OF ok] building_msg_length [OF c2(2)])
    qed
  next
    case False
    with step topic built_failed [of _ _ c "?pre @ [word_of_int qos]"] show ?thesis
      by (auto simp: mqtt_msg_subscribe_def present_def str_of_def used_id_not_0)
  qed
qed

lemma mqtt_msg_unsubscribe_built:
  assumes c: "small_conn c" and topic: "topic \<noteq> []"
  shows "\<exists>c' mid'. mqtt_msg_unsubscribe c (Some topic) mid = Some (c', mid') \<and>
           built c (subscribe_body (used_id 0 c) topic) (header_byte (msg_type UNSUBSCRIBE) 0 1 0) c'"
proof -
  have ok: "conn_ok c" using c by (simp add: small_conn_def)
  let ?pre = "subscribe_body (used_id 0 c) topic" and ?n = "length (buffer c)"
  note step = id_topic_step [OF ok, of topic, folded subscribe_body_def]
  show ?thesis
  proof (cases "3 + length ?pre \<le> ?n")
    case True
    with step obtain c1 c2 where
      c1: "append_message_id (snd (init_message c)) 0 = Some (used_id 0 c, c1)" and
      c2: "append_string c1 topic (int (length topic)) = Some (int (length topic) + 2, c2)"
      "building c2 ?pre" "buffer_length c2 = buffer_length c"
      by auto
    obtain c4 where "fini_message c2 (msg_type UNSUBSCRIBE) 0 1 0 = Some c4"
      "built c ?pre (header_byte (msg_type UNSUBSCRIBE) 0 1 0) c4"
      using built_fini [OF c2(2) c, of "msg_type UNSUBSCRIBE" 0 1 0] c2(3) by auto
    with c1 c2 topic show ?thesis
      by (auto simp: mqtt_msg_unsubscribe_def present_def str_of_def used_id_not_0)
  next
    case False
    with step topic built_failed [of _ _ c ?pre] show ?thesis
      by (auto simp: mqtt_msg_unsubscribe_def present_def str_of_def used_id_not_0)
  qed
qed

subsection \<open>CONNECT\<close>

definition connect_start :: "mqtt_connect_info \<Rightarrow> u8 \<Rightarrow> u8 list" where
  "connect_start info flags =
     [0, 6, 0x4D, 0x51, 0x49, 0x73, 0x64, 0x70, 3, flags,
      word_of_int (drop_bit 8 (keepalive info)), word_of_int (keepalive info AND 0xff)]"

definition optional :: "cstring option \<Rightarrow> u8 list" where
  "optional s = (if present s then mqtt_string (str_of s) else [])"

definition will_part :: "mqtt_connect_info \<Rightarrow> u8 list" where
  "will_part info =
     (if present (will_topic info)
      then mqtt_string (str_of (will_topic info)) @ mqtt_string (str_of (will_message info)) else [])"

definition will_flags :: "mqtt_connect_info \<Rightarrow> u8" where
  "will_flags info =
     (if present (will_topic info)
      then 4 OR (if will_retain info \<noteq> 0 then 32 else 0) OR word_of_int (push_bit 3 (will_qos info AND 3))
      else 0)"

lemma length_connect_start [simp]: "length (connect_start info f) = 12"
  by (simp add: connect_start_def)

lemma connect_body_parts:
  "connect_body info =
     connect_start info (connect_flags info) @ mqtt_string (str_of (client_id info))
     @ will_part info @ optional (username info) @ optional (password info)"
  by (simp add: connect_body_def connect_start_def optional_def will_part_def mqtt_string_def be16_def)

lemma set_flags_building:
  assumes b: "building c (connect_start info f @ rest)"
  shows "\<exists>c'. set_flags c g = Some c' \<and> building c' (connect_start info (f OR g) @ rest) \<and>
           same_conn c c'"
proof -
  have len: "15 + length rest \<le> length (buffer c)"
    and tk: "take (12 + length rest) (drop 3 (buffer c)) = connect_start info f @ rest"
    using b by (simp_all add: building_def)
  have "buffer c ! 12 = take (12 + length rest) (drop 3 (buffer c)) ! 9"
    using len by simp
  then have nth: "buffer c ! 12 = f" by (simp add: tk connect_start_def)
  have "take (12 + length rest) (drop 3 ((buffer c)[12 := f OR g])) =
      (take (12 + length rest) (drop 3 (buffer c)))[9 := f OR g]"
    by (simp add: drop_update_swap take_update_swap)
  also have "\<dots> = connect_start info (f OR g) @ rest"
    by (simp add: tk connect_start_def)
  finally show ?thesis
    using b len
    by (auto simp: set_flags_def mem_simps nth building_def conn_ok_def same_conn_def)
qed

lemma credential_step:
  assumes b: "building c (connect_start info f @ rest)"
  shows "\<exists>ok c'. connect_credential c cred flag = Some (ok, c') \<and> same_conn c c' \<and>
           (if ok then building c' (connect_start info (f OR (if present cred then flag else 0))
                                     @ rest @ optional cred)
            else building c' (connect_start info f @ rest) \<and>
                 length (buffer c) < 15 + length rest + length (optional cred))"
proof (cases "present cred")
  case False
  with b show ?thesis by (intro exI [of _ True]) (simp add: connect_credential_def optional_def)
next
  case True
  show ?thesis
  proof (cases "15 + length rest + (2 + length (str_of cred)) \<le> length (buffer c)")
    case True
    with append_string_fits [OF b, of "str_of cred"] obtain c1 where
      c1: "append_string c (str_of cred) (int (length (str_of cred))) =
            Some (int (length (str_of cred)) + 2, c1)"
      "building c1 (connect_start info f @ rest @ mqtt_string (str_of cred))" "same_conn c c1"
      by auto
    from set_flags_building [OF c1(2), of flag] obtain c2 where
      "set_flags c1 flag = Some c2" "same_conn c1 c2"
      "building c2 (connect_start info (f OR flag) @ rest @ mqtt_string (str_of cred))" by auto
    with c1 \<open>present cred\<close> show ?thesis
      by (auto simp: connect_credential_def optional_def dest: same_conn_trans)
  next
    case False
    with append_string_fails [OF b, of "str_of cred"] b \<open>present cred\<close> show ?thesis
      by (intro exI [of _ False]) (simp add: connect_credential_def optional_def)
  qed
qed

lemma will_flags_step:
  assumes b: "building c (connect_start info f @ rest)" and w: "present (will_topic info)"
  shows "\<exists>c'. (do { c \<leftarrow> set_flags c 4;
                     c \<leftarrow> (if will_retain info \<noteq> 0 then set_flags c 32 else Some c);
                     c \<leftarrow> set_flags c (word_of_int (push_bit 3 (will_qos info AND 3)));
                     Some (True, c) }) = Some (True, c') \<and>
           building c' (connect_start info (f OR will_flags info) @ rest) \<and> same_conn c c'"
proof -
  from set_flags_building [OF b, of 4] obtain c1 where c1: "set_flags c 4 = Some c1"
    "building c1 (connect_start info (f OR 4) @ rest)" "same_conn c c1" by auto
  have "\<exists>c2. (if will_retain info \<noteq> 0 then set_flags c1 32 else Some c1) = Some c2 \<and> same_conn c1 c2 \<and>
      building c2 (connect_start info (f OR 4 OR (if will_retain info \<noteq> 0 then 32 else 0)) @ rest)"
    using set_flags_building [OF c1(2), of 32] c1(2) by (auto simp: or.assoc)
  then obtain c2 where c2: "(if will_retain info \<noteq> 0 then set_flags c1 32 else Some c1) = Some c2"
    "same_conn c1 c2"
    "building c2 (connect_start info (f OR 4 OR (if will_retain info \<noteq> 0 then 32 else 0)) @ rest)"
    by blast
  from set_flags_building [OF c2(3), of "word_of_int (push_bit 3 (will_qos info AND 3))"] obtain c3
    where "set_flags c2 (word_of_int (push_bit 3 (will_qos info AND 3))) = Some c3" "same_conn c2 c3"
    "building c3 (connect_start info (f OR will_flags info) @ rest)"
    using w by (auto simp: will_flags_def or.assoc)
  with c1 c2 show ?thesis by (auto dest: same_conn_trans)
qed

lemma will_step:
  assumes b: "building c (connect_start info f @ rest)"
    and msg: "present (will_topic info) \<Longrightarrow> will_message info \<noteq> None"
  shows "\<exists>ok c' x. connect_will c info = Some (ok, c') \<and> same_conn c c' \<and>
           (if ok then building c' (connect_start info (f OR will_flags info) @ rest @ will_part info)
            else building c' x \<and> length (buffer c) < 15 + length rest + length (will_part info))"
proof (cases "present (will_topic info)")
  case False
  with b show ?thesis
    by (intro exI [of _ True]) (simp add: connect_will_def will_part_def will_flags_def)
next
  case True
  let ?t = "str_of (will_topic info)"
  obtain m where m: "will_message info = Some m" using msg [OF True] by auto
  then have str_m: "str_of (will_message info) = m" by (simp add: str_of_def)
  show ?thesis
  proof (cases "15 + length rest + (2 + length ?t) \<le> length (buffer c)")
    case False
    with append_string_fails [OF b, of ?t] b True show ?thesis
      by (intro exI [of _ False]) (auto simp: connect_will_def will_part_def)
  next
    case topic_fits: True
    with append_string_fits [OF b, of ?t] obtain c1 where
      c1: "append_string c ?t (int (length ?t)) = Some (int (length ?t) + 2, c1)"
      "building c1 (connect_start info f @ rest @ mqtt_string ?t)" "same_conn c c1"
      by auto
    have l1: "length (buffer c1) = length (buffer c)" using c1(3) by (simp add: same_conn_def)
    show ?thesis
    proof (cases "15 + length rest + length (will_part info) \<le> length (buffer c)")
      case False
      then have "length (buffer c1) < 3 + length (connect_start info f @ rest @ mqtt_string ?t) + (2 + length m)"
        using True by (simp add: l1 will_part_def str_m)
      from append_string_fails [OF c1(2) this] c1 True False m show ?thesis
        by (intro exI [of _ False]) (auto simp: connect_will_def)
    next
      case all_fits: True
      then have "3 + length (connect_start info f @ rest @ mqtt_string ?t) + (2 + length m) \<le> length (buffer c1)"
        using True by (simp add: l1 will_part_def str_m)
      from append_string_fits [OF c1(2) this] True obtain c2 where
        c2: "append_string c1 m (int (length m)) = Some (int (length m) + 2, c2)"
        "building c2 (connect_start info f @ rest @ will_part info)" "same_conn c1 c2"
        by (auto simp: will_part_def str_m)
      from will_flags_step [OF c2(2) True] obtain c3 where
        "do { c \<leftarrow> set_flags c2 4;
              c \<leftarrow> (if will_retain info \<noteq> 0 then set_flags c 32 else Some c);
              c \<leftarrow> set_flags c (word_of_int (push_bit 3 (will_qos info AND 3)));
              Some (True, c) } = Some (True, c3)"
        "building c3 (connect_start info (f OR will_flags info) @ rest @ will_part info)"
        "same_conn c2 c3" by auto
      with c1 c2 True m show ?thesis
        by (intro exI [of _ True] exI [of _ c3]) (auto simp: connect_will_def dest: same_conn_trans)
    qed
  qed
qed

lemma connect_header_step:
  assumes ok: "conn_ok c" and room: "15 \<le> length (buffer c)"
  shows "\<exists>c'. connect_header (snd (init_message c)) info = Some c' \<and> same_conn c c' \<and>
           building c' (connect_start info 0)"
proof -
  let ?xs = "[0, 6, 0x4D, 0x51, 0x49, 0x73, 0x64, 0x70, 3, 0,
              word_of_int (drop_bit 8 (keepalive info)), word_of_int (keepalive info AND 0xff)] :: u8 list"
  have "push_block (snd (init_message c)) ?xs 12 = connect_header (snd (init_message c)) info"
    by (simp add: push_block_def connect_header_def rd_block_def)
  moreover have "\<exists>c'. push_block (snd (init_message c)) ?xs 12 = Some c' \<and> building c' ([] @ ?xs) \<and>
      same_conn (snd (init_message c)) c'"
    using building_start [OF ok] room
    by (intro push_block_building) (simp_all add: same_conn_def)
  ultimately show ?thesis
    using building_start [OF ok] by (auto simp: connect_start_def dest: same_conn_trans)
qed

text \<open>The parts of \<open>mqtt_msg_connect\<close> after the client identifier, and after the will.\<close>

definition connect_credentials :: "mqtt_connection \<Rightarrow> mqtt_connect_info \<Rightarrow> mqtt_connection option" where
  "connect_credentials c info =
     do {
       (ok, c) \<leftarrow> connect_credential c (username info) 128;
       if \<not> ok then Some (fail_message c)
       else do {
         (ok, c) \<leftarrow> connect_credential c (password info) 64;
         if \<not> ok then Some (fail_message c)
         else fini_message c (msg_type CONNECT) 0 0 0
       }
     }"

definition connect_rest :: "mqtt_connection \<Rightarrow> mqtt_connect_info \<Rightarrow> mqtt_connection option" where
  "connect_rest c info =
     do {
       (ok, c) \<leftarrow> connect_will c info;
       if \<not> ok then Some (fail_message c) else connect_credentials c info
     }"

definition user_flag :: "mqtt_connect_info \<Rightarrow> u8" where
  "user_flag info = (if present (username info) then 128 else 0)"

definition password_flag :: "mqtt_connect_info \<Rightarrow> u8" where
  "password_flag info = (if present (password info) then 64 else 0)"

lemma connect_credentials_built:
  assumes b: "building c1 (connect_start info f @ rest)" and c: "small_conn c" and s1: "same_conn c c1"
    and body: "body = connect_start info (f OR user_flag info OR password_flag info)
      @ rest @ optional (username info) @ optional (password info)"
  shows "\<exists>c'. connect_credentials c1 info = Some c' \<and> built c body (header_byte (msg_type CONNECT) 0 0 0) c'"
proof -
  from credential_step [OF b, of "username info" 128, folded user_flag_def] obtain ok2 c2 where
    u: "connect_credential c1 (username info) 128 = Some (ok2, c2)" "same_conn c1 c2"
    "if ok2 then building c2 (connect_start info (f OR user_flag info) @ rest @ optional (username info))
     else building c2 (connect_start info f @ rest) \<and>
       length (buffer c1) < 15 + length rest + length (optional (username info))"
    by blast
  have s2: "same_conn c c2" by (rule same_conn_trans [OF s1 u(2)])
  show ?thesis
  proof (cases ok2)
    case False
    with u s1 s2 built_failed [of c2 _ c body] show ?thesis
      by (auto simp: connect_credentials_def same_conn_def body)
  next
    case ok2: True
    with u(3) have b2: "building c2 (connect_start info (f OR user_flag info) @ (rest @ optional (username info)))"
      by simp
    from credential_step [OF b2, of "password info" 64, folded password_flag_def] obtain ok3 c3 where
      p: "connect_credential c2 (password info) 64 = Some (ok3, c3)" "same_conn c2 c3"
      "if ok3 then building c3 (connect_start info ((f OR user_flag info) OR password_flag info)
         @ (rest @ optional (username info)) @ optional (password info))
       else building c3 (connect_start info (f OR user_flag info) @ (rest @ optional (username info))) \<and>
         length (buffer c2) < 15 + length (rest @ optional (username info)) + length (optional (password info))"
      by blast
    have s3: "same_conn c c3" by (rule same_conn_trans [OF s2 p(2)])
    show ?thesis
    proof (cases ok3)
      case False
      with u(1) ok2 p s2 s3 built_failed [of c3 _ c body] show ?thesis
        by (auto simp: connect_credentials_def same_conn_def body)
    next
      case ok3: True
      with p(3) have "building c3 body" by (simp add: body or.assoc)
      from built_fini [OF this c, of "msg_type CONNECT" 0 0 0] s3 u(1) p(1) ok2 ok3 show ?thesis
        by (auto simp: connect_credentials_def same_conn_def)
    qed
  qed
qed

lemma connect_rest_built:
  assumes b: "building c1 (connect_start info f @ rest)" and c: "small_conn c"
    and s1: "same_conn c c1"
    and msg: "present (will_topic info) \<Longrightarrow> will_message info \<noteq> None"
    and body: "body = connect_start info (f OR will_flags info OR user_flag info OR password_flag info)
      @ rest @ will_part info @ optional (username info) @ optional (password info)"
  shows "\<exists>c'. connect_rest c1 info = Some c' \<and> built c body (header_byte (msg_type CONNECT) 0 0 0) c'"
proof -
  from will_step [OF b msg] obtain ok2 c2 x where w: "connect_will c1 info = Some (ok2, c2)"
    "same_conn c1 c2"
    "if ok2 then building c2 (connect_start info (f OR will_flags info) @ rest @ will_part info)
     else building c2 x \<and> length (buffer c1) < 15 + length rest + length (will_part info)"
    by blast
  have s2: "same_conn c c2" by (rule same_conn_trans [OF s1 w(2)])
  show ?thesis
  proof (cases ok2)
    case False
    with w s1 s2 built_failed [of c2 x c body] show ?thesis
      by (simp add: connect_rest_def same_conn_def body)
  next
    case True
    with w(3) have b2: "building c2 (connect_start info (f OR will_flags info) @ (rest @ will_part info))"
      by simp
    from connect_credentials_built [OF b2 c s2, of body] w(1) True show ?thesis
      by (simp add: connect_rest_def body or.assoc)
  qed
qed

lemma mqtt_msg_connect_built:
  assumes c: "small_conn c" and cid: "present (client_id info)"
    and msg: "present (will_topic info) \<Longrightarrow> will_message info \<noteq> None"
  shows "\<exists>c'. mqtt_msg_connect c info = Some c' \<and>
           built c (connect_body info) (header_byte (msg_type CONNECT) 0 0 0) c'"
proof -
  let ?n = "length (buffer c)" and ?c0 = "snd (init_message c)" and ?s = "str_of (client_id info)"
  define clean where "clean = (if clean_session info \<noteq> 0 then 2 else 0 :: u8)"
  have ok: "conn_ok c" using c by (simp add: small_conn_def)
  have i0: "uint (msg_length (message ?c0)) + 12 > uint (buffer_length ?c0) \<longleftrightarrow> ?n < 15"
    using conn_buffer_length [OF ok] by (simp add: init_message_def)
  have body: "connect_body info = connect_start info (clean OR will_flags info OR user_flag info
      OR password_flag info) @ mqtt_string ?s @ will_part info @ optional (username info)
      @ optional (password info)"
    by (simp add: connect_body_parts connect_flags_def clean_def will_flags_def user_flag_def
        password_flag_def)
  show ?thesis
  proof (cases "?n < 15")
    case True
    with i0 building_start [OF ok] body built_failed [of ?c0 "[]" c "connect_body info"] show ?thesis
      by (simp add: mqtt_msg_connect_def same_conn_def)
  next
    case False
    then obtain c1 where c1: "connect_header ?c0 info = Some c1" "same_conn c c1"
      "building c1 (connect_start info 0 @ [])"
      using connect_header_step [OF ok, of info] by auto
    obtain c2 where c2: "(if clean_session info \<noteq> 0 then set_flags c1 2 else Some c1) = Some c2"
      "same_conn c1 c2" "building c2 (connect_start info clean)"
      using set_flags_building [OF c1(3), of 2] c1(3)
      by (cases "clean_session info = 0") (auto simp: clean_def)
    have s2: "same_conn c c2" by (rule same_conn_trans [OF c1(2) c2(2)])
    note head = c1(1) c2(1) i0 False cid
    show ?thesis
    proof (cases "17 + length ?s \<le> ?n")
      case False
      with append_string_fails [OF c2(3), of ?s] s2 body head
        built_failed [OF c2(3), of c "connect_body info"]
      show ?thesis by (simp add: mqtt_msg_connect_def same_conn_def)
    next
      case True
      with append_string_fits [OF c2(3), of ?s] s2 obtain c3 where
        c3: "append_string c2 ?s (int (length ?s)) = Some (int (length ?s) + 2, c3)"
        "building c3 (connect_start info clean @ mqtt_string ?s)" "same_conn c2 c3"
        by (auto simp: same_conn_def)
      with head have "mqtt_msg_connect c info = connect_rest c3 info"
        by (simp add: mqtt_msg_connect_def connect_rest_def connect_credentials_def cong: if_cong)
      with connect_rest_built [OF c3(2) c same_conn_trans [OF s2 c3(3)] msg body] show ?thesis
        by simp
    qed
  qed
qed

text \<open>Without a client identifier the packet is refused.\<close>

lemma mqtt_msg_connect_no_id:
  assumes ok: "conn_ok c" and cid: "\<not> present (client_id info)"
  shows "\<exists>c'. mqtt_msg_connect c info = Some c' \<and> failed c' \<and> buffer_length c' = buffer_length c"
proof -
  let ?c0 = "snd (init_message c)"
  have i0: "uint (msg_length (message ?c0)) + 12 > uint (buffer_length ?c0) \<longleftrightarrow> length (buffer c) < 15"
    using conn_buffer_length [OF ok] by (simp add: init_message_def)
  have fl: "buffer_length (fail_message x) = buffer_length x" for x by (simp add: fail_message_def)
  show ?thesis
  proof (cases "length (buffer c) < 15")
    case True
    with i0 building_start [OF ok] failed_fail_message [of ?c0] show ?thesis
      by (simp add: mqtt_msg_connect_def building_def same_conn_def fl)
  next
    case False
    then obtain c1 where c1: "connect_header ?c0 info = Some c1" "same_conn c c1"
      "building c1 (connect_start info 0 @ [])"
      using connect_header_step [OF ok, of info] by auto
    obtain c2 where "(if clean_session info \<noteq> 0 then set_flags c1 2 else Some c1) = Some c2"
      "same_conn c1 c2" "conn_ok c2"
      using set_flags_building [OF c1(3), of 2] c1(3)
      by (cases "clean_session info = 0") (auto simp: building_def)
    with c1 False i0 cid failed_fail_message [of c2] show ?thesis
      by (simp add: mqtt_msg_connect_def same_conn_def fl)
  qed
qed

end
