(* ===== verification/Mqtt_Decode.thy ===== *)
theory Mqtt_Decode
  imports Mqtt_Msg_Props
begin

text \<open>
  The decoders of \<open>mqtt_msg.c\<close> read back what the packet format of \<open>Mqtt_Msg_Props\<close>
  prescribes: the total length, topic and data of a PUBLISH, and the message identifier. The
  four decoders walk over the remaining-length bytes in the same way; one lemma per loop says
  what it finds.
\<close>

section \<open>Bytes\<close>

lemma byte_low7: "uint (b AND 0x7f) = uint b mod 128" for b :: u8
proof -
  have "b AND 0x7f = take_bit 7 b" by (simp add: take_bit_eq_mask mask_eq_exp_minus_1)
  then have "uint (b AND 0x7f) = take_bit 7 (uint b)" by (simp only: unsigned_take_bit_eq)
  then show ?thesis by (simp add: take_bit_eq_mod)
qed

lemma byte_top: "b AND 0x80 = 0 \<longleftrightarrow> uint b < 128" for b :: u8
proof -
  have "b AND 0x80 = 0 \<longleftrightarrow> \<not> bit b 7"
    using and_exp_eq_0_iff_not_bit [of b 7] by simp
  also have "\<dots> \<longleftrightarrow> \<not> bit (uint b) 7" by (simp add: bit_uint_iff)
  also have "\<dots> \<longleftrightarrow> even (uint b div 128)" by (simp add: bit_iff_odd)
  also have "\<dots> \<longleftrightarrow> uint b < 128"
  proof -
    have "0 \<le> uint b" and "uint b < 2 ^ LENGTH(8)" by (rule unsigned_greater_eq, rule unsigned_less)
    then have "uint b div 128 = 0 \<or> uint b div 128 = 1" and "0 \<le> uint b" by auto
    then show ?thesis by auto
  qed
  finally show ?thesis .
qed

lemma uint_byte: "n < 256 \<Longrightarrow> uint (of_nat n :: u8) = int n"
  by (simp add: unsigned_of_nat take_bit_nat_eq_self)

section \<open>The remaining length\<close>

lemma shl_int_ok: "7 * k < 32 \<Longrightarrow> x * 2 ^ (7 * k) < 2 ^ 31 \<Longrightarrow> shl_int x (7 * k) = Some (x * 2 ^ (7 * k))"
  by (simp add: shl_int_def)

text \<open>A byte with the top bit set: its low seven bits are added, and the loop goes on.\<close>

lemma rem_length_step:
  assumes buf: "drop (Suc k) buf = varint n @ rest" and lt: "Suc k < len" "Suc k < length buf"
    and k: "7 * k < 32" and t: "0 \<le> t" "t + int n * 2 ^ (7 * k) < 2 ^ 31" and n: "\<not> n < 128"
  defines "lo \<equiv> int (n mod 128) * 2 ^ (7 * k)" and "hi \<equiv> int (n div 128) * 2 ^ (7 * Suc k)"
  shows "rem_length_loop buf len (Suc k) t = rem_length_loop buf len (Suc (Suc k)) (t + lo)"
    and "drop (Suc (Suc k)) buf = varint (n div 128) @ rest"
    and "7 * Suc k < 32" and "lo + hi = int n * 2 ^ (7 * k)" and "0 \<le> lo" and "t + lo + hi < 2 ^ 31"
proof -
  have v: "varint n = of_nat (128 + n mod 128) # varint (n div 128)"
    using n by (simp add: varint.simps [of n])
  have "buf ! Suc k = hd (drop (Suc k) buf)" using lt(2) by (simp add: hd_drop_conv_nth)
  then have b: "buf ! Suc k = of_nat (128 + n mod 128)" using buf by (simp add: v)
  have u: "uint (buf ! Suc k) = int (128 + n mod 128)" unfolding b by (rule uint_byte) simp
  have low: "uint (buf ! Suc k AND 0x7f) = int (n mod 128)" unfolding byte_low7 u by (simp add: zmod_int)
  have top: "buf ! Suc k AND 0x80 \<noteq> 0" by (simp add: byte_top u)
  have "int n = int (n div 128) * 128 + int (n mod 128)"
    by (metis div_mult_mod_eq of_nat_add of_nat_mult of_nat_numeral)
  then show split: "lo + hi = int n * 2 ^ (7 * k)" by (simp add: lo_def hi_def power_add ring_distribs)
  then show total: "t + lo + hi < 2 ^ 31" using t(2) by simp
  show lo0: "0 \<le> lo" by (simp add: lo_def)
  have hi0: "0 \<le> hi" by (simp add: hi_def)
  have "lo < 2 ^ 31" using total hi0 t(1) by linarith
  then have "shl_int (int (n mod 128)) (7 * k) = Some lo" using k unfolding lo_def by (intro shl_int_ok)
  moreover have "t + lo < 2 ^ 31" using total hi0 by linarith
  then have "add_int t lo = Some (t + lo)" unfolding add_int_def by (simp only: if_True)
  ultimately show "rem_length_loop buf len (Suc k) t = rem_length_loop buf len (Suc (Suc k)) (t + lo)"
    using lt low top
    by (simp add: rem_length_loop.simps [of buf len "Suc k" t] mem_simps)
  show "drop (Suc (Suc k)) buf = varint (n div 128) @ rest"
    using buf by (simp add: v drop_Suc flip: tl_drop)
  have "1 \<le> int (n div 128)" using n by simp
  then have "2 ^ (7 * Suc k) \<le> hi" by (simp add: hi_def)
  then have "(2 :: int) ^ (7 * Suc k) < 2 ^ 31" using total lo0 t(1) by linarith
  then have "7 * Suc k < 31" by (rule power_less_imp_less_exp [rotated]) simp
  then show "7 * Suc k < 32" by simp
qed

lemma rem_length_loop_varint:
  assumes "drop i buf = varint n @ rest" and "i + length (varint n) \<le> len"
    and "1 \<le> i" and "7 * (i - 1) < 32" and "0 \<le> t" and "t + int n * 2 ^ (7 * (i - 1)) < 2 ^ 31"
  shows "rem_length_loop buf len i t = Some (i + length (varint n), t + int n * 2 ^ (7 * (i - 1)))"
  using assms
proof (induction n arbitrary: i t rule: varint.induct)
  case (1 n)
  define k where "k = i - 1"
  have i: "i = Suc k" using "1.prems"(3) by (simp add: k_def)
  have pos: "length (varint n) \<ge> 1" by (simp add: varint.simps [of n])
  have in_buf: "Suc k < length buf"
    using arg_cong [OF "1.prems"(1), of length] pos by (simp add: i)
  have lt: "Suc k < len" using "1.prems"(2) pos i by linarith
  show ?case
  proof (cases "n < 128")
    case True
    have "buf ! i = hd (drop i buf)" using in_buf by (simp add: hd_drop_conv_nth i)
    then have b: "buf ! i = of_nat n" using "1.prems"(1) True by (simp add: varint_short)
    have "shl_int (int n) (7 * k) = Some (int n * 2 ^ (7 * k))"
      by (rule shl_int_ok) (use "1.prems" in \<open>simp_all add: i\<close>)
    with True b lt in_buf "1.prems" show ?thesis
      by (simp add: rem_length_loop.simps [of buf len "Suc k" t] mem_simps byte_low7 byte_top
          uint_byte varint_short add_int_def i)
  next
    case False
    have pre: "drop (Suc k) buf = varint n @ rest" "7 * k < 32" "t + int n * 2 ^ (7 * k) < 2 ^ 31"
      using "1.prems" by (simp_all add: i)
    note s = rem_length_step [OF pre(1) lt in_buf pre(2) "1.prems"(5) pre(3) False]
    have "varint n = of_nat (128 + n mod 128) # varint (n div 128)"
      using False by (simp add: varint.simps [of n])
    with "1.IH" [OF False s(2), of "t + int (n mod 128) * 2 ^ (7 * k)"] "1.prems"(2,5) s(3,5,6)
    show ?thesis unfolding i s(1) by (simp add: s(4) [symmetric] add.assoc)
  qed
qed

text \<open>A received packet is a prefix of the input buffer.\<close>

lemma drop_packet: "drop 1 (packet hdr body @ rest) = varint (length body) @ body @ rest"
  by (simp add: packet_def)

lemma length_packet: "length (packet hdr body) = Suc (length (varint (length body)) + length body)"
  by (simp add: packet_def)

lemma rem_length_packet:
  assumes "length body < 2 ^ 28" and "Suc (length (varint (length body))) \<le> len"
  shows "rem_length_loop (packet hdr body @ rest) len 1 0 =
           Some (Suc (length (varint (length body))), int (length body))"
  using rem_length_loop_varint [OF drop_packet [of hdr body rest], of len 0] assms by simp

lemma mqtt_get_total_length_packet:
  assumes "length body < 2 ^ 28" and "Suc (length (varint (length body))) \<le> unat len"
  shows "mqtt_get_total_length (packet hdr body @ rest) len = Some (int (length (packet hdr body)))"
proof -
  have "length (varint n) \<le> Suc n" for n
  proof (induction n rule: varint.induct)
    case (1 n)
    show ?case
    proof (cases "n < 128")
      case True
      then show ?thesis by (simp add: varint_short)
    next
      case False
      then have "n div 128 < n" by simp
      with 1 [OF False] False show ?thesis by (simp add: varint.simps [of n])
    qed
  qed
  from this [of "length body"] have "int (length body) + int (Suc (length (varint (length body)))) < 2 ^ 31"
    using assms(1) by simp
  with rem_length_packet [OF assms, of hdr rest] show ?thesis
    by (simp add: mqtt_get_total_length_def add_int_def length_packet)
qed

section \<open>Topic, data and identifier of a PUBLISH\<close>

lemma rd_append [simp]: "rd (xs @ y # ys) (length xs) = Some y"
  by (simp add: rd_def)

lemma unat_byte: "n < 256 \<Longrightarrow> unat (of_nat n :: u8) = n"
  by (simp add: unsigned_of_nat take_bit_nat_eq_self)

lemma rd_be16_append: "n < 65536 \<Longrightarrow> rd_be16 (pre @ be16 n @ rest) (length pre) = Some n"
proof -
  assume n: "n < 65536"
  have "rd (pre @ be16 n @ rest) (Suc (length pre)) = Some (of_nat (n mod 256))"
    using rd_append [of "pre @ [of_nat (n div 256)]" "of_nat (n mod 256)" rest]
    by (simp add: be16_def)
  with n show ?thesis
    by (simp add: rd_be16_def be16_def unat_byte del: of_nat_mod)
qed

definition hdr_qos :: "u8 \<Rightarrow> int" where
  "hdr_qos h = uint (drop_bit 1 (h AND 0x06))"

lemma mqtt_get_qos_packet [simp]: "mqtt_get_qos (packet hdr body @ rest) = Some (hdr_qos hdr)"
  by (simp add: mqtt_get_qos_def hdr_qos_def packet_def rd_def)

text \<open>The parts of a received PUBLISH.\<close>

definition publish_head :: "u8 \<Rightarrow> cstring \<Rightarrow> nat \<Rightarrow> u16 \<Rightarrow> u8 list \<Rightarrow> u8 list" where
  "publish_head hdr topic qos mid data = hdr # varint (length (publish_body topic qos mid data))"

lemma publish_packet_parts:
  "packet hdr (publish_body topic qos mid data) =
     publish_head hdr topic qos mid data @ be16 (length topic) @ topic
       @ (if qos > 0 then be16 (unat mid) else []) @ data"
  by (simp add: packet_def publish_head_def publish_body_def mqtt_string_def)

lemma length_publish_body:
  "length (publish_body topic qos mid data) =
     2 + length topic + (if qos > 0 then 2 else 0) + length data"
  by (simp add: publish_body_def)

lemma publish_loop:
  assumes "length (publish_body topic qos mid data) < 2 ^ 28"
    and "length (packet hdr (publish_body topic qos mid data)) \<le> len"
  shows "rem_length_loop (packet hdr (publish_body topic qos mid data) @ rest) len 1 0 =
           Some (length (publish_head hdr topic qos mid data),
                 int (length (publish_body topic qos mid data)))"
  using rem_length_packet [OF assms(1), of len hdr rest] assms(2)
  by (simp add: publish_head_def length_packet)

lemma publish_topic_length:
  assumes "length topic < 65536"
  shows "rd_be16 (packet hdr (publish_body topic qos mid data) @ rest)
           (length (publish_head hdr topic qos mid data)) = Some (length topic)"
  using rd_be16_append [OF assms] by (simp add: publish_packet_parts)

lemma publish_sum:
  assumes "length (packet hdr (publish_body topic qos mid data)) \<le> unat (len :: u16)"
  shows "add_int (int (length (publish_body topic qos mid data)))
      (int (length (publish_head hdr topic qos mid data))) =
    Some (int (length (packet hdr (publish_body topic qos mid data))))"
proof -
  have "unat len < 2 ^ LENGTH(16)" by (rule unsigned_less)
  with assms show ?thesis by (simp add: add_int_def length_packet publish_head_def)
qed

lemma mqtt_get_publish_topic_packet:
  assumes "topic \<noteq> []" and "length topic < 65536"
    and "length (packet hdr (publish_body topic qos mid data)) \<le> unat len"
  shows "\<exists>i. mqtt_get_publish_topic (packet hdr (publish_body topic qos mid data) @ rest) len =
           Some (Some i, of_nat (length topic)) \<and>
           take (length topic) (drop i (packet hdr (publish_body topic qos mid data) @ rest)) = topic"
proof -
  let ?p = "packet hdr (publish_body topic qos mid data)"
  let ?h = "publish_head hdr topic qos mid data"
  have "unat len < 2 ^ LENGTH(16)" by (rule unsigned_less)
  then have small: "length (publish_body topic qos mid data) < 2 ^ 28"
    using assms(3) by (simp add: length_packet)
  have room: "length ?h + 2 + length topic \<le> unat len"
    using assms(3) by (simp add: length_packet publish_head_def length_publish_body)
  have "0 < length topic" using assms(1) by simp
  then have "\<not> unat len \<le> Suc (Suc (length ?h))" and "\<not> unat len < Suc (Suc (length ?h + length topic))"
    using room by linarith+
  moreover have "take (length topic) (drop (length ?h + 2) (?p @ rest)) = topic"
    by (simp add: publish_packet_parts)
  ultimately show ?thesis
    using publish_loop [OF small assms(3), of rest] publish_topic_length [OF assms(2), of hdr qos mid data rest]
      publish_sum [OF assms(3)]
    by (auto simp: mqtt_get_publish_topic_def)
qed

lemma mqtt_get_publish_data_packet:
  assumes "topic \<noteq> []" and "length topic < 65536" and "data \<noteq> []"
    and len: "length (packet hdr (publish_body topic qos mid data)) \<le> unat len"
    and "hdr_qos hdr = int qos"
  shows "\<exists>i. mqtt_get_publish_data (packet hdr (publish_body topic qos mid data) @ rest) len =
           Some (Some i, of_nat (length data)) \<and>
           take (length data) (drop i (packet hdr (publish_body topic qos mid data) @ rest)) = data"
proof -
  let ?b = "publish_body topic qos mid data"
  let ?p = "packet hdr ?b"
  let ?h = "publish_head hdr topic qos mid data"
  let ?id = "if qos > 0 then 2 else 0 :: nat"
  have "unat len < 2 ^ LENGTH(16)" by (rule unsigned_less)
  then have small: "length ?b < 2 ^ 28"
    using len by (simp add: length_packet)
  define H where "H = length ?h"
  define T where "T = length topic"
  define D where "D = length data"
  define L where "L = unat len"
  define i where "i = H + 2 + T + ?id"
  have pos: "0 < T" "0 < D" using assms(1,3) by (simp_all add: T_def D_def)
  have P: "length ?p = i + D"
    by (simp add: length_packet publish_head_def length_publish_body H_def T_def D_def i_def)
  have room: "i + D \<le> L" using len P by (simp add: L_def)
  have cond: "\<not> L \<le> H + 2" "\<not> L \<le> H + 2 + T" "\<not> (qos > 0 \<and> L \<le> H + 2 + T + 2)"
    "int (i + D) \<le> int L"
    using room pos by (auto simp: i_def split: if_splits)
  have "take (length data) (drop i (?p @ rest)) = data"
    by (simp add: publish_packet_parts i_def H_def T_def)
  moreover have "mqtt_get_publish_data (?p @ rest) len = Some (Some i, of_nat D)"
    using cond publish_loop [OF small len, of rest, folded H_def L_def]
      publish_topic_length [OF assms(2), of hdr qos mid data rest, folded H_def T_def]
      publish_sum [OF len, folded H_def]
    by (simp add: mqtt_get_publish_data_def assms(5) P Let_def flip: L_def) (simp add: i_def)
  ultimately show ?thesis by (auto simp: D_def)
qed

section \<open>The identifier\<close>

lemma skip_length_varint:
  assumes "drop i buf = varint n @ rest" and "i + length (varint n) \<le> len"
  shows "skip_length_loop buf len i = Some (i + length (varint n))"
  using assms
proof (induction n arbitrary: i rule: varint.induct)
  case (1 n)
  have pos: "length (varint n) \<ge> 1" by (simp add: varint.simps [of n])
  have lt: "i < len" using "1.prems"(2) pos by linarith
  have in_buf: "i < length buf"
    using "1.prems"(1) pos by (metis append_is_Nil_conv drop_all length_0_conv not_less not_one_le_zero)
  have b: "buf ! i = hd (drop i buf)" using in_buf by (simp add: hd_drop_conv_nth)
  show ?case
  proof (cases "n < 128")
    case True
    with b lt in_buf "1.prems" show ?thesis
      by (simp add: skip_length_loop.simps [of buf len i] mem_simps byte_top uint_byte varint_short)
  next
    case False
    have v: "varint n = of_nat (128 + n mod 128) # varint (n div 128)"
      using False by (simp add: varint.simps [of n])
    have "buf ! i = of_nat (128 + n mod 128)" using b "1.prems"(1) by (simp add: v)
    moreover have "uint (of_nat (128 + n mod 128) :: u8) = int (128 + n mod 128)"
      by (rule uint_byte) simp
    ultimately have "buf ! i AND 0x80 \<noteq> 0" by (simp add: byte_top)
    then have step: "skip_length_loop buf len i = skip_length_loop buf len (Suc i)"
      using lt in_buf by (simp add: skip_length_loop.simps [of buf len i] mem_simps)
    have "drop (Suc i) buf = varint (n div 128) @ rest"
      using "1.prems"(1) by (simp add: v drop_Suc flip: tl_drop)
    from "1.IH" [OF False this] "1.prems"(2) step show ?thesis by (simp add: v)
  qed
qed

definition hdr_type :: "u8 \<Rightarrow> int" where
  "hdr_type h = uint (drop_bit 4 (h AND 0xf0))"

lemma mqtt_get_type_packet [simp]: "mqtt_get_type (packet hdr body @ rest) = Some (hdr_type hdr)"
  by (simp add: mqtt_get_type_def hdr_type_def packet_def rd_def)

text \<open>
  A PUBLISH with an identifier and a payload gives it back; without a payload it does not, unless
  the given length goes beyond the packet.
\<close>

lemma mqtt_get_id_publish:
  assumes "topic \<noteq> []" and "length topic < 65536"
    and len: "length (packet hdr (publish_body topic qos mid data)) \<le> unat len"
    and "hdr_qos hdr = int qos" and "hdr_type hdr = msg_type PUBLISH"
  shows "mqtt_get_id (packet hdr (publish_body topic qos mid data) @ rest) len =
           Some (if 0 < qos \<and>
                    (data \<noteq> [] \<or> length (packet hdr (publish_body topic qos mid data)) < unat len)
                 then mid else 0)"
proof -
  let ?b = "publish_body topic qos mid data"
  let ?p = "packet hdr ?b"
  let ?h = "publish_head hdr topic qos mid data"
  define H where "H = length ?h"
  define T where "T = length topic"
  define D where "D = length data"
  have T: "0 < T" using assms(1) by (simp add: T_def)
  have D: "data = [] \<longleftrightarrow> D = 0" by (simp add: D_def)
  have L: "length ?p = H + 2 + T + (if qos > 0 then 2 else 0) + D"
    by (simp add: length_packet publish_head_def length_publish_body H_def T_def D_def)
  have skip: "skip_length_loop (?p @ rest) (unat len) 1 = Some H"
    using skip_length_varint [OF drop_packet [of hdr ?b rest], of "unat len"] len
    by (simp add: length_packet H_def publish_head_def)
  have tl: "rd_be16 (?p @ rest) H = Some T"
    unfolding H_def T_def by (rule publish_topic_length [OF assms(2)])
  have id: "rd_be16 (?p @ rest) (H + 2 + T) = Some (unat mid)" if "qos > 0"
  proof -
    have "unat mid < 2 ^ LENGTH(16)" by (rule unsigned_less)
    then have m: "unat mid < 65536" by simp
    have "?p @ rest = (?h @ be16 (length topic) @ topic) @ be16 (unat mid) @ data @ rest"
      using that by (simp add: publish_packet_parts)
    moreover have "length (?h @ be16 (length topic) @ topic) = H + 2 + T"
      by (simp add: H_def T_def)
    ultimately show ?thesis using rd_be16_append [OF m] by metis
  qed
  have "\<not> unat len \<le> H + 2" "\<not> unat len < 1" using L T len by auto
  moreover have "(data \<noteq> [] \<or> length ?p < unat len) = (\<not> unat len \<le> H + 2 + T + 2)" if "qos > 0"
    using that L len unfolding D by (cases "D = 0") auto
  moreover have "qos > 0 \<Longrightarrow> \<not> unat len \<le> H + 2 + T" using L len by simp
  ultimately show ?thesis
    using skip tl id assms(4,5) by (cases "qos > 0") (simp_all add: mqtt_get_id_def Let_def)
qed

lemma mqtt_get_id_ack:
  assumes "hdr_type hdr \<in> {msg_type PUBACK, msg_type PUBREC, msg_type PUBREL, msg_type PUBCOMP,
      msg_type SUBACK, msg_type UNSUBACK, msg_type SUBSCRIBE}"
    and "length extra < 126" and "4 + length extra \<le> unat len"
  shows "mqtt_get_id (packet hdr (be16 (unat mid) @ extra) @ rest) len = Some mid"
proof -
  have v: "varint (2 + length extra) = [of_nat (2 + length extra)]"
    using assms(2) by (intro varint_short) simp
  have pk: "packet hdr (be16 (unat mid) @ extra) @ rest =
      [hdr, of_nat (2 + length extra)] @ be16 (unat mid) @ extra @ rest"
    using v by (simp add: packet_def)
  have b1: "of_nat (2 + length extra) AND (0x80 :: u8) = 0"
    unfolding byte_top using assms(2) by (subst uint_byte) simp_all
  have "unat mid < 2 ^ LENGTH(16)" by (rule unsigned_less)
  then have m: "unat mid < 65536" by simp
  have id: "rd_be16 (packet hdr (be16 (unat mid) @ extra) @ rest) 2 = Some (unat mid)"
    using rd_be16_append [OF m, of "[hdr, of_nat (2 + length extra)]" "extra @ rest"]
    by (simp add: pk numeral_2_eq_2)
  have "rd (packet hdr (be16 (unat mid) @ extra) @ rest) 1 = Some (of_nat (2 + length extra))"
    by (simp add: pk rd_def)
  with id b1 assms(1,3) show ?thesis
    by (auto simp: mqtt_get_id_def simp del: of_nat_add)
qed

section \<open>The decoders stay inside the buffer\<close>

lemma skip_length_defined:
  assumes "len \<le> length buf"
  shows "\<exists>j. skip_length_loop buf len i = Some j"
  using assms
proof (induction buf len i rule: skip_length_loop.induct)
  case (1 buf len i)
  show ?case
  proof (cases "i < len")
    case True
    with 1 show ?thesis by (simp add: skip_length_loop.simps [of buf len i] mem_simps)
  next
    case False
    then show ?thesis by (simp add: skip_length_loop.simps [of buf len i])
  qed
qed

lemma rd_be16_defined: "i + 2 \<le> length buf \<Longrightarrow> \<exists>n. rd_be16 buf i = Some n"
  by (simp add: rd_be16_def mem_simps)

lemma mqtt_get_type_defined: "buf \<noteq> [] \<Longrightarrow> mqtt_get_type buf = Some (hdr_type (hd buf))"
  by (cases buf) (simp_all add: mqtt_get_type_def hdr_type_def rd_def)

lemma mqtt_get_qos_defined: "buf \<noteq> [] \<Longrightarrow> mqtt_get_qos buf = Some (hdr_qos (hd buf))"
  by (cases buf) (simp_all add: mqtt_get_qos_def hdr_qos_def rd_def)

lemma mqtt_get_id_defined:
  assumes len: "unat len \<le> length buf"
  shows "\<exists>mid. mqtt_get_id buf len = Some mid"
proof (cases "unat len < 1")
  case True
  then show ?thesis by (simp add: mqtt_get_id_def)
next
  case False
  then have ne: "buf \<noteq> []" using len by auto
  obtain i where i: "skip_length_loop buf (unat len) 1 = Some i" using skip_length_defined [OF len] by blast
  have be: "\<exists>n. rd_be16 buf k = Some n" if "k + 2 < unat len" for k
    using that len by (intro rd_be16_defined) simp
  have publish: "\<exists>mid. (if i + 2 \<ge> unat len then Some 0
      else do {
        topiclen \<leftarrow> rd_be16 buf i;
        let i = i + 2;
        if i + topiclen \<ge> unat len then Some 0
        else do {
          let i = i + topiclen;
          qos \<leftarrow> mqtt_get_qos buf;
          if qos > 0 then
            (if i + 2 \<ge> unat len then Some 0
             else do { mid \<leftarrow> rd_be16 buf i; Some (of_nat mid) })
          else Some 0
        }
      }) = Some (mid :: u16)"
  proof (cases "i + 2 < unat len")
    case True
    then obtain t where "rd_be16 buf i = Some t" using be by blast
    with True be [of "i + 2 + t"] show ?thesis by (auto simp: mqtt_get_qos_defined [OF ne])
  qed simp
  have b1: "\<exists>b. rd buf 1 = Some b" and id2: "\<exists>n. rd_be16 buf 2 = Some n" if "4 \<le> unat len"
    using that len by (auto simp: mem_simps intro!: rd_be16_defined)
  show ?thesis
    using False i publish b1 id2 by (auto simp: mqtt_get_id_def mqtt_get_type_defined [OF ne])
qed

lemma publish_parts_defined:
  assumes len: "unat len \<le> length buf" and ne: "buf \<noteq> []"
    and loop: "rem_length_loop buf (unat len) 1 0 = Some (i, t)" and "add_int t (int i) \<noteq> None"
  shows "\<exists>r. mqtt_get_publish_topic buf len = Some r" and "\<exists>r. mqtt_get_publish_data buf len = Some r"
proof -
  obtain s where s: "add_int t (int i) = Some s" using assms(4) by blast
  have be: "\<exists>n. rd_be16 buf k = Some n" if "\<not> k + 2 \<ge> unat len" for k
    using that len by (intro rd_be16_defined) simp
  show "\<exists>r. mqtt_get_publish_topic buf len = Some r"
    using loop s be [of i] by (auto simp: mqtt_get_publish_topic_def)
  show "\<exists>r. mqtt_get_publish_data buf len = Some r"
    using loop s be [of i]
    by (auto simp: mqtt_get_publish_data_def Let_def mqtt_get_qos_defined [OF ne])
qed

text \<open>A buffer that starts with a complete packet.\<close>

definition starts_with :: "u8 list \<Rightarrow> u8 \<Rightarrow> u8 list \<Rightarrow> bool" where
  "starts_with buf hdr body \<longleftrightarrow> (\<exists>rest. buf = packet hdr body @ rest)"

lemma packet_decoders:
  assumes buf: "starts_with buf hdr body" and len: "unat len \<le> length buf"
    and all: "length (packet hdr body) \<le> unat len"
  shows "mqtt_get_type buf = Some (hdr_type hdr)" and "mqtt_get_qos buf = Some (hdr_qos hdr)"
    and "mqtt_get_total_length buf len = Some (int (length (packet hdr body)))"
    and "\<exists>r. mqtt_get_publish_topic buf len = Some r"
    and "\<exists>r. mqtt_get_publish_data buf len = Some r"
proof -
  obtain rest where b: "buf = packet hdr body @ rest" using buf by (auto simp: starts_with_def)
  show "mqtt_get_type buf = Some (hdr_type hdr)" and "mqtt_get_qos buf = Some (hdr_qos hdr)"
    by (simp_all add: b)
  have "unat len < 2 ^ LENGTH(16)" by (rule unsigned_less)
  then have body: "length body < 2 ^ 28" and sum: "length (packet hdr body) < 2 ^ 16"
    using all by (simp_all add: length_packet)
  have var: "Suc (length (varint (length body))) \<le> unat len"
    using all by (simp add: length_packet)
  show "mqtt_get_total_length buf len = Some (int (length (packet hdr body)))"
    unfolding b by (rule mqtt_get_total_length_packet [OF body var])
  have loop: "rem_length_loop buf (unat len) 1 0 =
      Some (Suc (length (varint (length body))), int (length body))"
    unfolding b by (rule rem_length_packet [OF body var])
  have "add_int (int (length body)) (int (Suc (length (varint (length body))))) \<noteq> None"
    using sum by (simp add: add_int_def length_packet)
  from publish_parts_defined [OF len _ loop this] b
  show "\<exists>r. mqtt_get_publish_topic buf len = Some r" and "\<exists>r. mqtt_get_publish_data buf len = Some r"
    by (simp_all add: packet_def)
qed

text \<open>Without a payload the data pointer may be NULL, but the length is 0.\<close>

lemma mqtt_get_publish_data_empty:
  assumes "topic \<noteq> []" and "length topic < 65536"
    and len: "length (packet hdr (publish_body topic qos mid [])) \<le> unat len"
    and "hdr_qos hdr = int qos"
  shows "\<exists>p. mqtt_get_publish_data (packet hdr (publish_body topic qos mid []) @ rest) len = Some (p, 0)"
proof -
  let ?b = "publish_body topic qos mid []"
  let ?h = "publish_head hdr topic qos mid []"
  have "unat len < 2 ^ LENGTH(16)" by (rule unsigned_less)
  then have small: "length ?b < 2 ^ 28"
    using len by (simp add: length_packet)
  define H where "H = length ?h"
  define T where "T = length topic"
  define L where "L = unat len"
  have T: "0 < T" using assms(1) by (simp add: T_def)
  have P: "length (packet hdr ?b) = H + 2 + T + (if qos > 0 then 2 else 0)"
    by (simp add: length_packet publish_head_def length_publish_body H_def T_def)
  have "\<not> L \<le> H + 2" "H + 2 + T + (if qos > 0 then 2 else 0) \<le> L"
    using len P T by (auto simp: L_def)
  then show ?thesis
    using publish_loop [OF small len, of rest, folded H_def L_def]
      publish_topic_length [OF assms(2), of hdr qos mid "[]" rest, folded H_def T_def]
      publish_sum [OF len, folded H_def]
    by (simp add: mqtt_get_publish_data_def assms(4) P Let_def flip: L_def)
qed

text \<open>Topic and data of a complete PUBLISH, as the memory behind the two pointers.\<close>

definition points_to :: "u8 list option \<Rightarrow> u16 \<Rightarrow> u8 list \<Rightarrow> bool" where
  "points_to p n bytes \<longleftrightarrow>
     unat n = length bytes \<and> (bytes \<noteq> [] \<longrightarrow> (\<exists>m. p = Some m \<and> take (length bytes) m = bytes))"

lemma publish_decoded:
  assumes buf: "starts_with buf hdr (publish_body topic qos mid data)"
    and all: "length (packet hdr (publish_body topic qos mid data)) \<le> unat len"
    and "topic \<noteq> []" and "length topic < 65536" and "hdr_qos hdr = int qos"
  shows "\<exists>tp tl dp dl. mqtt_get_publish_topic buf len = Some (tp, tl) \<and>
           mqtt_get_publish_data buf len = Some (dp, dl) \<and>
           points_to (map_option (\<lambda>i. drop i buf) tp) tl topic \<and>
           points_to (map_option (\<lambda>i. drop i buf) dp) dl data"
proof -
  obtain rest where b: "buf = packet hdr (publish_body topic qos mid data) @ rest"
    using buf by (auto simp: starts_with_def)
  have "unat len < 2 ^ LENGTH(16)" by (rule unsigned_less)
  then have dl: "length data < 65536"
    using all by (simp add: length_packet length_publish_body split: if_splits)
  obtain i where topic: "mqtt_get_publish_topic buf len = Some (Some i, of_nat (length topic))"
    "take (length topic) (drop i buf) = topic"
    using mqtt_get_publish_topic_packet [OF assms(3,4) all, of rest] b by blast
  have tl: "unat (of_nat (length topic) :: u16) = length topic"
    using assms(4) by (simp add: unsigned_of_nat take_bit_nat_eq_self)
  have tp: "points_to (Some (drop i buf)) (of_nat (length topic)) topic"
    using topic(2) tl by (simp add: points_to_def)
  show ?thesis
  proof (cases "data = []")
    case True
    with mqtt_get_publish_data_empty [OF assms(3,4) _ assms(5), of mid len rest] all b
    obtain p where "mqtt_get_publish_data buf len = Some (p, 0)" by blast
    with topic(1) tp True show ?thesis
      by (intro exI [of _ "Some i"] exI [of _ "of_nat (length topic)"] exI [of _ p] exI [of _ 0])
        (simp add: points_to_def)
  next
    case False
    with mqtt_get_publish_data_packet [OF assms(3,4) False all assms(5), of rest] b
    obtain j where j: "mqtt_get_publish_data buf len = Some (Some j, of_nat (length data))"
      "take (length data) (drop j buf) = data" by blast
    have "unat (of_nat (length data) :: u16) = length data"
      using dl by (simp add: unsigned_of_nat take_bit_nat_eq_self)
    with j topic(1) tp show ?thesis
      by (intro exI [of _ "Some i"] exI [of _ "of_nat (length topic)"] exI [of _ "Some j"]
          exI [of _ "of_nat (length data)"]) (simp add: points_to_def)
  qed
qed

section \<open>Properties\<close>

definition conn64 :: mqtt_connection where
  "conn64 = mqtt_msg_init (replicate 64 0) 64"

lemma conn64: "small_conn conn64"
  by (simp add: conn64_def small_conn_def conn_ok_def mqtt_msg_init_def)

definition info0 :: mqtt_connect_info where
  "info0 = \<lparr>client_id = Some [0x61], username = Some [0x62], password = None, will_topic = Some [0x63],
            will_message = Some [], keepalive = 120, will_qos = 1, will_retain = 0, clean_session = 1\<rparr>"

text \<open>
  C15. The CONNECT packet: for every connect record with a client identifier (and a will message
  whenever there is a will topic), \<open>mqtt_msg_connect\<close> writes exactly the MQTT 3.1 packet - name,
  version, flags that agree with the optional fields present, keep-alive, then the fields in
  order - when it fits the buffer, and reports length 0 otherwise. It never writes outside the
  buffer.
\<close>

theorem connect_packet:
  assumes "small_conn c" and "present (client_id info)"
    and "present (will_topic info) \<Longrightarrow> will_message info \<noteq> None"
  shows "\<exists>c'. mqtt_msg_connect c info = Some c' \<and> conn_ok c' \<and> message_inside c' \<and>
           (if 3 + length (connect_body info) \<le> length (buffer c)
            then packet_bytes c' = packet 0x10 (connect_body info)
            else msg_length (message c') = 0)"
proof -
  have "header_byte (msg_type CONNECT) 0 0 0 = 0x10" by code_simp
  with mqtt_msg_connect_built [OF assms] show ?thesis by (auto simp: built_def)
qed

theorem connect_packet_witness:
  "\<exists>c'. mqtt_msg_connect conn64 info0 = Some c' \<and> conn_ok c' \<and> message_inside c' \<and>
     (if 3 + length (connect_body info0) \<le> length (buffer conn64)
      then packet_bytes c' = packet 0x10 (connect_body info0)
      else msg_length (message c') = 0)"
  by (rule connect_packet) (simp_all add: conn64 info0_def present_def)

text \<open>
  C16. The PUBLISH packet: topic, then for QoS above 0 a fresh non-zero identifier, then the
  payload, under a header with QoS and retain; the identifier is also the one returned. If the
  packet does not fit, the length is 0; nothing outside the buffer is written.
\<close>

theorem publish_packet:
  assumes "small_conn c" and "topic \<noteq> []"
  shows "\<exists>c' mid'. mqtt_msg_publish c (Some topic) data (int (length data)) qos retain mid = Some (c', mid') \<and>
           conn_ok c' \<and> message_inside c' \<and> used_id 0 c \<noteq> 0 \<and>
           (let body = publish_body topic (nat qos) (used_id 0 c) data
            in if 3 + length body \<le> length (buffer c)
               then packet_bytes c' = packet (header_byte 3 0 qos retain) body
               else msg_length (message c') = 0)"
  using mqtt_msg_publish_built [OF assms, of data qos retain mid] used_id_not_0 [of 0 c]
  by (auto simp: built_def Let_def)

theorem publish_packet_witness:
  "\<exists>c' mid'. mqtt_msg_publish conn64 (Some [0x74]) [1, 2] (int (length [1, 2 :: u8])) 1 0 0 = Some (c', mid') \<and>
     conn_ok c' \<and> message_inside c' \<and> used_id 0 conn64 \<noteq> 0 \<and>
     (let body = publish_body [0x74] (nat 1) (used_id 0 conn64) [1, 2]
      in if 3 + length body \<le> length (buffer conn64)
         then packet_bytes c' = packet (header_byte 3 0 1 0) body
         else msg_length (message c') = 0)"
  by (rule publish_packet) (simp_all add: conn64)

text \<open>
  C17. The SUBSCRIBE and UNSUBSCRIBE packets carry a fresh identifier and the topic (SUBSCRIBE
  also the requested QoS) with header QoS 1; if they do not fit, the length is 0.
\<close>

theorem subscribe_packets:
  assumes "small_conn c" and "topic \<noteq> []"
  shows "\<exists>c1 m1 c2 m2. mqtt_msg_subscribe c (Some topic) qos mid = Some (c1, m1) \<and>
           built c (subscribe_body (used_id 0 c) topic @ [word_of_int qos]) 0x82 c1 \<and>
           mqtt_msg_unsubscribe c (Some topic) mid = Some (c2, m2) \<and>
           built c (subscribe_body (used_id 0 c) topic) 0xA2 c2"
proof -
  have "header_byte (msg_type SUBSCRIBE) 0 1 0 = 0x82" "header_byte (msg_type UNSUBSCRIBE) 0 1 0 = 0xA2"
    by code_simp+
  with mqtt_msg_subscribe_built [OF assms, of qos mid] mqtt_msg_unsubscribe_built [OF assms, of mid]
  show ?thesis by fastforce
qed

theorem subscribe_packets_witness:
  "\<exists>c1 m1 c2 m2. mqtt_msg_subscribe conn64 (Some [0x74]) 1 0 = Some (c1, m1) \<and>
     built conn64 (subscribe_body (used_id 0 conn64) [0x74] @ [word_of_int 1]) 0x82 c1 \<and>
     mqtt_msg_unsubscribe conn64 (Some [0x74]) 0 = Some (c2, m2) \<and>
     built conn64 (subscribe_body (used_id 0 conn64) [0x74]) 0xA2 c2"
  by (rule subscribe_packets) (simp_all add: conn64)

definition ack_of :: "mqtt_connection option \<Rightarrow> u8 \<Rightarrow> u16 \<Rightarrow> bool" where
  "ack_of r hdr mid \<longleftrightarrow>
     (case r of
        None \<Rightarrow> False
      | Some c \<Rightarrow> packet_bytes c = packet hdr (be16 (unat mid)) \<and> mqtt_get_id (packet_bytes c) 4 = Some mid)"

lemma ack_of_packet:
  assumes "small_conn c" and "5 \<le> length (buffer c)" and "mid \<noteq> 0"
    and "header_byte t 0 q 0 = hdr" and "hdr_type hdr \<in> {4, 5, 6, 7}"
  shows "ack_of (do { (r, c) \<leftarrow> append_message_id (snd (init_message c)) mid;
                      if r = 0 then Some (fail_message c) else fini_message c t 0 q 0 }) hdr mid"
proof -
  have ok: "conn_ok c" using assms(1) by (simp add: small_conn_def)
  have "mqtt_get_id (packet hdr (be16 (unat mid))) 4 = Some mid"
    using mqtt_get_id_ack [of hdr "[]" 4 mid "[]"] assms(5) by auto
  with ack_packet [OF ok, of mid t q] assms(2-4) show ?thesis
    by (auto simp: ack_of_def used_id_def)
qed

text \<open>
  Acknowledgements: the four acknowledgement packets built for an identifier are decoded
  back to it by \<open>mqtt_get_id\<close>, and have the type and the QoS bits of the protocol.
\<close>

lemma ack_roundtrip:
  assumes "small_conn c" and "5 \<le> length (buffer c)" and "mid \<noteq> 0"
  shows "ack_of (mqtt_msg_puback c mid) 0x40 mid \<and> ack_of (mqtt_msg_pubrec c mid) 0x50 mid \<and>
         ack_of (mqtt_msg_pubrel c mid) 0x62 mid \<and> ack_of (mqtt_msg_pubcomp c mid) 0x70 mid"
  unfolding mqtt_msg_puback_def mqtt_msg_pubrec_def mqtt_msg_pubrel_def mqtt_msg_pubcomp_def
  by (intro conjI; rule ack_of_packet [OF assms]; code_simp)

lemma ack_roundtrip_witness:
  "ack_of (mqtt_msg_puback conn64 513) 0x40 513 \<and> ack_of (mqtt_msg_pubrec conn64 513) 0x50 513 \<and>
   ack_of (mqtt_msg_pubrel conn64 513) 0x62 513 \<and> ack_of (mqtt_msg_pubcomp conn64 513) 0x70 513"
  by (rule ack_roundtrip) (simp add: conn64, simp add: conn64_def mqtt_msg_init_def, simp)

lemma hdr_qos_publish:
  assumes "0 \<le> qos" and "qos \<le> 3"
  shows "hdr_qos (header_byte 3 0 qos retain) = qos"
proof -
  have r: "retain AND 1 = 0 \<or> retain AND 1 = 1" by (simp add: and_one_eq mod2_eq_if)
  have q: "qos = 0 \<or> qos = 1 \<or> qos = 2 \<or> qos = 3" using assms by auto
  have "hdr_qos (header_byte 3 0 a b) = a" if "a \<in> {0, 1, 2, 3}" "b \<in> {0, 1}" for a b
    using that by (elim insertE emptyE; hypsubst; code_simp)
  moreover have "header_byte 3 0 qos retain = header_byte 3 0 qos (retain AND 1)"
    by (simp add: header_byte_def and.assoc)
  ultimately show ?thesis using q r by auto
qed

text \<open>
  C18. What one client publishes another one reads: if the PUBLISH packet fits, the receiver's
  \<open>mqtt_get_publish_topic\<close> and \<open>mqtt_get_publish_data\<close> give pointers and lengths of exactly the
  published topic and payload, whatever follows the packet in the input buffer, and its total
  length is the packet's.
\<close>

theorem publish_roundtrip:
  assumes "small_conn c" and "topic \<noteq> []" and "0 \<le> qos" and "qos \<le> 3"
    and "5 + length topic + 2 + length data \<le> length (buffer c)"
    and "length (packet (header_byte 3 0 qos retain) (publish_body topic (nat qos) (used_id 0 c) data)) \<le> unat len"
  shows "\<exists>c' mid' tp tlen dp dlen.
           mqtt_msg_publish c (Some topic) data (int (length data)) qos retain mid = Some (c', mid') \<and>
           mqtt_get_publish_topic (packet_bytes c' @ rest) len = Some (tp, tlen) \<and>
           mqtt_get_publish_data (packet_bytes c' @ rest) len = Some (dp, dlen) \<and>
           points_to (map_option (\<lambda>i. drop i (packet_bytes c' @ rest)) tp) tlen topic \<and>
           points_to (map_option (\<lambda>i. drop i (packet_bytes c' @ rest)) dp) dlen data \<and>
           mqtt_get_total_length (packet_bytes c' @ rest) len = Some (int (length (packet_bytes c')))"
proof -
  let ?h = "header_byte 3 0 qos retain" and ?b = "publish_body topic (nat qos) (used_id 0 c) data"
  obtain c' mid' where c': "mqtt_msg_publish c (Some topic) data (int (length data)) qos retain mid = Some (c', mid')"
    "built c ?b ?h c'"
    using mqtt_msg_publish_built [OF assms(1,2), of data qos retain mid] by auto
  have "length ?b \<le> 4 + length topic + length data" by (simp add: length_publish_body)
  then have "3 + length ?b \<le> length (buffer c)" using assms(5) by simp
  with c'(2) have p: "packet_bytes c' = packet ?h ?b" by (simp add: built_def)
  have q: "hdr_qos ?h = int (nat qos)" using hdr_qos_publish [OF assms(3,4)] assms(3) by simp
  have tl: "length topic < 65536"
    using assms(5) conn_length [of c] assms(1) by (simp add: small_conn_def)
  have st: "starts_with (packet ?h ?b @ rest) ?h ?b" by (auto simp: starts_with_def)
  from publish_decoded [OF st assms(6,2) tl q] obtain tp tlen dp dlen where
    d: "mqtt_get_publish_topic (packet ?h ?b @ rest) len = Some (tp, tlen)"
    "mqtt_get_publish_data (packet ?h ?b @ rest) len = Some (dp, dlen)"
    "points_to (map_option (\<lambda>i. drop i (packet ?h ?b @ rest)) tp) tlen topic"
    "points_to (map_option (\<lambda>i. drop i (packet ?h ?b @ rest)) dp) dlen data" by blast
  have "unat len < 2 ^ LENGTH(16)" by (rule unsigned_less)
  then have total: "mqtt_get_total_length (packet ?h ?b @ rest) len = Some (int (length (packet ?h ?b)))"
    using assms(6) by (intro mqtt_get_total_length_packet) (simp_all add: length_packet)
  from c'(1) d [folded p] total [folded p] show ?thesis by blast
qed

theorem publish_roundtrip_witness:
  "\<exists>c' mid' tp tlen dp dlen.
     mqtt_msg_publish conn64 (Some [0x74]) [1, 2] (int (length [1, 2 :: u8])) 1 0 0 = Some (c', mid') \<and>
     mqtt_get_publish_topic (packet_bytes c' @ [7]) 20 = Some (tp, tlen) \<and>
     mqtt_get_publish_data (packet_bytes c' @ [7]) 20 = Some (dp, dlen) \<and>
     points_to (map_option (\<lambda>i. drop i (packet_bytes c' @ [7])) tp) tlen [0x74] \<and>
     points_to (map_option (\<lambda>i. drop i (packet_bytes c' @ [7])) dp) dlen [1, 2] \<and>
     mqtt_get_total_length (packet_bytes c' @ [7]) 20 = Some (int (length (packet_bytes c')))"
  by (rule publish_roundtrip)
    (simp_all add: conn64, simp_all add: conn64_def mqtt_msg_init_def length_packet
      length_publish_body varint_short)

text \<open>
  An identifier is lost when the payload is empty: \<open>mqtt_get_id\<close> of a complete PUBLISH gives
  its identifier if there is a payload, but 0 if there is none, also for QoS 1 and 2 (the check
  \<open>i + 2 >= length\<close> should be \<open>>\<close>). So a broker's QoS 1 message with an empty payload would be
  acknowledged under a fresh, wrong identifier if it ended at the given length.
\<close>

lemma publish_id:
  assumes "topic \<noteq> []" and "length topic < 65536" and "qos = 1 \<or> qos = 2"
    and "unat len = length (packet (header_byte 3 0 (int qos) retain) (publish_body topic qos mid data))"
  shows "mqtt_get_id (packet (header_byte 3 0 (int qos) retain) (publish_body topic qos mid data) @ rest) len =
           Some (if data = [] then 0 else mid)"
proof -
  have t: "hdr_type (header_byte 3 0 a b) = 3" if "a \<in> {1, 2}" "b \<in> {0, 1}" for a b
    using that by (elim insertE emptyE; hypsubst; code_simp)
  have r: "retain AND 1 = 0 \<or> retain AND 1 = 1" by (simp add: and_one_eq mod2_eq_if)
  have "header_byte 3 0 (int qos) retain = header_byte 3 0 (int qos) (retain AND 1)"
    by (simp add: header_byte_def and.assoc)
  with t [of "int qos" "retain AND 1"] r assms(3)
  have "hdr_type (header_byte 3 0 (int qos) retain) = msg_type PUBLISH" by auto
  moreover have "hdr_qos (header_byte 3 0 (int qos) retain) = int qos"
    using assms(3) by (intro hdr_qos_publish) auto
  ultimately show ?thesis
    using mqtt_get_id_publish [OF assms(1,2) eq_imp_le [OF assms(4) [symmetric]]] assms(3,4) by auto
qed

lemma publish_id_witness:
  "mqtt_get_id (packet (header_byte 3 0 (int 1) 0) (publish_body [0x74] 1 77 []) @ [5]) 7 =
     Some (if ([] :: u8 list) = [] then 0 else 77)"
  by (rule publish_id) (simp_all add: length_packet length_publish_body varint_short)

text \<open>
  Message identifiers: starting from 0, the n-th identifier that \<open>append_message_id\<close> assigns
  is n up to 65535, and after 65535 comes 1 again. So 0 is never used and 65535 consecutive
  packets have different identifiers.
\<close>

lemma message_ids:
  "(k \<le> 65535 \<longrightarrow> (next_id ^^ k) 0 = of_nat k) \<and> next_id 65535 = 1 \<and>
   assign_message_id 0 cid = (next_id cid, next_id cid) \<and> next_id cid \<noteq> 0"
proof -
  have "k \<le> 65535 \<longrightarrow> (next_id ^^ k) 0 = (of_nat k :: u16)"
  proof (induction k)
    case (Suc k)
    have e: "(of_nat k + 1 :: u16) = of_nat (Suc k)" by (simp add: add.commute)
    have "(of_nat (Suc k) :: u16) \<noteq> 0" if "Suc k \<le> 65535"
    proof
      assume z: "(of_nat (Suc k) :: u16) = 0"
      have "unat (of_nat (Suc k) :: u16) = take_bit LENGTH(16) (Suc k)" by (simp add: unsigned_of_nat del: of_nat_Suc)
      also have "\<dots> = Suc k" using that by (intro take_bit_nat_eq_self) simp
      finally show False unfolding z by simp
    qed
    then have "next_id (of_nat k) = of_nat (Suc k)" if "Suc k \<le> 65535"
      using that unfolding next_id_def e by (simp only: if_False)
    with Suc show ?case by (auto simp del: of_nat_Suc)
  qed simp
  moreover have "next_id 65535 = 1" by code_simp
  ultimately show ?thesis by (simp add: assign_message_id_next next_id_not_0)
qed

end
