(* ===== verification/Ringbuf.thy ===== *)
theory Ringbuf
  imports Prelude
begin

text \<open>
  The byte ring buffer of \<open>src/mqtt/ringbuf.c\<close> and \<open>src/mqtt/include/ringbuf.h\<close>. The record
  has the fields of the C struct; \<open>p_o\<close> is the block the origin pointer points to and
  \<open>p_r\<close>, \<open>p_w\<close> are the read and write pointers as offsets from it. \<open>fill_cnt\<close> and
  \<open>rb_size\<close> are the signed 32-bit fields; they never overflow because a put increments
  \<open>fill_cnt\<close> only below \<open>rb_size\<close>. The abstraction \<open>rb_contents\<close> is the list of the
  stored bytes, oldest first, and the invariant \<open>rb_wf\<close> relates it to the pointers.
\<close>

record ringbuf =
  p_o :: "u8 list"
  p_r :: nat
  p_w :: nat
  fill_cnt :: int
  rb_size :: int

text \<open>The buffer argument is \<open>None\<close> when the caller passes NULL.\<close>

definition RINGBUF_Init :: "ringbuf \<Rightarrow> u8 list option \<Rightarrow> int \<Rightarrow> int \<times> ringbuf" where
  "RINGBUF_Init r buf sz =
     (case buf of
        None \<Rightarrow> (-1, r)
      | Some m \<Rightarrow>
          if sz < 2 then (-1, r)
          else (0, r\<lparr>p_o := m, p_r := 0, p_w := 0, fill_cnt := 0, rb_size := sz\<rparr>))"

definition RINGBUF_Put :: "ringbuf \<Rightarrow> u8 \<Rightarrow> (int \<times> ringbuf) option" where
  "RINGBUF_Put r c =
     (if fill_cnt r \<ge> rb_size r then Some (-1, r)
      else do {
        let r1 = r\<lparr>fill_cnt := fill_cnt r + 1\<rparr>;
        m \<leftarrow> wr (p_o r1) (p_w r1) c;
        let r2 = r1\<lparr>p_o := m, p_w := Suc (p_w r1)\<rparr>;
        let r3 = (if int (p_w r2) \<ge> rb_size r2 then r2\<lparr>p_w := 0\<rparr> else r2);
        Some (0, r3)
      })"

text \<open>The third argument and the second result are the byte behind the out-pointer.\<close>

definition RINGBUF_Get :: "ringbuf \<Rightarrow> u8 \<Rightarrow> (int \<times> u8 \<times> ringbuf) option" where
  "RINGBUF_Get r c =
     (if fill_cnt r \<le> 0 then Some (-1, c, r)
      else do {
        let r1 = r\<lparr>fill_cnt := fill_cnt r - 1\<rparr>;
        v \<leftarrow> rd (p_o r1) (p_r r1);
        let r2 = r1\<lparr>p_r := Suc (p_r r1)\<rparr>;
        let r3 = (if int (p_r r2) \<ge> rb_size r2 then r2\<lparr>p_r := 0\<rparr> else r2);
        Some (0, v, r3)
      })"

text \<open>A ring struct of zeroed memory, as it is before a successful initialisation.\<close>

definition rb_zero :: ringbuf where
  "rb_zero = \<lparr>p_o = [], p_r = 0, p_w = 0, fill_cnt = 0, rb_size = 0\<rparr>"

section \<open>Abstraction and invariant\<close>

definition rb_contents :: "ringbuf \<Rightarrow> u8 list" where
  "rb_contents r =
     map (\<lambda>k. p_o r ! ((p_r r + k) mod length (p_o r))) [0..<nat (fill_cnt r)]"

definition rb_capacity :: "ringbuf \<Rightarrow> nat" where
  "rb_capacity r = nat (rb_size r)"

definition rb_wf :: "ringbuf \<Rightarrow> bool" where
  "rb_wf r \<longleftrightarrow>
     int (length (p_o r)) = rb_size r \<and> 0 \<le> fill_cnt r \<and> fill_cnt r \<le> rb_size r \<and>
     (0 < rb_size r \<longrightarrow>
        p_r r < length (p_o r) \<and>
        p_w r = (p_r r + nat (fill_cnt r)) mod length (p_o r))"

lemma length_rb_contents [simp]: "length (rb_contents r) = nat (fill_cnt r)"
  by (simp add: rb_contents_def)

lemma rb_wf_zero: "rb_wf rb_zero"
  by (simp add: rb_wf_def rb_zero_def)

lemma rb_wf_Put:
  assumes wf: "rb_wf r" and space: "fill_cnt r < rb_size r"
  shows "\<exists>r'. RINGBUF_Put r c = Some (0, r') \<and> rb_wf r' \<and>
           rb_contents r' = rb_contents r @ [c] \<and> rb_size r' = rb_size r"
proof -
  let ?n = "length (p_o r)" and ?f = "nat (fill_cnt r)"
  from wf space have n: "int ?n = rb_size r" "0 < rb_size r" and f: "?f < ?n"
    and pw: "p_w r = (p_r r + ?f) mod ?n" and pr: "p_r r < ?n" and f0: "0 \<le> fill_cnt r"
    by (auto simp: rb_wf_def)
  have np: "0 < ?n" using pr by linarith
  have pwn: "p_w r < ?n" unfolding pw by (rule mod_less_divisor [OF np])
  define pw' where "pw' = (if int (Suc (p_w r)) \<ge> rb_size r then 0 else Suc (p_w r))"
  define r' where
    "r' = r\<lparr>fill_cnt := fill_cnt r + 1, p_o := (p_o r)[p_w r := c], p_w := pw'\<rparr>"
  have put: "RINGBUF_Put r c = Some (0, r')"
    using space pwn by (simp add: RINGBUF_Put_def r'_def pw'_def mem_simps Let_def)
  have "pw' = Suc (p_w r) mod ?n"
    using pwn n by (auto simp: pw'_def mod_Suc)
  then have "pw' = (p_r r + Suc ?f) mod ?n"
    by (simp add: pw mod_Suc_eq)
  then have wf': "rb_wf r'"
    using wf space f0 by (simp add: rb_wf_def r'_def nat_add_distrib)
  have idx: "(p_r r + k) mod ?n \<noteq> p_w r" if "k < ?f" for k
    using ring_index_distinct [OF that f, of "p_r r"] pw by simp
  have kept: "(p_o r)[p_w r := c] ! ((p_r r + k) mod ?n) = p_o r ! ((p_r r + k) mod ?n)"
    if "k < ?f" for k
    using idx [OF that] by (metis nth_list_update_neq)
  have "rb_contents r' = rb_contents r @ [c]"
    using f0 kept pwn
    by (simp add: rb_contents_def r'_def nat_add_distrib pw [symmetric])
  with put wf' show ?thesis by (simp add: r'_def)
qed

lemma rb_wf_Get:
  assumes wf: "rb_wf r" and ne: "0 < fill_cnt r"
  shows "\<exists>r'. RINGBUF_Get r x = Some (0, hd (rb_contents r), r') \<and> rb_wf r' \<and>
           rb_contents r' = tl (rb_contents r) \<and> rb_size r' = rb_size r"
proof -
  let ?n = "length (p_o r)" and ?f = "nat (fill_cnt r)"
  from wf ne have n: "int ?n = rb_size r" "0 < rb_size r"
    and pw: "p_w r = (p_r r + ?f) mod ?n" and pr: "p_r r < ?n"
    by (auto simp: rb_wf_def)
  obtain g where g: "?f = Suc g" using ne by (metis gr0_implies_Suc zero_less_nat_eq)
  define pr' where "pr' = (if int (Suc (p_r r)) \<ge> rb_size r then 0 else Suc (p_r r))"
  define r' where "r' = r\<lparr>fill_cnt := fill_cnt r - 1, p_r := pr'\<rparr>"
  have get: "RINGBUF_Get r x = Some (0, p_o r ! p_r r, r')"
    using ne pr by (simp add: RINGBUF_Get_def r'_def pr'_def mem_simps Let_def)
  have pr': "pr' = Suc (p_r r) mod ?n"
    using pr n by (auto simp: pr'_def mod_Suc)
  have nf: "nat (fill_cnt r - 1) = g" using g by simp
  have "(pr' + g) mod ?n = (p_r r + ?f) mod ?n"
    unfolding pr' g by (simp add: mod_simps)
  moreover have "pr' < ?n"
    unfolding pr' using pr by (intro mod_less_divisor) linarith
  ultimately have wf': "rb_wf r'"
    using wf ne pw nf by (simp add: rb_wf_def r'_def)
  have map_split: "rb_contents r =
      p_o r ! p_r r # map (\<lambda>k. p_o r ! ((p_r r + Suc k) mod ?n)) [0..<g]"
    using pr by (simp add: rb_contents_def g map_upt_Suc del: upt_Suc)
  have "(pr' + k) mod ?n = (p_r r + Suc k) mod ?n" for k
    unfolding pr' by (simp add: mod_simps)
  then have "rb_contents r' = tl (rb_contents r)"
    unfolding map_split by (simp add: rb_contents_def r'_def nf)
  with get wf' map_split show ?thesis by (simp add: r'_def)
qed

interpretation ring: bounded_fifo RINGBUF_Put RINGBUF_Get rb_contents rb_capacity rb_wf
proof unfold_locales
  fix q :: ringbuf and x
  assume "rb_wf q" and "length (rb_contents q) < rb_capacity q"
  then have "fill_cnt q < rb_size q"
    by (auto simp: rb_capacity_def rb_wf_def)
  from rb_wf_Put [OF \<open>rb_wf q\<close> this, of x]
  show "\<exists>q'. RINGBUF_Put q x = Some (0, q') \<and> rb_wf q' \<and>
          rb_contents q' = rb_contents q @ [x] \<and> rb_capacity q' = rb_capacity q"
    by (auto simp: rb_capacity_def)
next
  fix q :: ringbuf and x
  assume "rb_wf q" and "rb_capacity q \<le> length (rb_contents q)"
  then show "RINGBUF_Put q x = Some (-1, q)"
    by (auto simp: rb_capacity_def rb_wf_def RINGBUF_Put_def)
next
  fix q :: ringbuf and x y ys
  assume wf: "rb_wf q" and ne: "rb_contents q = y # ys"
  then have "length (rb_contents q) \<noteq> 0" by simp
  then have "0 < fill_cnt q" by simp
  from rb_wf_Get [OF wf this, of x] ne
  show "\<exists>q'. RINGBUF_Get q x = Some (0, y, q') \<and> rb_wf q' \<and>
          rb_contents q' = ys \<and> rb_capacity q' = rb_capacity q"
    by (auto simp: rb_capacity_def)
next
  fix q :: ringbuf and x
  assume "rb_wf q" and "rb_contents q = []"
  then have "length (rb_contents q) = 0" and "0 \<le> fill_cnt q"
    by (simp_all add: rb_wf_def)
  then show "RINGBUF_Get q x = Some (-1, x, q)"
    by (simp add: RINGBUF_Get_def)
next
  fix q :: ringbuf
  assume "rb_wf q"
  then show "length (rb_contents q) \<le> rb_capacity q"
    by (auto simp: rb_capacity_def rb_wf_def intro: nat_mono)
qed

lemma rb_Init_ok:
  assumes "2 \<le> sz" and "int (length m) = sz"
  shows "\<exists>r'. RINGBUF_Init r (Some m) sz = (0, r') \<and> rb_wf r' \<and>
           rb_contents r' = [] \<and> rb_size r' = sz"
  using assms by (auto simp: RINGBUF_Init_def rb_wf_def rb_contents_def)

lemma Get_fill_decreases:
  "RINGBUF_Get r x = Some (ret, c, r') \<Longrightarrow> ret = 0 \<Longrightarrow> nat (fill_cnt r') < nat (fill_cnt r)"
  by (auto simp: RINGBUF_Get_def Let_def bind_eq_Some_conv split: if_splits)

end
