(* ===== verification/Proto.thy ===== *)
theory Proto
  imports Ringbuf
begin

text \<open>
  The byte-stuffing protocol of \<open>src/mqtt/proto.c\<close> (header \<open>proto.h\<close>): a message is
  framed between 0x7E and 0x7F, and 0x7D, 0x7E, 0x7F inside it are sent as 0x7D followed by
  the byte with bit 5 flipped. The first part translates the parser and the three encoders;
  the second gives the abstract view (\<open>frame\<close>, \<open>messages\<close>) and proves that the
  encoder and the parser over the ring buffer implement it.
\<close>

section \<open>The parser\<close>

text \<open>\<open>callback\<close> says whether the callback pointer is not NULL.\<close>

record proto_parser =
  pp_buf :: "u8 list"
  bufSize :: u16
  dataLen :: u16
  isEsc :: u8
  isBegin :: u8
  callback :: bool

text \<open>
  The C function does not set \<open>isBegin\<close>: the field keeps what the memory held before.
\<close>

definition PROTO_Init :: "proto_parser \<Rightarrow> bool \<Rightarrow> u8 list \<Rightarrow> u16 \<Rightarrow> u8 \<times> proto_parser" where
  "PROTO_Init parser completeCallback buf sz =
     (0, parser\<lparr>pp_buf := buf, bufSize := sz, dataLen := 0,
                callback := completeCallback, isEsc := 0\<rparr>)"

text \<open>The result is the returned I8, whether the callback was called, and the parser.\<close>

definition PROTO_ParseByte :: "proto_parser \<Rightarrow> u8 \<Rightarrow> (u8 \<times> bool \<times> proto_parser) option" where
  "PROTO_ParseByte parser value =
     (if value = 0x7D then Some (-1, False, parser\<lparr>isEsc := 1\<rparr>)
      else if value = 0x7E then
        Some (-1, False, parser\<lparr>dataLen := 0, isEsc := 0, isBegin := 1\<rparr>)
      else if value = 0x7F then Some (0, callback parser, parser\<lparr>isBegin := 0\<rparr>)
      else if isBegin parser = 0 then Some (-1, False, parser)
      else do {
        let (value, parser) =
          (if isEsc parser \<noteq> 0 then (value XOR 0x20, parser\<lparr>isEsc := 0\<rparr>)
           else (value, parser));
        if dataLen parser < bufSize parser then do {
          b \<leftarrow> wr (pp_buf parser) (unat (dataLen parser)) value;
          Some (-1, False, parser\<lparr>pp_buf := b, dataLen := dataLen parser + 1\<rparr>)
        } else Some (-1, False, parser)
      })"

text \<open>The loop of \<open>PROTO_Parse\<close>, with the number of callbacks made so far.\<close>

fun PROTO_Parse_loop :: "proto_parser \<Rightarrow> u8 list \<Rightarrow> nat \<Rightarrow> nat \<Rightarrow> (nat \<times> proto_parser) option" where
  "PROTO_Parse_loop parser buf 0 calls = Some (calls, parser)"
| "PROTO_Parse_loop parser [] (Suc len) calls = None"
| "PROTO_Parse_loop parser (b # buf) (Suc len) calls =
     do {
       (_, called, parser') \<leftarrow> PROTO_ParseByte parser b;
       PROTO_Parse_loop parser' buf len (if called then Suc calls else calls)
     }"

definition PROTO_Parse :: "proto_parser \<Rightarrow> u8 list \<Rightarrow> u16 \<Rightarrow> (u8 \<times> nat \<times> proto_parser) option" where
  "PROTO_Parse parser buf len =
     do { (calls, parser') \<leftarrow> PROTO_Parse_loop parser buf (unat len) 0; Some (0, calls, parser') }"

text \<open>
  The loop of \<open>PROTO_ParseRb\<close>: \<open>True\<close> when a frame ended, \<open>False\<close> when the ring is empty.
\<close>

function ParseRb_loop :: "proto_parser \<Rightarrow> ringbuf \<Rightarrow> u8 \<Rightarrow> (bool \<times> proto_parser \<times> ringbuf) option" where
  "ParseRb_loop proto rb c =
     (case RINGBUF_Get rb c of
        None \<Rightarrow> None
      | Some (g, c', rb') \<Rightarrow>
          if g = 0 then
            (case PROTO_ParseByte proto c' of
               None \<Rightarrow> None
             | Some (r, _, proto') \<Rightarrow>
                 if r = 0 then Some (True, proto', rb') else ParseRb_loop proto' rb' c')
          else Some (False, proto, rb'))"
  by pat_completeness auto
termination
  by (relation "measure (\<lambda>(p, rb, c). nat (fill_cnt rb))") (auto dest: Get_fill_decreases)

declare ParseRb_loop.simps [simp del]

text \<open>
  \<open>junk\<close> is the uninitialised parser struct on the stack; \<open>c\<close> is written before it is
  read. The results are the return value, the bytes of \<open>bufOut\<close>, the value behind \<open>len\<close>
  and the ring.
\<close>

definition PROTO_ParseRb ::
  "proto_parser \<Rightarrow> ringbuf \<Rightarrow> u8 list \<Rightarrow> u16 \<Rightarrow> u16 \<Rightarrow> (int \<times> u8 list \<times> u16 \<times> ringbuf) option" where
  "PROTO_ParseRb junk rb bufOut len maxBufLen =
     do {
       let proto = snd (PROTO_Init junk False bufOut maxBufLen);
       (done, proto', rb') \<leftarrow> ParseRb_loop proto rb 0;
       Some (if done then (0, pp_buf proto', dataLen proto', rb')
             else (-1, pp_buf proto', len, rb'))
     }"

section \<open>The encoders\<close>

text \<open>
  The loop of \<open>PROTO_Add\<close>: \<open>j\<close> is the write position in \<open>buf\<close>, \<open>packet\<close> the bytes
  from the read position on.
\<close>

fun PROTO_Add_loop ::
  "u8 list \<Rightarrow> nat \<Rightarrow> u8 list \<Rightarrow> nat \<Rightarrow> int \<Rightarrow> u16 \<Rightarrow> (int \<times> u8 list) option" where
  "PROTO_Add_loop buf j packet 0 bufSz i =
     (if bufSz < 1 then Some (-1, buf)
      else do { buf' \<leftarrow> wr buf j 0x7F; Some (sint i, buf') })"
| "PROTO_Add_loop buf j [] (Suc len) bufSz i = None"
| "PROTO_Add_loop buf j (b # packet) (Suc len) bufSz i =
     (if b = 0x7D \<or> b = 0x7E \<or> b = 0x7F then
        (if bufSz < 2 then Some (-1, buf)
         else do {
           buf1 \<leftarrow> wr buf j 0x7D;
           buf2 \<leftarrow> wr buf1 (Suc j) (b XOR 0x20);
           PROTO_Add_loop buf2 (j + 2) packet len (bufSz - 2) (i + 2)
         })
      else
        (if bufSz < 1 then Some (-1, buf)
         else do {
           buf1 \<leftarrow> wr buf j b;
           PROTO_Add_loop buf1 (Suc j) packet len (bufSz - 1) (i + 1)
         }))"

text \<open>The length is the 16-bit little-endian number the packet starts with.\<close>

definition PROTO_Add :: "u8 list \<Rightarrow> u8 list \<Rightarrow> int \<Rightarrow> (int \<times> u8 list) option" where
  "PROTO_Add buf packet bufSz =
     do {
       lo \<leftarrow> rd packet 0;
       hi \<leftarrow> rd packet 1;
       let len = (ucast lo :: u16) OR push_bit 8 (ucast hi);
       if bufSz < 1 then Some (-1, buf)
       else do {
         buf1 \<leftarrow> wr buf 0 0x7E;
         PROTO_Add_loop buf1 1 packet (unat len) (bufSz - 1) 2
       }
     }"

fun AddRb_loop :: "ringbuf \<Rightarrow> u8 list \<Rightarrow> nat \<Rightarrow> u16 \<Rightarrow> (int \<times> ringbuf) option" where
  "AddRb_loop rb packet 0 i =
     do {
       (r, rb') \<leftarrow> RINGBUF_Put rb 0x7F;
       if r = -1 then Some (-1, rb') else Some (sint i, rb')
     }"
| "AddRb_loop rb [] (Suc len) i = None"
| "AddRb_loop rb (b # packet) (Suc len) i =
     (if b = 0x7D \<or> b = 0x7E \<or> b = 0x7F then do {
        (r1, rb1) \<leftarrow> RINGBUF_Put rb 0x7D;
        if r1 = -1 then Some (-1, rb1)
        else do {
          (r2, rb2) \<leftarrow> RINGBUF_Put rb1 (b XOR 0x20);
          if r2 = -1 then Some (-1, rb2)
          else AddRb_loop rb2 packet len (i + 2)
        }
      } else do {
        (r1, rb1) \<leftarrow> RINGBUF_Put rb b;
        if r1 = -1 then Some (-1, rb1)
        else AddRb_loop rb1 packet len (i + 1)
      })"

text \<open>
  \<open>len\<close> is an I16 counted down to zero with wrap-around, so the loop runs
  \<open>unat len\<close> times. The counter \<open>i\<close> is a U16 returned as an I16.
\<close>

definition PROTO_AddRb :: "ringbuf \<Rightarrow> u8 list \<Rightarrow> u16 \<Rightarrow> (int \<times> ringbuf) option" where
  "PROTO_AddRb rb packet len =
     do {
       (r, rb1) \<leftarrow> RINGBUF_Put rb 0x7E;
       if r = -1 then Some (-1, rb1) else AddRb_loop rb1 packet (unat len) 2
     }"

section \<open>The abstract protocol: frames and the messages of a byte stream\<close>

definition esc_byte :: "u8 \<Rightarrow> u8 list" where
  "esc_byte b = (if b = 0x7D \<or> b = 0x7E \<or> b = 0x7F then [0x7D, b XOR 0x20] else [b])"

definition escape :: "u8 list \<Rightarrow> u8 list" where
  "escape m = concat (map esc_byte m)"

definition frame :: "u8 list \<Rightarrow> u8 list" where
  "frame m = 0x7E # escape m @ [0x7F]"

fun deframe :: "u8 list \<Rightarrow> bool \<Rightarrow> u8 list \<Rightarrow> u8 list list" where
  "deframe acc e [] = []"
| "deframe acc e (x # xs) =
     (if x = 0x7D then deframe acc True xs
      else if x = 0x7E then deframe [] False xs
      else if x = 0x7F then acc # deframe [] False xs
      else deframe (acc @ [if e then x XOR 0x20 else x]) False xs)"

definition messages :: "u8 list \<Rightarrow> u8 list list" where
  "messages xs = deframe [] False xs"

text \<open>
  A stream is in sync when every frame starts with 0x7E: at the start and after every 0x7F.
\<close>

fun in_sync :: "bool \<Rightarrow> u8 list \<Rightarrow> bool" where
  "in_sync start [] = True"
| "in_sync start (x # xs) = ((start \<longrightarrow> x = 0x7E) \<and> in_sync (x = 0x7F) xs)"

lemma escape_Nil [simp]: "escape [] = []"
  by (simp add: escape_def)

lemma escape_Cons [simp]: "escape (b # m) = esc_byte b @ escape m"
  by (simp add: escape_def)

lemma esc_byte_no_end: "0x7F \<notin> set (esc_byte b)" and esc_byte_no_start: "0x7E \<notin> set (esc_byte b)"
  by (auto simp: esc_byte_def)

lemma escape_no_end: "0x7F \<notin> set (escape m)"
  by (induction m) (auto simp: esc_byte_no_end)

lemma xor_20_twice: "(b :: u8) XOR 0x20 XOR 0x20 = b"
  by (simp add: xor.assoc)

lemma deframe_esc_byte: "deframe acc False (esc_byte b @ ys) = deframe (acc @ [b]) False ys"
  by (auto simp: esc_byte_def)

lemma deframe_escape: "deframe acc False (escape m @ ys) = deframe (acc @ m) False ys"
  by (induction m arbitrary: acc) (simp_all add: deframe_esc_byte)

lemma messages_frame: "messages (frame m @ ys) = m # messages ys"
  by (simp add: messages_def frame_def deframe_escape)

lemma deframe_restart:
  "deframe acc e (xs @ 0x7E # ys) = deframe acc e xs @ messages (0x7E # ys)"
  by (induction acc e xs rule: deframe.induct) (simp_all add: messages_def)

lemma messages_append_frame: "messages (xs @ frame m) = messages xs @ [m]"
proof -
  have "messages (xs @ frame m) = messages xs @ messages (frame m @ [])"
    unfolding frame_def by (simp add: messages_def deframe_restart)
  then show ?thesis by (simp only: messages_frame) (simp add: messages_def)
qed

lemma deframe_no_end: "0x7F \<notin> set xs \<Longrightarrow> deframe acc e xs = []"
  by (induction acc e xs rule: deframe.induct) auto

lemma take_frame_no_end: "k < length (frame m) \<Longrightarrow> 0x7F \<notin> set (take k (frame m))"
  using escape_no_end [of m]
  by (cases k) (auto simp: frame_def dest: in_set_takeD)

lemma messages_append_part:
  assumes "k < length (frame m)"
  shows "messages (xs @ take k (frame m)) = messages xs"
proof (cases k)
  case 0
  then show ?thesis by simp
next
  case (Suc j)
  have "messages (take k (frame m)) = []"
    unfolding messages_def by (rule deframe_no_end [OF take_frame_no_end [OF assms]])
  with Suc show ?thesis
    by (simp add: frame_def messages_def deframe_restart)
qed

lemma in_sync_append:
  "in_sync s (xs @ ys) = (in_sync s xs \<and> in_sync (if xs = [] then s else last xs = 0x7F) ys)"
  by (induction s xs rule: in_sync.induct) auto

lemma in_sync_no_end: "0x7F \<notin> set xs \<Longrightarrow> in_sync False xs"
proof (induction xs)
  case (Cons x xs)
  then show ?case by auto
qed simp

lemma in_sync_start: "in_sync s xs \<Longrightarrow> in_sync False xs"
  by (cases xs) auto

lemma in_sync_frame: "in_sync s (frame m)"
proof -
  have "last (escape m) \<noteq> 0x7F" if "escape m \<noteq> []"
    using last_in_set [OF that] escape_no_end [of m] by auto
  then have "in_sync False (escape m @ [0x7F])"
    using in_sync_no_end [OF escape_no_end, of m] by (simp add: in_sync_append)
  then show ?thesis by (simp add: frame_def)
qed

lemma in_sync_take: "in_sync s xs \<Longrightarrow> in_sync s (take k xs)"
  by (metis append_take_drop_id in_sync_append)

lemma in_sync_append_frame_part:
  "in_sync s xs \<Longrightarrow> in_sync s (xs @ take k (frame m))"
  by (simp add: in_sync_append in_sync_take in_sync_frame)

section \<open>The encoder over the ring buffer\<close>

lemma put_list_append:
  "put_list put q (xs @ ys) =
     (case put_list put q xs of
        None \<Rightarrow> None
      | Some (r, q') \<Rightarrow> if r = -1 then Some (-1, q') else put_list put q' ys)"
  by (induction put q xs rule: put_list.induct)
    (auto split: option.splits Option.bind_splits)

lemma AddRb_loop_put_list:
  "len \<le> length packet \<Longrightarrow>
     AddRb_loop rb packet len i =
       (case put_list RINGBUF_Put rb (escape (take len packet) @ [0x7F]) of
          None \<Rightarrow> None
        | Some (r, rb') \<Rightarrow>
            if r = -1 then Some (-1, rb')
            else Some (sint (i + of_nat (length (escape (take len packet)))), rb'))"
proof (induction rb packet len i rule: AddRb_loop.induct)
  case (1 rb packet i)
  then show ?case by (auto split: bind_splits option.splits)
next
  case (2 rb len i)
  then show ?case by simp
next
  case (3 rb b packet len i)
  have len: "len \<le> length packet" using "3.prems" by simp
  show ?case
  proof (cases "b = 0x7D \<or> b = 0x7E \<or> b = 0x7F")
    case True
    note IH = "3.IH"(1) [OF True _ refl _ _ refl _ len]
    show ?thesis
    proof (cases "RINGBUF_Put rb 0x7D")
      case None
      with True show ?thesis by (simp add: esc_byte_def)
    next
      case (Some a)
      obtain r1 rb1 where a: "a = (r1, rb1)" by (cases a)
      show ?thesis
      proof (cases "r1 = -1 \<or> RINGBUF_Put rb1 (b XOR 0x20) = None")
        case True
        with Some a \<open>b = _ \<or> _\<close> show ?thesis by (auto simp: esc_byte_def)
      next
        case False
        then obtain r2 rb2 where "RINGBUF_Put rb1 (b XOR 0x20) = Some (r2, rb2)" by auto
        with IH Some a False \<open>b = _ \<or> _\<close> show ?thesis
          by (auto simp: esc_byte_def add.assoc split: option.split)
      qed
    qed
  next
    case False
    note IH = "3.IH"(2) [OF False _ refl _ len]
    show ?thesis
    proof (cases "RINGBUF_Put rb b")
      case None
      with False show ?thesis by (simp add: esc_byte_def)
    next
      case (Some a)
      obtain r1 rb1 where "a = (r1, rb1)" by (cases a)
      with IH Some False show ?thesis
        by (auto simp: esc_byte_def add.assoc split: option.split)
    qed
  qed
qed

lemma length_frame: "length (frame m) = Suc (Suc (length (escape m)))"
  by (simp add: frame_def)

lemma length_escape_le: "length (escape m) \<le> 2 * length m"
proof (induction m)
  case (Cons b m)
  have "length (esc_byte b) \<le> 2" by (simp add: esc_byte_def)
  with Cons show ?case by simp
qed simp

lemma length_frame_le: "length (frame m) \<le> 2 * length m + 2"
  using length_escape_le [of m] by (simp add: length_frame)

lemma AddRb_put_list:
  assumes "unat len \<le> length packet"
  shows "PROTO_AddRb rb packet len =
       (case put_list RINGBUF_Put rb (frame (take (unat len) packet)) of
          None \<Rightarrow> None
        | Some (r, rb') \<Rightarrow>
            if r = -1 then Some (-1, rb')
            else Some (sint (of_nat (length (frame (take (unat len) packet))) :: u16), rb'))"
  by (auto simp: PROTO_AddRb_def AddRb_loop_put_list [OF assms] frame_def
      split: bind_splits option.splits)

text \<open>The two outcomes of the encoder, by the interface lemmas of the ring.\<close>

lemma AddRb_fits:
  assumes "rb_wf rb" and "unat len \<le> length packet"
    and "length (rb_contents rb) + length (frame (take (unat len) packet)) \<le> rb_capacity rb"
    and "rb_capacity rb < 2 ^ 15"
  shows "\<exists>rb'. PROTO_AddRb rb packet len =
             Some (int (length (frame (take (unat len) packet))), rb') \<and>
           rb_wf rb' \<and> rb_capacity rb' = rb_capacity rb \<and>
           rb_contents rb' = rb_contents rb @ frame (take (unat len) packet)"
proof -
  let ?n = "length (frame (take (unat len) packet))"
  from assms have "?n < 2 ^ 15" by linarith
  then have "sint (of_nat ?n :: u16) = int ?n"
    by (simp add: signed_of_nat signed_take_bit_int_eq_self)
  with ring.put_list_fits [OF assms(1,3)] show ?thesis
    by (auto simp: AddRb_put_list [OF assms(2)])
qed

lemma AddRb_overflows:
  assumes "rb_wf rb" and "unat len \<le> length packet"
    and "rb_capacity rb < length (rb_contents rb) + length (frame (take (unat len) packet))"
  shows "\<exists>rb'. PROTO_AddRb rb packet len = Some (-1, rb') \<and>
           rb_wf rb' \<and> rb_capacity rb' = rb_capacity rb \<and>
           rb_contents rb' = rb_contents rb @
             take (rb_capacity rb - length (rb_contents rb)) (frame (take (unat len) packet))"
  using ring.put_list_overflows [OF assms(1,3)] by (auto simp: AddRb_put_list [OF assms(2)])

section \<open>The parser over the ring buffer\<close>

text \<open>
  \<open>parser_at p acc e\<close>: inside a frame, the parser has read the payload \<open>acc\<close> (kept up to
  \<open>bufSize\<close> bytes) and \<open>e\<close> says whether the last byte was the escape.
\<close>

definition parser_at :: "proto_parser \<Rightarrow> u8 list \<Rightarrow> bool \<Rightarrow> bool" where
  "parser_at p acc e \<longleftrightarrow>
     isBegin p \<noteq> 0 \<and> (isEsc p \<noteq> 0) = e \<and> unat (bufSize p) \<le> length (pp_buf p) \<and>
     unat (dataLen p) = min (length acc) (unat (bufSize p)) \<and>
     take (unat (dataLen p)) (pp_buf p) = take (unat (bufSize p)) acc"

definition same_out :: "proto_parser \<Rightarrow> proto_parser \<Rightarrow> bool" where
  "same_out p p' \<longleftrightarrow> bufSize p' = bufSize p \<and> length (pp_buf p') = length (pp_buf p)"

lemma same_out_refl [simp]: "same_out p p"
  by (simp add: same_out_def)

lemma same_out_trans: "same_out p q \<Longrightarrow> same_out q r \<Longrightarrow> same_out p r"
  by (simp add: same_out_def)

lemma ParseByte_safe:
  assumes "unat (bufSize p) \<le> length (pp_buf p)"
  shows "\<exists>r called p'. PROTO_ParseByte p x = Some (r, called, p') \<and>
           (r = 0) = (x = 0x7F) \<and> same_out p p'"
proof -
  have "unat (dataLen p) < length (pp_buf p)" if "dataLen p < bufSize p"
    using that assms by (simp add: word_less_nat_alt)
  then show ?thesis
    by (auto simp: PROTO_ParseByte_def same_out_def Let_def mem_simps split: if_splits)
qed

lemma ParseByte_start:
  assumes "unat (bufSize p) \<le> length (pp_buf p)"
  shows "\<exists>p'. PROTO_ParseByte p 0x7E = Some (-1, False, p') \<and> parser_at p' [] False \<and> same_out p p'"
  using assms by (auto simp: PROTO_ParseByte_def parser_at_def same_out_def)

lemma ParseByte_data:
  assumes at: "parser_at p acc e" and x: "x \<notin> {0x7D, 0x7E, 0x7F}"
  shows "\<exists>p'. PROTO_ParseByte p x = Some (-1, False, p') \<and>
           parser_at p' (acc @ [if e then x XOR 0x20 else x]) False \<and> same_out p p'"
proof -
  let ?v = "if e then x XOR 0x20 else x" and ?d = "unat (dataLen p)"
  from at have d: "?d = min (length acc) (unat (bufSize p))"
    and buf: "unat (bufSize p) \<le> length (pp_buf p)"
    and pre: "take ?d (pp_buf p) = take (unat (bufSize p)) acc"
    by (auto simp: parser_at_def)
  show ?thesis
  proof (cases "dataLen p < bufSize p")
    case True
    then have lt: "?d < unat (bufSize p)" by (simp add: word_less_nat_alt)
    with d have len: "?d = length acc" by simp
    from True have suc: "unat (dataLen p + 1) = Suc ?d" by (rule unat_inc)
    have "take (Suc ?d) ((pp_buf p)[?d := ?v]) = acc @ [?v]"
      using pre len lt buf by (simp add: take_list_update_append)
    with at x True suc lt len buf show ?thesis
      by (auto simp: PROTO_ParseByte_def parser_at_def same_out_def mem_simps)
  next
    case False
    then have "unat (bufSize p) \<le> ?d" by (simp add: word_less_nat_alt)
    with at x False d show ?thesis
      by (auto simp: PROTO_ParseByte_def parser_at_def same_out_def)
  qed
qed

lemma ParseByte_escape:
  "parser_at p acc e \<Longrightarrow>
     \<exists>p'. PROTO_ParseByte p 0x7D = Some (-1, False, p') \<and> parser_at p' acc True \<and> same_out p p'"
  by (auto simp: PROTO_ParseByte_def parser_at_def same_out_def)

lemma ParseByte_end:
  "\<exists>p' called. PROTO_ParseByte p 0x7F = Some (0, called, p') \<and>
     pp_buf p' = pp_buf p \<and> dataLen p' = dataLen p \<and> same_out p p'"
  by (auto simp: PROTO_ParseByte_def same_out_def)

lemma ParseRb_loop_Get:
  assumes "RINGBUF_Get rb c = Some (0, x, rb1)" and "PROTO_ParseByte p x = Some (r, called, p1)"
  shows "ParseRb_loop p rb c =
           (if r = 0 then Some (True, p1, rb1) else ParseRb_loop p1 rb1 x)"
  using assms by (simp add: ParseRb_loop.simps [of p rb c])

lemma ParseRb_loop_drains:
  assumes "rb_wf rb" and "unat (bufSize p) \<le> length (pp_buf p)" and "0x7F \<notin> set (rb_contents rb)"
  shows "\<exists>p' rb'. ParseRb_loop p rb c = Some (False, p', rb') \<and> rb_wf rb' \<and>
           rb_contents rb' = [] \<and> rb_capacity rb' = rb_capacity rb \<and> same_out p p'"
  using assms
proof (induction "rb_contents rb" arbitrary: rb p c)
  case Nil
  then have "RINGBUF_Get rb c = Some (-1, c, rb)" by (simp add: ring.get_empty)
  then have "ParseRb_loop p rb c = Some (False, p, rb)"
    by (simp add: ParseRb_loop.simps [of p rb c])
  with Nil show ?case by auto
next
  case (Cons x xs)
  from Cons.hyps(2) obtain rb1 where rb1: "RINGBUF_Get rb c = Some (0, x, rb1)" "rb_wf rb1"
    "rb_contents rb1 = xs" "rb_capacity rb1 = rb_capacity rb"
    using ring.get_ok [OF \<open>rb_wf rb\<close>, of x xs c] by auto
  obtain r called p1 where p1: "PROTO_ParseByte p x = Some (r, called, p1)"
    "(r = 0) = (x = 0x7F)" "same_out p p1"
    using ParseByte_safe [OF Cons.prems(2), of x] by auto
  have "x \<noteq> 0x7F" and "0x7F \<notin> set xs" using Cons.prems(3) by (auto simp: Cons.hyps(2) [symmetric])
  have "unat (bufSize p1) \<le> length (pp_buf p1)"
    using Cons.prems(2) p1(3) by (simp add: same_out_def)
  with Cons.hyps(1) [of rb1 p1 x] rb1 \<open>0x7F \<notin> set xs\<close> obtain p' rb' where
    "ParseRb_loop p1 rb1 x = Some (False, p', rb')" "rb_wf rb'" "rb_contents rb' = []"
    "rb_capacity rb' = rb_capacity rb1" "same_out p1 p'"
    by auto
  then show ?case
    using ParseRb_loop_Get [OF rb1(1) p1(1)] p1 rb1(4) \<open>x \<noteq> 0x7F\<close>
    by (auto intro: same_out_trans)
qed

text \<open>A byte inside a frame, other than the final 0x7F, takes the parser where \<open>deframe\<close> is.\<close>

lemma ParseByte_inside:
  assumes at: "parser_at p acc e" and d: "deframe acc e (x # xs) = ms" and "x \<noteq> 0x7F"
  shows "\<exists>p1 acc1 e1. PROTO_ParseByte p x = Some (-1, False, p1) \<and> parser_at p1 acc1 e1 \<and>
           same_out p p1 \<and> deframe acc1 e1 xs = ms"
proof (cases "x \<in> {0x7D, 0x7E}")
  case True
  have "unat (bufSize p) \<le> length (pp_buf p)" using at by (simp add: parser_at_def)
  with True show ?thesis
    using ParseByte_escape [OF at] ParseByte_start d by auto blast+
next
  case False
  with assms(3) ParseByte_data [OF at, of x] d show ?thesis by (auto simp del: not_None_eq)
qed

text \<open>Inside a frame the loop reads up to 0x7F and leaves the decoded payload in the buffer.\<close>

lemma ParseRb_loop_frame:
  assumes "rb_wf rb" and "parser_at p acc e"
    and "deframe acc e (rb_contents rb) = m # ms"
  shows "\<exists>p' rb'. ParseRb_loop p rb c = Some (True, p', rb') \<and> rb_wf rb' \<and>
           rb_capacity rb' = rb_capacity rb \<and> same_out p p' \<and>
           messages (rb_contents rb') = ms \<and>
           (\<forall>s. in_sync s (rb_contents rb) \<longrightarrow> in_sync True (rb_contents rb')) \<and>
           unat (dataLen p') = min (length m) (unat (bufSize p)) \<and>
           take (unat (dataLen p')) (pp_buf p') = take (unat (bufSize p)) m"
  using assms
proof (induction "rb_contents rb" arbitrary: rb p c acc e)
  case Nil
  then show ?case by simp
next
  case (Cons x xs)
  from Cons.hyps(2) obtain rb1 where rb1: "RINGBUF_Get rb c = Some (0, x, rb1)" "rb_wf rb1"
    "rb_contents rb1 = xs" "rb_capacity rb1 = rb_capacity rb"
    using ring.get_ok [OF \<open>rb_wf rb\<close>, of x xs c] by auto
  show ?case
  proof (cases "x = 0x7F")
    case True
    obtain p' called where p': "PROTO_ParseByte p x = Some (0, called, p')"
      "pp_buf p' = pp_buf p" "dataLen p' = dataLen p" "same_out p p'"
      using ParseByte_end [of p] True by auto
    from Cons.prems(3) Cons.hyps(2) [symmetric] True have "m = acc" "ms = messages xs"
      by (simp_all add: messages_def)
    with p' rb1 Cons.prems(2) True Cons.hyps(2) [symmetric] show ?thesis
      by (auto simp: ParseRb_loop_Get [OF rb1(1) p'(1)] parser_at_def)
  next
    case False
    have "deframe acc e (x # xs) = m # ms" using Cons.prems(3) Cons.hyps(2) by simp
    from ParseByte_inside [OF Cons.prems(2) this False] obtain p1 acc1 e1 where p1: "PROTO_ParseByte p x = Some (-1, False, p1)"
      "parser_at p1 acc1 e1" "same_out p p1" "deframe acc1 e1 xs = m # ms"
      by blast
    from Cons.hyps(1) [of rb1 p1 acc1 e1 x] rb1 p1 obtain p' rb' where
      "ParseRb_loop p1 rb1 x = Some (True, p', rb')" "rb_wf rb'"
      "rb_capacity rb' = rb_capacity rb1" "same_out p1 p'" "messages (rb_contents rb') = ms"
      "\<forall>s. in_sync s xs \<longrightarrow> in_sync True (rb_contents rb')"
      "unat (dataLen p') = min (length m) (unat (bufSize p1))"
      "take (unat (dataLen p')) (pp_buf p') = take (unat (bufSize p1)) m"
      by auto
    then show ?thesis
      using ParseRb_loop_Get [OF rb1(1) p1(1)] p1(3) rb1(4) Cons.hyps(2) [symmetric]
      by (auto intro: same_out_trans simp: same_out_def)
  qed
qed

lemma deframe_end: "0x7F \<in> set xs \<Longrightarrow> deframe acc e xs \<noteq> []"
  by (induction acc e xs rule: deframe.induct) auto

lemma ParseRb_none:
  assumes "rb_wf rb" and "messages (rb_contents rb) = []" and "unat maxLen \<le> length out"
  shows "\<exists>out' rb'. PROTO_ParseRb junk rb out len maxLen = Some (-1, out', len, rb') \<and>
           rb_wf rb' \<and> rb_contents rb' = [] \<and> rb_capacity rb' = rb_capacity rb \<and>
           length out' = length out"
proof -
  let ?p = "snd (PROTO_Init junk False out maxLen)"
  have "0x7F \<notin> set (rb_contents rb)"
    using assms(2) deframe_end unfolding messages_def by blast
  moreover have "unat (bufSize ?p) \<le> length (pp_buf ?p)"
    using assms(3) by (simp add: PROTO_Init_def)
  ultimately show ?thesis
    using ParseRb_loop_drains [OF assms(1), of ?p 0]
    by (auto simp: PROTO_ParseRb_def same_out_def PROTO_Init_def Let_def)
qed

lemma ParseRb_message:
  assumes wf: "rb_wf rb" and sync: "in_sync True (rb_contents rb)"
    and msgs: "messages (rb_contents rb) = m # ms" and out: "unat maxLen \<le> length out"
  shows "\<exists>out' n rb'. PROTO_ParseRb junk rb out len maxLen = Some (0, out', n, rb') \<and>
           rb_wf rb' \<and> in_sync True (rb_contents rb') \<and> messages (rb_contents rb') = ms \<and>
           rb_capacity rb' = rb_capacity rb \<and> length out' = length out \<and>
           unat n = min (length m) (unat maxLen) \<and> take (unat n) out' = take (unat maxLen) m"
proof -
  let ?p = "snd (PROTO_Init junk False out maxLen)"
  obtain xs where xs: "rb_contents rb = 0x7E # xs"
    using sync msgs by (cases "rb_contents rb") (auto simp: messages_def)
  obtain rb1 where rb1: "RINGBUF_Get rb 0 = Some (0, 0x7E, rb1)" "rb_wf rb1"
    "rb_contents rb1 = xs" "rb_capacity rb1 = rb_capacity rb"
    using ring.get_ok [OF wf xs] by blast
  obtain p1 where p1: "PROTO_ParseByte ?p 0x7E = Some (-1, False, p1)"
    "parser_at p1 [] False" "same_out ?p p1"
    using ParseByte_start [of ?p] out by (auto simp: PROTO_Init_def)
  have "deframe [] False (rb_contents rb1) = m # ms"
    using msgs xs rb1(3) by (simp add: messages_def)
  from ParseRb_loop_frame [OF rb1(2) p1(2) this, of "0x7E"] obtain p' rb' where
    "ParseRb_loop p1 rb1 0x7E = Some (True, p', rb')" "rb_wf rb'"
    "rb_capacity rb' = rb_capacity rb1" "same_out p1 p'" "messages (rb_contents rb') = ms"
    "\<forall>s. in_sync s xs \<longrightarrow> in_sync True (rb_contents rb')"
    "unat (dataLen p') = min (length m) (unat (bufSize p1))"
    "take (unat (dataLen p')) (pp_buf p') = take (unat (bufSize p1)) m"
    using rb1(3) by auto
  moreover have "in_sync False xs" using sync xs by simp
  ultimately show ?thesis
    using ParseRb_loop_Get [OF rb1(1) p1(1)] p1(3) rb1(4)
    by (auto simp: PROTO_ParseRb_def same_out_def PROTO_Init_def Let_def)
qed

section \<open>The encoder into a byte buffer\<close>

text \<open>The loop writes the escaped bytes and the end mark at \<open>j\<close>, or returns -1 when they do not fit.\<close>

definition adds_frame :: "u8 list \<Rightarrow> nat \<Rightarrow> u8 list \<Rightarrow> nat \<Rightarrow> int \<Rightarrow> u16 \<Rightarrow> bool" where
  "adds_frame buf j packet len bufSz i \<longleftrightarrow>
     (let body = escape (take len packet) @ [0x7F]
      in \<exists>buf'. length buf' = length buf \<and>
           (if int (length body) \<le> bufSz
            then PROTO_Add_loop buf j packet len bufSz i = Some (sint (i + of_nat (length body - 1)), buf') \<and>
                 buf' = take j buf @ body @ drop (j + length body) buf
            else PROTO_Add_loop buf j packet len bufSz i = Some (-1, buf')))"

lemma adds_frame_escaped:
  assumes esc: "b = 0x7D \<or> b = 0x7E \<or> b = 0x7F" and room: "\<not> bufSz < 2" "j + nat bufSz \<le> length buf"
    and rest: "adds_frame (buf[j := 0x7D, Suc j := b XOR 0x20]) (j + 2) packet len (bufSz - 2) (i + 2)"
  shows "adds_frame buf j (b # packet) (Suc len) bufSz i"
proof -
  let ?b1 = "buf[j := 0x7D]" and ?b2 = "buf[j := 0x7D, Suc j := b XOR 0x20]"
  have "wr buf j 0x7D = Some ?b1" "wr ?b1 (Suc j) (b XOR 0x20) = Some ?b2"
    using room by (auto simp: mem_simps)
  moreover have "take (j + 2) ?b2 = take j buf @ [0x7D, b XOR 0x20]"
    using room by (simp add: take_Suc_conv_app_nth)
  ultimately show ?thesis
    using esc room(1) rest by (auto simp: adds_frame_def esc_byte_def Let_def algebra_simps split: if_splits)
qed

lemma adds_frame_plain:
  assumes plain: "\<not> (b = 0x7D \<or> b = 0x7E \<or> b = 0x7F)" and room: "\<not> bufSz < 1" "j + nat bufSz \<le> length buf"
    and rest: "adds_frame (buf[j := b]) (Suc j) packet len (bufSz - 1) (i + 1)"
  shows "adds_frame buf j (b # packet) (Suc len) bufSz i"
proof -
  have "wr buf j b = Some (buf[j := b])" using room by (auto simp: mem_simps)
  moreover have "take (Suc j) (buf[j := b]) = take j buf @ [b]"
    using room by (simp add: take_Suc_conv_app_nth)
  ultimately show ?thesis
    using plain room(1) rest by (auto simp: adds_frame_def esc_byte_def Let_def algebra_simps split: if_splits)
qed

lemma Add_loop_adds:
  assumes "len \<le> length packet" and "0 \<le> bufSz" and "j + nat bufSz \<le> length buf"
  shows "adds_frame buf j packet len bufSz i"
  using assms
proof (induction buf j packet len bufSz i rule: PROTO_Add_loop.induct)
  case (1 buf j packet bufSz i)
  then show ?case
    by (cases "bufSz < 1") (auto simp: adds_frame_def mem_simps upd_conv_take_nth_drop Let_def)
next
  case (2 buf j len bufSz i)
  then show ?case by simp
next
  case (3 buf j b packet len bufSz i)
  show ?case
  proof (cases "b = 0x7D \<or> b = 0x7E \<or> b = 0x7F")
    case esc: True
    show ?thesis
    proof (cases "bufSz < 2")
      case True
      with esc show ?thesis by (auto simp: adds_frame_def esc_byte_def Let_def)
    next
      case False
      have "wr buf j 0x7D = Some (buf[j := 0x7D])"
        "wr (buf[j := 0x7D]) (Suc j) (b XOR 0x20) = Some (buf[j := 0x7D, Suc j := b XOR 0x20])"
        using False "3.prems" by (auto simp: mem_simps)
      from "3.IH"(1) [OF esc False this] "3.prems" False
      show ?thesis by (intro adds_frame_escaped [OF esc False]) (simp_all add: nat_diff_distrib)
    qed
  next
    case plain: False
    show ?thesis
    proof (cases "bufSz < 1")
      case True
      with plain show ?thesis by (auto simp: adds_frame_def esc_byte_def Let_def)
    next
      case False
      have "wr buf j b = Some (buf[j := b])" using False "3.prems" by (auto simp: mem_simps)
      from "3.IH"(2) [OF plain False this] "3.prems" False
      show ?thesis by (intro adds_frame_plain [OF plain False]) (simp_all add: nat_diff_distrib)
    qed
  qed
qed

lemmas Add_loop_frame = Add_loop_adds [unfolded adds_frame_def]

end
