(* ===== verification/Queue.thy ===== *)
theory Queue
  imports Proto
begin

text \<open>
  The outbound message queue of \<open>src/mqtt/queue.c\<close> (a ring buffer of framed messages) and
  the loop with which the client inserts into it, dropping the oldest messages until the new
  one fits. The interface \<open>evicting_queue\<close> says what the loop needs from the two queue
  operations; the interpretation at the end proves it of \<open>QUEUE_Puts\<close> and \<open>QUEUE_Gets\<close>.
\<close>

section \<open>The operations of queue.c\<close>

text \<open>\<open>q_buf\<close>: the pointer \<open>buf\<close> is not NULL. Its block is the ring's.\<close>

record queue =
  q_buf :: bool
  rb :: ringbuf

text \<open>\<open>block\<close> is the result of \<open>os_zalloc(bufferSize)\<close>, \<open>None\<close> for NULL.\<close>

definition QUEUE_Init :: "u8 list option \<Rightarrow> queue \<Rightarrow> int \<Rightarrow> queue" where
  "QUEUE_Init block q bufferSize =
     q\<lparr>q_buf := (block \<noteq> None), rb := snd (RINGBUF_Init (rb q) block bufferSize)\<rparr>"

definition QUEUE_Puts :: "queue \<Rightarrow> u8 list \<Rightarrow> u16 \<Rightarrow> (int \<times> queue) option" where
  "QUEUE_Puts q buffer len =
     do { (r, rb') \<leftarrow> PROTO_AddRb (rb q) buffer len; Some (r, q\<lparr>rb := rb'\<rparr>) }"

definition QUEUE_Gets ::
  "proto_parser \<Rightarrow> queue \<Rightarrow> u8 list \<Rightarrow> u16 \<Rightarrow> u16 \<Rightarrow> (int \<times> u8 list \<times> u16 \<times> queue) option" where
  "QUEUE_Gets junk q buffer len maxLen =
     do {
       (r, buffer', len', rb') \<leftarrow> PROTO_ParseRb junk (rb q) buffer len maxLen;
       Some (r, buffer', len', q\<lparr>rb := rb'\<rparr>)
     }"

definition QUEUE_IsEmpty :: "queue \<Rightarrow> bool" where
  "QUEUE_IsEmpty q = (fill_cnt (rb q) \<le> 0)"

definition queue_zero :: queue where
  "queue_zero = \<lparr>q_buf = False, rb = rb_zero\<rparr>"

section \<open>Abstraction\<close>

definition queue_msgs :: "queue \<Rightarrow> u8 list list" where
  "queue_msgs q = messages (rb_contents (rb q))"

definition queue_inv :: "queue \<Rightarrow> bool" where
  "queue_inv q \<longleftrightarrow> rb_wf (rb q) \<and> rb_capacity (rb q) < 2 ^ 15 \<and> in_sync True (rb_contents (rb q))"

definition queue_free :: "queue \<Rightarrow> nat" where
  "queue_free q = rb_capacity (rb q) - length (rb_contents (rb q))"

lemma queue_inv_zero: "queue_inv queue_zero"
  by (simp add: queue_inv_def queue_zero_def rb_wf_zero)
    (simp add: rb_capacity_def rb_contents_def rb_zero_def)

lemma queue_inv_Init:
  assumes "queue_inv q" and "2 \<le> sz" and "sz < 2 ^ 15"
    and "\<And>m. block = Some m \<Longrightarrow> int (length m) = sz"
  shows "queue_inv (QUEUE_Init block q sz) \<and>
         (block \<noteq> None \<longrightarrow> queue_msgs (QUEUE_Init block q sz) = [])"
proof (cases block)
  case None
  with assms(1) show ?thesis by (simp add: QUEUE_Init_def RINGBUF_Init_def queue_inv_def)
next
  case (Some m)
  with rb_Init_ok [OF assms(2) assms(4) [OF Some], of "rb q"] assms(3) show ?thesis
    by (auto simp: QUEUE_Init_def queue_inv_def rb_capacity_def queue_msgs_def messages_def)
qed

lemma QUEUE_Puts_fits:
  assumes "queue_inv q" and "unat len \<le> length buffer"
    and "length (frame (take (unat len) buffer)) \<le> queue_free q"
  shows "\<exists>q'. QUEUE_Puts q buffer len = Some (int (length (frame (take (unat len) buffer))), q') \<and>
           queue_inv q' \<and> queue_msgs q' = queue_msgs q @ [take (unat len) buffer] \<and>
           rb_capacity (rb q') = rb_capacity (rb q) \<and>
           queue_free q' = queue_free q - length (frame (take (unat len) buffer))"
proof -
  let ?f = "frame (take (unat len) buffer)"
  have wf: "rb_wf (rb q)" and cap: "rb_capacity (rb q) < 2 ^ 15"
    and sync: "in_sync True (rb_contents (rb q))"
    using assms(1) by (simp_all add: queue_inv_def)
  have "length (rb_contents (rb q)) + length ?f \<le> rb_capacity (rb q)"
    using ring.items_cap [OF wf] assms(3) by (simp add: queue_free_def)
  from AddRb_fits [OF wf assms(2) this cap] obtain rb' where
    "PROTO_AddRb (rb q) buffer len = Some (int (length ?f), rb')" "rb_wf rb'"
    "rb_capacity rb' = rb_capacity (rb q)" "rb_contents rb' = rb_contents (rb q) @ ?f"
    by blast
  moreover have "in_sync True (rb_contents (rb q) @ ?f)"
    using in_sync_append_frame_part [OF sync, of "length ?f" "take (unat len) buffer"] by simp
  ultimately show ?thesis
    using cap
    by (auto simp: QUEUE_Puts_def queue_inv_def queue_msgs_def messages_append_frame queue_free_def
        simp del: length_rb_contents)
qed

text \<open>A refused message leaves a cut-off frame behind, but no message changes.\<close>

lemma QUEUE_Puts_full:
  assumes "queue_inv q" and "unat len \<le> length buffer"
    and "queue_free q < length (frame (take (unat len) buffer))"
  shows "\<exists>q'. QUEUE_Puts q buffer len = Some (-1, q') \<and> queue_inv q' \<and>
           queue_msgs q' = queue_msgs q \<and> rb_capacity (rb q') = rb_capacity (rb q) \<and>
           queue_free q' = 0"
proof -
  let ?f = "frame (take (unat len) buffer)"
  have wf: "rb_wf (rb q)" and cap: "rb_capacity (rb q) < 2 ^ 15"
    and sync: "in_sync True (rb_contents (rb q))"
    using assms(1) by (simp_all add: queue_inv_def)
  have len: "length (rb_contents (rb q)) \<le> rb_capacity (rb q)"
    by (rule ring.items_cap [OF wf])
  then have "rb_capacity (rb q) < length (rb_contents (rb q)) + length ?f"
    using assms(3) by (simp add: queue_free_def)
  from AddRb_overflows [OF wf assms(2) this] obtain rb' where
    rb': "PROTO_AddRb (rb q) buffer len = Some (-1, rb')" "rb_wf rb'"
    "rb_capacity rb' = rb_capacity (rb q)"
    "rb_contents rb' = rb_contents (rb q) @ take (queue_free q) ?f"
    unfolding queue_free_def by blast
  have "length (rb_contents rb') = rb_capacity (rb q)"
    using rb'(4) len assms(3) by (simp add: queue_free_def del: length_rb_contents)
  with rb' cap messages_append_part [OF assms(3)] in_sync_append_frame_part [OF sync] show ?thesis
    by (auto simp: QUEUE_Puts_def queue_inv_def queue_msgs_def queue_free_def
        simp del: length_rb_contents)
qed

lemma QUEUE_Gets_message:
  assumes "queue_inv q" and "queue_msgs q = m # ms" and "unat maxLen \<le> length buffer"
  shows "\<exists>buffer' n q'. QUEUE_Gets junk q buffer len maxLen = Some (0, buffer', n, q') \<and>
           queue_inv q' \<and> queue_msgs q' = ms \<and> rb_capacity (rb q') = rb_capacity (rb q) \<and>
           length buffer' = length buffer \<and> unat n = min (length m) (unat maxLen) \<and>
           take (unat n) buffer' = take (unat maxLen) m"
proof -
  have "rb_wf (rb q)" "in_sync True (rb_contents (rb q))" "rb_capacity (rb q) < 2 ^ 15"
    using assms(1) by (simp_all add: queue_inv_def)
  with ParseRb_message [OF this(1,2) assms(2) [unfolded queue_msgs_def] assms(3), of junk len]
  show ?thesis by (auto simp: QUEUE_Gets_def queue_inv_def queue_msgs_def)
qed

lemma QUEUE_Gets_none:
  assumes "queue_inv q" and "queue_msgs q = []" and "unat maxLen \<le> length buffer"
  shows "\<exists>buffer' q'. QUEUE_Gets junk q buffer len maxLen = Some (-1, buffer', len, q') \<and>
           queue_inv q' \<and> queue_msgs q' = [] \<and> rb_capacity (rb q') = rb_capacity (rb q) \<and>
           rb_contents (rb q') = [] \<and> length buffer' = length buffer"
proof -
  have "rb_wf (rb q)" "rb_capacity (rb q) < 2 ^ 15"
    using assms(1) by (simp_all add: queue_inv_def)
  with ParseRb_none [OF this(1) assms(2) [unfolded queue_msgs_def] assms(3), of junk len]
  show ?thesis by (auto simp: QUEUE_Gets_def queue_inv_def queue_msgs_def messages_def)
qed

section \<open>Inserting with eviction\<close>

text \<open>
  The loop of \<open>MQTT_Publish\<close>, \<open>MQTT_Subscribe\<close>, \<open>MQTT_UnSubscribe\<close> and \<open>MQTT_Ping\<close>:
  while the put is refused, drop the oldest message; give up when there is none. It is a
  partial function, so that its termination is a theorem.
\<close>

partial_function (option) evict_loop ::
  "('q \<Rightarrow> (int \<times> 'q) option) \<Rightarrow> ('q \<Rightarrow> (int \<times> 'q) option) \<Rightarrow> 'q \<Rightarrow> (bool \<times> 'q) option" where
  "evict_loop puts gets q =
     (case puts q of
        None \<Rightarrow> None
      | Some (r, q1) \<Rightarrow>
          if r = -1 then
            (case gets q1 of
               None \<Rightarrow> None
             | Some (g, q2) \<Rightarrow> if g = -1 then Some (False, q2) else evict_loop puts gets q2)
          else Some (True, q1))"

locale evicting_queue =
  fixes puts :: "'q \<Rightarrow> (int \<times> 'q) option"
    and gets :: "'q \<Rightarrow> (int \<times> 'q) option"
    and msgs :: "'q \<Rightarrow> 'm list"
    and msg :: 'm
    and invar :: "'q \<Rightarrow> bool"
  assumes puts_law: "invar q \<Longrightarrow>
      \<exists>r q'. puts q = Some (r, q') \<and> invar q' \<and>
        msgs q' = (if r = -1 then msgs q else msgs q @ [msg])"
    and gets_some: "invar q \<Longrightarrow> msgs q = m # ms \<Longrightarrow>
      \<exists>r q'. gets q = Some (r, q') \<and> r \<noteq> -1 \<and> invar q' \<and> msgs q' = ms"
    and gets_none: "invar q \<Longrightarrow> msgs q = [] \<Longrightarrow>
      \<exists>q'. gets q = Some (-1, q') \<and> invar q' \<and> msgs q' = []"
begin

lemma evict_loop_returns:
  assumes "invar q"
  shows "\<exists>ok q' k. evict_loop puts gets q = Some (ok, q') \<and> invar q' \<and> k \<le> length (msgs q) \<and>
           msgs q' = (if ok then drop k (msgs q) @ [msg] else [])"
  using assms
proof (induction "length (msgs q)" arbitrary: q)
  case 0
  obtain r q1 where q1: "puts q = Some (r, q1)" "invar q1"
    "msgs q1 = (if r = -1 then msgs q else msgs q @ [msg])"
    using puts_law [OF "0.prems"] by blast
  show ?case
  proof (cases "r = -1")
    case True
    with q1 "0.hyps" gets_none [of q1] obtain q2 where
      "gets q1 = Some (-1, q2)" "invar q2" "msgs q2 = []" by auto
    with q1 True show ?thesis
      by (intro exI [of _ False] exI [of _ q2] exI [of _ 0])
        (simp add: evict_loop.simps [of puts gets q])
  next
    case False
    with q1 "0.hyps" show ?thesis
      by (intro exI [of _ True] exI [of _ q1] exI [of _ 0])
        (simp add: evict_loop.simps [of puts gets q])
  qed
next
  case (Suc n)
  obtain r q1 where q1: "puts q = Some (r, q1)" "invar q1"
    "msgs q1 = (if r = -1 then msgs q else msgs q @ [msg])"
    using puts_law [OF Suc.prems] by blast
  show ?case
  proof (cases "r = -1")
    case True
    obtain m ms where ms: "msgs q = m # ms" using Suc.hyps(2) by (cases "msgs q") auto
    with q1 True gets_some [of q1 m ms] obtain g q2 where
      q2: "gets q1 = Some (g, q2)" "g \<noteq> -1" "invar q2" "msgs q2 = ms" by auto
    with Suc.hyps(1) [of q2] Suc.hyps(2) ms obtain ok q' k where
      "evict_loop puts gets q2 = Some (ok, q')" "invar q'" "k \<le> length ms"
      "msgs q' = (if ok then drop k ms @ [msg] else [])"
      by auto
    with q1 q2 True ms show ?thesis
      by (intro exI [of _ ok] exI [of _ q'] exI [of _ "Suc k"])
        (simp add: evict_loop.simps [of puts gets q])
  next
    case False
    with q1 show ?thesis
      by (intro exI [of _ True] exI [of _ q1] exI [of _ 0])
        (simp add: evict_loop.simps [of puts gets q])
  qed
qed

end

text \<open>
  The loop's state is the queue and the two local variables \<open>dataBuffer\<close> and \<open>dataLen\<close>
  that \<open>QUEUE_Gets\<close> writes.
\<close>

type_synonym evict_state = "queue \<times> u8 list \<times> u16"

definition loop_puts :: "u8 list \<Rightarrow> u16 \<Rightarrow> evict_state \<Rightarrow> (int \<times> evict_state) option" where
  "loop_puts packet len s =
     (case s of (q, buf, n) \<Rightarrow>
        do { (r, q') \<leftarrow> QUEUE_Puts q packet len; Some (r, (q', buf, n)) })"

definition loop_gets :: "proto_parser \<Rightarrow> u16 \<Rightarrow> evict_state \<Rightarrow> (int \<times> evict_state) option" where
  "loop_gets junk maxLen s =
     (case s of (q, buf, n) \<Rightarrow>
        do { (r, buf', n', q') \<leftarrow> QUEUE_Gets junk q buf n maxLen; Some (r, (q', buf', n')) })"

definition loop_inv :: "u8 list \<Rightarrow> u16 \<Rightarrow> u16 \<Rightarrow> nat \<Rightarrow> evict_state \<Rightarrow> bool" where
  "loop_inv packet len maxLen c s =
     (case s of (q, buf, n) \<Rightarrow>
        queue_inv q \<and> rb_capacity (rb q) = c \<and> unat maxLen \<le> length buf \<and>
        unat len \<le> length packet)"

interpretation evict: evicting_queue
  "loop_puts packet len" "loop_gets junk maxLen" "\<lambda>s. queue_msgs (fst s)"
  "take (unat len) packet" "loop_inv packet len maxLen c"
  for packet :: "u8 list" and len maxLen :: u16 and junk :: proto_parser and c :: nat
proof unfold_locales
  fix s :: evict_state
  obtain q buf n where s: "s = (q, buf, n)" by (cases s)
  assume inv: "loop_inv packet len maxLen c s"
  then have q: "queue_inv q" "unat len \<le> length packet"
    by (simp_all add: loop_inv_def s)
  show "\<exists>r s'. loop_puts packet len s = Some (r, s') \<and> loop_inv packet len maxLen c s' \<and>
      queue_msgs (fst s') =
        (if r = -1 then queue_msgs (fst s) else queue_msgs (fst s) @ [take (unat len) packet])"
  proof (cases "length (frame (take (unat len) packet)) \<le> queue_free q")
    case True
    with QUEUE_Puts_fits [OF q True] inv obtain q' r where
      "QUEUE_Puts q packet len = Some (r, q')" "r \<noteq> -1" "queue_inv q'"
      "queue_msgs q' = queue_msgs q @ [take (unat len) packet]"
      "rb_capacity (rb q') = rb_capacity (rb q)" by fastforce
    with inv show ?thesis
      by (intro exI [of _ r] exI [of _ "(q', buf, n)"]) (simp add: loop_puts_def loop_inv_def s)
  next
    case False
    then have "queue_free q < length (frame (take (unat len) packet))" by simp
    with QUEUE_Puts_full [OF q this] inv show ?thesis by (auto simp: loop_puts_def loop_inv_def s)
  qed
next
  fix s :: evict_state and m ms
  obtain q buf n where s: "s = (q, buf, n)" by (cases s)
  assume inv: "loop_inv packet len maxLen c s" and "queue_msgs (fst s) = m # ms"
  with QUEUE_Gets_message [of q m ms maxLen buf junk n]
  show "\<exists>r s'. loop_gets junk maxLen s = Some (r, s') \<and> r \<noteq> -1 \<and>
      loop_inv packet len maxLen c s' \<and> queue_msgs (fst s') = ms"
    by (auto simp: loop_gets_def loop_inv_def s)
next
  fix s :: evict_state
  obtain q buf n where s: "s = (q, buf, n)" by (cases s)
  assume inv: "loop_inv packet len maxLen c s" and "queue_msgs (fst s) = []"
  with QUEUE_Gets_none [of q maxLen buf junk n]
  show "\<exists>s'. loop_gets junk maxLen s = Some (-1, s') \<and>
      loop_inv packet len maxLen c s' \<and> queue_msgs (fst s') = []"
    by (auto simp: loop_gets_def loop_inv_def s)
qed

text \<open>The loop as the client calls it: fresh local variables, the queue as state.\<close>

definition queue_evict ::
  "proto_parser \<Rightarrow> u8 list \<Rightarrow> u16 \<Rightarrow> u16 \<Rightarrow> queue \<Rightarrow> u8 list \<Rightarrow> u16 \<Rightarrow> (bool \<times> queue) option" where
  "queue_evict junk dataBuffer len0 maxLen q packet len =
     do {
       (ok, s) \<leftarrow> evict_loop (loop_puts packet len) (loop_gets junk maxLen) (q, dataBuffer, len0);
       Some (ok, fst s)
     }"

lemma queue_evict_returns:
  assumes "queue_inv q" and "unat len \<le> length packet" and "unat maxLen \<le> length dataBuffer"
  shows "\<exists>ok q' k. queue_evict junk dataBuffer len0 maxLen q packet len = Some (ok, q') \<and>
           queue_inv q' \<and> rb_capacity (rb q') = rb_capacity (rb q) \<and> k \<le> length (queue_msgs q) \<and>
           queue_msgs q' =
             (if ok then drop k (queue_msgs q) @ [take (unat len) packet] else [])"
proof -
  have "loop_inv packet len maxLen (rb_capacity (rb q)) (q, dataBuffer, len0)"
    using assms by (simp add: loop_inv_def)
  from evict.evict_loop_returns [OF this, of junk] obtain ok s k where
    "evict_loop (loop_puts packet len) (loop_gets junk maxLen) (q, dataBuffer, len0) = Some (ok, s)"
    "loop_inv packet len maxLen (rb_capacity (rb q)) s" "k \<le> length (queue_msgs q)"
    "queue_msgs (fst s) = (if ok then drop k (queue_msgs q) @ [take (unat len) packet] else [])"
    by auto
  then show ?thesis
    by (intro exI [of _ ok] exI [of _ "fst s"] exI [of _ k])
      (auto simp: queue_evict_def loop_inv_def split: prod.splits)
qed

lemma queue_evict_fits:
  assumes "queue_inv q" and "unat len \<le> length packet"
    and "length (frame (take (unat len) packet)) \<le> queue_free q"
  shows "\<exists>q'. queue_evict junk dataBuffer len0 maxLen q packet len = Some (True, q') \<and>
           queue_inv q' \<and> queue_msgs q' = queue_msgs q @ [take (unat len) packet] \<and>
           rb_capacity (rb q') = rb_capacity (rb q) \<and>
           queue_free q' = queue_free q - length (frame (take (unat len) packet))"
  using QUEUE_Puts_fits [OF assms]
  by (auto simp: queue_evict_def loop_puts_def evict_loop.simps)

section \<open>Properties\<close>

text \<open>Putting a list of messages, all accepted, and taking a number of messages out again.\<close>

fun puts_all :: "queue \<Rightarrow> u8 list list \<Rightarrow> queue option" where
  "puts_all q [] = Some q"
| "puts_all q (m # ms) =
     do {
       (r, q) \<leftarrow> QUEUE_Puts q m (of_nat (length m));
       if r = -1 then None else puts_all q ms
     }"

fun gets_all :: "proto_parser \<Rightarrow> u8 list \<Rightarrow> u16 \<Rightarrow> nat \<Rightarrow> queue \<Rightarrow> (u8 list list \<times> queue) option" where
  "gets_all junk buffer maxLen 0 q = Some ([], q)"
| "gets_all junk buffer maxLen (Suc n) q =
     do {
       (r, out, len, q) \<leftarrow> QUEUE_Gets junk q buffer 0 maxLen;
       (if r = 0 then do {
          (ms, q) \<leftarrow> gets_all junk buffer maxLen n q;
          Some (take (unat len) out # ms, q)
        } else None)
     }"

lemma puts_all_fits:
  assumes "queue_inv q" and "\<forall>m \<in> set ms. length m < 65536"
    and "length (concat (map frame ms)) \<le> queue_free q"
  shows "\<exists>q'. puts_all q ms = Some q' \<and> queue_inv q' \<and> queue_msgs q' = queue_msgs q @ ms"
  using assms
proof (induction ms arbitrary: q)
  case Nil
  then show ?case by simp
next
  case (Cons m ms)
  have len: "unat (of_nat (length m) :: u16) = length m"
    using Cons.prems(2) by (simp add: unsigned_of_nat take_bit_nat_eq_self)
  then have tk: "take (unat (of_nat (length m) :: u16)) m = m" by simp
  have "length (frame m) \<le> queue_free q" using Cons.prems(3) by simp
  with QUEUE_Puts_fits [OF Cons.prems(1), of "of_nat (length m)" m] len tk obtain q1 where
    q1: "QUEUE_Puts q m (of_nat (length m)) = Some (int (length (frame m)), q1)" "queue_inv q1"
    "queue_msgs q1 = queue_msgs q @ [m]" "queue_free q1 = queue_free q - length (frame m)"
    by auto
  have "length (concat (map frame ms)) \<le> queue_free q1" using Cons.prems(3) q1(4) by simp
  from Cons.IH [OF q1(2) _ this] Cons.prems(2) q1 show ?case by auto
qed

lemma gets_all_messages:
  assumes "queue_inv q" and "queue_msgs q = ms @ rest" and "unat maxLen \<le> length buffer"
    and "\<forall>m \<in> set ms. length m \<le> unat maxLen"
  shows "\<exists>q'. gets_all junk buffer maxLen (length ms) q = Some (ms, q') \<and> queue_inv q' \<and>
           queue_msgs q' = rest"
  using assms
proof (induction ms arbitrary: q)
  case Nil
  then show ?case by simp
next
  case (Cons m ms)
  have "queue_msgs q = m # (ms @ rest)" using Cons.prems(2) by simp
  from QUEUE_Gets_message [OF Cons.prems(1) this Cons.prems(3), of junk 0] obtain out n q1 where
    q1: "QUEUE_Gets junk q buffer 0 maxLen = Some (0, out, n, q1)" "queue_inv q1"
    "queue_msgs q1 = ms @ rest" "take (unat n) out = take (unat maxLen) m"
    by blast
  with Cons.IH [OF q1(2,3) Cons.prems(3)] Cons.prems(4) show ?case by auto
qed

text \<open>
  C13. The queue is first in, first out: messages put into an empty queue (in which their frames
  fit) come out in the same order and byte by byte unchanged, whatever bytes they contain, and
  leave the queue empty. This is the round trip through the byte stuffing of \<open>proto.c\<close> and the
  ring buffer of \<open>ringbuf.c\<close>.
\<close>

theorem queue_fifo:
  assumes "queue_inv q" and "queue_msgs q = []"
    and "length (concat (map frame ms)) \<le> queue_free q"
    and "\<forall>m \<in> set ms. length m \<le> unat maxLen" and "unat maxLen \<le> length buffer"
  shows "\<exists>q1 q2. puts_all q ms = Some q1 \<and>
           gets_all junk buffer maxLen (length ms) q1 = Some (ms, q2) \<and> queue_msgs q2 = []"
proof -
  have "unat maxLen < 2 ^ LENGTH(16)" by (rule unsigned_less)
  with assms(4) have "\<forall>m \<in> set ms. length m < 65536" by fastforce
  from puts_all_fits [OF assms(1) this assms(3)] assms(2) obtain q1 where
    q1: "puts_all q ms = Some q1" "queue_inv q1" "queue_msgs q1 = ms @ []" by auto
  from gets_all_messages [OF q1(2,3) assms(5,4)] q1(1) show ?thesis by blast
qed

text \<open>A queue of 16 bytes as \<open>QUEUE_Init\<close> makes it, for the concrete instances.\<close>

definition queue16 :: queue where
  "queue16 = QUEUE_Init (Some (replicate 16 0)) queue_zero 16"

lemma queue16: "queue_inv queue16 \<and> queue_msgs queue16 = [] \<and> queue_free queue16 = 16"
  using queue_inv_Init [OF queue_inv_zero, of 16 "Some (replicate 16 0)"]
  by (simp add: queue16_def)
    (simp add: queue_free_def QUEUE_Init_def RINGBUF_Init_def rb_capacity_def rb_contents_def)

definition parser0 :: proto_parser where
  "parser0 = \<lparr>pp_buf = [], bufSize = 0, dataLen = 0, isEsc = 0, isBegin = 0, callback = False\<rparr>"

theorem queue_fifo_witness:
  "\<exists>q1 q2. puts_all queue16 [[0x7E, 1], [0x7D]] = Some q1 \<and>
     gets_all parser0 [0, 0, 0, 0] 4 (length [[0x7E, 1], [0x7D :: u8]]) q1 = Some ([[0x7E, 1], [0x7D]], q2) \<and>
     queue_msgs q2 = []"
  by (rule queue_fifo) (simp_all add: queue16 frame_def escape_def esc_byte_def)

text \<open>
  C14. Inserting with eviction always returns: it ends after dropping at most the queued
  messages. When it succeeds the queue holds the newest of the old messages, in order, followed
  by the new one; when it gives up the queue is empty. No message is ever altered.
\<close>

theorem queue_evict_total:
  assumes "queue_inv q" and "unat len \<le> length packet" and "unat maxLen \<le> length dataBuffer"
  shows "\<exists>ok q' k. queue_evict junk dataBuffer len0 maxLen q packet len = Some (ok, q') \<and>
           queue_inv q' \<and> k \<le> length (queue_msgs q) \<and>
           queue_msgs q' =
             (if ok then drop k (queue_msgs q) @ [take (unat len) packet] else [])"
  using queue_evict_returns [OF assms] by blast

theorem queue_evict_total_witness:
  "\<exists>ok q' k. queue_evict parser0 [0, 0] 0 2 queue16 [1, 2, 3] 3 = Some (ok, q') \<and>
     queue_inv q' \<and> k \<le> length (queue_msgs queue16) \<and>
     queue_msgs q' = (if ok then drop k (queue_msgs queue16) @ [take (unat (3 :: u16)) [1, 2, 3]] else [])"
  by (rule queue_evict_total) (simp_all add: queue16)

text \<open>The loop with fuel, to run it on a concrete queue.\<close>

fun evict_run ::
  "nat \<Rightarrow> ('q \<Rightarrow> (int \<times> 'q) option) \<Rightarrow> ('q \<Rightarrow> (int \<times> 'q) option) \<Rightarrow> 'q \<Rightarrow> (bool \<times> 'q) option" where
  "evict_run 0 puts gets q = None"
| "evict_run (Suc n) puts gets q =
     (case puts q of
        None \<Rightarrow> None
      | Some (r, q1) \<Rightarrow>
          if r = -1 then
            (case gets q1 of
               None \<Rightarrow> None
             | Some (g, q2) \<Rightarrow> if g = -1 then Some (False, q2) else evict_run n puts gets q2)
          else Some (True, q1))"

lemma evict_run_loop: "evict_run n puts gets q = Some x \<Longrightarrow> evict_loop puts gets q = Some x"
proof (induction n arbitrary: q)
  case (Suc n)
  then show ?case
    by (subst evict_loop.simps) (auto split: option.splits if_splits)
qed simp

definition queue10 :: queue where
  "queue10 = QUEUE_Init (Some (replicate 10 0)) queue_zero 10"

definition seven :: "u8 list" where
  "seven = [1, 2, 3, 4, 5, 6, 7]"

definition queue10_nine :: queue where
  "queue10_nine = snd (the (QUEUE_Puts queue10 [9] 1))"

definition evict_seven :: "(bool \<times> evict_state) option" where
  "evict_seven = evict_run 2 (loop_puts seven 7) (loop_gets parser0 16) (queue10_nine, replicate 16 0, 0)"

text \<open>
  The eviction loop can lose everything: a message whose frame fits into an empty queue is
  refused, and the queued message is dropped as well. The refused put leaves a part of a frame
  in the ring, which takes the room that the dropped message has freed.
\<close>

lemma queue_evict_loses:
  "length (frame seven) \<le> queue_free queue10 \<and> queue_msgs queue10_nine = [[9]] \<and>
   (\<exists>q. queue_evict parser0 (replicate 16 0) 0 16 queue10_nine seven 7 = Some (False, q) \<and>
      queue_msgs q = [])"
proof -
  have run: "map_option (\<lambda>(ok, s). (ok, queue_msgs (fst s))) evict_seven = Some (False, [])"
    by code_simp
  then obtain q buf n where "evict_seven = Some (False, (q, buf, n))" and q: "queue_msgs q = []"
    by auto
  from evict_run_loop [OF this(1) [unfolded evict_seven_def]]
  have "queue_evict parser0 (replicate 16 0) 0 16 queue10_nine seven 7 = Some (False, q)"
    by (simp add: queue_evict_def)
  moreover have "length (frame seven) \<le> queue_free queue10 \<and> queue_msgs queue10_nine = [[9]]"
    by code_simp
  ultimately show ?thesis using q by blast
qed

end
