(* ===== verification/Utils.thy ===== *)
theory Utils
  imports Prelude
begin

text \<open>
  The string helpers of \<open>src/mqtt/utils.c\<close>. \<open>str\<close> is a C string; where the code may read
  the terminator, the memory it walks over is \<open>str @ [0]\<close>.
\<close>

section \<open>Translations\<close>

fun IsIPV4_loop :: "u8 list \<Rightarrow> u8 \<Rightarrow> u8 \<Rightarrow> u8 \<Rightarrow> u8" where
  "IsIPV4_loop [] segs chcnt accum =
     (if segs \<noteq> 3 then 0 else if chcnt = 0 then 0 else 1)"
| "IsIPV4_loop (c # str) segs chcnt accum =
     (if c = 0x2E then
        (if chcnt = 0 then 0
         else let segs = segs + 1
              in if segs = 4 then 0 else IsIPV4_loop str segs 0 0)
      else if sint c < 0x30 \<or> sint c > 0x39 then 0
      else let accum = word_of_int (uint accum * 10 + sint c - 0x30) :: u8
           in if uint accum > 255 then 0 else IsIPV4_loop str segs (chcnt + 1) accum)"

definition UTILS_IsIPV4 :: "cstring option \<Rightarrow> u8" where
  "UTILS_IsIPV4 str = (case str of None \<Rightarrow> 0 | Some s \<Rightarrow> IsIPV4_loop s 0 0 0)"

text \<open>
  The inner loop of \<open>UTILS_StrToIP\<close> for byte \<open>i\<close>: the outer \<open>None\<close> is a read past the
  terminator or a signed overflow of \<open>n\<close>; \<open>Some None\<close> is \<open>return 0\<close>; otherwise the
  value and the memory from \<open>start\<close> on.
\<close>

fun StrToIP_digits :: "nat \<Rightarrow> u8 list \<Rightarrow> int \<Rightarrow> (int \<times> u8 list) option option" where
  "StrToIP_digits i [] n = None"
| "StrToIP_digits i (c # start) n =
     (if 0x30 \<le> c \<and> c \<le> 0x39 then
        (if n * 10 \<ge> 2 ^ 31 \<or> n * 10 + (uint c - 0x30) \<ge> 2 ^ 31 then None
         else StrToIP_digits i start (n * 10 + (uint c - 0x30)))
      else if (i < 3 \<and> c = 0x2E) \<or> i = 3 then Some (Some (n, start))
      else Some None)"

text \<open>The outer loop over the bytes still to write, with the bytes of \<open>ip\<close>.\<close>

fun StrToIP_loop :: "nat list \<Rightarrow> u8 list \<Rightarrow> u8 list \<Rightarrow> (u8 \<times> u8 list) option" where
  "StrToIP_loop [] start ip = Some (1, ip)"
| "StrToIP_loop (i # is) start ip =
     (case StrToIP_digits i start 0 of
        None \<Rightarrow> None
      | Some None \<Rightarrow> Some (0, ip)
      | Some (Some (n, start)) \<Rightarrow>
          if n \<ge> 256 then Some (0, ip)
          else do { ip \<leftarrow> wr ip i (word_of_int n); StrToIP_loop is start ip })"

definition UTILS_StrToIP :: "cstring \<Rightarrow> u8 list \<Rightarrow> (u8 \<times> u8 list) option" where
  "UTILS_StrToIP str ip = StrToIP_loop [0, 1, 2, 3] (str @ [0]) ip"

text \<open>The first result of \<open>hex_digit\<close> is whether the character is a digit.\<close>

definition hex_digit :: "u8 \<Rightarrow> u32 option" where
  "hex_digit c =
     (if 0x30 \<le> sint c \<and> sint c \<le> 0x39 then Some (word_of_int (sint c - 0x30))
      else if 0x41 \<le> sint c \<and> sint c \<le> 0x46 then Some (word_of_int (sint c - 0x41 + 10))
      else if 0x61 \<le> sint c \<and> sint c \<le> 0x66 then Some (word_of_int (sint c - 0x61 + 10))
      else None)"

fun Atoh_loop :: "u8 list \<Rightarrow> u32 \<Rightarrow> u32" where
  "Atoh_loop [] value = value"
| "Atoh_loop (c # s) value =
     (case hex_digit c of None \<Rightarrow> value | Some digit \<Rightarrow> Atoh_loop s (push_bit 4 value OR digit))"

definition UTILS_Atoh :: "cstring \<Rightarrow> u32" where
  "UTILS_Atoh s = Atoh_loop s 0"

section \<open>Characters\<close>

definition is_digit :: "u8 \<Rightarrow> bool" where
  "is_digit c \<longleftrightarrow> 0x30 \<le> c \<and> c \<le> 0x39"

lemma uint_byte_lt: "uint c < 256" for c :: u8
proof -
  have "uint c < 2 ^ LENGTH(8)" by (rule unsigned_less)
  then show ?thesis by simp
qed

lemma sint_byte: "sint c = (if uint c < 128 then uint c else uint c - 256)" for c :: u8
proof -
  have "sint c = signed_take_bit 7 (uint c)" by (simp add: sint_uint)
  also have "\<dots> = (uint c + 128) mod 256 - 128"
    by (simp add: signed_take_bit_eq_take_bit_shift take_bit_eq_mod)
  finally have sc: "sint c = (uint c + 128) mod 256 - 128" .
  show ?thesis
  proof (cases "uint c < 128")
    case True
    then have "(uint c + 128) mod 256 = uint c + 128" by (intro mod_pos_pos_trivial) simp_all
    with True sc show ?thesis by simp
  next
    case False
    have "(uint c + 128) mod 256 = ((uint c - 128) + 256) mod 256" by (simp add: add.commute)
    also have "\<dots> = (uint c - 128) mod 256" by (rule mod_add_self2)
    also have "\<dots> = uint c - 128"
      by (rule mod_pos_pos_trivial) (use False uint_byte_lt [of c] in simp_all)
    finally show ?thesis using False sc by simp
  qed
qed

lemma digit_sint: "\<not> (sint c < 0x30 \<or> sint c > 0x39) \<longleftrightarrow> is_digit c"
  using uint_byte_lt [of c] by (auto simp: is_digit_def sint_byte word_le_def)

section \<open>Which strings pass as addresses\<close>

text \<open>The pieces between the dots.\<close>

fun segments :: "u8 list \<Rightarrow> u8 list list" where
  "segments [] = [[]]"
| "segments (c # s) =
     (if c = 0x2E then [] # segments s
      else (c # hd (segments s)) # tl (segments s))"

lemma segments_not_Nil [simp]: "segments s \<noteq> []"
  by (cases s) auto

definition segment_ok :: "u8 \<Rightarrow> u8 list \<Rightarrow> bool" where
  "segment_ok chcnt seg \<longleftrightarrow> list_all is_digit seg \<and> chcnt + of_nat (length seg) \<noteq> 0"

lemma IsIPV4_loop_segments:
  "k \<le> 3 \<Longrightarrow> IsIPV4_loop s (of_nat k) chcnt accum =
     (if k + length (segments s) = 4 \<and> segment_ok chcnt (hd (segments s)) \<and>
         list_all (segment_ok 0) (tl (segments s)) then 1 else 0)"
proof (induction s arbitrary: k chcnt accum)
  case Nil
  have "of_nat k = (3 :: u8) \<longleftrightarrow> k = 3"
    using Nil by (auto simp: le_Suc_eq numeral_3_eq_3)
  then show ?case by (auto simp: segment_ok_def)
next
  case (Cons c s)
  show ?case
  proof (cases "c = 0x2E")
    case True
    have four: "of_nat k + 1 = (4 :: u8) \<longleftrightarrow> k = 3"
      using Cons.prems by (auto simp: le_Suc_eq numeral_3_eq_3)
    show ?thesis
    proof (cases "k = 3")
      case True
      have "segments s = hd (segments s) # tl (segments s)" by simp
      then have "1 \<le> length (segments s)" by (metis length_Cons le_add1 plus_1_eq_Suc)
      with True \<open>c = 0x2E\<close> four show ?thesis by simp
    next
      case False
      then have "Suc k \<le> 3" using Cons.prems by simp
      from Cons.IH [OF this, of 0 0] False \<open>c = 0x2E\<close> four show ?thesis
        by (cases "segments s") (auto simp: segment_ok_def add.commute)
    qed
  next
    case False
    have small: "\<not> uint (a :: u8) > 255" for a using uint_byte_lt [of a] by simp
    have dig: "sint c < 0x30 \<or> sint c > 0x39 \<longleftrightarrow> \<not> is_digit c" using digit_sint [of c] by blast
    show ?thesis
      using False Cons.IH [OF Cons.prems] small
      by (cases "segments s") (auto simp: dig Let_def segment_ok_def ac_simps)
  qed
qed

text \<open>Dotted decimal notation.\<close>

fun dec_rev :: "nat \<Rightarrow> u8 list" where
  "dec_rev n = of_nat (48 + n mod 10) # (if n < 10 then [] else dec_rev (n div 10))"

declare dec_rev.simps [simp del]

definition dec :: "nat \<Rightarrow> u8 list" where
  "dec n = rev (dec_rev n)"

definition dotted :: "nat \<Rightarrow> nat \<Rightarrow> nat \<Rightarrow> nat \<Rightarrow> cstring" where
  "dotted a b c d = dec a @ 0x2E # dec b @ 0x2E # dec c @ 0x2E # dec d"

lemma dec_simps:
  "dec n = (if n < 10 then [] else dec (n div 10)) @ [of_nat (48 + n mod 10)]"
  by (simp add: dec_def dec_rev.simps [of n])

lemma uint_digit: "uint (of_nat (48 + n mod 10) :: u8) = 48 + int (n mod 10)"
proof -
  have "48 + n mod 10 < 256" by (rule less_trans [of _ 58]) simp_all
  then show ?thesis by (simp add: unsigned_of_nat take_bit_nat_eq_self del: of_nat_add)
qed

lemma StrToIP_digits_dec:
  "n < 10 ^ 9 \<Longrightarrow> StrToIP_digits i (dec n @ start) 0 = StrToIP_digits i start (int n)"
proof (induction n arbitrary: start rule: dec_rev.induct)
  case (1 n)
  let ?c = "of_nat (48 + n mod 10) :: u8"
  have dig: "0x30 \<le> ?c \<and> ?c \<le> 0x39"
    using uint_digit [of n] by (simp add: word_le_def del: of_nat_add)
  have u: "uint ?c - 0x30 = int (n mod 10)" by (simp add: uint_digit del: of_nat_add)
  have n: "int (n div 10) * 10 + int (n mod 10) = int n"
    by (metis div_mult_mod_eq of_nat_add of_nat_mult of_nat_numeral)
  have "int n < 10 ^ 9" using "1.prems" by simp
  then have small: "\<not> (int (n div 10) * 10 \<ge> 2 ^ 31 \<or> int (n div 10) * 10 + int (n mod 10) \<ge> 2 ^ 31)"
    using n by simp
  have step: "StrToIP_digits i (?c # start) (int (n div 10)) = StrToIP_digits i start (int n)"
    using dig small by (simp only: StrToIP_digits.simps u n if_True if_False simp_thms)
  show ?case
  proof (cases "n < 10")
    case True
    then have "StrToIP_digits i (dec n @ start) 0 = StrToIP_digits i (?c # start) (int (n div 10))"
      by (subst dec_simps) simp
    with step show ?thesis by simp
  next
    case False
    then have "dec n @ start = dec (n div 10) @ ?c # start" by (subst dec_simps) simp
    with 1 False step show ?thesis by simp
  qed
qed

lemma UTILS_StrToIP_dotted:
  assumes "a < 256" "b < 256" "c < 256" "d < 256" and "length ip = 4"
    and junk: "junk = [] \<or> \<not> is_digit (hd junk)"
  shows "UTILS_StrToIP (dotted a b c d @ junk) ip = Some (1, [of_nat a, of_nat b, of_nat c, of_nat d])"
proof -
  obtain w x y z where ip: "ip = [w, x, y, z]"
    using assms(5) by (auto simp: length_Suc_conv numeral_eq_Suc)
  have dot: "StrToIP_digits i (dec n @ 0x2E # s) 0 = Some (Some (int n, s))" if "i < 3" "n < 256" for i n s
    using that StrToIP_digits_dec [of n i "0x2E # s"] by simp
  obtain r where last: "StrToIP_digits 3 (dec d @ junk @ [0]) 0 = Some (Some (int d, r))"
  proof -
    have "StrToIP_digits 3 (dec d @ junk @ [0]) 0 = StrToIP_digits 3 (junk @ [0]) (int d)"
      using assms(4) by (intro StrToIP_digits_dec) simp
    with junk that show ?thesis by (cases junk) (auto simp: is_digit_def)
  qed
  show ?thesis
    using assms(1-4) dot [of 0 a] dot [of 1 b] dot [of 2 c] last
    by (simp add: UTILS_StrToIP_def dotted_def ip wr_def numeral_eq_Suc del: StrToIP_digits.simps)
qed

lemma UTILS_IsIPV4_segments:
  "UTILS_IsIPV4 (Some s) =
     (if length (segments s) = 4 \<and> list_all (segment_ok 0) (segments s) then 1 else 0)"
  using IsIPV4_loop_segments [of 0 s 0 0]
  by (cases "segments s") (auto simp: UTILS_IsIPV4_def)

section \<open>Hexadecimal numbers\<close>

definition hex_value :: "u8 list \<Rightarrow> nat" where
  "hex_value s = foldl (\<lambda>v c. 16 * v + unat (the (hex_digit c))) 0 s"

lemma hex_digit_small: "hex_digit c = Some d \<Longrightarrow> unat d < 16"
proof -
  assume "hex_digit c = Some d"
  then obtain k where "d = word_of_int k" "0 \<le> k" "k < 16"
    by (auto simp: hex_digit_def simp del: of_int_add of_int_diff split: if_splits)
  then have "d = of_nat (nat k)" and "nat k < 16" by simp_all
  then show ?thesis by (simp only: unsigned_of_nat take_bit_nat_eq_self) (simp add: take_bit_nat_eq_self)
qed

lemma shift_or_digit: "unat d < 16 \<Longrightarrow> push_bit 4 v OR d = 16 * v + d" for v d :: u32
proof -
  assume d: "unat d < 16"
  have "push_bit 4 v + d = push_bit 4 v OR d"
  proof (rule disjunctive_add)
    fix k
    have "\<not> bit d k" if "4 \<le> k"
    proof -
      have "unat d < 2 ^ k"
        using d power_increasing [OF that, of "2 :: nat"] by simp
      then have "\<not> bit (unat d) k" by (simp add: bit_iff_odd)
      then show ?thesis by (simp add: bit_unsigned_iff)
    qed
    then show "\<not> bit (push_bit 4 v) k \<or> \<not> bit d k" by (auto simp: bit_push_bit_iff)
  qed
  then show ?thesis by (simp add: push_bit_eq_mult mult.commute)
qed

lemma Atoh_loop_value:
  "Atoh_loop s v =
     of_nat (foldl (\<lambda>v c. 16 * v + unat (the (hex_digit c))) (unat v)
       (takeWhile (\<lambda>c. hex_digit c \<noteq> None) s))"
proof (induction s arbitrary: v)
  case Nil
  then show ?case by simp
next
  case (Cons c s)
  have cong: "of_nat (foldl (\<lambda>v c. 16 * v + unat (the (hex_digit c))) x t) =
      (of_nat (foldl (\<lambda>v c. 16 * v + unat (the (hex_digit c))) y t) :: u32)"
    if "of_nat x = (of_nat y :: u32)" for x y t
    using that by (induction t arbitrary: x y) simp_all
  show ?case
  proof (cases "hex_digit c")
    case None
    then show ?thesis by simp
  next
    case (Some d)
    have "push_bit 4 v OR d = 16 * v + d"
      by (rule shift_or_digit [OF hex_digit_small [OF Some]])
    with Some Cons.IH [of "16 * v + d"] show ?thesis
      by (simp del: word_of_nat_eq_iff) (rule cong, simp)
  qed
qed

lemma UTILS_Atoh_value:
  "UTILS_Atoh s = of_nat (hex_value (takeWhile (\<lambda>c. hex_digit c \<noteq> None) s))"
  by (simp add: UTILS_Atoh_def hex_value_def Atoh_loop_value)

section \<open>Properties\<close>

text \<open>
  \<open>UTILS_IsIPV4\<close> accepts exactly the strings of four segments of digits whose lengths are
  not multiples of 256. The check that a number is at most 255 never fires, because the
  accumulator is a byte: 999.999.999.999 is accepted.
\<close>

lemma ipv4_accepted:
  "(UTILS_IsIPV4 (Some s) = 1) =
     (length (segments s) = 4 \<and> list_all (\<lambda>seg. list_all is_digit seg \<and> length seg mod 256 \<noteq> 0) (segments s)) \<and>
   UTILS_IsIPV4 (Some (dotted 999 999 999 999)) = 1"
proof -
  have "(of_nat n :: u8) = 0 \<longleftrightarrow> n mod 256 = 0" for n
  proof -
    have "(of_nat n :: u8) = 0 \<longleftrightarrow> take_bit LENGTH(8) n = 0" by (simp only: word_of_nat_eq_0_iff exp_dvd_iff_exp_udvd take_bit_eq_0_iff)
    then show ?thesis by (simp add: take_bit_eq_mod)
  qed
  then have "segment_ok 0 = (\<lambda>seg. list_all is_digit seg \<and> length seg mod 256 \<noteq> 0)"
    by (auto simp: segment_ok_def fun_eq_iff)
  moreover have "UTILS_IsIPV4 (Some (dotted 999 999 999 999)) = 1" by code_simp
  ultimately show ?thesis by (simp add: UTILS_IsIPV4_segments)
qed

text \<open>
  C31. \<open>UTILS_StrToIP\<close> reads back every address in dotted decimal notation into its four bytes
  and returns 1; anything after the last number is ignored.
\<close>

theorem strtoip_roundtrip:
  assumes "a < 256" and "b < 256" and "c < 256" and "d < 256" and "length ip = 4"
    and "junk = [] \<or> \<not> is_digit (hd junk)"
  shows "UTILS_StrToIP (dotted a b c d @ junk) ip = Some (1, [of_nat a, of_nat b, of_nat c, of_nat d])"
  by (rule UTILS_StrToIP_dotted [OF assms])

theorem strtoip_roundtrip_witness:
  "UTILS_StrToIP (dotted 192 168 0 255 @ [0x3A, 0x31]) [0, 0, 0, 0] =
     Some (1, [of_nat 192, of_nat 168, of_nat 0, of_nat 255])"
  by (rule strtoip_roundtrip) (simp_all add: is_digit_def)

text \<open>
  \<open>UTILS_Atoh\<close> is the value of the longest prefix of hexadecimal digits, in both cases of
  letters, modulo 2 to the 32.
\<close>

lemma atoh_value:
  "UTILS_Atoh s = of_nat (hex_value (takeWhile (\<lambda>c. hex_digit c \<noteq> None) s))"
  by (rule UTILS_Atoh_value)

end
