(* ===== verification/Mqtt_Client.thy ===== *)
theory Mqtt_Client
  imports Mqtt_Decode Queue Utils
begin

text \<open>
  The MQTT client of \<open>src/mqtt/mqtt.c\<close> and \<open>mqtt.h\<close>: its state, the handlers that the
  SDK calls (task, timer, TCP callbacks, DNS answer) and the API functions. Everything that
  the client does outside its own memory is appended to the ghost field \<open>trace\<close>. The SDK
  and the application's callbacks are the parameter \<open>env\<close>.
\<close>

section \<open>State (mqtt.h)\<close>

datatype tConnState =
    WIFI_INIT | WIFI_CONNECTING | WIFI_CONNECTING_ERROR | WIFI_CONNECTED | DNS_RESOLVE
  | TCP_DISCONNECTING | TCP_DISCONNECTED | TCP_RECONNECT_DISCONNECTING | TCP_RECONNECT_REQ
  | TCP_RECONNECT | TCP_CONNECTING | TCP_CONNECTING_ERROR | TCP_CONNECTED
  | MQTT_CONNECT_SEND | MQTT_CONNECT_SENDING | MQTT_SUBSCIBE_SEND | MQTT_SUBSCIBE_SENDING
  | MQTT_DATA | MQTT_KEEPALIVE_SEND | MQTT_PUBLISH_RECV | MQTT_PUBLISHING
  | MQTT_DELETING | MQTT_DELETED

text \<open>What the client makes the SDK do. Callbacks are recorded with what they are given.\<close>

datatype client_cb = ConnectedCb | DisconnectedCb | PublishedCb | TimeoutCb

datatype effect =
    Os_post
  | Os_task
  | Tcp_connect
  | Tcp_send "u8 list"
  | Tcp_secure_send "u8 list"
  | Tcp_disconnect
  | Tcp_secure_disconnect
  | Tcp_delete
  | Regist_connectcb
  | Regist_reconcb
  | Regist_disconcb
  | Regist_recvcb
  | Regist_sentcb
  | Gethostbyname cstring
  | Timer_disarm
  | Timer_setfn
  | Timer_arm nat bool
  | Called client_cb
  | Called_data "u8 list option" u16 "u8 list option" u16

record esp_tcp =
  remote_port :: int
  local_port :: int
  remote_ip :: "u8 list"

text \<open>\<open>reverse\<close> always points to the client that owns the connection.\<close>

record espconn =
  proto_tcp :: "esp_tcp option"

text \<open>
  \<open>out_buffer\<close> and \<open>mqtt_connection.buffer\<close> point to the same block, whose bytes are kept in
  the connection; a freed block is the empty block. \<open>connect_info\<close> is either NULL or the
  client's own field, \<open>outbound_message\<close> either NULL or the connection's message. The
  fields \<open>port\<close>, \<open>auto_reconnect\<close> and \<open>pending_publish_qos\<close> are not used by the code.
\<close>

record mqtt_state_t =
  connect_info_set :: bool
  in_buffer :: "u8 list option"
  out_buffer :: bool
  in_buffer_length :: int
  out_buffer_length :: int
  message_length :: u16
  message_length_read :: u16
  outbound_message :: bool
  conn :: mqtt_connection
  pending_msg_id :: u16
  pending_msg_type :: int

record MQTT_Client =
  pCon :: "espconn option"
  security :: u8
  host :: "cstring option"
  port :: u32
  ip_addr :: u32
  mqtt_state :: mqtt_state_t
  connect_info :: mqtt_connect_info
  connectedCb :: "nat option"
  disconnectedCb :: "nat option"
  publishedCb :: "nat option"
  timeoutCb :: "nat option"
  dataCb :: "nat option"
  keepAliveTick :: u32
  reconnectTick :: u32
  sendTimeout :: u32
  connState :: tConnState
  msgQueue :: queue
  user_data :: bool
  trace :: "effect list"

text \<open>
  The SDK and the application: the functions behind the callback pointers, the result of a
  send, the allocator (\<open>None\<close> for NULL), a free TCP port, the configured \<open>MQTT_BUF_SIZE\<close>,
  and what uninitialised stack variables hold.
\<close>

record env =
  run_cb :: "nat \<Rightarrow> MQTT_Client \<Rightarrow> MQTT_Client option"
  run_data_cb :: "nat \<Rightarrow> MQTT_Client \<Rightarrow> u8 list option \<Rightarrow> u16 \<Rightarrow> u8 list option \<Rightarrow> u16 \<Rightarrow> MQTT_Client option"
  send_result :: "MQTT_Client \<Rightarrow> u8 list \<Rightarrow> int"
  zalloc :: "nat \<Rightarrow> u8 list option"
  sizeof_espconn :: nat
  sizeof_esp_tcp :: nat
  espconn_port :: int
  MQTT_BUF_SIZE :: nat
  junk_parser :: proto_parser
  junk_bytes :: "nat \<Rightarrow> u8"
  junk_len :: u16

definition MQTT_SEND_TIMOUT :: u32 where "MQTT_SEND_TIMOUT = 5"

definition MQTT_RECONNECT_TIMEOUT :: u32 where "MQTT_RECONNECT_TIMEOUT = 5"

definition QUEUE_BUFFER_SIZE :: int where "QUEUE_BUFFER_SIZE = 2048"

definition emit :: "effect \<Rightarrow> MQTT_Client \<Rightarrow> MQTT_Client" where
  "emit e c = c\<lparr>trace := trace c @ [e]\<rparr>"

definition dataBuffer :: "env \<Rightarrow> u8 list" where
  "dataBuffer e = map (junk_bytes e) [0..<MQTT_BUF_SIZE e]"

definition call_cb :: "env \<Rightarrow> client_cb \<Rightarrow> nat option \<Rightarrow> MQTT_Client \<Rightarrow> MQTT_Client option" where
  "call_cb e name cb c =
     (case cb of None \<Rightarrow> Some c | Some f \<Rightarrow> run_cb e f (emit (Called name) c))"

text \<open>\<open>set_conn\<close>, \<open>set_outbound\<close>: \<open>mqtt_connection\<close> and \<open>outbound_message\<close> of the state.\<close>

definition set_conn :: "mqtt_connection \<Rightarrow> MQTT_Client \<Rightarrow> MQTT_Client" where
  "set_conn k c = c\<lparr>mqtt_state := (mqtt_state c)\<lparr>conn := k, outbound_message := True\<rparr>\<rparr>"

definition clear_outbound :: "MQTT_Client \<Rightarrow> MQTT_Client" where
  "clear_outbound c = c\<lparr>mqtt_state := (mqtt_state c)\<lparr>outbound_message := False\<rparr>\<rparr>"

definition set_pending :: "int \<Rightarrow> u16 \<Rightarrow> MQTT_Client \<Rightarrow> MQTT_Client" where
  "set_pending t i c =
     c\<lparr>mqtt_state := (mqtt_state c)\<lparr>pending_msg_type := t, pending_msg_id := i\<rparr>\<rparr>"

text \<open>\<open>outbound_message->data\<close> as the memory from the pointer on; \<open>None\<close> for NULL.\<close>

definition outbound_data :: "MQTT_Client \<Rightarrow> u8 list option" where
  "outbound_data c =
     (if outbound_message (mqtt_state c)
      then (case msg_data (message (conn (mqtt_state c))) of
              None \<Rightarrow> None
            | Some i \<Rightarrow> Some (drop i (buffer (conn (mqtt_state c)))))
      else None)"

definition outbound_length :: "MQTT_Client \<Rightarrow> u16" where
  "outbound_length c = msg_length (message (conn (mqtt_state c)))"

text \<open>The send that every handler makes, over TLS when \<open>security\<close> is set.\<close>

definition tcp_send :: "u8 list \<Rightarrow> u16 \<Rightarrow> MQTT_Client \<Rightarrow> (u8 list \<times> MQTT_Client) option" where
  "tcp_send data len c =
     do {
       bytes \<leftarrow> rd_block data 0 (unat len);
       Some (bytes, emit (if security c \<noteq> 0 then Tcp_secure_send bytes else Tcp_send bytes) c)
     }"

definition tcp_disconnect :: "MQTT_Client \<Rightarrow> MQTT_Client" where
  "tcp_disconnect c = emit (if security c \<noteq> 0 then Tcp_secure_disconnect else Tcp_disconnect) c"

section \<open>Freeing\<close>

definition mqtt_tcpclient_delete :: "MQTT_Client \<Rightarrow> MQTT_Client" where
  "mqtt_tcpclient_delete c =
     (if pCon c \<noteq> None then (emit Tcp_delete c)\<lparr>pCon := None\<rparr> else c)"

definition mqtt_client_delete :: "MQTT_Client \<Rightarrow> MQTT_Client" where
  "mqtt_client_delete c =
     (let c = mqtt_tcpclient_delete c;
          c = (if host c \<noteq> None then c\<lparr>host := None\<rparr> else c);
          c = (if user_data c then c\<lparr>user_data := False\<rparr> else c);
          c = (if client_id (connect_info c) \<noteq> None
               then c\<lparr>connect_info := (connect_info c)\<lparr>client_id := None\<rparr>\<rparr> else c);
          c = (if username (connect_info c) \<noteq> None
               then c\<lparr>connect_info := (connect_info c)\<lparr>username := None\<rparr>\<rparr> else c);
          c = (if password (connect_info c) \<noteq> None
               then c\<lparr>connect_info := (connect_info c)\<lparr>password := None\<rparr>\<rparr> else c);
          c = (if will_topic (connect_info c) \<noteq> None
               then c\<lparr>connect_info := (connect_info c)\<lparr>will_topic := None\<rparr>\<rparr> else c);
          c = (if will_message (connect_info c) \<noteq> None
               then c\<lparr>connect_info := (connect_info c)\<lparr>will_message := None\<rparr>\<rparr> else c);
          c = (if in_buffer (mqtt_state c) \<noteq> None
               then c\<lparr>mqtt_state := (mqtt_state c)\<lparr>in_buffer := None\<rparr>\<rparr> else c)
      in if out_buffer (mqtt_state c)
         then c\<lparr>mqtt_state := (mqtt_state c)\<lparr>out_buffer := False,
                  conn := (conn (mqtt_state c))\<lparr>buffer := []\<rparr>\<rparr>\<rparr>
         else c)"

section \<open>Callbacks of the SDK\<close>

definition mqtt_dns_found :: "u32 option \<Rightarrow> MQTT_Client \<Rightarrow> MQTT_Client option" where
  "mqtt_dns_found ipaddr c =
     (case ipaddr of
        None \<Rightarrow> Some (c\<lparr>connState := TCP_RECONNECT_REQ\<rparr>)
      | Some addr \<Rightarrow>
          do {
            c \<leftarrow> (if ip_addr c = 0 \<and> addr \<noteq> 0 then do {
                     con \<leftarrow> pCon c;
                     tcp \<leftarrow> proto_tcp con;
                     let c = c\<lparr>pCon := Some (con\<lparr>proto_tcp := Some (tcp\<lparr>remote_ip := le32 addr\<rparr>)\<rparr>)\<rparr>;
                     Some ((emit Tcp_connect c)\<lparr>connState := TCP_CONNECTING\<rparr>)
                   } else Some c);
            Some (emit Os_post c)
          })"

text \<open>The pointers are passed to the callback as the memory they point to.\<close>

definition deliver_publish :: "env \<Rightarrow> u8 list \<Rightarrow> u16 \<Rightarrow> MQTT_Client \<Rightarrow> MQTT_Client option" where
  "deliver_publish e msg len c =
     do {
       (topic, topic_length) \<leftarrow> mqtt_get_publish_topic msg len;
       (data, data_length) \<leftarrow> mqtt_get_publish_data msg len;
       (case dataCb c of
          None \<Rightarrow> Some c
        | Some f \<Rightarrow>
            let t = map_option (\<lambda>i. drop i msg) topic; d = map_option (\<lambda>i. drop i msg) data
            in run_data_cb e f (emit (Called_data t topic_length d data_length) c)
                 t topic_length d data_length)
     }"

definition mqtt_send_keepalive :: "env \<Rightarrow> MQTT_Client \<Rightarrow> MQTT_Client option" where
  "mqtt_send_keepalive e c =
     do {
       k \<leftarrow> mqtt_msg_pingreq (conn (mqtt_state c));
       let c = set_conn k c;
       data \<leftarrow> outbound_data c;
       type \<leftarrow> mqtt_get_type data;
       mid \<leftarrow> mqtt_get_id data (outbound_length c);
       let c = (set_pending type mid c)\<lparr>sendTimeout := MQTT_SEND_TIMOUT\<rparr>;
       (bytes, c') \<leftarrow> tcp_send data (outbound_length c) c;
       let result = send_result e c bytes;
       let c = clear_outbound c';
       Some (if result = 0
             then emit Os_post (c\<lparr>keepAliveTick := 0, connState := MQTT_DATA\<rparr>)
             else emit Os_post (c\<lparr>connState := TCP_RECONNECT_DISCONNECTING\<rparr>))
     }"

text \<open>
  \<open>QUEUE_Puts\<close> of the outbound message; a full queue is only logged. The result says
  whether the message was queued.
\<close>

definition queue_outbound :: "MQTT_Client \<Rightarrow> MQTT_Client option" where
  "queue_outbound c =
     do {
       data \<leftarrow> outbound_data c;
       (r, q) \<leftarrow> QUEUE_Puts (msgQueue c) data (outbound_length c);
       Some (c\<lparr>msgQueue := q\<rparr>)
     }"

text \<open>The replies to the packets of a connected session: the inner switch of the receiver.\<close>

definition recv_reply :: "int \<Rightarrow> int \<Rightarrow> u16 \<Rightarrow> MQTT_Client \<Rightarrow> MQTT_Client option" where
  "recv_reply type qos mid c =
     (let k = conn (mqtt_state c)
      in if type = msg_type PUBLISH then
           do {
             c \<leftarrow> (if qos = 1 then map_option (\<lambda>k. set_conn k c) (mqtt_msg_puback k mid)
                   else if qos = 2 then map_option (\<lambda>k. set_conn k c) (mqtt_msg_pubrec k mid)
                   else Some c);
             (if qos = 1 \<or> qos = 2 then queue_outbound c else Some c)
           }
         else if type = msg_type PUBREC then
           do { k \<leftarrow> mqtt_msg_pubrel k mid; queue_outbound (set_conn k c) }
         else if type = msg_type PUBREL then
           do { k \<leftarrow> mqtt_msg_pubcomp k mid; queue_outbound (set_conn k c) }
         else if type = msg_type PINGREQ then
           do { k \<leftarrow> mqtt_msg_pingresp k; queue_outbound (set_conn k c) }
         else Some c)"

text \<open>
  One pass from the label READPACKET. The second result is what follows: \<open>None\<close> leaves the
  loop, \<open>Some\<close> jumps back with the new \<open>pdata\<close> and \<open>len\<close>.
\<close>

definition recv_packet ::
  "env \<Rightarrow> MQTT_Client \<Rightarrow> u8 list \<Rightarrow> u16 \<Rightarrow> (MQTT_Client \<times> (u8 list \<times> u16) option) option" where
  "recv_packet e c pdata len =
     (if unat len < MQTT_BUF_SIZE e \<and> 0 < len then
        do {
          src \<leftarrow> rd_block pdata 0 (unat len);
          old \<leftarrow> in_buffer (mqtt_state c);
          inb \<leftarrow> wr_block old 0 src;
          let c = c\<lparr>mqtt_state := (mqtt_state c)\<lparr>in_buffer := Some inb\<rparr>\<rparr>;
          type \<leftarrow> mqtt_get_type inb;
          qos \<leftarrow> mqtt_get_qos inb;
          mid \<leftarrow> mqtt_get_id inb (word_of_int (in_buffer_length (mqtt_state c)));
          (if connState c = MQTT_CONNECT_SENDING then
             (if type = msg_type CONNACK then
                (if pending_msg_type (mqtt_state c) \<noteq> msg_type CONNECT
                 then Some (tcp_disconnect c, None)
                 else do {
                   c \<leftarrow> call_cb e ConnectedCb (connectedCb c) (c\<lparr>connState := MQTT_DATA\<rparr>);
                   Some (c, None)
                 })
              else Some (c, None))
           else if connState c = MQTT_DATA \<or> connState c = MQTT_KEEPALIVE_SEND then
             do {
               total \<leftarrow> mqtt_get_total_length inb len;
               let c = c\<lparr>mqtt_state := (mqtt_state c)\<lparr>message_length_read := len,
                                                       message_length := word_of_int total\<rparr>\<rparr>;
               c \<leftarrow> recv_reply type qos mid c;
               c \<leftarrow> (if type = msg_type PUBLISH
                     then do {
                       inb \<leftarrow> in_buffer (mqtt_state c);
                       deliver_publish e inb (message_length_read (mqtt_state c)) c
                     } else Some c);
               (if type = msg_type PUBLISH \<and>
                   message_length (mqtt_state c) < message_length_read (mqtt_state c)
                then Some (c, Some (drop (unat (message_length (mqtt_state c))) pdata,
                                    message_length_read (mqtt_state c) - message_length (mqtt_state c)))
                else Some (c, None))
             }
           else Some (c, None))
        }
      else Some (c, None))"

text \<open>
  The loop may not end, so it has fuel: the inner \<open>None\<close> is fuel that ran out, the outer one
  an undefined behaviour.
\<close>

fun recv_loop :: "env \<Rightarrow> nat \<Rightarrow> MQTT_Client \<Rightarrow> u8 list \<Rightarrow> u16 \<Rightarrow> MQTT_Client option option" where
  "recv_loop e 0 c pdata len = Some None"
| "recv_loop e (Suc n) c pdata len =
     do {
       (c, next) \<leftarrow> recv_packet e c pdata len;
       (case next of
          None \<Rightarrow> Some (Some (emit Os_post c))
        | Some (pdata, len) \<Rightarrow> recv_loop e n c pdata len)
     }"

definition mqtt_tcpclient_recv ::
  "env \<Rightarrow> nat \<Rightarrow> u8 list \<Rightarrow> u16 \<Rightarrow> MQTT_Client \<Rightarrow> MQTT_Client option option" where
  "mqtt_tcpclient_recv e fuel pdata len c = recv_loop e fuel (c\<lparr>keepAliveTick := 0\<rparr>) pdata len"

definition mqtt_tcpclient_sent_cb :: "env \<Rightarrow> MQTT_Client \<Rightarrow> MQTT_Client option" where
  "mqtt_tcpclient_sent_cb e c =
     do {
       let c = c\<lparr>sendTimeout := 0, keepAliveTick := 0\<rparr>;
       c \<leftarrow> (if (connState c = MQTT_DATA \<or> connState c = MQTT_KEEPALIVE_SEND) \<and>
                pending_msg_type (mqtt_state c) = msg_type PUBLISH
             then call_cb e PublishedCb (publishedCb c) c else Some c);
       Some (emit Os_post c)
     }"

text \<open>
  The part of \<open>mqtt_timer\<close> that depends on the state of the connection. The comparison with
  \<open>keepalive\<close> converts it to \<open>uint32_t\<close>.
\<close>

definition timer_state :: "env \<Rightarrow> MQTT_Client \<Rightarrow> MQTT_Client option" where
  "timer_state e c =
     (if connState c = MQTT_DATA then do {
        let c = c\<lparr>keepAliveTick := keepAliveTick c + 1\<rparr>;
        (if \<not> connect_info_set (mqtt_state c) then None
         else if keepAliveTick c > word_of_int (keepalive (connect_info c))
         then Some (emit Os_post (c\<lparr>connState := MQTT_KEEPALIVE_SEND\<rparr>))
         else Some c)
      }
      else if connState c = TCP_RECONNECT_REQ then do {
        let c = c\<lparr>reconnectTick := reconnectTick c + 1\<rparr>;
        (if reconnectTick c > MQTT_RECONNECT_TIMEOUT
         then let c = emit Os_post (c\<lparr>reconnectTick := 0, connState := TCP_RECONNECT\<rparr>)
              in call_cb e TimeoutCb (timeoutCb c) c
         else Some c)
      }
      else Some c)"

definition mqtt_timer :: "env \<Rightarrow> MQTT_Client \<Rightarrow> MQTT_Client option" where
  "mqtt_timer e c =
     do {
       c \<leftarrow> timer_state e c;
       Some (if sendTimeout c > 0 then c\<lparr>sendTimeout := sendTimeout c - 1\<rparr> else c)
     }"

definition mqtt_tcpclient_discon_cb :: "env \<Rightarrow> MQTT_Client \<Rightarrow> MQTT_Client option" where
  "mqtt_tcpclient_discon_cb e c =
     do {
       let c = (if connState c = TCP_DISCONNECTING then c\<lparr>connState := TCP_DISCONNECTED\<rparr>
                else if connState c = MQTT_DELETING then c\<lparr>connState := MQTT_DELETED\<rparr>
                else c\<lparr>connState := TCP_RECONNECT_REQ\<rparr>);
       c \<leftarrow> call_cb e DisconnectedCb (disconnectedCb c) c;
       Some (emit Os_post c)
     }"

definition mqtt_tcpclient_connect_cb :: "MQTT_Client \<Rightarrow> MQTT_Client option" where
  "mqtt_tcpclient_connect_cb c =
     do {
       let c = emit Regist_sentcb (emit Regist_recvcb (emit Regist_disconcb c));
       let st = mqtt_state c;
       let k = mqtt_msg_init (if out_buffer st then buffer (conn st) else [])
                 (word_of_int (out_buffer_length st));
       k \<leftarrow> (if connect_info_set st then mqtt_msg_connect k (connect_info c) else None);
       let c = set_conn k c;
       data \<leftarrow> outbound_data c;
       type \<leftarrow> mqtt_get_type data;
       mid \<leftarrow> mqtt_get_id data (outbound_length c);
       let c = (set_pending type mid c)\<lparr>sendTimeout := MQTT_SEND_TIMOUT\<rparr>;
       (_, c) \<leftarrow> tcp_send data (outbound_length c) c;
       Some (emit Os_post ((clear_outbound c)\<lparr>connState := MQTT_CONNECT_SENDING\<rparr>))
     }"

definition mqtt_tcpclient_recon_cb :: "MQTT_Client \<Rightarrow> MQTT_Client option" where
  "mqtt_tcpclient_recon_cb c = Some (emit Os_post (c\<lparr>connState := TCP_RECONNECT_REQ\<rparr>))"

section \<open>The API\<close>

text \<open>
  The loop that queues the outbound message, shared by the four functions that follow: on
  success the task is posted, otherwise the function returns FALSE.
\<close>

definition queue_or_evict :: "env \<Rightarrow> MQTT_Client \<Rightarrow> (bool \<times> MQTT_Client) option" where
  "queue_or_evict e c =
     do {
       data \<leftarrow> outbound_data c;
       (ok, q) \<leftarrow> queue_evict (junk_parser e) (dataBuffer e) (junk_len e)
                    (of_nat (MQTT_BUF_SIZE e)) (msgQueue c) data (outbound_length c);
       let c = c\<lparr>msgQueue := q\<rparr>;
       Some (if ok then (True, emit Os_post c) else (False, c))
     }"

definition set_pending_id :: "u16 \<Rightarrow> MQTT_Client \<Rightarrow> MQTT_Client" where
  "set_pending_id i c = c\<lparr>mqtt_state := (mqtt_state c)\<lparr>pending_msg_id := i\<rparr>\<rparr>"

definition MQTT_Publish ::
  "env \<Rightarrow> cstring option \<Rightarrow> u8 list \<Rightarrow> int \<Rightarrow> int \<Rightarrow> int \<Rightarrow> MQTT_Client \<Rightarrow> (bool \<times> MQTT_Client) option" where
  "MQTT_Publish e topic data data_length qos retain c =
     do {
       (k, mid) \<leftarrow> mqtt_msg_publish (conn (mqtt_state c)) topic data data_length qos retain
                    (pending_msg_id (mqtt_state c));
       let c = set_pending_id mid (set_conn k c);
       (if outbound_length c = 0 then Some (False, c) else queue_or_evict e c)
     }"

definition MQTT_Subscribe :: "env \<Rightarrow> cstring option \<Rightarrow> u8 \<Rightarrow> MQTT_Client \<Rightarrow> (bool \<times> MQTT_Client) option" where
  "MQTT_Subscribe e topic qos c =
     do {
       (k, mid) \<leftarrow> mqtt_msg_subscribe (conn (mqtt_state c)) topic (uint qos)
                    (pending_msg_id (mqtt_state c));
       queue_or_evict e (set_pending_id mid (set_conn k c))
     }"

definition MQTT_UnSubscribe :: "env \<Rightarrow> cstring option \<Rightarrow> MQTT_Client \<Rightarrow> (bool \<times> MQTT_Client) option" where
  "MQTT_UnSubscribe e topic c =
     do {
       (k, mid) \<leftarrow> mqtt_msg_unsubscribe (conn (mqtt_state c)) topic (pending_msg_id (mqtt_state c));
       queue_or_evict e (set_pending_id mid (set_conn k c))
     }"

definition MQTT_Ping :: "env \<Rightarrow> MQTT_Client \<Rightarrow> (bool \<times> MQTT_Client) option" where
  "MQTT_Ping e c =
     do {
       k \<leftarrow> mqtt_msg_pingreq (conn (mqtt_state c));
       let c = set_conn k c;
       (if outbound_length c = 0 then Some (False, c) else queue_or_evict e c)
     }"

text \<open>A string copied into a new block: \<open>os_zalloc\<close>, \<open>os_strcpy\<close> and the terminator.\<close>

definition dup_string :: "env \<Rightarrow> cstring \<Rightarrow> cstring option" where
  "dup_string e s =
     do {
       m \<leftarrow> zalloc e (length s + 1);
       m \<leftarrow> wr_block m 0 (s @ [0]);
       m \<leftarrow> wr m (length s) 0;
       Some (takeWhile (\<lambda>b. b \<noteq> 0) m)
     }"

definition connect_info_zero :: mqtt_connect_info where
  "connect_info_zero =
     \<lparr>client_id = None, username = None, password = None, will_topic = None, will_message = None,
      keepalive = 0, will_qos = 0, will_retain = 0, clean_session = 0\<rparr>"

definition state_zero :: mqtt_state_t where
  "state_zero =
     \<lparr>connect_info_set = False, in_buffer = None, out_buffer = False, in_buffer_length = 0,
      out_buffer_length = 0, message_length = 0, message_length_read = 0, outbound_message = False,
      conn = mqtt_msg_init [] 0, pending_msg_id = 0, pending_msg_type = 0\<rparr>"

text \<open>The client after \<open>os_memset(mqttClient, 0, sizeof(MQTT_Client))\<close>; \<open>WIFI_INIT\<close> is 0.\<close>

definition client_zero :: "effect list \<Rightarrow> MQTT_Client" where
  "client_zero tr =
     \<lparr>pCon = None, security = 0, host = None, port = 0, ip_addr = 0, mqtt_state = state_zero,
      connect_info = connect_info_zero, connectedCb = None, disconnectedCb = None,
      publishedCb = None, timeoutCb = None, dataCb = None, keepAliveTick = 0, reconnectTick = 0,
      sendTimeout = 0, connState = WIFI_INIT, msgQueue = queue_zero, user_data = False, trace = tr\<rparr>"

definition MQTT_InitConnection ::
  "env \<Rightarrow> cstring \<Rightarrow> u32 \<Rightarrow> u8 \<Rightarrow> MQTT_Client \<Rightarrow> MQTT_Client option" where
  "MQTT_InitConnection e hst prt sec c =
     do {
       let c = client_zero (trace c);
       h \<leftarrow> dup_string e hst;
       Some (c\<lparr>host := Some h, port := prt, security := sec\<rparr>)
     }"

definition MQTT_InitClient ::
  "env \<Rightarrow> cstring \<Rightarrow> cstring option \<Rightarrow> cstring option \<Rightarrow> u32 \<Rightarrow> u8 \<Rightarrow> MQTT_Client \<Rightarrow> MQTT_Client option" where
  "MQTT_InitClient e cid user pass keepAliveTime cleanSession c =
     do {
       cid \<leftarrow> dup_string e cid;
       user \<leftarrow> (case user of None \<Rightarrow> Some None | Some s \<Rightarrow> map_option Some (dup_string e s));
       pass \<leftarrow> (case pass of None \<Rightarrow> Some None | Some s \<Rightarrow> map_option Some (dup_string e s));
       let c = c\<lparr>connect_info := connect_info_zero\<lparr>client_id := Some cid, username := user,
                   password := pass, keepalive := sint keepAliveTime,
                   clean_session := uint cleanSession\<rparr>\<rparr>;
       let inb = zalloc e (MQTT_BUF_SIZE e);
       let outb = zalloc e (MQTT_BUF_SIZE e);
       let bytes = (case outb of None \<Rightarrow> [] | Some m \<Rightarrow> m);
       let c = c\<lparr>mqtt_state := (mqtt_state c)\<lparr>in_buffer := inb, in_buffer_length := int (MQTT_BUF_SIZE e),
                   out_buffer := (outb \<noteq> None), out_buffer_length := int (MQTT_BUF_SIZE e),
                   connect_info_set := True,
                   conn := mqtt_msg_init bytes (of_nat (MQTT_BUF_SIZE e))\<rparr>\<rparr>;
       let c = c\<lparr>msgQueue := QUEUE_Init (zalloc e (nat QUEUE_BUFFER_SIZE)) (msgQueue c) QUEUE_BUFFER_SIZE\<rparr>;
       Some (emit Os_post (emit Os_task c))
     }"

definition MQTT_InitLWT ::
  "env \<Rightarrow> cstring \<Rightarrow> cstring \<Rightarrow> u8 \<Rightarrow> u8 \<Rightarrow> MQTT_Client \<Rightarrow> MQTT_Client option" where
  "MQTT_InitLWT e topic msg qos retain c =
     do {
       t \<leftarrow> dup_string e topic;
       m \<leftarrow> dup_string e msg;
       Some (c\<lparr>connect_info := (connect_info c)\<lparr>will_topic := Some t, will_message := Some m,
                 will_qos := uint qos, will_retain := uint retain\<rparr>\<rparr>)
     }"

definition MQTT_Connect :: "env \<Rightarrow> MQTT_Client \<Rightarrow> MQTT_Client option" where
  "MQTT_Connect e c =
     do {
       let c = (if pCon c \<noteq> None then mqtt_tcpclient_delete c else c);
       _ \<leftarrow> zalloc e (sizeof_espconn e);
       _ \<leftarrow> zalloc e (sizeof_esp_tcp e);
       let tcp = \<lparr>remote_port = sint (port c), local_port = espconn_port e, remote_ip = [0, 0, 0, 0]\<rparr>;
       let c = c\<lparr>pCon := Some \<lparr>proto_tcp = Some tcp\<rparr>\<rparr>;
       let c = emit Regist_reconcb (emit Regist_connectcb c);
       let c = c\<lparr>keepAliveTick := 0, reconnectTick := 0\<rparr>;
       let c = emit Timer_setfn (emit Timer_disarm c);
       h \<leftarrow> host c;
       (r, ip) \<leftarrow> UTILS_StrToIP h (remote_ip tcp);
       let c = c\<lparr>pCon := Some \<lparr>proto_tcp = Some (tcp\<lparr>remote_ip := ip\<rparr>)\<rparr>\<rparr>;
       let c = emit (if r \<noteq> 0 then Tcp_connect else Gethostbyname h) c;
       Some (c\<lparr>connState := TCP_CONNECTING\<rparr>)
     }"

definition MQTT_Disconnect :: "MQTT_Client \<Rightarrow> MQTT_Client" where
  "MQTT_Disconnect c = emit Timer_disarm (emit Os_post (c\<lparr>connState := TCP_DISCONNECTING\<rparr>))"

definition MQTT_DeleteClient :: "MQTT_Client \<Rightarrow> MQTT_Client" where
  "MQTT_DeleteClient c = emit Timer_disarm (emit Os_post (c\<lparr>connState := MQTT_DELETING\<rparr>))"

definition MQTT_OnConnected :: "nat option \<Rightarrow> MQTT_Client \<Rightarrow> MQTT_Client" where
  "MQTT_OnConnected f c = c\<lparr>connectedCb := f\<rparr>"

definition MQTT_OnDisconnected :: "nat option \<Rightarrow> MQTT_Client \<Rightarrow> MQTT_Client" where
  "MQTT_OnDisconnected f c = c\<lparr>disconnectedCb := f\<rparr>"

definition MQTT_OnData :: "nat option \<Rightarrow> MQTT_Client \<Rightarrow> MQTT_Client" where
  "MQTT_OnData f c = c\<lparr>dataCb := f\<rparr>"

definition MQTT_OnPublished :: "nat option \<Rightarrow> MQTT_Client \<Rightarrow> MQTT_Client" where
  "MQTT_OnPublished f c = c\<lparr>publishedCb := f\<rparr>"

definition MQTT_OnTimeout :: "nat option \<Rightarrow> MQTT_Client \<Rightarrow> MQTT_Client" where
  "MQTT_OnTimeout f c = c\<lparr>timeoutCb := f\<rparr>"

section \<open>The task\<close>

text \<open>The case MQTT\_DATA: take one message from the queue and send it.\<close>

definition task_send :: "env \<Rightarrow> MQTT_Client \<Rightarrow> MQTT_Client option" where
  "task_send e c =
     (if QUEUE_IsEmpty (msgQueue c) \<or> sendTimeout c \<noteq> 0 then Some c
      else do {
        (r, buf, len, q) \<leftarrow> QUEUE_Gets (junk_parser e) (msgQueue c) (dataBuffer e) (junk_len e)
                              (of_nat (MQTT_BUF_SIZE e));
        let c = c\<lparr>msgQueue := q\<rparr>;
        (if r = 0 then do {
           type \<leftarrow> mqtt_get_type buf;
           mid \<leftarrow> mqtt_get_id buf len;
           let c = (set_pending type mid c)\<lparr>sendTimeout := MQTT_SEND_TIMOUT\<rparr>;
           (_, c) \<leftarrow> tcp_send buf len c;
           Some (clear_outbound c)
         } else Some c)
      })"

definition MQTT_Task :: "env \<Rightarrow> MQTT_Client \<Rightarrow> MQTT_Client option" where
  "MQTT_Task e c =
     (case connState c of
        TCP_RECONNECT_REQ \<Rightarrow> Some c
      | TCP_RECONNECT \<Rightarrow>
          do { c \<leftarrow> MQTT_Connect e (mqtt_tcpclient_delete c); Some (c\<lparr>connState := TCP_CONNECTING\<rparr>) }
      | MQTT_DELETING \<Rightarrow> Some (tcp_disconnect c)
      | TCP_DISCONNECTING \<Rightarrow> Some (tcp_disconnect c)
      | TCP_RECONNECT_DISCONNECTING \<Rightarrow> Some (tcp_disconnect c)
      | TCP_DISCONNECTED \<Rightarrow> Some (mqtt_tcpclient_delete c)
      | MQTT_DELETED \<Rightarrow> Some (mqtt_client_delete c)
      | MQTT_KEEPALIVE_SEND \<Rightarrow> mqtt_send_keepalive e c
      | MQTT_DATA \<Rightarrow> task_send e c
      | _ \<Rightarrow> Some c)"

end
