(* ===== verification/Mqtt_Client_Props.thy ===== *)
theory Mqtt_Client_Props
  imports Mqtt_Client
begin

text \<open>
  Safety of the client: an invariant over its buffers, its queue and its counters, kept by
  every handler, under which no handler has undefined behaviour; the events of the SDK and of
  the application as a step relation, and the states reachable through it.
\<close>

section \<open>Builders keep the connection usable\<close>

definition conn_step :: "mqtt_connection \<Rightarrow> mqtt_connection \<Rightarrow> bool" where
  "conn_step k k' \<longleftrightarrow> small_conn k' \<and> message_inside k' \<and> buffer_length k' = buffer_length k \<and>
     length (buffer k') = length (buffer k)"

lemma built_conn_step: "small_conn k \<Longrightarrow> built k body hdr k' \<Longrightarrow> conn_step k k'"
  by (auto simp: built_def conn_step_def small_conn_def conn_ok_def)

lemma fail_conn_step: "small_conn k \<Longrightarrow> conn_step k (fail_message (snd (init_message k)))"
  by (auto simp: conn_step_def small_conn_def conn_ok_def message_inside_def fail_message_def
      init_message_def)

lemma ack_conn_step:
  assumes "small_conn k"
  shows "\<exists>k'. mqtt_msg_puback k mid = Some k' \<and> conn_step k k'"
    and "\<exists>k'. mqtt_msg_pubrec k mid = Some k' \<and> conn_step k k'"
    and "\<exists>k'. mqtt_msg_pubrel k mid = Some k' \<and> conn_step k k'"
    and "\<exists>k'. mqtt_msg_pubcomp k mid = Some k' \<and> conn_step k k'"
proof -
  have *: "\<exists>k'. (do { (r, c) \<leftarrow> append_message_id (snd (init_message k)) mid;
        if r = 0 then Some (fail_message c) else fini_message c t 0 q 0 }) = Some k' \<and> conn_step k k'"
    for t q
  proof -
    have ok: "conn_ok k" using assms by (simp add: small_conn_def)
    from ack_packet [OF ok, of mid t q] obtain k' where
      "(do { (r, c) \<leftarrow> append_message_id (snd (init_message k)) mid;
        if r = 0 then Some (fail_message c) else fini_message c t 0 q 0 }) = Some k'"
      "conn_ok k' \<and> message_inside k'" "buffer_length k' = buffer_length k"
      by (auto simp: failed_def split: if_splits)
    with assms show ?thesis by (auto simp: conn_step_def small_conn_def conn_ok_def)
  qed
  from *[of "msg_type PUBACK" 0] show "\<exists>k'. mqtt_msg_puback k mid = Some k' \<and> conn_step k k'"
    by (simp only: mqtt_msg_puback_def)
  from *[of "msg_type PUBREC" 0] show "\<exists>k'. mqtt_msg_pubrec k mid = Some k' \<and> conn_step k k'"
    by (simp only: mqtt_msg_pubrec_def)
  from *[of "msg_type PUBREL" 1] show "\<exists>k'. mqtt_msg_pubrel k mid = Some k' \<and> conn_step k k'"
    by (simp only: mqtt_msg_pubrel_def)
  from *[of "msg_type PUBCOMP" 0] show "\<exists>k'. mqtt_msg_pubcomp k mid = Some k' \<and> conn_step k k'"
    by (simp only: mqtt_msg_pubcomp_def)
qed

lemma ping_conn_step:
  assumes "small_conn k"
  shows "\<exists>k'. mqtt_msg_pingreq k = Some k' \<and> conn_step k k'"
    and "\<exists>k'. mqtt_msg_pingresp k = Some k' \<and> conn_step k k'"
proof -
  have *: "\<exists>k'. fini_message (snd (init_message k)) t 0 0 0 = Some k' \<and> conn_step k k'" for t
    using empty_packet [of k t] assms
    by (auto simp: conn_step_def small_conn_def same_conn_def)
  then show "\<exists>k'. mqtt_msg_pingreq k = Some k' \<and> conn_step k k'"
    and "\<exists>k'. mqtt_msg_pingresp k = Some k' \<and> conn_step k k'"
    by (simp_all only: mqtt_msg_pingreq_def mqtt_msg_pingresp_def)
qed

lemma publish_conn_step:
  assumes "small_conn k"
  shows "\<exists>k' mid'. mqtt_msg_publish k topic data (int (length data)) qos retain mid = Some (k', mid') \<and>
           conn_step k k'"
proof (cases "present topic")
  case True
  then obtain t where "topic = Some t" "t \<noteq> []" by (auto simp: present_def split: option.splits)
  with mqtt_msg_publish_built [OF assms, of t data qos retain mid] built_conn_step [OF assms]
  show ?thesis by blast
next
  case False
  with fail_conn_step [OF assms] show ?thesis by (simp add: mqtt_msg_publish_def)
qed

lemma subscribe_conn_step:
  assumes "small_conn k"
  shows "\<exists>k' mid'. mqtt_msg_subscribe k topic qos mid = Some (k', mid') \<and> conn_step k k'"
    and "\<exists>k' mid'. mqtt_msg_unsubscribe k topic mid = Some (k', mid') \<and> conn_step k k'"
proof -
  show "\<exists>k' mid'. mqtt_msg_subscribe k topic qos mid = Some (k', mid') \<and> conn_step k k'"
  proof (cases "present topic")
    case True
    then obtain t where "topic = Some t" "t \<noteq> []" by (auto simp: present_def split: option.splits)
    with mqtt_msg_subscribe_built [OF assms, of t qos mid] built_conn_step [OF assms]
    show ?thesis by blast
  next
    case False
    with fail_conn_step [OF assms] show ?thesis by (simp add: mqtt_msg_subscribe_def)
  qed
  show "\<exists>k' mid'. mqtt_msg_unsubscribe k topic mid = Some (k', mid') \<and> conn_step k k'"
  proof (cases "present topic")
    case True
    then obtain t where "topic = Some t" "t \<noteq> []" by (auto simp: present_def split: option.splits)
    with mqtt_msg_unsubscribe_built [OF assms, of t mid] built_conn_step [OF assms]
    show ?thesis by blast
  next
    case False
    with fail_conn_step [OF assms] show ?thesis by (simp add: mqtt_msg_unsubscribe_def)
  qed
qed

definition will_ok :: "mqtt_connect_info \<Rightarrow> bool" where
  "will_ok info \<longleftrightarrow> (present (will_topic info) \<longrightarrow> will_message info \<noteq> None)"

lemma connect_conn_step:
  assumes "small_conn k" and "will_ok info"
  shows "\<exists>k'. mqtt_msg_connect k info = Some k' \<and> conn_step k k'"
proof (cases "present (client_id info)")
  case True
  with mqtt_msg_connect_built [OF assms(1) True] assms(2) built_conn_step [OF assms(1)]
  show ?thesis by (auto simp: will_ok_def)
next
  case False
  have ok: "conn_ok k" using assms(1) by (simp add: small_conn_def)
  from mqtt_msg_connect_no_id [OF ok False] assms(1) show ?thesis
    by (auto simp: failed_def conn_step_def small_conn_def conn_ok_def)
qed

section \<open>The invariant\<close>

text \<open>What the client relies on: a buffer size within bounds, an allocator that does not fail.\<close>

definition env_bounds :: "env \<Rightarrow> bool" where
  "env_bounds e \<longleftrightarrow> 3 \<le> MQTT_BUF_SIZE e \<and> MQTT_BUF_SIZE e \<le> 16386"

definition state_ok :: "env \<Rightarrow> mqtt_state_t \<Rightarrow> bool" where
  "state_ok e st \<longleftrightarrow>
     small_conn (conn st) \<and> length (buffer (conn st)) = MQTT_BUF_SIZE e \<and>
     out_buffer st \<and> connect_info_set st \<and>
     in_buffer_length st = int (MQTT_BUF_SIZE e) \<and> out_buffer_length st = int (MQTT_BUF_SIZE e) \<and>
     map_option length (in_buffer st) = Some (MQTT_BUF_SIZE e)"

definition host_ok :: "cstring option \<Rightarrow> bool" where
  "host_ok h \<longleftrightarrow> h \<noteq> None \<and> UTILS_StrToIP (the h) [0, 0, 0, 0] \<noteq> None"

definition tcp_ok :: "espconn option \<Rightarrow> bool" where
  "tcp_ok p \<longleftrightarrow> (case p of None \<Rightarrow> True | Some con \<Rightarrow> proto_tcp con \<noteq> None)"

definition msg_queue_ok :: "queue \<Rightarrow> bool" where
  "msg_queue_ok q \<longleftrightarrow> queue_inv q \<and> rb_capacity (rb q) = 2048"

definition client_ok :: "env \<Rightarrow> MQTT_Client \<Rightarrow> bool" where
  "client_ok e c \<longleftrightarrow>
     state_ok e (mqtt_state c) \<and> will_ok (connect_info c) \<and> msg_queue_ok (msgQueue c) \<and>
     sendTimeout c \<le> MQTT_SEND_TIMOUT \<and> host_ok (host c) \<and> tcp_ok (pCon c)"

text \<open>The fields that the invariant does not look at.\<close>

lemma client_ok_other [simp]:
  "client_ok e (c\<lparr>connState := s\<rparr>) = client_ok e c"
  "client_ok e (c\<lparr>keepAliveTick := t\<rparr>) = client_ok e c"
  "client_ok e (c\<lparr>reconnectTick := t\<rparr>) = client_ok e c"
  "client_ok e (c\<lparr>trace := tr\<rparr>) = client_ok e c"
  "client_ok e (emit x c) = client_ok e c"
  by (simp_all add: client_ok_def emit_def)

lemma client_ok_state [simp]:
  "client_ok e (clear_outbound c) = client_ok e c"
  "client_ok e (set_pending t i c) = client_ok e c"
  "client_ok e (set_pending_id i c) = client_ok e c"
  by (simp_all add: client_ok_def state_ok_def clear_outbound_def set_pending_def set_pending_id_def)

lemma client_ok_sent [simp]:
  "client_ok e c \<Longrightarrow> client_ok e (c\<lparr>sendTimeout := 0\<rparr>)"
  "client_ok e c \<Longrightarrow> client_ok e (c\<lparr>sendTimeout := MQTT_SEND_TIMOUT\<rparr>)"
  by (simp_all add: client_ok_def)

lemma client_ok_disconnect [simp]: "client_ok e (tcp_disconnect c) = client_ok e c"
  by (simp add: tcp_disconnect_def)

lemma client_ok_tcp_delete [simp]: "client_ok e c \<Longrightarrow> client_ok e (mqtt_tcpclient_delete c)"
  by (simp add: mqtt_tcpclient_delete_def client_ok_def tcp_ok_def emit_def)

lemma client_conn: "client_ok e c \<Longrightarrow> small_conn (conn (mqtt_state c))"
  by (simp add: client_ok_def state_ok_def)

lemma client_ok_set_conn:
  "client_ok e c \<Longrightarrow> conn_step (conn (mqtt_state c)) k \<Longrightarrow> client_ok e (set_conn k c)"
  by (simp add: client_ok_def state_ok_def set_conn_def conn_step_def)

lemma client_ok_queue:
  "client_ok e c \<Longrightarrow> msg_queue_ok q \<Longrightarrow> client_ok e (c\<lparr>msgQueue := q\<rparr>)"
  by (simp add: client_ok_def)

section \<open>Handlers\<close>

text \<open>The outbound message lies in the buffer whenever a builder has just returned.\<close>

definition has_outbound :: "MQTT_Client \<Rightarrow> bool" where
  "has_outbound c \<longleftrightarrow> outbound_message (mqtt_state c) \<and> message_inside (conn (mqtt_state c))"

lemma set_conn_outbound: "message_inside k \<Longrightarrow> has_outbound (set_conn k c)"
  by (simp add: has_outbound_def set_conn_def)

lemma has_outbound_pending [simp]: "has_outbound (set_pending_id i c) = has_outbound c"
  by (simp add: has_outbound_def set_pending_id_def)

lemma outbound_packet:
  assumes "has_outbound c"
  shows "\<exists>data. outbound_data c = Some data \<and> unat (outbound_length c) \<le> length data \<and>
           take (unat (outbound_length c)) data = packet_bytes (conn (mqtt_state c))"
  using assms
  by (auto simp: has_outbound_def outbound_data_def outbound_length_def message_inside_def
      packet_bytes_def split: option.splits)

lemma queue_outbound_ok:
  assumes ok: "client_ok e c" and out: "has_outbound c"
  shows "\<exists>q. queue_outbound c = Some (c\<lparr>msgQueue := q\<rparr>) \<and> msg_queue_ok q \<and>
           queue_msgs q =
             (if length (frame (packet_bytes (conn (mqtt_state c)))) \<le> queue_free (msgQueue c)
              then queue_msgs (msgQueue c) @ [packet_bytes (conn (mqtt_state c))]
              else queue_msgs (msgQueue c))"
proof -
  obtain data where d: "outbound_data c = Some data" "unat (outbound_length c) \<le> length data"
    "take (unat (outbound_length c)) data = packet_bytes (conn (mqtt_state c))"
    using outbound_packet [OF out] by blast
  have q: "queue_inv (msgQueue c)" and cap: "rb_capacity (rb (msgQueue c)) = 2048"
    using ok by (simp_all add: client_ok_def msg_queue_ok_def)
  show ?thesis
  proof (cases "length (frame (packet_bytes (conn (mqtt_state c)))) \<le> queue_free (msgQueue c)")
    case True
    with QUEUE_Puts_fits [OF q d(2)] d cap show ?thesis
      by (auto simp: queue_outbound_def msg_queue_ok_def)
  next
    case False
    then have "queue_free (msgQueue c) < length (frame (take (unat (outbound_length c)) data))"
      using d(3) by simp
    from QUEUE_Puts_full [OF q d(2) this] d cap False show ?thesis
      by (auto simp: queue_outbound_def msg_queue_ok_def)
  qed
qed

text \<open>A connected client answers a packet by queueing the reply the protocol asks for.\<close>

lemma recv_reply_ok:
  assumes ok: "client_ok e c"
  shows "\<exists>c'. recv_reply t q mid c = Some c' \<and> client_ok e c' \<and>
           connState c' = connState c \<and> sendTimeout c' = sendTimeout c \<and> trace c' = trace c \<and>
           in_buffer (mqtt_state c') = in_buffer (mqtt_state c) \<and>
           message_length (mqtt_state c') = message_length (mqtt_state c) \<and>
           message_length_read (mqtt_state c') = message_length_read (mqtt_state c)"
proof -
  let ?k = "conn (mqtt_state c)"
  have sm: "small_conn ?k" by (rule client_conn [OF ok])
  have *: "\<exists>c'. queue_outbound (set_conn k c) = Some c' \<and> client_ok e c' \<and>
      connState c' = connState c \<and> sendTimeout c' = sendTimeout c \<and> trace c' = trace c \<and>
      in_buffer (mqtt_state c') = in_buffer (mqtt_state c) \<and>
      message_length (mqtt_state c') = message_length (mqtt_state c) \<and>
      message_length_read (mqtt_state c') = message_length_read (mqtt_state c)"
    if "conn_step ?k k" for k
  proof -
    have ok': "client_ok e (set_conn k c)" by (rule client_ok_set_conn [OF ok that])
    have "has_outbound (set_conn k c)" using that by (simp add: set_conn_outbound conn_step_def)
    from queue_outbound_ok [OF ok' this] client_ok_queue [OF ok'] show ?thesis
      by (auto simp: set_conn_def)
  qed
  note acks = ack_conn_step [OF sm, of mid] ping_conn_step [OF sm]
  show ?thesis
    using acks * ok by (auto simp: recv_reply_def Let_def)
qed

section \<open>What the client relies on\<close>

definition recv_state :: "MQTT_Client \<Rightarrow> u16 \<times> u16" where
  "recv_state c = (message_length (mqtt_state c), message_length_read (mqtt_state c))"

text \<open>
  The allocator succeeds and gives zeroed memory; a callback returns, keeps the invariant and
  leaves alone the two lengths that only the receiver writes. The data callback may rely on
  pointers and lengths that describe the topic and the data.
\<close>

definition env_ok :: "env \<Rightarrow> bool" where
  "env_ok e \<longleftrightarrow> env_bounds e \<and> (\<forall>n. zalloc e n = Some (replicate n 0)) \<and>
     (\<forall>f c. client_ok e c \<longrightarrow>
        (\<exists>c'. run_cb e f c = Some c' \<and> client_ok e c' \<and> recv_state c' = recv_state c)) \<and>
     (\<forall>f c t tl d dl topic data. client_ok e c \<and> points_to t tl topic \<and> points_to d dl data \<longrightarrow>
        (\<exists>c'. run_data_cb e f c t tl d dl = Some c' \<and> client_ok e c' \<and> recv_state c' = recv_state c))"

lemma recv_state_emit [simp]: "recv_state (emit x c) = recv_state c"
  by (simp add: recv_state_def emit_def)

lemma data_cb_ok:
  assumes "env_ok e" and "client_ok e c" and "points_to t tn topic" and "points_to d dn data"
  shows "\<exists>c'. run_data_cb e f c t tn d dn = Some c' \<and> client_ok e c' \<and> recv_state c' = recv_state c"
proof -
  have "\<forall>f c t tl d dl topic data. client_ok e c \<and> points_to t tl topic \<and> points_to d dl data \<longrightarrow>
      (\<exists>c'. run_data_cb e f c t tl d dl = Some c' \<and> client_ok e c' \<and> recv_state c' = recv_state c)"
    using assms(1) unfolding env_ok_def by (elim conjE)
  with assms(2-4) show ?thesis by blast
qed

lemma call_cb_ok:
  assumes "env_ok e" and "client_ok e c"
  shows "\<exists>c'. call_cb e name cb c = Some c' \<and> client_ok e c' \<and> recv_state c' = recv_state c"
proof (cases cb)
  case None
  with assms show ?thesis by (simp add: call_cb_def)
next
  case (Some f)
  have "client_ok e (emit (Called name) c)" using assms(2) by simp
  with assms(1) have "\<exists>c'. run_cb e f (emit (Called name) c) = Some c' \<and> client_ok e c' \<and>
      recv_state c' = recv_state (emit (Called name) c)"
    unfolding env_ok_def by metis
  with Some show ?thesis by (simp add: call_cb_def)
qed

section \<open>The receiver\<close>

text \<open>A packet as brokers send it: a PUBLISH has a topic, and its header agrees with its body.\<close>

definition wf_packet :: "u8 \<Rightarrow> u8 list \<Rightarrow> bool" where
  "wf_packet hdr body \<longleftrightarrow>
     (hdr_type hdr = msg_type PUBLISH \<longrightarrow>
        (\<exists>topic qos mid data. body = publish_body topic qos mid data \<and> topic \<noteq> [] \<and>
           length topic < 65536 \<and> hdr_qos hdr = int qos))"

text \<open>The same by parsing, for evaluation.\<close>

definition parses_publish :: "u8 \<Rightarrow> u8 list \<Rightarrow> bool" where
  "parses_publish hdr body \<longleftrightarrow>
     (case body of
        b1 # b0 # rest \<Rightarrow>
          (let n = unat b1 * 256 + unat b0
           in n \<noteq> 0 \<and> n + (if 0 < hdr_qos hdr then 2 else 0) \<le> length rest)
      | _ \<Rightarrow> False)"

lemma be16_bytes: "be16 (unat (b1 :: u8) * 256 + unat (b0 :: u8)) = [b1, b0]"
proof -
  have "unat b0 < 256" using unsigned_less [of b0] by simp
  then show ?thesis by (simp add: be16_def)
qed

lemma be16_inverse:
  assumes "n < 65536"
  shows "\<exists>b1 b0. be16 n = [b1, b0] \<and> unat b1 * 256 + unat b0 = n"
proof -
  have "unat (of_nat (n div 256) :: u8) = n div 256" "unat (of_nat (n mod 256) :: u8) = n mod 256"
    using assms by (simp_all add: unsigned_of_nat take_bit_nat_eq_self)
  then show ?thesis by (simp add: be16_def)
qed

lemma unat_pair: "unat (b1 :: u8) * 256 + unat (b0 :: u8) < 65536"
proof -
  have "unat b1 < 256" "unat b0 < 256" using unsigned_less [of b1] unsigned_less [of b0] by simp_all
  then show ?thesis by simp
qed

lemma publish_body_parses:
  assumes "topic \<noteq> []" and t: "length topic < 65536" and "hdr_qos hdr = int qos"
  shows "parses_publish hdr (publish_body topic qos mid data)"
proof -
  obtain b1 b0 where b: "be16 (length topic) = [b1, b0]" "unat b1 * 256 + unat b0 = length topic"
    using be16_inverse [OF t] by blast
  moreover have "0 < unat b1 \<or> 0 < unat b0" using assms(1) b(2) by (cases topic) auto
  ultimately show ?thesis
    using assms by (simp add: parses_publish_def publish_body_def mqtt_string_def be16_def [of "unat mid"])
qed

lemma parses_publish_body:
  assumes p: "parses_publish hdr body"
  shows "\<exists>topic qos mid data. body = publish_body topic qos mid data \<and> topic \<noteq> [] \<and>
           length topic < 65536 \<and> hdr_qos hdr = int qos"
proof -
  obtain b1 b0 rest where b: "body = b1 # b0 # rest" using p by (auto simp: parses_publish_def split: list.splits)
  define n where "n = unat b1 * 256 + unat b0"
  have n: "0 < n" "n + (if 0 < hdr_qos hdr then 2 else 0) \<le> length rest" "n < 65536"
    using p unat_pair [of b1 b0] by (simp_all add: b n_def Let_def parses_publish_def)
  have q: "hdr_qos hdr = int (nat (hdr_qos hdr))" by (simp add: hdr_qos_def)
  have l: "length (take n rest) = n" using n(2) by simp
  have t: "take n rest \<noteq> []" "length (take n rest) < 65536" using n by auto
  have body: "body = mqtt_string (take n rest) @ drop n rest"
    by (simp add: b mqtt_string_def l be16_bytes [of b1 b0, folded n_def] del: length_take)
  show ?thesis
  proof (cases "0 < hdr_qos hdr")
    case False
    with body have "body = publish_body (take n rest) (nat (hdr_qos hdr)) 0 (drop n rest)"
      by (simp add: publish_body_def)
    with t q show ?thesis by blast
  next
    case True
    then obtain m1 m0 data where d: "drop n rest = m1 # m0 # data"
      using n(2) by (cases "drop n rest"; cases "tl (drop n rest)") (auto dest: arg_cong [of _ _ length])
    define mid :: u16 where "mid = of_nat (unat m1 * 256 + unat m0)"
    have "unat (of_nat k :: u16) = k" if "k < 65536" for k
      using that by (simp add: unsigned_of_nat take_bit_nat_eq_self)
    from this [OF unat_pair] have "unat mid = unat m1 * 256 + unat m0" unfolding mid_def .
    with True body d have "body = publish_body (take n rest) (nat (hdr_qos hdr)) mid data"
      by (simp add: publish_body_def be16_bytes)
    with t q show ?thesis by blast
  qed
qed

lemma wf_packet_code [code]:
  "wf_packet hdr body \<longleftrightarrow> (hdr_type hdr = msg_type PUBLISH \<longrightarrow> parses_publish hdr body)"
  using publish_body_parses [of _ hdr] parses_publish_body [of hdr body] unfolding wf_packet_def by blast

lemma deliver_publish_ok:
  assumes env: "env_ok e" and ok: "client_ok e c" and buf: "starts_with buf hdr body"
    and len: "length (packet hdr body) \<le> unat len" and "wf_packet hdr body"
    and "hdr_type hdr = msg_type PUBLISH"
  shows "\<exists>c'. deliver_publish e buf len c = Some c' \<and> client_ok e c' \<and> recv_state c' = recv_state c"
proof -
  obtain topic qos mid data where "body = publish_body topic qos mid data" "topic \<noteq> []"
    "length topic < 65536" "hdr_qos hdr = int qos"
    using assms(5,6) by (auto simp: wf_packet_def)
  with publish_decoded [of buf hdr topic qos mid data len] buf len obtain tp tl dp dl where
    d: "mqtt_get_publish_topic buf len = Some (tp, tl)" "mqtt_get_publish_data buf len = Some (dp, dl)"
    "points_to (map_option (\<lambda>i. drop i buf) tp) tl topic"
    "points_to (map_option (\<lambda>i. drop i buf) dp) dl data" by blast
  show ?thesis
  proof (cases "dataCb c")
    case None
    with d ok show ?thesis by (simp add: deliver_publish_def)
  next
    case (Some f)
    let ?t = "map_option (\<lambda>i. drop i buf) tp" and ?d = "map_option (\<lambda>i. drop i buf) dp"
    let ?c = "emit (Called_data ?t tl ?d dl) c"
    have okc: "client_ok e ?c" and rs: "recv_state ?c = recv_state c"
      using ok by simp_all
    from data_cb_ok [OF env okc d(3,4), of f] rs
    have "\<exists>c'. run_data_cb e f ?c ?t tl ?d dl = Some c' \<and> client_ok e c' \<and>
        recv_state c' = recv_state c" by simp
    with d Some show ?thesis by (simp add: deliver_publish_def Let_def)
  qed
qed

lemma client_ok_in_buffer:
  "client_ok e c \<Longrightarrow> length m = MQTT_BUF_SIZE e \<Longrightarrow>
     client_ok e (c\<lparr>mqtt_state := (mqtt_state c)\<lparr>in_buffer := Some m\<rparr>\<rparr>)"
  by (simp add: client_ok_def state_ok_def)

lemma client_ok_lengths:
  "client_ok e (c\<lparr>mqtt_state := (mqtt_state c)\<lparr>message_length_read := a, message_length := b\<rparr>\<rparr>)
     = client_ok e c"
  by (simp add: client_ok_def state_ok_def)

text \<open>The switch on the state of the connection, after the packet was copied.\<close>

definition recv_dispatch ::
  "env \<Rightarrow> MQTT_Client \<Rightarrow> u8 list \<Rightarrow> u8 list \<Rightarrow> u16 \<Rightarrow> int \<Rightarrow> int \<Rightarrow> u16
     \<Rightarrow> (MQTT_Client \<times> (u8 list \<times> u16) option) option" where
  "recv_dispatch e c pdata inb len type qos mid =
     (if connState c = MQTT_CONNECT_SENDING then
        (if type = msg_type CONNACK then
           (if pending_msg_type (mqtt_state c) \<noteq> msg_type CONNECT
            then Some (tcp_disconnect c, None)
            else do {
              c \<leftarrow> call_cb e ConnectedCb (connectedCb c) (c\<lparr>connState := MQTT_DATA\<rparr>);
              Some (c, None)
            })
         else Some (c, None))
      else if connState c = MQTT_DATA \<or> connState c = MQTT_KEEPALIVE_SEND then
        do {
          total \<leftarrow> mqtt_get_total_length inb len;
          let c = c\<lparr>mqtt_state := (mqtt_state c)\<lparr>message_length_read := len,
                                                  message_length := word_of_int total\<rparr>\<rparr>;
          c \<leftarrow> recv_reply type qos mid c;
          c \<leftarrow> (if type = msg_type PUBLISH
                then do {
                  inb \<leftarrow> in_buffer (mqtt_state c);
                  deliver_publish e inb (message_length_read (mqtt_state c)) c
                } else Some c);
          (if type = msg_type PUBLISH \<and>
              message_length (mqtt_state c) < message_length_read (mqtt_state c)
           then Some (c, Some (drop (unat (message_length (mqtt_state c))) pdata,
                               message_length_read (mqtt_state c) - message_length (mqtt_state c)))
           else Some (c, None))
        }
      else Some (c, None))"

text \<open>The copy itself: what the input buffer holds, and the three values read from it.\<close>

lemma recv_packet_dispatch:
  assumes ok: "client_ok e c" and env: "env_bounds e" and pd: "pdata = packet hdr body @ later"
    and len: "unat len = length pdata" and fits: "unat len < MQTT_BUF_SIZE e"
  shows "\<exists>inb mid. recv_packet e c pdata len =
           recv_dispatch e (c\<lparr>mqtt_state := (mqtt_state c)\<lparr>in_buffer := Some inb\<rparr>\<rparr>) pdata inb len
             (hdr_type hdr) (hdr_qos hdr) mid \<and>
           length inb = MQTT_BUF_SIZE e \<and> starts_with inb hdr body \<and>
           mqtt_get_id inb (of_nat (MQTT_BUF_SIZE e)) = Some mid"
proof -
  obtain old where old: "in_buffer (mqtt_state c) = Some old" "length old = MQTT_BUF_SIZE e"
    and ibl: "in_buffer_length (mqtt_state c) = int (MQTT_BUF_SIZE e)"
    using ok by (auto simp: client_ok_def state_ok_def)
  define inb where "inb = pdata @ drop (length pdata) old"
  have l: "length inb = MQTT_BUF_SIZE e" using len fits old by (simp add: inb_def)
  have st: "starts_with inb hdr body" by (auto simp: starts_with_def inb_def pd)
  have wr: "wr_block old 0 pdata = Some inb"
    using len fits old by (simp add: wr_block_def inb_def)
  have rdb: "rd_block pdata 0 (unat len) = Some pdata" by (simp add: rd_block_def len)
  have pos: "0 < len" using len by (simp add: pd length_packet word_less_nat_alt)
  have ne: "inb \<noteq> []" using pos l fits by auto
  have "MQTT_BUF_SIZE e < 65536" using env by (simp add: env_bounds_def)
  then have "unat (of_nat (MQTT_BUF_SIZE e) :: u16) = length inb"
    by (simp add: l unsigned_of_nat take_bit_nat_eq_self)
  then obtain mid where mid: "mqtt_get_id inb (of_nat (MQTT_BUF_SIZE e)) = Some mid"
    using mqtt_get_id_defined [of "of_nat (MQTT_BUF_SIZE e)" inb] by auto
  have "hd inb = hdr" using st by (auto simp: starts_with_def packet_def)
  with mid ibl rdb wr old(1) pos fits have "recv_packet e c pdata len =
      recv_dispatch e (c\<lparr>mqtt_state := (mqtt_state c)\<lparr>in_buffer := Some inb\<rparr>\<rparr>) pdata inb len
        (hdr_type hdr) (hdr_qos hdr) mid"
    by (simp add: recv_packet_def recv_dispatch_def mqtt_get_type_defined [OF ne]
        mqtt_get_qos_defined [OF ne])
  with l st mid show ?thesis by blast
qed

text \<open>A packet of \<open>n\<close> bytes at the start of a segment, whose length has sixteen bits, with \<open>m\<close> bytes after it.\<close>

lemma rest_of_segment:
  fixes len :: u16
  assumes "unat len = n + m"
  shows "unat (of_nat n :: u16) = n" and "of_nat n < len \<longleftrightarrow> 0 < m" and "unat (len - of_nat n) = m"
proof -
  have "unat len < 2 ^ LENGTH(16)" by (rule unsigned_less)
  then show n: "unat (of_nat n :: u16) = n"
    using assms by (simp add: unsigned_of_nat take_bit_nat_eq_self)
  show "of_nat n < len \<longleftrightarrow> 0 < m" using assms by (simp add: word_less_nat_alt n)
  have "of_nat n \<le> len" using assms by (simp add: word_le_nat_alt n)
  then show "unat (len - of_nat n) = m" using assms by (simp add: unat_sub n)
qed

lemma recv_dispatch_ok:
  assumes env: "env_ok e" and ok: "client_ok e c" and pd: "pdata = packet hdr body @ later"
    and len: "unat len = length pdata" and wf: "wf_packet hdr body"
    and inb: "in_buffer (mqtt_state c) = Some inb" "starts_with inb hdr body"
    and ilen: "unat len \<le> length inb"
  shows "\<exists>c' next. recv_dispatch e c pdata inb len (hdr_type hdr) qos mid = Some (c', next) \<and>
           client_ok e c' \<and>
           (next = None \<or> later \<noteq> [] \<and> next = Some (later, len - of_nat (length (packet hdr body))))"
proof (cases "connState c = MQTT_DATA \<or> connState c = MQTT_KEEPALIVE_SEND")
  case False
  have "client_ok e (c\<lparr>connState := MQTT_DATA\<rparr>)" using ok by simp
  from call_cb_ok [OF env this, of ConnectedCb "connectedCb c"] False ok show ?thesis
    by (auto simp: recv_dispatch_def)
next
  case True
  let ?p = "length (packet hdr body)" and ?t = "hdr_type hdr"
  have ple: "?p \<le> unat len" using len by (simp add: pd)
  have total: "mqtt_get_total_length inb len = Some (int ?p)"
    by (rule packet_decoders(3) [OF inb(2) ilen ple])
  define c1 where "c1 = c\<lparr>mqtt_state := (mqtt_state c)\<lparr>message_length_read := len,
      message_length := of_nat ?p\<rparr>\<rparr>"
  have ok1: "client_ok e c1" using ok client_ok_lengths by (simp add: c1_def)
  have rs1: "recv_state c1 = (of_nat ?p, len)" and ib1: "in_buffer (mqtt_state c1) = Some inb"
    by (simp_all add: c1_def recv_state_def inb)
  obtain c2 where c2: "recv_reply ?t qos mid c1 = Some c2" "client_ok e c2"
    "recv_state c2 = (of_nat ?p, len)" "in_buffer (mqtt_state c2) = Some inb"
    using recv_reply_ok [OF ok1, of ?t qos mid] rs1 ib1 by (auto simp: recv_state_def)
  have notsend: "connState c \<noteq> MQTT_CONNECT_SENDING" using True by auto
  have disp: "recv_dispatch e c pdata inb len ?t qos mid = do {
      c \<leftarrow> (if ?t = msg_type PUBLISH
            then deliver_publish e inb len c2 else Some c2);
      (if ?t = msg_type PUBLISH \<and>
          message_length (mqtt_state c) < message_length_read (mqtt_state c)
       then Some (c, Some (drop (unat (message_length (mqtt_state c))) pdata,
                           message_length_read (mqtt_state c) - message_length (mqtt_state c)))
       else Some (c, None))
    }"
    using True notsend total c2 by (simp add: recv_dispatch_def recv_state_def flip: c1_def)
  show ?thesis
  proof (cases "?t = msg_type PUBLISH")
    case False
    with disp c2(2) show ?thesis by simp
  next
    case True
    from deliver_publish_ok [OF env c2(2) inb(2) ple wf True] obtain c3 where
      c3: "deliver_publish e inb len c2 = Some c3" "client_ok e c3" "recv_state c3 = (of_nat ?p, len)"
      using c2(3) by auto
    have "unat len = ?p + length later" by (simp add: len pd)
    note rest = rest_of_segment [OF this]
    have "drop ?p pdata = later" by (simp add: pd)
    then show ?thesis
      using disp c3 True rest(1,2) by (auto simp: recv_state_def)
  qed
qed

lemma recv_packet_ok:
  assumes env: "env_ok e" and ok: "client_ok e c" and pd: "pdata = packet hdr body @ later"
    and len: "unat len = length pdata" and fits: "unat len < MQTT_BUF_SIZE e"
    and wf: "wf_packet hdr body"
  shows "\<exists>c' next. recv_packet e c pdata len = Some (c', next) \<and> client_ok e c' \<and>
           (next = None \<or> later \<noteq> [] \<and> next = Some (later, len - of_nat (length (packet hdr body))))"
proof -
  have b: "env_bounds e" using env by (simp add: env_ok_def)
  from recv_packet_dispatch [OF ok b pd len fits] obtain inb mid where
    d: "recv_packet e c pdata len =
      recv_dispatch e (c\<lparr>mqtt_state := (mqtt_state c)\<lparr>in_buffer := Some inb\<rparr>\<rparr>) pdata inb len
        (hdr_type hdr) (hdr_qos hdr) mid"
    "length inb = MQTT_BUF_SIZE e" "starts_with inb hdr body" by blast
  have ok': "client_ok e (c\<lparr>mqtt_state := (mqtt_state c)\<lparr>in_buffer := Some inb\<rparr>\<rparr>)"
    by (rule client_ok_in_buffer [OF ok d(2)])
  from recv_dispatch_ok [OF env ok' pd len wf _ d(3)] fits d show ?thesis by simp
qed

text \<open>The bytes of a TCP segment that holds complete packets.\<close>

definition segment :: "(u8 \<times> u8 list) list \<Rightarrow> u8 list" where
  "segment pkts = concat (map (\<lambda>(hdr, body). packet hdr body) pkts)"

lemma recv_loop_segment:
  assumes env: "env_ok e" and ok: "client_ok e c" and len: "unat len = length (segment pkts)"
    and fits: "unat len < MQTT_BUF_SIZE e" and wf: "\<forall>(hdr, body) \<in> set pkts. wf_packet hdr body"
    and fuel: "length pkts < n"
  shows "\<exists>c'. recv_loop e n c (segment pkts) len = Some (Some c') \<and> client_ok e c'"
  using ok len fits wf fuel
proof (induction pkts arbitrary: n c len)
  case Nil
  then obtain m where "n = Suc m" by (cases n) auto
  with Nil show ?case
    by (simp add: segment_def recv_packet_def word_gt_0 unat_eq_0)
next
  case (Cons p pkts)
  obtain hdr body where p: "p = (hdr, body)" by (cases p)
  obtain m where n: "n = Suc m" using Cons.prems by (cases n) auto
  have seg: "segment (p # pkts) = packet hdr body @ segment pkts" by (simp add: segment_def p)
  have wf: "wf_packet hdr body" using Cons.prems by (simp add: p)
  from recv_packet_ok [OF env Cons.prems(1) seg Cons.prems(2,3) wf] obtain c1 nx where
    c1: "recv_packet e c (segment (p # pkts)) len = Some (c1, nx)" "client_ok e c1"
    "nx = None \<or> nx = Some (segment pkts, len - of_nat (length (packet hdr body)))" by blast
  show ?case
  proof (cases "nx = None")
    case True
    with c1 n show ?thesis by simp
  next
    case False
    let ?p = "length (packet hdr body)"
    have lt: "unat len < 2 ^ LENGTH(16)" by (rule unsigned_less)
    have ple: "?p \<le> unat len" and rest: "unat len = ?p + length (segment pkts)"
      using Cons.prems(2) by (simp_all add: seg)
    have up: "unat (of_nat ?p :: u16) = ?p"
      using ple lt by (simp add: unsigned_of_nat take_bit_nat_eq_self)
    have "of_nat ?p \<le> len" using up ple by (simp add: word_le_nat_alt)
    then have u: "unat (len - of_nat ?p) = length (segment pkts)"
      using rest up by (simp add: unat_sub)
    have "unat (len - of_nat ?p) < MQTT_BUF_SIZE e" using u rest Cons.prems(3) by linarith
    from Cons.IH [OF c1(2) u this] Cons.prems(4,5) n
    have "\<exists>c'. recv_loop e m c1 (segment pkts) (len - of_nat ?p) = Some (Some c') \<and> client_ok e c'"
      by simp
    with c1 False n show ?thesis by auto
  qed
qed

section \<open>The other handlers\<close>

lemma tcp_send_ok:
  assumes "unat len \<le> length data"
  shows "tcp_send data len c = Some (take (unat len) data,
           emit (if security c \<noteq> 0 then Tcp_secure_send (take (unat len) data)
                 else Tcp_send (take (unat len) data)) c)"
  using assms by (simp add: tcp_send_def rd_block_def)

lemma outbound_decoded:
  assumes "has_outbound c"
  shows "\<exists>data mid. outbound_data c = Some data \<and> unat (outbound_length c) \<le> length data \<and>
           take (unat (outbound_length c)) data = packet_bytes (conn (mqtt_state c)) \<and>
           mqtt_get_id data (outbound_length c) = Some mid \<and>
           mqtt_get_type data = Some (hdr_type (hd data))"
proof -
  obtain data where d: "outbound_data c = Some data" "unat (outbound_length c) \<le> length data"
    "take (unat (outbound_length c)) data = packet_bytes (conn (mqtt_state c))"
    using outbound_packet [OF assms] by blast
  have "data \<noteq> []"
    using assms d(1) by (auto simp: has_outbound_def message_inside_def outbound_data_def
        split: option.splits)
  with d mqtt_get_id_defined [OF d(2)] show ?thesis by (auto simp: mqtt_get_type_defined)
qed

lemma timeout_decrement: "t \<le> MQTT_SEND_TIMOUT \<Longrightarrow> 0 < t \<Longrightarrow> t - 1 \<le> MQTT_SEND_TIMOUT"
proof -
  assume "t \<le> MQTT_SEND_TIMOUT" and "0 < t"
  then have "unat t \<le> 5" and "(1 :: u32) \<le> t"
    by (simp_all add: word_le_nat_alt word_less_nat_alt MQTT_SEND_TIMOUT_def)
  moreover from this have "unat (t - 1) = unat t - 1" by (simp add: unat_sub)
  ultimately show ?thesis by (simp add: word_le_nat_alt MQTT_SEND_TIMOUT_def)
qed

lemma client_ok_tick:
  "client_ok e c \<Longrightarrow> sendTimeout c > 0 \<Longrightarrow> client_ok e (c\<lparr>sendTimeout := sendTimeout c - 1\<rparr>)"
  using timeout_decrement [of "sendTimeout c"] by (simp add: client_ok_def)

lemma timer_state_ok:
  assumes env: "env_ok e" and ok: "client_ok e c"
  shows "\<exists>c'. timer_state e c = Some c' \<and> client_ok e c'"
proof -
  let ?c1 = "emit Os_post (c\<lparr>reconnectTick := 0, connState := TCP_RECONNECT\<rparr>)"
  have "connect_info_set (mqtt_state c)" using ok by (simp add: client_ok_def state_ok_def)
  moreover have "client_ok e ?c1" using ok by simp
  from call_cb_ok [OF env this, of TimeoutCb "timeoutCb ?c1"]
  have "\<exists>c'. call_cb e TimeoutCb (timeoutCb ?c1) ?c1 = Some c' \<and> client_ok e c'" by blast
  ultimately show ?thesis using ok by (auto simp: timer_state_def Let_def)
qed

lemma mqtt_timer_ok:
  assumes "env_ok e" and "client_ok e c"
  shows "\<exists>c'. mqtt_timer e c = Some c' \<and> client_ok e c'"
  using timer_state_ok [OF assms] by (auto simp: mqtt_timer_def client_ok_tick)

lemma mqtt_tcpclient_sent_cb_ok:
  assumes "env_ok e" and "client_ok e c"
  shows "\<exists>c'. mqtt_tcpclient_sent_cb e c = Some c' \<and> client_ok e c'"
proof -
  let ?c1 = "c\<lparr>sendTimeout := 0, keepAliveTick := 0\<rparr>"
  have "client_ok e ?c1" using assms(2) by simp
  with call_cb_ok [OF assms(1) this, of PublishedCb "publishedCb ?c1"] show ?thesis
    by (auto simp: mqtt_tcpclient_sent_cb_def Let_def)
qed

lemma mqtt_tcpclient_discon_cb_ok:
  assumes "env_ok e" and "client_ok e c"
  shows "\<exists>c'. mqtt_tcpclient_discon_cb e c = Some c' \<and> client_ok e c'"
proof -
  define c1 where "c1 = (if connState c = TCP_DISCONNECTING then c\<lparr>connState := TCP_DISCONNECTED\<rparr>
      else if connState c = MQTT_DELETING then c\<lparr>connState := MQTT_DELETED\<rparr>
      else c\<lparr>connState := TCP_RECONNECT_REQ\<rparr>)"
  have "client_ok e c1" using assms(2) by (simp add: c1_def)
  from call_cb_ok [OF assms(1) this, of DisconnectedCb "disconnectedCb c1"] show ?thesis
    by (auto simp: mqtt_tcpclient_discon_cb_def simp flip: c1_def)
qed

lemma mqtt_tcpclient_recon_cb_ok:
  "client_ok e c \<Longrightarrow> \<exists>c'. mqtt_tcpclient_recon_cb c = Some c' \<and> client_ok e c'"
  by (simp add: mqtt_tcpclient_recon_cb_def)

lemma client_ok_pCon:
  "client_ok e c \<Longrightarrow> proto_tcp con \<noteq> None \<Longrightarrow> client_ok e (c\<lparr>pCon := Some con\<rparr>)"
  by (simp add: client_ok_def tcp_ok_def)

lemma mqtt_dns_found_ok:
  assumes ok: "client_ok e c" and "pCon c \<noteq> None"
  shows "\<exists>c'. mqtt_dns_found ip c = Some c' \<and> client_ok e c'"
proof (cases ip)
  case None
  with ok show ?thesis by (simp add: mqtt_dns_found_def)
next
  case (Some addr)
  obtain con tcp where con: "pCon c = Some con" "proto_tcp con = Some tcp"
    using assms by (auto simp: client_ok_def tcp_ok_def)
  with Some ok show ?thesis
    by (simp add: mqtt_dns_found_def Let_def client_ok_pCon [OF ok])
qed

text \<open>Sending a packet that a builder has just made: keep-alive and CONNECT.\<close>

lemma client_ok_send:
  "client_ok e c \<Longrightarrow> client_ok e ((set_pending t i c)\<lparr>sendTimeout := MQTT_SEND_TIMOUT\<rparr>)"
  by (rule client_ok_sent(2)) simp

lemma outbound_other [simp]:
  "outbound_length ((set_pending t i c)\<lparr>sendTimeout := s\<rparr>) = outbound_length c"
  by (simp add: outbound_length_def set_pending_def)

lemma mqtt_send_keepalive_ok:
  assumes ok: "client_ok e c"
  shows "\<exists>c'. mqtt_send_keepalive e c = Some c' \<and> client_ok e c'"
proof -
  from ping_conn_step(1) [OF client_conn [OF ok]] obtain k where
    k: "mqtt_msg_pingreq (conn (mqtt_state c)) = Some k" "conn_step (conn (mqtt_state c)) k" by blast
  have ok1: "client_ok e (set_conn k c)" by (rule client_ok_set_conn [OF ok k(2)])
  have "has_outbound (set_conn k c)" using k(2) by (simp add: set_conn_outbound conn_step_def)
  from outbound_decoded [OF this] k(1) client_ok_send [OF ok1] show ?thesis
    by (auto simp: mqtt_send_keepalive_def Let_def tcp_send_ok)
qed

lemma mqtt_tcpclient_connect_cb_ok:
  assumes ok: "client_ok e c" and env: "env_bounds e"
  shows "\<exists>c'. mqtt_tcpclient_connect_cb c = Some c' \<and> client_ok e c'"
proof -
  let ?c0 = "emit Regist_sentcb (emit Regist_recvcb (emit Regist_disconcb c))"
  let ?st = "mqtt_state ?c0"
  let ?k0 = "mqtt_msg_init (buffer (conn ?st)) (word_of_int (out_buffer_length ?st))"
  have st: "state_ok e ?st" "will_ok (connect_info ?c0)" and ok0: "client_ok e ?c0"
    using ok by (simp_all add: client_ok_def emit_def)
  have "MQTT_BUF_SIZE e < 65536" using env by (simp add: env_bounds_def)
  then have "unat (word_of_int (int (MQTT_BUF_SIZE e)) :: u16) = MQTT_BUF_SIZE e"
    by (intro unat_u16_of_int) simp_all
  then have k0: "small_conn ?k0" "length (buffer ?k0) = MQTT_BUF_SIZE e"
    using st(1) env
    by (simp_all add: state_ok_def small_conn_def conn_ok_def mqtt_msg_init_def env_bounds_def)
  from connect_conn_step [OF k0(1) st(2)] obtain k where
    k: "mqtt_msg_connect ?k0 (connect_info ?c0) = Some k" "conn_step ?k0 k" by blast
  have ok1: "client_ok e (set_conn k ?c0)"
    using ok0 k(2) k0(2) by (simp add: client_ok_def state_ok_def set_conn_def conn_step_def)
  have "has_outbound (set_conn k ?c0)" using k(2) by (simp add: set_conn_outbound conn_step_def)
  from outbound_decoded [OF this] k(1) st(1) client_ok_send [OF ok1] show ?thesis
    by (auto simp: mqtt_tcpclient_connect_cb_def Let_def tcp_send_ok state_ok_def)
qed

section \<open>The API\<close>

lemma buffer_length_word: "env_bounds e \<Longrightarrow> unat (of_nat (MQTT_BUF_SIZE e) :: u16) = MQTT_BUF_SIZE e"
  by (simp add: env_bounds_def unsigned_of_nat take_bit_nat_eq_self)

lemma length_dataBuffer [simp]: "length (dataBuffer e) = MQTT_BUF_SIZE e"
  by (simp add: dataBuffer_def)

lemma queue_or_evict_ok:
  assumes ok: "client_ok e c" and env: "env_bounds e" and out: "has_outbound c"
  defines "bytes \<equiv> packet_bytes (conn (mqtt_state c))"
  shows "\<exists>r q k. queue_or_evict e c =
           Some (r, if r then emit Os_post (c\<lparr>msgQueue := q\<rparr>) else c\<lparr>msgQueue := q\<rparr>) \<and>
           msg_queue_ok q \<and> k \<le> length (queue_msgs (msgQueue c)) \<and>
           queue_msgs q = (if r then drop k (queue_msgs (msgQueue c)) @ [bytes] else [])"
    and "length (frame bytes) \<le> queue_free (msgQueue c) \<Longrightarrow>
         \<exists>q. queue_or_evict e c = Some (True, emit Os_post (c\<lparr>msgQueue := q\<rparr>)) \<and>
           msg_queue_ok q \<and> queue_msgs q = queue_msgs (msgQueue c) @ [bytes] \<and>
           queue_free q = queue_free (msgQueue c) - length (frame bytes)"
proof -
  obtain data where d: "outbound_data c = Some data" "unat (outbound_length c) \<le> length data"
    "take (unat (outbound_length c)) data = bytes"
    using outbound_packet [OF out] by (auto simp: bytes_def)
  have q: "queue_inv (msgQueue c)" and cap: "rb_capacity (rb (msgQueue c)) = 2048"
    using ok by (simp_all add: client_ok_def msg_queue_ok_def)
  have len: "unat (of_nat (MQTT_BUF_SIZE e) :: u16) \<le> length (dataBuffer e)"
    by (simp add: buffer_length_word [OF env])
  from queue_evict_returns [OF q d(2) len, of "junk_parser e" "junk_len e"] d cap
  show "\<exists>r q k. queue_or_evict e c =
           Some (r, if r then emit Os_post (c\<lparr>msgQueue := q\<rparr>) else c\<lparr>msgQueue := q\<rparr>) \<and>
           msg_queue_ok q \<and> k \<le> length (queue_msgs (msgQueue c)) \<and>
           queue_msgs q = (if r then drop k (queue_msgs (msgQueue c)) @ [bytes] else [])"
    by (auto simp: queue_or_evict_def Let_def msg_queue_ok_def split: if_splits)
  assume "length (frame bytes) \<le> queue_free (msgQueue c)"
  with queue_evict_fits [OF q d(2), of "junk_parser e" "dataBuffer e" "junk_len e" "of_nat (MQTT_BUF_SIZE e)"] d cap
  show "\<exists>q. queue_or_evict e c = Some (True, emit Os_post (c\<lparr>msgQueue := q\<rparr>)) \<and>
           msg_queue_ok q \<and> queue_msgs q = queue_msgs (msgQueue c) @ [bytes] \<and>
           queue_free q = queue_free (msgQueue c) - length (frame bytes)"
    by (auto simp: queue_or_evict_def Let_def msg_queue_ok_def)
qed

lemma queue_or_evict_client_ok:
  assumes "client_ok e c" and "env_bounds e" and "has_outbound c"
  shows "\<exists>r c'. queue_or_evict e c = Some (r, c') \<and> client_ok e c'"
  using queue_or_evict_ok(1) [OF assms] client_ok_queue [OF assms(1)] by auto

lemma set_conn_built:
  assumes "client_ok e c" and "conn_step (conn (mqtt_state c)) k"
  shows "client_ok e (set_conn k c)" and "has_outbound (set_conn k c)"
  using assms by (simp_all add: client_ok_set_conn set_conn_outbound conn_step_def)

lemma MQTT_Publish_ok:
  assumes ok: "client_ok e c" and env: "env_bounds e"
  shows "\<exists>r c'. MQTT_Publish e topic data (int (length data)) qos retain c = Some (r, c') \<and> client_ok e c'"
proof -
  from publish_conn_step [OF client_conn [OF ok]] obtain k mid where
    k: "mqtt_msg_publish (conn (mqtt_state c)) topic data (int (length data)) qos retain
          (pending_msg_id (mqtt_state c)) = Some (k, mid)" "conn_step (conn (mqtt_state c)) k" by blast
  note b = set_conn_built [OF ok k(2)]
  have ok1: "client_ok e (set_pending_id mid (set_conn k c))" using b(1) by simp
  have "has_outbound (set_pending_id mid (set_conn k c))" using b(2) by simp
  from queue_or_evict_client_ok [OF ok1 env this] k(1) ok1 show ?thesis
    by (auto simp: MQTT_Publish_def Let_def)
qed

lemma MQTT_Subscribe_ok:
  assumes ok: "client_ok e c" and env: "env_bounds e"
  shows "\<exists>r c'. MQTT_Subscribe e topic qos c = Some (r, c') \<and> client_ok e c'"
    and "\<exists>r c'. MQTT_UnSubscribe e topic c = Some (r, c') \<and> client_ok e c'"
proof -
  have *: "\<exists>r c'. queue_or_evict e (set_pending_id mid (set_conn k c)) = Some (r, c') \<and> client_ok e c'"
    if "conn_step (conn (mqtt_state c)) k" for k mid
    by (rule queue_or_evict_client_ok) (use set_conn_built [OF ok that] env in simp_all)
  obtain k mid where "mqtt_msg_subscribe (conn (mqtt_state c)) topic (uint qos)
      (pending_msg_id (mqtt_state c)) = Some (k, mid)" "conn_step (conn (mqtt_state c)) k"
    using subscribe_conn_step(1) [OF client_conn [OF ok]] by blast
  with * [of k mid] show "\<exists>r c'. MQTT_Subscribe e topic qos c = Some (r, c') \<and> client_ok e c'"
    by (auto simp: MQTT_Subscribe_def)
  obtain k mid where "mqtt_msg_unsubscribe (conn (mqtt_state c)) topic
      (pending_msg_id (mqtt_state c)) = Some (k, mid)" "conn_step (conn (mqtt_state c)) k"
    using subscribe_conn_step(2) [OF client_conn [OF ok]] by blast
  with * [of k mid] show "\<exists>r c'. MQTT_UnSubscribe e topic c = Some (r, c') \<and> client_ok e c'"
    by (auto simp: MQTT_UnSubscribe_def)
qed

lemma MQTT_Ping_ok:
  assumes ok: "client_ok e c" and env: "env_bounds e"
  shows "\<exists>r c'. MQTT_Ping e c = Some (r, c') \<and> client_ok e c'"
proof -
  from ping_conn_step(1) [OF client_conn [OF ok]] obtain k where
    k: "mqtt_msg_pingreq (conn (mqtt_state c)) = Some k" "conn_step (conn (mqtt_state c)) k" by blast
  note b = set_conn_built [OF ok k(2)]
  from queue_or_evict_client_ok [OF b(1) env b(2)] k(1) b(1) show ?thesis
    by (auto simp: MQTT_Ping_def Let_def)
qed

text \<open>A string without zero bytes is copied as it is.\<close>

lemma dup_string_ok:
  assumes "zalloc e (length s + 1) = Some (replicate (length s + 1) 0)" and "0 \<notin> set s"
  shows "dup_string e s = Some s"
proof -
  have "takeWhile (\<lambda>b. b \<noteq> 0) ((s @ [0])[length s := 0]) = s"
    using assms(2) by (induction s) auto
  with assms(1) show ?thesis by (simp add: dup_string_def mem_simps list_update_append)
qed

lemma MQTT_InitLWT_ok:
  assumes ok: "client_ok e c" and "env_ok e" and "0 \<notin> set topic" and "0 \<notin> set msg"
  shows "\<exists>c'. MQTT_InitLWT e topic msg qos retain c = Some c' \<and> client_ok e c'"
proof -
  have "zalloc e n = Some (replicate n 0)" for n using assms(2) by (simp add: env_ok_def)
  then have "dup_string e topic = Some topic" "dup_string e msg = Some msg"
    using dup_string_ok assms(3,4) by simp_all
  with ok show ?thesis
    by (simp add: MQTT_InitLWT_def client_ok_def will_ok_def)
qed

lemma MQTT_Connect_ok:
  assumes ok: "client_ok e c" and env: "env_ok e"
  shows "\<exists>c'. MQTT_Connect e c = Some c' \<and> client_ok e c'"
proof -
  define c1 where "c1 = (if pCon c \<noteq> None then mqtt_tcpclient_delete c else c)"
  have ok1: "client_ok e c1" using ok by (simp add: c1_def)
  have hc1: "host c1 = host c" by (simp add: c1_def mqtt_tcpclient_delete_def emit_def)
  obtain h where h: "host c = Some h" and "UTILS_StrToIP h [0, 0, 0, 0] \<noteq> None"
    using ok by (auto simp: client_ok_def host_ok_def)
  then obtain r ip where ip: "UTILS_StrToIP h [0, 0, 0, 0] = Some (r, ip)" by auto
  have z: "zalloc e n = Some (replicate n 0)" for n using env by (simp add: env_ok_def)
  show ?thesis
    unfolding MQTT_Connect_def Let_def c1_def [symmetric] using ok1 h hc1 ip z
    by (simp add: emit_def client_ok_def tcp_ok_def)
qed

section \<open>The task\<close>

lemma task_send_ok:
  assumes ok: "client_ok e c" and env: "env_bounds e"
  shows "\<exists>c'. task_send e c = Some c' \<and> client_ok e c'"
proof -
  have q: "queue_inv (msgQueue c)" and cap: "rb_capacity (rb (msgQueue c)) = 2048"
    using ok by (simp_all add: client_ok_def msg_queue_ok_def)
  have len: "unat (of_nat (MQTT_BUF_SIZE e) :: u16) \<le> length (dataBuffer e)"
    by (simp add: buffer_length_word [OF env])
  have okq: "client_ok e (c\<lparr>msgQueue := q\<rparr>)" if "queue_inv q" "rb_capacity (rb q) = 2048" for q
    using client_ok_queue [OF ok] that by (simp add: msg_queue_ok_def)
  show ?thesis
  proof (cases "queue_msgs (msgQueue c)")
    case Nil
    from QUEUE_Gets_none [OF q Nil len, of "junk_parser e" "junk_len e"] cap okq ok show ?thesis
      by (auto simp: task_send_def)
  next
    case (Cons m ms)
    from QUEUE_Gets_message [OF q Cons len, of "junk_parser e" "junk_len e"] obtain buf n q' where
      g: "QUEUE_Gets (junk_parser e) (msgQueue c) (dataBuffer e) (junk_len e) (of_nat (MQTT_BUF_SIZE e)) =
        Some (0, buf, n, q')" "queue_inv q'" "rb_capacity (rb q') = 2048"
      "length buf = MQTT_BUF_SIZE e" "unat n \<le> length buf"
      using cap by (auto simp: buffer_length_word [OF env])
    have "buf \<noteq> []" using g(4) env by (auto simp: env_bounds_def)
    from mqtt_get_type_defined [OF this] mqtt_get_id_defined [OF g(5)] g
      client_ok_send [OF okq [OF g(2,3)]] ok
    show ?thesis by (auto simp: task_send_def Let_def tcp_send_ok)
  qed
qed

lemma MQTT_Task_ok:
  assumes ok: "client_ok e c" and env: "env_ok e" and "connState c \<noteq> MQTT_DELETED"
  shows "\<exists>c'. MQTT_Task e c = Some c' \<and> client_ok e c'"
proof -
  have b: "env_bounds e" using env by (simp add: env_ok_def)
  have "client_ok e (mqtt_tcpclient_delete c)" using ok by simp
  note MQTT_Connect_ok [OF this env] task_send_ok [OF ok b] mqtt_send_keepalive_ok [OF ok]
  then show ?thesis
    using ok assms(3) by (cases "connState c") (auto simp: MQTT_Task_def)
qed

end
