(* ===== verification/Mqtt_System.thy ===== *)
theory Mqtt_System
  imports Mqtt_Client_Props
begin

text \<open>
  The client as a reactive system: the events that the SDK and the application deliver, the
  step relation they induce, and the properties of every state reachable from the
  initialisation. A freed client (after MQTT\_DELETED) takes no further step.
\<close>

section \<open>Events\<close>

datatype event =
    Task
  | Timer
  | Recv "(u8 \<times> u8 list) list"
  | Sent
  | Tcp_connected
  | Tcp_recon
  | Tcp_discon
  | Dns "u32 option"
  | Publish "cstring option" "u8 list" int int
  | Subscribe "cstring option" u8
  | UnSubscribe "cstring option"
  | Ping
  | Connect
  | Disconnect
  | DeleteClient
  | InitLWT cstring cstring u8 u8

definition handle :: "env \<Rightarrow> event \<Rightarrow> MQTT_Client \<Rightarrow> MQTT_Client option" where
  "handle e ev c =
     (case ev of
        Task \<Rightarrow> MQTT_Task e c
      | Timer \<Rightarrow> mqtt_timer e c
      | Recv pkts \<Rightarrow>
          (case mqtt_tcpclient_recv e (Suc (length pkts)) (segment pkts)
                  (of_nat (length (segment pkts))) c of
             Some (Some c') \<Rightarrow> Some c' | _ \<Rightarrow> None)
      | Sent \<Rightarrow> mqtt_tcpclient_sent_cb e c
      | Tcp_connected \<Rightarrow> mqtt_tcpclient_connect_cb c
      | Tcp_recon \<Rightarrow> mqtt_tcpclient_recon_cb c
      | Tcp_discon \<Rightarrow> mqtt_tcpclient_discon_cb e c
      | Dns ip \<Rightarrow> mqtt_dns_found ip c
      | Publish topic data qos retain \<Rightarrow>
          map_option snd (MQTT_Publish e topic data (int (length data)) qos retain c)
      | Subscribe topic qos \<Rightarrow> map_option snd (MQTT_Subscribe e topic qos c)
      | UnSubscribe topic \<Rightarrow> map_option snd (MQTT_UnSubscribe e topic c)
      | Ping \<Rightarrow> map_option snd (MQTT_Ping e c)
      | Connect \<Rightarrow> MQTT_Connect e c
      | Disconnect \<Rightarrow> Some (MQTT_Disconnect c)
      | DeleteClient \<Rightarrow> Some (MQTT_DeleteClient c)
      | InitLWT topic msg qos retain \<Rightarrow> MQTT_InitLWT e topic msg qos retain c)"

definition freed :: "MQTT_Client \<Rightarrow> bool" where
  "freed c \<longleftrightarrow> \<not> out_buffer (mqtt_state c)"

text \<open>
  When an event can come: the callbacks of a connection need the connection; a TCP segment
  holds complete packets and is shorter than the input buffer; strings have no zero bytes.
\<close>

definition event_ok :: "env \<Rightarrow> MQTT_Client \<Rightarrow> event \<Rightarrow> bool" where
  "event_ok e c ev \<longleftrightarrow>
     (case ev of
        Recv pkts \<Rightarrow> pCon c \<noteq> None \<and> length (segment pkts) < MQTT_BUF_SIZE e \<and>
          list_all (\<lambda>(hdr, body). wf_packet hdr body) pkts
      | Sent \<Rightarrow> pCon c \<noteq> None
      | Tcp_connected \<Rightarrow> pCon c \<noteq> None
      | Tcp_recon \<Rightarrow> pCon c \<noteq> None
      | Tcp_discon \<Rightarrow> pCon c \<noteq> None
      | Dns ip \<Rightarrow> pCon c \<noteq> None
      | InitLWT topic msg qos retain \<Rightarrow> 0 \<notin> set topic \<and> 0 \<notin> set msg
      | _ \<Rightarrow> True)"

inductive client_step :: "env \<Rightarrow> MQTT_Client \<Rightarrow> MQTT_Client \<Rightarrow> bool" for e :: env where
  step: "\<not> freed c \<Longrightarrow> event_ok e c ev \<Longrightarrow> handle e ev c = Some c' \<Longrightarrow> client_step e c c'"

abbreviation reachable :: "env \<Rightarrow> MQTT_Client \<Rightarrow> MQTT_Client \<Rightarrow> bool" where
  "reachable e \<equiv> (client_step e)\<^sup>*\<^sup>*"

inductive_simps client_step_iff: "client_step e c c'"

section \<open>Safety\<close>

lemma handle_ok:
  assumes env: "env_ok e" and ok: "client_ok e c" and ev: "event_ok e c ev"
    and "ev = Task \<Longrightarrow> connState c \<noteq> MQTT_DELETED"
  shows "\<exists>c'. handle e ev c = Some c' \<and> client_ok e c'"
proof (cases ev)
  case (Recv pkts)
  let ?len = "of_nat (length (segment pkts)) :: u16"
  have b: "env_bounds e" using env by (simp add: env_ok_def)
  have fits: "length (segment pkts) < MQTT_BUF_SIZE e" and wf: "\<forall>(hdr, body) \<in> set pkts. wf_packet hdr body"
    using ev by (auto simp: event_ok_def Recv list_all_iff)
  have len: "unat ?len = length (segment pkts)"
    using fits b by (simp add: env_bounds_def unsigned_of_nat take_bit_nat_eq_self)
  have "client_ok e (c\<lparr>keepAliveTick := 0\<rparr>)" using ok by simp
  from recv_loop_segment [OF env this len _ wf, of "Suc (length pkts)"] fits len
  show ?thesis
    by (auto simp: handle_def Recv mqtt_tcpclient_recv_def simp del: recv_loop.simps)
next
  case (Publish topic data qos retain)
  with MQTT_Publish_ok [OF ok, of topic data qos retain] env show ?thesis
    by (auto simp: handle_def env_ok_def)
next
  case (Subscribe topic qos)
  with MQTT_Subscribe_ok(1) [OF ok, of topic qos] env show ?thesis
    by (auto simp: handle_def env_ok_def)
next
  case (UnSubscribe topic)
  with MQTT_Subscribe_ok(2) [OF ok, of topic] env show ?thesis
    by (auto simp: handle_def env_ok_def)
next
  case Ping
  with MQTT_Ping_ok [OF ok] env show ?thesis by (auto simp: handle_def env_ok_def)
next
  case (InitLWT topic msg qos retain)
  with MQTT_InitLWT_ok [OF ok env, of topic msg qos retain] ev show ?thesis
    by (simp add: handle_def event_ok_def)
next
  case Tcp_connected
  with mqtt_tcpclient_connect_cb_ok [OF ok] env show ?thesis by (simp add: handle_def env_ok_def)
next
  case (Dns ip)
  with mqtt_dns_found_ok [OF ok, of ip] ev show ?thesis by (simp add: handle_def event_ok_def)
next
  case Task
  with MQTT_Task_ok [OF ok env] assms(4) show ?thesis by (simp add: handle_def)
qed (use ok mqtt_timer_ok [OF env ok] mqtt_tcpclient_sent_cb_ok [OF env ok]
      mqtt_tcpclient_discon_cb_ok [OF env ok] mqtt_tcpclient_recon_cb_ok [OF ok]
      MQTT_Connect_ok [OF ok env]
    in \<open>simp_all add: handle_def MQTT_Disconnect_def MQTT_DeleteClient_def\<close>)

lemma mqtt_client_delete_freed: "freed (mqtt_client_delete c)"
  by (simp add: mqtt_client_delete_def freed_def Let_def)

lemma client_ok_not_freed: "client_ok e c \<Longrightarrow> \<not> freed c"
  by (simp add: client_ok_def state_ok_def freed_def)

lemma handle_returns:
  assumes "env_ok e" and "client_ok e c" and "event_ok e c ev"
  shows "\<exists>c'. handle e ev c = Some c' \<and> (client_ok e c' \<or> freed c')"
proof (cases "ev = Task \<and> connState c = MQTT_DELETED")
  case True
  with mqtt_client_delete_freed [of c] show ?thesis by (simp add: handle_def MQTT_Task_def)
next
  case False
  with handle_ok [OF assms] show ?thesis by blast
qed

interpretation client: step_invariant "client_step e" "\<lambda>c. env_ok e \<longrightarrow> client_ok e c \<or> freed c" for e
proof
  show "env_ok e \<longrightarrow> client_ok e c' \<or> freed c'"
    if "env_ok e \<longrightarrow> client_ok e c \<or> freed c" "client_step e c c'" for c c'
    using that handle_returns [of e c] by (fastforce simp: client_step_iff)
qed

lemma reachable_ok:
  assumes "reachable e c0 c" and "env_ok e" and "client_ok e c0"
  shows "client_ok e c \<or> freed c"
  using client.reachable_inv [OF assms(1)] assms(2,3) by blast

section \<open>Initialisation\<close>

definition init_client ::
  "env \<Rightarrow> cstring \<Rightarrow> u32 \<Rightarrow> u8 \<Rightarrow> cstring \<Rightarrow> cstring option \<Rightarrow> cstring option \<Rightarrow> u32 \<Rightarrow> u8
     \<Rightarrow> MQTT_Client \<Rightarrow> MQTT_Client option" where
  "init_client e hst prt sec cid user pass keepAliveTime cleanSession c =
     do {
       c \<leftarrow> MQTT_InitConnection e hst prt sec c;
       MQTT_InitClient e cid user pass keepAliveTime cleanSession c
     }"

definition no_zero :: "cstring option \<Rightarrow> bool" where
  "no_zero s \<longleftrightarrow> (case s of None \<Rightarrow> True | Some str \<Rightarrow> 0 \<notin> set str)"

lemma queue_init_ok:
  "msg_queue_ok (QUEUE_Init (Some (replicate (nat QUEUE_BUFFER_SIZE) 0)) queue_zero QUEUE_BUFFER_SIZE)
   \<and> queue_msgs (QUEUE_Init (Some (replicate (nat QUEUE_BUFFER_SIZE) 0)) queue_zero QUEUE_BUFFER_SIZE) = []"
  using queue_inv_Init [OF queue_inv_zero, of QUEUE_BUFFER_SIZE "Some (replicate (nat QUEUE_BUFFER_SIZE) 0)"]
  by (simp add: msg_queue_ok_def QUEUE_BUFFER_SIZE_def QUEUE_Init_def RINGBUF_Init_def rb_capacity_def)

lemma init_client_ok:
  assumes env: "env_ok e" and "0 \<notin> set hst" and "0 \<notin> set cid" and "no_zero user" and "no_zero pass"
    and ip: "UTILS_StrToIP hst [0, 0, 0, 0] \<noteq> None"
  shows "\<exists>c'. init_client e hst prt sec cid user pass keepAliveTime cleanSession c = Some c' \<and>
           client_ok e c' \<and> connState c' = WIFI_INIT \<and> sendTimeout c' = 0 \<and>
           queue_msgs (msgQueue c') = [] \<and> trace c' = trace c @ [Os_task, Os_post] \<and>
           connectedCb c' = None \<and> publishedCb c' = None \<and> dataCb c' = None \<and> timeoutCb c' = None \<and>
           disconnectedCb c' = None \<and> keepAliveTick c' = 0 \<and> security c' = sec \<and> host c' = Some hst \<and>
           keepalive (connect_info c') = sint keepAliveTime"
proof -
  have z: "zalloc e n = Some (replicate n 0)" for n using env by (simp add: env_ok_def)
  have dup: "dup_string e s = Some s" if "0 \<notin> set s" for s
    using dup_string_ok [OF z that] .
  have d: "dup_string e hst = Some hst" "dup_string e cid = Some cid"
    using assms dup by simp_all
  have opt: "(case u of None \<Rightarrow> Some None | Some s \<Rightarrow> map_option Some (dup_string e s)) = Some u"
    if "no_zero u" for u
    using that dup by (auto simp: no_zero_def split: option.splits)
  have b: "env_bounds e" using env by (simp add: env_ok_def)
  have sm: "small_conn (mqtt_msg_init (replicate (MQTT_BUF_SIZE e) 0) (of_nat (MQTT_BUF_SIZE e)))"
    using b buffer_length_word [OF b]
    by (simp add: small_conn_def conn_ok_def mqtt_msg_init_def env_bounds_def)
  define c2 where "c2 = (client_zero (trace c))\<lparr>host := Some hst, port := prt, security := sec\<rparr>"
  have c1: "MQTT_InitConnection e hst prt sec c = Some c2"
    by (simp add: MQTT_InitConnection_def d c2_def)
  have ci: "MQTT_InitClient e cid user pass keepAliveTime cleanSession c2 =
      Some (emit Os_post (emit Os_task (c2\<lparr>
        connect_info := connect_info_zero\<lparr>client_id := Some cid, username := user,
            password := pass, keepalive := sint keepAliveTime, clean_session := uint cleanSession\<rparr>,
        mqtt_state := (mqtt_state c2)\<lparr>in_buffer := Some (replicate (MQTT_BUF_SIZE e) 0),
            in_buffer_length := int (MQTT_BUF_SIZE e), out_buffer := True,
            out_buffer_length := int (MQTT_BUF_SIZE e), connect_info_set := True,
            conn := mqtt_msg_init (replicate (MQTT_BUF_SIZE e) 0) (of_nat (MQTT_BUF_SIZE e))\<rparr>,
        msgQueue := QUEUE_Init (Some (replicate (nat QUEUE_BUFFER_SIZE) 0)) queue_zero QUEUE_BUFFER_SIZE\<rparr>)))"
    using assms(4,5) by (simp add: MQTT_InitClient_def d opt z Let_def c2_def client_zero_def)
  show ?thesis
    unfolding init_client_def c1 bind.bind_lunit ci
    using sm ip queue_init_ok
    by (simp add: client_ok_def emit_def state_ok_def c2_def client_zero_def host_ok_def tcp_ok_def
        will_ok_def present_def connect_info_zero_def mqtt_msg_init_def)
qed

section \<open>The queue is sent in order\<close>

definition is_send :: "effect \<Rightarrow> bool" where
  "is_send x \<longleftrightarrow> (case x of Tcp_send _ \<Rightarrow> True | Tcp_secure_send _ \<Rightarrow> True | _ \<Rightarrow> False)"

definition sent :: "MQTT_Client \<Rightarrow> effect list" where
  "sent c = filter is_send (trace c)"

definition send_of :: "MQTT_Client \<Rightarrow> u8 list \<Rightarrow> effect" where
  "send_of c m = (if security c \<noteq> 0 then Tcp_secure_send m else Tcp_send m)"

text \<open>In MQTT\_DATA with no send pending, the task sends the oldest queued message.\<close>

lemma task_send_head:
  assumes ok: "client_ok e c" and env: "env_bounds e" and q: "queue_msgs (msgQueue c) = m # ms"
    and idle: "sendTimeout c = 0"
  shows "\<exists>q' st c'. task_send e c = Some c' \<and>
           c' = c\<lparr>msgQueue := q', mqtt_state := st, sendTimeout := MQTT_SEND_TIMOUT,
                  trace := trace c @ [send_of c (take (MQTT_BUF_SIZE e) m)]\<rparr> \<and>
           queue_msgs q' = ms \<and> client_ok e c'"
proof -
  have qi: "queue_inv (msgQueue c)" and cap: "rb_capacity (rb (msgQueue c)) = 2048"
    using ok by (simp_all add: client_ok_def msg_queue_ok_def)
  have len: "unat (of_nat (MQTT_BUF_SIZE e) :: u16) \<le> length (dataBuffer e)"
    by (simp add: buffer_length_word [OF env])
  from QUEUE_Gets_message [OF qi q len, of "junk_parser e" "junk_len e"] obtain buf n q' where
    g: "QUEUE_Gets (junk_parser e) (msgQueue c) (dataBuffer e) (junk_len e) (of_nat (MQTT_BUF_SIZE e)) =
      Some (0, buf, n, q')" "queue_inv q'" "rb_capacity (rb q') = 2048" "queue_msgs q' = ms"
    "length buf = MQTT_BUF_SIZE e" "unat n \<le> length buf" "take (unat n) buf = take (MQTT_BUF_SIZE e) m"
    using cap by (auto simp: buffer_length_word [OF env])
  have ne: "buf \<noteq> []" using g(5) env by (auto simp: env_bounds_def)
  have "\<not> QUEUE_IsEmpty (msgQueue c)"
  proof
    assume "QUEUE_IsEmpty (msgQueue c)"
    then have "length (rb_contents (rb (msgQueue c))) = 0" by (simp add: QUEUE_IsEmpty_def)
    then have "rb_contents (rb (msgQueue c)) = []" by (simp only: length_0_conv)
    then show False using q by (simp add: queue_msgs_def messages_def)
  qed
  with idle have run: "task_send e c = (case mqtt_get_id buf n of None \<Rightarrow> None | Some mid \<Rightarrow>
      Some (clear_outbound (emit (send_of c (take (MQTT_BUF_SIZE e) m))
        ((set_pending (hdr_type (hd buf)) mid (c\<lparr>msgQueue := q'\<rparr>))\<lparr>sendTimeout := MQTT_SEND_TIMOUT\<rparr>))))"
    using g by (simp add: task_send_def Let_def mqtt_get_type_defined [OF ne] tcp_send_ok send_of_def
        set_pending_def split: option.split)
  obtain mid where "mqtt_get_id buf n = Some mid" using mqtt_get_id_defined [OF g(6)] by blast
  with run task_send_ok [OF ok env] show ?thesis
    using g(4)
    by (intro exI [of _ q'] exI [of _ "(mqtt_state c)\<lparr>pending_msg_type := hdr_type (hd buf),
            pending_msg_id := mid, outbound_message := False\<rparr>"] exI)
      (auto simp: clear_outbound_def emit_def set_pending_def)
qed

text \<open>While a send is pending or the queue is empty, the task does nothing.\<close>

lemma task_send_waits:
  "sendTimeout c \<noteq> 0 \<Longrightarrow> task_send e c = Some c"
  by (simp add: task_send_def)

text \<open>An application that does nothing when a message has been published.\<close>

definition published_quiet :: "env \<Rightarrow> MQTT_Client \<Rightarrow> bool" where
  "published_quiet e c \<longleftrightarrow>
     (case publishedCb c of None \<Rightarrow> True | Some f \<Rightarrow> \<forall>c. run_cb e f c = Some c)"

lemma published_none [simp]: "publishedCb c = None \<Longrightarrow> published_quiet e c"
  by (simp add: published_quiet_def)

lemma sent_cb_quiet:
  assumes "published_quiet e c"
  shows "\<exists>tr. mqtt_tcpclient_sent_cb e c =
             Some (c\<lparr>sendTimeout := 0, keepAliveTick := 0, trace := trace c @ tr\<rparr>) \<and> filter is_send tr = []"
proof -
  define c1 where "c1 = c\<lparr>sendTimeout := 0, keepAliveTick := 0\<rparr>"
  have "call_cb e PublishedCb (publishedCb c1) c1 =
      Some (if publishedCb c = None then c1 else emit (Called PublishedCb) c1)"
    using assms by (auto simp: call_cb_def published_quiet_def c1_def split: option.splits)
  then have run: "mqtt_tcpclient_sent_cb e c = Some (emit Os_post c1) \<or>
      mqtt_tcpclient_sent_cb e c = Some (emit Os_post (emit (Called PublishedCb) c1))"
    unfolding mqtt_tcpclient_sent_cb_def Let_def c1_def [symmetric] by (cases "publishedCb c") simp_all
  have "filter is_send [Os_post] = []" "filter is_send [Called PublishedCb, Os_post] = []"
    by (simp_all add: is_send_def)
  moreover have "emit Os_post c1 = c\<lparr>sendTimeout := 0, keepAliveTick := 0, trace := trace c @ [Os_post]\<rparr>"
    "emit Os_post (emit (Called PublishedCb) c1) =
       c\<lparr>sendTimeout := 0, keepAliveTick := 0, trace := trace c @ [Called PublishedCb, Os_post]\<rparr>"
    by (simp_all add: emit_def c1_def)
  ultimately show ?thesis using run by metis
qed

text \<open>One round: the task sends, the SDK reports the send as done.\<close>

fun drain :: "env \<Rightarrow> nat \<Rightarrow> MQTT_Client \<Rightarrow> MQTT_Client option" where
  "drain e 0 c = Some c"
| "drain e (Suc n) c =
     do { c \<leftarrow> MQTT_Task e c; c \<leftarrow> mqtt_tcpclient_sent_cb e c; drain e n c }"

lemma drain_sends_all:
  assumes "client_ok e c" and env: "env_bounds e" and "connState c = MQTT_DATA"
    and "sendTimeout c = 0" and "published_quiet e c"
  shows "\<exists>c'. drain e (length (queue_msgs (msgQueue c))) c = Some c' \<and> client_ok e c' \<and>
           queue_msgs (msgQueue c') = [] \<and> connState c' = MQTT_DATA \<and> sendTimeout c' = 0 \<and>
           sent c' = sent c @ map (\<lambda>m. send_of c (take (MQTT_BUF_SIZE e) m)) (queue_msgs (msgQueue c))"
  using assms(1,3,4,5)
proof (induction "queue_msgs (msgQueue c)" arbitrary: c)
  case Nil
  then show ?case by (simp flip: Nil.hyps)
next
  case (Cons m ms)
  from task_send_head [OF Cons.prems(1) env Cons.hyps(2) [symmetric] Cons.prems(3)]
  obtain c1 st q where t: "task_send e c = Some c1"
    "c1 = c\<lparr>msgQueue := q, mqtt_state := st, sendTimeout := MQTT_SEND_TIMOUT,
            trace := trace c @ [send_of c (take (MQTT_BUF_SIZE e) m)]\<rparr>"
    "queue_msgs q = ms" "client_ok e c1" by blast
  have "published_quiet e c1" using t(2) Cons.prems(4) by (simp add: published_quiet_def)
  from sent_cb_quiet [OF this] obtain tr where
    tr: "mqtt_tcpclient_sent_cb e c1 =
           Some (c1\<lparr>sendTimeout := 0, keepAliveTick := 0, trace := trace c1 @ tr\<rparr>)" "filter is_send tr = []"
    by blast
  define c2 where "c2 = c1\<lparr>sendTimeout := 0, keepAliveTick := 0, trace := trace c1 @ tr\<rparr>"
  have c2: "mqtt_tcpclient_sent_cb e c1 = Some c2" using tr(1) by (simp add: c2_def)
  have ok2: "client_ok e c2" using t(4) by (simp add: c2_def)
  have f: "connState c2 = MQTT_DATA" "sendTimeout c2 = 0" "published_quiet e c2"
    "security c2 = security c" "queue_msgs (msgQueue c2) = ms"
    "sent c2 = sent c @ [send_of c (take (MQTT_BUF_SIZE e) m)]"
    using t(2,3) tr(2) Cons.prems(2,4)
    by (simp_all add: c2_def sent_def is_send_def send_of_def published_quiet_def)
  from Cons.hyps(1) [OF f(5) [symmetric] ok2 f(1-3)] f(4-6) Cons.hyps(2) t(1) c2 Cons.prems(2)
  show ?case by (auto simp: MQTT_Task_def send_of_def simp flip: Cons.hyps(2))
qed

end
