(* ===== verification/Mqtt_System_Props.thy ===== *)
theory Mqtt_System_Props
  imports Mqtt_System
begin

text \<open>
  The properties of the client: safety of every reachable state, what publishing, the task, the
  timers and the receiver do, and the behaviours of the receiver that a broker can provoke.
\<close>

section \<open>A concrete client\<close>

text \<open>An environment with an allocator that succeeds and callbacks that do nothing.\<close>

definition env0 :: env where
  "env0 = \<lparr>run_cb = (\<lambda>f c. Some c), run_data_cb = (\<lambda>f c t tn d dn. Some c),
           send_result = (\<lambda>c bytes. 0), zalloc = (\<lambda>n. Some (replicate n 0)),
           sizeof_espconn = 40, sizeof_esp_tcp = 40, espconn_port = 1024, MQTT_BUF_SIZE = 64,
           junk_parser = parser0, junk_bytes = (\<lambda>n. 0), junk_len = 0\<rparr>"

lemma env0: "env_ok env0"
  unfolding env_ok_def by (simp add: env0_def env_bounds_def)

definition host0 :: cstring where "host0 = dotted 10 0 0 1"

definition client0 :: MQTT_Client where
  "client0 = the (init_client env0 host0 1883 0 [0x61] None None 120 1 (client_zero []))"

lemma host0: "0 \<notin> set host0" "UTILS_StrToIP host0 [0, 0, 0, 0] = Some (1, [10, 0, 0, 1])"
proof -
  show "0 \<notin> set host0" by code_simp
  show "UTILS_StrToIP host0 [0, 0, 0, 0] = Some (1, [10, 0, 0, 1])"
    using UTILS_StrToIP_dotted [of 10 0 0 1 "[0, 0, 0, 0]" "[]"] by (simp add: host0_def)
qed

lemma client0:
  "init_client env0 host0 1883 0 [0x61] None None 120 1 (client_zero []) = Some client0"
  "client_ok env0 client0" "connState client0 = WIFI_INIT" "sendTimeout client0 = 0"
  "queue_msgs (msgQueue client0) = []" "connectedCb client0 = None" "publishedCb client0 = None"
  "dataCb client0 = None" "keepAliveTick client0 = 0" "keepalive (connect_info client0) = 120"
  "timeoutCb client0 = None" "disconnectedCb client0 = None"
proof -
  have ip: "UTILS_StrToIP host0 [0, 0, 0, 0] \<noteq> None" by (simp add: host0(2))
  have a: "0 \<notin> set [0x61 :: u8]" by simp
  have n: "no_zero None" by (simp add: no_zero_def)
  have k: "sint (120 :: u32) = 120" by code_simp
  from init_client_ok [OF env0 host0(1) a n n ip, of 1883 0 120 1 "client_zero []"] k obtain c where
    "init_client env0 host0 1883 0 [0x61] None None 120 1 (client_zero []) = Some c"
    "client_ok env0 c" "connState c = WIFI_INIT" "sendTimeout c = 0" "queue_msgs (msgQueue c) = []"
    "connectedCb c = None" "publishedCb c = None" "dataCb c = None" "keepAliveTick c = 0"
    "keepalive (connect_info c) = 120" "timeoutCb c = None" "disconnectedCb c = None"
    by auto
  then show "init_client env0 host0 1883 0 [0x61] None None 120 1 (client_zero []) = Some client0"
    "client_ok env0 client0" "connState client0 = WIFI_INIT" "sendTimeout client0 = 0"
    "queue_msgs (msgQueue client0) = []" "connectedCb client0 = None" "publishedCb client0 = None"
    "dataCb client0 = None" "keepAliveTick client0 = 0" "keepalive (connect_info client0) = 120"
    "timeoutCb client0 = None" "disconnectedCb client0 = None"
    by (simp_all add: client0_def)
qed

text \<open>The client once connected.\<close>

definition online0 :: MQTT_Client where
  "online0 = client0\<lparr>connState := MQTT_DATA\<rparr>"

lemma online0: "client_ok env0 online0" "connState online0 = MQTT_DATA" "sendTimeout online0 = 0"
  "queue_msgs (msgQueue online0) = []" "publishedCb online0 = None" "dataCb online0 = None"
  "keepAliveTick online0 = 0" "keepalive (connect_info online0) = 120"
  by (simp_all add: online0_def client0)

section \<open>Safety\<close>



section \<open>Publishing and sending\<close>

text \<open>A publish that fits, and everything it leaves alone.\<close>

lemma MQTT_Publish_effect:
  assumes ok: "client_ok e c" and env: "env_bounds e" and "topic \<noteq> []"
    and body: "body = publish_body topic (nat qos) (used_id 0 (conn (mqtt_state c))) data"
    and room: "length (frame (packet (header_byte 3 0 qos retain) body)) \<le> queue_free (msgQueue c)"
  shows "\<exists>st q r. MQTT_Publish e (Some topic) data (int (length data)) qos retain c =
             Some (r, c\<lparr>mqtt_state := st, msgQueue := q, trace := trace c @ (if r then [Os_post] else [])\<rparr>) \<and>
           client_ok e (c\<lparr>mqtt_state := st, msgQueue := q\<rparr>) \<and> r = (3 + length body \<le> MQTT_BUF_SIZE e) \<and>
           queue_msgs q =
             queue_msgs (msgQueue c) @ (if r then [packet (header_byte 3 0 qos retain) body] else []) \<and>
           (r \<longrightarrow> queue_free q =
               queue_free (msgQueue c) - length (frame (packet (header_byte 3 0 qos retain) body)) \<and>
             message_id (conn st) =
               (if qos > 0 then used_id 0 (conn (mqtt_state c)) else message_id (conn (mqtt_state c))))"
proof -
  let ?k = "conn (mqtt_state c)"
  have sm: "small_conn ?k" by (rule client_conn [OF ok])
  have len: "length (buffer ?k) = MQTT_BUF_SIZE e" using ok by (simp add: client_ok_def state_ok_def)
  obtain k mid where k: "mqtt_msg_publish ?k (Some topic) data (int (length data)) qos retain
      (pending_msg_id (mqtt_state c)) = Some (k, mid)" and
    b: "built ?k body (header_byte (msg_type PUBLISH) 0 qos retain) k" and
    kid: "3 + length body \<le> MQTT_BUF_SIZE e \<longrightarrow>
      message_id k = (if qos > 0 then used_id 0 ?k else message_id ?k)"
    using mqtt_msg_publish_built [OF sm assms(3), of data qos retain "pending_msg_id (mqtt_state c)"]
    unfolding len body [symmetric] by (elim exE conjE)
  have step: "conn_step ?k k" by (rule built_conn_step [OF sm b])
  let ?c1 = "set_pending_id mid (set_conn k c)"
  have ok1: "client_ok e ?c1" and out: "has_outbound ?c1"
    using set_conn_built [OF ok step] by simp_all
  have c1: "?c1 = c\<lparr>mqtt_state := mqtt_state ?c1\<rparr>"
    by (simp add: set_pending_id_def set_conn_def)
  have f1: "msgQueue ?c1 = msgQueue c" "trace ?c1 = trace c" "conn (mqtt_state ?c1) = k"
    "outbound_length ?c1 = msg_length (message k)"
    by (simp_all add: set_pending_id_def set_conn_def outbound_length_def)
  show ?thesis
  proof (cases "3 + length body \<le> MQTT_BUF_SIZE e")
    case True
    then have p: "packet_bytes k = packet (header_byte 3 0 qos retain) body"
      using b len by (simp add: built_def)
    then have "msg_length (message k) \<noteq> 0"
      by (auto simp: packet_bytes_def packet_def split: option.splits)
    moreover obtain q where q: "queue_or_evict e ?c1 = Some (True, emit Os_post (?c1\<lparr>msgQueue := q\<rparr>))"
      "msg_queue_ok q" "queue_msgs q = queue_msgs (msgQueue c) @ [packet_bytes k]"
      "queue_free q = queue_free (msgQueue c) - length (frame (packet_bytes k))"
      using queue_or_evict_ok(2) [OF ok1 env out] room by (auto simp: f1 p)
    moreover have "client_ok e (c\<lparr>mqtt_state := mqtt_state ?c1, msgQueue := q\<rparr>)"
      using client_ok_queue [OF ok1 q(2)] by (subst (asm) c1) simp
    ultimately show ?thesis
      using k f1 True p kid
      by (intro exI [of _ "mqtt_state ?c1"] exI [of _ q] exI [of _ True])
        (simp add: MQTT_Publish_def Let_def emit_def, simp add: set_pending_id_def set_conn_def)
  next
    case False
    then have "msg_length (message k) = 0" using b len by (simp add: built_def)
    moreover have "client_ok e (c\<lparr>mqtt_state := mqtt_state ?c1\<rparr>)" using ok1 by (subst (asm) c1)
    ultimately show ?thesis
      using k f1 False
      by (intro exI [of _ "mqtt_state ?c1"] exI [of _ "msgQueue c"] exI [of _ False])
        (simp add: MQTT_Publish_def Let_def, simp add: set_pending_id_def set_conn_def)
  qed
qed

text \<open>
  C9. Publishing: when the frame of the packet fits the queue, MQTT_Publish returns TRUE exactly
  when the packet also fits the output buffer; then the queue has exactly this packet as its new
  last message and the task is posted, otherwise queue and SDK are left untouched.
\<close>

theorem publish_queues:
  assumes "client_ok e c" and "env_bounds e" and "topic \<noteq> []"
    and "body = publish_body topic (nat qos) (used_id 0 (conn (mqtt_state c))) data"
    and "length (frame (packet (header_byte 3 0 qos retain) body)) \<le> queue_free (msgQueue c)"
  shows "\<exists>r c'. MQTT_Publish e (Some topic) data (int (length data)) qos retain c = Some (r, c') \<and>
           client_ok e c' \<and> r = (3 + length body \<le> MQTT_BUF_SIZE e) \<and>
           queue_msgs (msgQueue c') =
             queue_msgs (msgQueue c) @ (if r then [packet (header_byte 3 0 qos retain) body] else []) \<and>
           trace c' = trace c @ (if r then [Os_post] else [])"
proof -
  from MQTT_Publish_effect [OF assms] obtain st q r where
    "MQTT_Publish e (Some topic) data (int (length data)) qos retain c =
       Some (r, c\<lparr>mqtt_state := st, msgQueue := q, trace := trace c @ (if r then [Os_post] else [])\<rparr>)"
    "client_ok e (c\<lparr>mqtt_state := st, msgQueue := q\<rparr>)" "r = (3 + length body \<le> MQTT_BUF_SIZE e)"
    "queue_msgs q = queue_msgs (msgQueue c) @ (if r then [packet (header_byte 3 0 qos retain) body] else [])"
    by blast
  then show ?thesis
    by (intro exI [of _ r] exI
        [of _ "c\<lparr>mqtt_state := st, msgQueue := q, trace := trace c @ (if r then [Os_post] else [])\<rparr>"])
      simp
qed

theorem publish_queues_witness:
  "\<exists>r c'. MQTT_Publish env0 (Some [0x74]) [0x31, 0x7E] (int (length [0x31, 0x7E :: u8])) 1 0 online0 =
        Some (r, c') \<and> client_ok env0 c' \<and>
     r = (3 + length (publish_body [0x74] (nat 1) (used_id 0 (conn (mqtt_state online0))) [0x31, 0x7E])
            \<le> MQTT_BUF_SIZE env0) \<and>
     queue_msgs (msgQueue c') = queue_msgs (msgQueue online0) @
       (if r then [packet (header_byte 3 0 1 0)
                     (publish_body [0x74] (nat 1) (used_id 0 (conn (mqtt_state online0))) [0x31, 0x7E])]
        else []) \<and>
     trace c' = trace online0 @ (if r then [Os_post] else [])"
proof (rule publish_queues [OF online0(1) _ _ refl])
  show "length (frame (packet (header_byte 3 0 1 0) (publish_body [0x74] (nat 1)
      (used_id 0 (conn (mqtt_state online0))) [0x31, 0x7E]))) \<le> queue_free (msgQueue online0)"
    by code_simp
qed (simp_all add: env0_def env_bounds_def)

text \<open>
  C8. The queue is sent in order, one message at a time: a connected client with nothing pending
  sends, in as many rounds of the task and the SDK's sent callback as there are messages, exactly
  the queued messages in order (cut to the buffer size) and then has an empty queue.
\<close>

theorem queue_drained:
  assumes "client_ok e c" and "env_bounds e" and "connState c = MQTT_DATA"
    and "sendTimeout c = 0" and "published_quiet e c"
  shows "\<exists>c'. drain e (length (queue_msgs (msgQueue c))) c = Some c' \<and>
           queue_msgs (msgQueue c') = [] \<and> connState c' = MQTT_DATA \<and>
           sent c' = sent c @ map (\<lambda>m. send_of c (take (MQTT_BUF_SIZE e) m)) (queue_msgs (msgQueue c))"
  using drain_sends_all [OF assms] by blast

text \<open>The connected client with a message in its queue.\<close>

definition busy0 :: MQTT_Client where
  "busy0 = snd (the (MQTT_Publish env0 (Some [0x74]) [0x31] (int (length [0x31 :: u8])) 1 0 online0))"

lemma busy0: "client_ok env0 busy0" "connState busy0 = MQTT_DATA" "sendTimeout busy0 = 0"
  "publishedCb busy0 = None" "length (queue_msgs (msgQueue busy0)) = 1"
proof -
  have b: "env_bounds env0" by (simp add: env0_def env_bounds_def)
  let ?body = "publish_body [0x74] (nat 1) (used_id 0 (conn (mqtt_state online0))) [0x31]"
  have fits: "length (frame (packet (header_byte 3 0 1 0) ?body)) \<le> queue_free (msgQueue online0)"
    by code_simp
  have "3 + length ?body \<le> MQTT_BUF_SIZE env0" by code_simp
  with MQTT_Publish_effect [OF online0(1) b _ refl fits] obtain st q where
    bz: "busy0 = online0\<lparr>mqtt_state := st, msgQueue := q, trace := trace online0 @ [Os_post]\<rparr>"
    and f: "client_ok env0 (online0\<lparr>mqtt_state := st, msgQueue := q\<rparr>)"
    "queue_msgs q = queue_msgs (msgQueue online0) @ [packet (header_byte 3 0 1 0) ?body]"
    by (auto simp: busy0_def)
  from f show "client_ok env0 busy0" "connState busy0 = MQTT_DATA" "sendTimeout busy0 = 0"
    "publishedCb busy0 = None" "length (queue_msgs (msgQueue busy0)) = 1"
    unfolding bz by (simp_all add: online0 client_ok_def)
qed

theorem queue_drained_witness:
  "\<exists>c'. drain env0 (length (queue_msgs (msgQueue busy0))) busy0 = Some c' \<and>
     queue_msgs (msgQueue c') = [] \<and> connState c' = MQTT_DATA \<and>
     sent c' = sent busy0 @
       map (\<lambda>m. send_of busy0 (take (MQTT_BUF_SIZE env0) m)) (queue_msgs (msgQueue busy0))"
  by (rule queue_drained) (simp_all only: busy0 published_none, simp add: env0_def env_bounds_def)

end
