(* ===== verification/Mqtt_Receive.thy ===== *)
theory Mqtt_Receive
  imports Mqtt_System_Props
begin

text \<open>
  What the receiver of a connected client does with a segment: the publishes of a segment are
  all delivered and acknowledged in order, a control packet is answered and ends the processing
  of its segment, and a forged length makes the receiver loop for ever.
\<close>

section \<open>Replies\<close>

text \<open>The packets that answer a packet with header \<open>hdr\<close> and identifier \<open>mid\<close>.\<close>

definition replies :: "u8 \<Rightarrow> u16 \<Rightarrow> u8 list list" where
  "replies hdr mid =
     (if hdr_type hdr = msg_type PUBLISH
      then (if hdr_qos hdr = 1 then [packet 0x40 (be16 (unat mid))]
            else if hdr_qos hdr = 2 then [packet 0x50 (be16 (unat mid))] else [])
      else if hdr_type hdr = msg_type PUBREC then [packet 0x62 (be16 (unat mid))]
      else if hdr_type hdr = msg_type PUBREL then [packet 0x70 (be16 (unat mid))]
      else if hdr_type hdr = msg_type PINGREQ then [packet 0xD0 []]
      else [])"

lemma ack_header_bytes:
  "header_byte (msg_type PUBACK) 0 0 0 = 0x40" "header_byte (msg_type PUBREC) 0 0 0 = 0x50"
  "header_byte (msg_type PUBREL) 0 1 0 = 0x62" "header_byte (msg_type PUBCOMP) 0 0 0 = 0x70"
  "header_byte (msg_type PINGRESP) 0 0 0 = 0xD0"
  by code_simp+

text \<open>The acknowledgement builders, when the buffer has room for their four bytes.\<close>

lemma ack_built:
  assumes sm: "small_conn k" and room: "5 \<le> length (buffer k)" and "mid \<noteq> 0"
  shows "\<exists>k'. mqtt_msg_puback k mid = Some k' \<and> conn_step k k' \<and> packet_bytes k' = packet 0x40 (be16 (unat mid))"
    and "\<exists>k'. mqtt_msg_pubrec k mid = Some k' \<and> conn_step k k' \<and> packet_bytes k' = packet 0x50 (be16 (unat mid))"
    and "\<exists>k'. mqtt_msg_pubrel k mid = Some k' \<and> conn_step k k' \<and> packet_bytes k' = packet 0x62 (be16 (unat mid))"
    and "\<exists>k'. mqtt_msg_pubcomp k mid = Some k' \<and> conn_step k k' \<and> packet_bytes k' = packet 0x70 (be16 (unat mid))"
proof -
  have ok: "conn_ok k" using sm by (simp add: small_conn_def)
  have *: "\<exists>k'. (do { (r, c) \<leftarrow> append_message_id (snd (init_message k)) mid;
      if r = 0 then Some (fail_message c) else fini_message c t 0 q 0 }) = Some k' \<and>
      packet_bytes k' = packet (header_byte t 0 q 0) (be16 (unat mid))" for t q
    using ack_packet [OF ok, of mid t q] room assms(3) by (auto simp: used_id_def)
  note steps = ack_conn_step [OF sm, of mid]
  show "\<exists>k'. mqtt_msg_puback k mid = Some k' \<and> conn_step k k' \<and> packet_bytes k' = packet 0x40 (be16 (unat mid))"
    using *[of "msg_type PUBACK" 0] steps(1) by (auto simp: mqtt_msg_puback_def ack_header_bytes [simplified])
  show "\<exists>k'. mqtt_msg_pubrec k mid = Some k' \<and> conn_step k k' \<and> packet_bytes k' = packet 0x50 (be16 (unat mid))"
    using *[of "msg_type PUBREC" 0] steps(2) by (auto simp: mqtt_msg_pubrec_def ack_header_bytes [simplified])
  show "\<exists>k'. mqtt_msg_pubrel k mid = Some k' \<and> conn_step k k' \<and> packet_bytes k' = packet 0x62 (be16 (unat mid))"
    using *[of "msg_type PUBREL" 1] steps(3) by (auto simp: mqtt_msg_pubrel_def ack_header_bytes [simplified])
  show "\<exists>k'. mqtt_msg_pubcomp k mid = Some k' \<and> conn_step k k' \<and> packet_bytes k' = packet 0x70 (be16 (unat mid))"
    using *[of "msg_type PUBCOMP" 0] steps(4) by (auto simp: mqtt_msg_pubcomp_def ack_header_bytes [simplified])
qed

lemma pingresp_built:
  assumes sm: "small_conn k"
  shows "\<exists>k'. mqtt_msg_pingresp k = Some k' \<and> conn_step k k' \<and> packet_bytes k' = packet 0xD0 []"
proof -
  have ok: "conn_ok k" using sm by (simp add: small_conn_def)
  show ?thesis
    using empty_packet [OF ok, of "msg_type PINGRESP"] ping_conn_step(2) [OF sm]
    by (auto simp: mqtt_msg_pingresp_def packet_def varint_short ack_header_bytes [simplified])
qed

text \<open>Two clients that differ at most in what a reply changes: the connection and the queue.\<close>

definition reply_frame :: "MQTT_Client \<Rightarrow> MQTT_Client \<Rightarrow> bool" where
  "reply_frame c c' \<longleftrightarrow>
     (\<exists>k out q. c' = c\<lparr>mqtt_state := (mqtt_state c)\<lparr>conn := k, outbound_message := out\<rparr>, msgQueue := q\<rparr>)"

lemma queue_reply:
  assumes ok: "client_ok e c" and step: "conn_step (conn (mqtt_state c)) k"
    and bytes: "packet_bytes k = p" and "length p \<le> 4" and room: "10 \<le> queue_free (msgQueue c)"
  shows "\<exists>c'. queue_outbound (set_conn k c) = Some c' \<and> client_ok e c' \<and> reply_frame c c' \<and>
           queue_msgs (msgQueue c') = queue_msgs (msgQueue c) @ [p] \<and>
           queue_free (msgQueue c) \<le> queue_free (msgQueue c') + 10"
proof -
  let ?c = "set_conn k c"
  have ok': "client_ok e ?c" by (rule client_ok_set_conn [OF ok step])
  have out: "has_outbound ?c" using step by (simp add: set_conn_outbound conn_step_def)
  have same: "msgQueue ?c = msgQueue c" "conn (mqtt_state ?c) = k" by (simp_all add: set_conn_def)
  obtain data where d: "outbound_data ?c = Some data" "unat (outbound_length ?c) \<le> length data"
    "take (unat (outbound_length ?c)) data = p"
    using outbound_packet [OF out] bytes same by auto
  have q: "queue_inv (msgQueue c)" and cap: "rb_capacity (rb (msgQueue c)) = 2048"
    using ok by (simp_all add: client_ok_def msg_queue_ok_def)
  have fr: "length (frame p) \<le> 10" using length_frame_le [of p] assms(4) by simp
  with room have fits: "length (frame (take (unat (outbound_length ?c)) data)) \<le> queue_free (msgQueue c)"
    using d(3) by simp
  from QUEUE_Puts_fits [OF q d(2) fits] obtain q' where
    q': "QUEUE_Puts (msgQueue c) data (outbound_length ?c) = Some (int (length (frame p)), q')"
    "queue_inv q'" "queue_msgs q' = queue_msgs (msgQueue c) @ [p]" "rb_capacity (rb q') = 2048"
    "queue_free q' = queue_free (msgQueue c) - length (frame p)"
    using d(3) cap by auto
  have run: "queue_outbound ?c = Some (?c\<lparr>msgQueue := q'\<rparr>)"
    using d(1) q'(1) by (simp add: queue_outbound_def same)
  have "client_ok e (?c\<lparr>msgQueue := q'\<rparr>)"
    by (rule client_ok_queue [OF ok']) (simp add: msg_queue_ok_def q')
  moreover have "reply_frame c (?c\<lparr>msgQueue := q'\<rparr>)"
    unfolding reply_frame_def set_conn_def by (intro exI [of _ k] exI [of _ True] exI [of _ q']) simp
  ultimately show ?thesis using run q'(3,5) fr by auto
qed

lemma reply_frame_refl [simp]: "reply_frame c c"
  unfolding reply_frame_def
  by (intro exI [of _ "conn (mqtt_state c)"] exI [of _ "outbound_message (mqtt_state c)"]
      exI [of _ "msgQueue c"]) simp

lemma reply_frameD:
  assumes "reply_frame c c'"
  shows "connState c' = connState c" "trace c' = trace c" "dataCb c' = dataCb c"
    "keepAliveTick c' = keepAliveTick c" "recv_state c' = recv_state c"
    "in_buffer (mqtt_state c') = in_buffer (mqtt_state c)"
  using assms by (auto simp: reply_frame_def recv_state_def)

lemma length_ack_packet: "length (packet hdr (be16 n)) = 4"
  by (simp add: length_packet varint_short)

lemma recv_reply_queues:
  assumes ok: "client_ok e c" and "5 \<le> MQTT_BUF_SIZE e" and "mid \<noteq> 0"
    and room: "10 \<le> queue_free (msgQueue c)"
  shows "\<exists>c'. recv_reply (hdr_type hdr) (hdr_qos hdr) mid c = Some c' \<and> client_ok e c' \<and>
           reply_frame c c' \<and>
           queue_msgs (msgQueue c') = queue_msgs (msgQueue c) @ replies hdr mid \<and>
           queue_free (msgQueue c) \<le> queue_free (msgQueue c') + 10"
proof -
  let ?k = "conn (mqtt_state c)"
  have sm: "small_conn ?k" by (rule client_conn [OF ok])
  have len: "5 \<le> length (buffer ?k)" using ok assms(2) by (simp add: client_ok_def state_ok_def)
  note q = queue_reply [OF ok _ _ _ room]
  have short: "length (packet h (be16 n)) \<le> 4" "length (packet 0xD0 []) \<le> 4" for h n
    by (simp_all add: length_ack_packet length_packet varint_short)
  obtain a r l p g where k: "mqtt_msg_puback ?k mid = Some a" "mqtt_msg_pubrec ?k mid = Some r"
    "mqtt_msg_pubrel ?k mid = Some l" "mqtt_msg_pubcomp ?k mid = Some p" "mqtt_msg_pingresp ?k = Some g"
    and s: "conn_step ?k a" "conn_step ?k r" "conn_step ?k l" "conn_step ?k p" "conn_step ?k g"
    and b: "packet_bytes a = packet 0x40 (be16 (unat mid))" "packet_bytes r = packet 0x50 (be16 (unat mid))"
    "packet_bytes l = packet 0x62 (be16 (unat mid))" "packet_bytes p = packet 0x70 (be16 (unat mid))"
    "packet_bytes g = packet 0xD0 []"
    using ack_built [OF sm len assms(3)] pingresp_built [OF sm] by blast
  note qs = q [OF s(1) b(1) short(1)] q [OF s(2) b(2) short(1)] q [OF s(3) b(3) short(1)]
    q [OF s(4) b(4) short(1)] q [OF s(5) b(5) short(2)]
  consider "hdr_type hdr = msg_type PUBLISH" "hdr_qos hdr = 1"
    | "hdr_type hdr = msg_type PUBLISH" "hdr_qos hdr = 2"
    | "hdr_type hdr = msg_type PUBREC" | "hdr_type hdr = msg_type PUBREL"
    | "hdr_type hdr = msg_type PINGREQ"
    | "hdr_type hdr = msg_type PUBLISH" "hdr_qos hdr \<notin> {1, 2}"
    | "hdr_type hdr \<notin> {msg_type PUBLISH, msg_type PUBREC, msg_type PUBREL, msg_type PINGREQ}"
    by blast
  then show ?thesis
    using qs ok by cases (auto simp: recv_reply_def replies_def k Let_def)
qed

section \<open>Publishes\<close>

text \<open>A publish of the broker: topic, QoS, identifier, payload and retain flag.\<close>

type_synonym pub = "cstring \<times> nat \<times> u16 \<times> u8 list \<times> int"

fun pub_packet :: "pub \<Rightarrow> u8 \<times> u8 list" where
  "pub_packet (topic, qos, mid, data, retain) =
     (header_byte 3 0 (int qos) retain, publish_body topic qos mid data)"

fun pub_ok :: "pub \<Rightarrow> bool" where
  "pub_ok (topic, qos, mid, data, retain) \<longleftrightarrow>
     topic \<noteq> [] \<and> length topic < 65536 \<and> qos \<le> 2 \<and> mid \<noteq> 0"

fun pub_ack :: "pub \<Rightarrow> u8 list list" where
  "pub_ack (topic, qos, mid, data, retain) =
     (if qos = 1 then [packet 0x40 (be16 (unat mid))]
      else if qos = 2 then [packet 0x50 (be16 (unat mid))] else [])"

fun pub_content :: "pub \<Rightarrow> cstring \<times> u8 list" where
  "pub_content (topic, qos, mid, data, retain) = (topic, data)"

text \<open>What the data callback was given: the memory at the pointers, of the given lengths.\<close>

definition pointee :: "u8 list option \<Rightarrow> u16 \<Rightarrow> u8 list" where
  "pointee p n = (case p of None \<Rightarrow> [] | Some m \<Rightarrow> take (unat n) m)"

definition delivery :: "effect \<Rightarrow> (u8 list \<times> u8 list) option" where
  "delivery x = (case x of Called_data t tn d dn \<Rightarrow> Some (pointee t tn, pointee d dn) | _ \<Rightarrow> None)"

definition deliveries :: "MQTT_Client \<Rightarrow> (u8 list \<times> u8 list) list" where
  "deliveries c = List.map_filter delivery (trace c)"

lemma map_filter_append: "List.map_filter f (xs @ ys) = List.map_filter f xs @ List.map_filter f ys"
  by (simp add: List.map_filter_def)

lemma deliveries_emit [simp]:
  "deliveries (emit x c) = deliveries c @ (case delivery x of None \<Rightarrow> [] | Some d \<Rightarrow> [d])"
  by (simp add: deliveries_def emit_def map_filter_append List.map_filter_def split: option.split)

lemma pointee_points_to: "points_to p n xs \<Longrightarrow> pointee p n = xs"
  by (auto simp: points_to_def pointee_def split: option.splits)

lemma hdr_type_publish:
  assumes "qos \<le> 2"
  shows "hdr_type (header_byte 3 0 (int qos) retain) = msg_type PUBLISH"
    and "hdr_qos (header_byte 3 0 (int qos) retain) = int qos"
proof -
  have t: "hdr_type (header_byte 3 0 a b) = 3" if "a \<in> {0, 1, 2}" "b \<in> {0, 1}" for a b
    using that by (elim insertE emptyE; hypsubst; code_simp)
  have r: "retain AND 1 = 0 \<or> retain AND 1 = 1" by (simp add: and_one_eq mod2_eq_if)
  have q: "int qos = 0 \<or> int qos = 1 \<or> int qos = 2" using assms by auto
  have "header_byte 3 0 (int qos) retain = header_byte 3 0 (int qos) (retain AND 1)"
    by (simp add: header_byte_def and.assoc)
  with t [of "int qos" "retain AND 1"] r q
  show "hdr_type (header_byte 3 0 (int qos) retain) = msg_type PUBLISH" by auto
  show "hdr_qos (header_byte 3 0 (int qos) retain) = int qos"
    using assms by (intro hdr_qos_publish) auto
qed

lemma pub_reply:
  assumes ok: "client_ok e c" and "5 \<le> MQTT_BUF_SIZE e" and "pub_ok (topic, qos, mid, data, retain)"
    and room: "10 \<le> queue_free (msgQueue c)" and "0 < qos \<Longrightarrow> m = mid"
  shows "\<exists>c'. recv_reply (msg_type PUBLISH) (int qos) m c = Some c' \<and> client_ok e c' \<and>
           reply_frame c c' \<and>
           queue_msgs (msgQueue c') = queue_msgs (msgQueue c) @ pub_ack (topic, qos, mid, data, retain) \<and>
           queue_free (msgQueue c) \<le> queue_free (msgQueue c') + 10"
proof (cases "qos = 0")
  case True
  with ok show ?thesis by (simp add: recv_reply_def Let_def)
next
  case False
  have q: "qos \<le> 2" "mid \<noteq> 0" using assms(3) by auto
  have "qos = 1 \<or> qos = 2" using False q by auto
  then have "replies (header_byte 3 0 (int qos) retain) mid = pub_ack (topic, qos, mid, data, retain)"
    using hdr_type_publish [OF q(1)] by (auto simp: replies_def)
  with recv_reply_queues [OF ok assms(2) q(2) room, of "header_byte 3 0 (int qos) retain"]
    hdr_type_publish [OF q(1), of retain] assms(5) False
  show ?thesis by auto
qed

definition inert :: "env \<Rightarrow> nat \<Rightarrow> bool" where
  "inert e f \<longleftrightarrow> (\<forall>c t tn d dn. run_data_cb e f c t tn d dn = Some c)"

lemma deliver_publish_inert:
  assumes "dataCb c = Some f" and "inert e f" and pub: "pub_ok (topic, qos, mid, data, retain)"
    and buf: "starts_with buf (header_byte 3 0 (int qos) retain) (publish_body topic qos mid data)"
    and "length (packet (header_byte 3 0 (int qos) retain) (publish_body topic qos mid data)) \<le> unat len"
  shows "\<exists>x. deliver_publish e buf len c = Some (emit x c) \<and> delivery x = Some (topic, data)"
proof -
  have q: "qos \<le> 2" "topic \<noteq> []" "length topic < 65536" using pub by simp_all
  from publish_decoded [OF buf assms(5) q(2,3) hdr_type_publish(2) [OF q(1)]] obtain tp tl dp dl where
    d: "mqtt_get_publish_topic buf len = Some (tp, tl)" "mqtt_get_publish_data buf len = Some (dp, dl)"
    "points_to (map_option (\<lambda>i. drop i buf) tp) tl topic"
    "points_to (map_option (\<lambda>i. drop i buf) dp) dl data" by blast
  with assms(1,2) show ?thesis
    by (auto simp: deliver_publish_def Let_def inert_def delivery_def pointee_points_to)
qed

text \<open>The start of such a pass: the packet is copied, and its identifier and length are read.\<close>

lemma recv_packet_pub_start:
  assumes ok: "client_ok e c" and env: "env_bounds e" and pub: "pub_ok (topic, qos, mid, data, retain)"
    and pd: "pdata = packet (header_byte 3 0 (int qos) retain) (publish_body topic qos mid data) @ later"
    and len: "unat len = length pdata" and fits: "unat len < MQTT_BUF_SIZE e"
  defines "h \<equiv> header_byte 3 0 (int qos) retain" and "b \<equiv> publish_body topic qos mid data"
  shows "\<exists>inb m. recv_packet e c pdata len =
             recv_dispatch e (c\<lparr>mqtt_state := (mqtt_state c)\<lparr>in_buffer := Some inb\<rparr>\<rparr>) pdata inb len
               (hdr_type h) (hdr_qos h) m \<and>
           length inb = MQTT_BUF_SIZE e \<and> starts_with inb h b \<and> (0 < qos \<longrightarrow> m = mid) \<and>
           mqtt_get_total_length inb len = Some (int (length (packet h b)))"
proof -
  have q: "qos \<le> 2" "topic \<noteq> []" "length topic < 65536" using pub by simp_all
  note hdr = hdr_type_publish [OF q(1), of retain]
  from recv_packet_dispatch [OF ok env pd len fits] obtain inb m where
    d: "recv_packet e c pdata len =
      recv_dispatch e (c\<lparr>mqtt_state := (mqtt_state c)\<lparr>in_buffer := Some inb\<rparr>\<rparr>) pdata inb len
        (hdr_type h) (hdr_qos h) m"
    "length inb = MQTT_BUF_SIZE e" "starts_with inb h b"
    "mqtt_get_id inb (of_nat (MQTT_BUF_SIZE e)) = Some m" unfolding h_def b_def by blast
  have blen: "unat (of_nat (MQTT_BUF_SIZE e) :: u16) = MQTT_BUF_SIZE e" by (rule buffer_length_word [OF env])
  have ple: "length (packet h b) \<le> unat len" using len by (simp add: pd h_def b_def)
  have "m = mid" if "0 < qos"
  proof -
    obtain rest where "inb = packet h b @ rest" using d(3) by (auto simp: starts_with_def)
    moreover have "length (packet h b) < unat (of_nat (MQTT_BUF_SIZE e) :: u16)"
      using blen ple fits by simp
    ultimately show "m = mid"
      using mqtt_get_id_publish [OF q(2,3) _ hdr(2,1), of mid data "of_nat (MQTT_BUF_SIZE e)" rest] d(4) that
      unfolding h_def b_def by (simp only: if_True) simp
  qed
  moreover have "mqtt_get_total_length inb len = Some (int (length (packet h b)))"
    by (rule packet_decoders(3) [OF d(3) _ ple]) (use fits d(2) in simp)
  ultimately show ?thesis using d(1-3) by blast
qed

text \<open>One pass of the receiver over a publish at the start of what is left of the segment.\<close>

lemma recv_packet_publish:
  assumes ok: "client_ok e c" and env: "env_bounds e" and big: "5 \<le> MQTT_BUF_SIZE e"
    and st: "connState c = MQTT_DATA \<or> connState c = MQTT_KEEPALIVE_SEND"
    and cb: "dataCb c = Some f" "inert e f" and pub: "pub_ok (topic, qos, mid, data, retain)"
    and room: "10 \<le> queue_free (msgQueue c)"
    and pd: "pdata = packet (header_byte 3 0 (int qos) retain) (publish_body topic qos mid data) @ later"
    and len: "unat len = length pdata" and fits: "unat len < MQTT_BUF_SIZE e"
  shows "\<exists>c' next. recv_packet e c pdata len = Some (c', next) \<and> client_ok e c' \<and>
           connState c' = connState c \<and> dataCb c' = Some f \<and> keepAliveTick c' = keepAliveTick c \<and>
           deliveries c' = deliveries c @ [(topic, data)] \<and>
           queue_msgs (msgQueue c') = queue_msgs (msgQueue c) @ pub_ack (topic, qos, mid, data, retain) \<and>
           queue_free (msgQueue c) \<le> queue_free (msgQueue c') + 10 \<and>
           (if later = [] then next = None
            else next = Some (later, len - of_nat (length pdata - length later)))"
proof -
  let ?h = "header_byte 3 0 (int qos) retain" and ?b = "publish_body topic qos mid data"
  let ?p = "length (packet ?h ?b)"
  have "qos \<le> 2" using pub by simp
  note hdr = hdr_type_publish [OF this, of retain]
  obtain inb m where d: "recv_packet e c pdata len =
      recv_dispatch e (c\<lparr>mqtt_state := (mqtt_state c)\<lparr>in_buffer := Some inb\<rparr>\<rparr>) pdata inb len
        (hdr_type ?h) (hdr_qos ?h) m"
    "length inb = MQTT_BUF_SIZE e" "starts_with inb ?h ?b" "0 < qos \<longrightarrow> m = mid"
    "mqtt_get_total_length inb len = Some (int ?p)"
    using recv_packet_pub_start [OF ok env pub pd len fits] by blast
  have ple: "?p \<le> unat len" using len by (simp add: pd)
  define c1 where "c1 = c\<lparr>mqtt_state := (mqtt_state c)\<lparr>in_buffer := Some inb, message_length_read := len,
      message_length := of_nat ?p\<rparr>\<rparr>"
  have ok1: "client_ok e c1"
    using client_ok_lengths [where c = "c\<lparr>mqtt_state := (mqtt_state c)\<lparr>in_buffer := Some inb\<rparr>\<rparr>"]
      client_ok_in_buffer [OF ok d(2)] by (simp add: c1_def)
  have f1: "msgQueue c1 = msgQueue c" "deliveries c1 = deliveries c" "connState c1 = connState c"
    "dataCb c1 = Some f" "keepAliveTick c1 = keepAliveTick c" "recv_state c1 = (of_nat ?p, len)"
    "in_buffer (mqtt_state c1) = Some inb"
    by (simp_all add: c1_def deliveries_def cb recv_state_def)
  from pub_reply [OF ok1 big pub _ d(4) [rule_format]] room obtain c2 where
    c2: "recv_reply (msg_type PUBLISH) (int qos) m c1 = Some c2" "client_ok e c2" "reply_frame c1 c2"
    "queue_msgs (msgQueue c2) = queue_msgs (msgQueue c) @ pub_ack (topic, qos, mid, data, retain)"
    "queue_free (msgQueue c) \<le> queue_free (msgQueue c2) + 10"
    by (auto simp: f1)
  note r2 = reply_frameD [OF c2(3), unfolded f1]
  from deliver_publish_inert [OF r2(3) cb(2) pub d(3) ple] obtain x where
    x: "deliver_publish e inb len c2 = Some (emit x c2)" "delivery x = Some (topic, data)" by blast
  have "unat len = ?p + length later" by (simp add: len pd)
  note more = rest_of_segment [OF this]
  have rest: "drop ?p pdata = later" "length pdata - length later = ?p" by (simp_all add: pd)
  have rs: "message_length (mqtt_state c2) = of_nat ?p" "message_length_read (mqtt_state c2) = len"
    using r2(5) by (simp_all add: recv_state_def)
  have "connState c \<noteq> MQTT_CONNECT_SENDING" using st by auto
  then have "recv_packet e c pdata len = Some (emit x c2,
      if later = [] then None else Some (later, len - of_nat ?p))"
    using d(1,5) st c2(1) x(1) rs r2(6) more rest
    by (simp add: recv_dispatch_def hdr flip: c1_def) (simp add: emit_def rs)
  moreover have "deliveries (emit x c2) = deliveries c @ [(topic, data)]"
    using x(2) r2(2) f1(2) by (simp add: deliveries_def emit_def map_filter_append List.map_filter_def c1_def)
  ultimately show ?thesis
    using c2 r2 rest f1 by (simp add: emit_def)
qed

lemma segment_Cons: "segment ((hdr, body) # pkts) = packet hdr body @ segment pkts"
  by (simp add: segment_def)

lemma segment_pubs_Nil: "segment (map pub_packet pubs) = [] \<longleftrightarrow> pubs = []"
proof (cases pubs)
  case (Cons p ps)
  obtain hdr body where "pub_packet p = (hdr, body)" by (cases "pub_packet p")
  then show ?thesis by (simp add: Cons segment_Cons packet_def)
qed (simp add: segment_def)

lemma recv_loop_pubs:
  assumes env: "env_bounds e" and big: "5 \<le> MQTT_BUF_SIZE e" and "inert e f"
    and "client_ok e c" and "connState c = MQTT_DATA \<or> connState c = MQTT_KEEPALIVE_SEND"
    and "dataCb c = Some f" and "list_all pub_ok pubs"
    and "10 * length pubs \<le> queue_free (msgQueue c)"
    and "unat len = length (segment (map pub_packet pubs))" and "unat len < MQTT_BUF_SIZE e"
  shows "\<exists>c'. recv_loop e (Suc (length pubs)) c (segment (map pub_packet pubs)) len = Some (Some c') \<and>
           connState c' = connState c \<and> keepAliveTick c' = keepAliveTick c \<and>
           deliveries c' = deliveries c @ map pub_content pubs \<and>
           queue_msgs (msgQueue c') = queue_msgs (msgQueue c) @ concat (map pub_ack pubs)"
  using assms(4-)
proof (induction pubs arbitrary: c len)
  case Nil
  then have "len = 0" by (simp add: segment_def unat_eq_0)
  then show ?case by (simp add: segment_def recv_packet_def) (simp add: emit_def deliveries_def map_filter_append List.map_filter_def delivery_def)
next
  case (Cons p pubs)
  obtain topic qos mid data retain where p: "p = (topic, qos, mid, data, retain)" by (cases p)
  let ?h = "header_byte 3 0 (int qos) retain" and ?b = "publish_body topic qos mid data"
  have seg: "segment (map pub_packet (p # pubs)) = packet ?h ?b @ segment (map pub_packet pubs)"
    by (simp add: p segment_Cons)
  have pub: "pub_ok (topic, qos, mid, data, retain)" and room: "10 \<le> queue_free (msgQueue c)"
    using Cons.prems(4,5) by (simp_all add: p)
  from recv_packet_publish [OF Cons.prems(1) env big Cons.prems(2,3) assms(3) pub room seg
      Cons.prems(6,7)] obtain c1 nx where
    c1: "recv_packet e c (segment (map pub_packet (p # pubs))) len = Some (c1, nx)" "client_ok e c1"
    "connState c1 = connState c" "dataCb c1 = Some f" "keepAliveTick c1 = keepAliveTick c"
    "deliveries c1 = deliveries c @ [(topic, data)]"
    "queue_msgs (msgQueue c1) = queue_msgs (msgQueue c) @ pub_ack (topic, qos, mid, data, retain)"
    "queue_free (msgQueue c) \<le> queue_free (msgQueue c1) + 10"
    "if segment (map pub_packet pubs) = [] then nx = None
     else nx = Some (segment (map pub_packet pubs), len - of_nat (length (segment (map pub_packet (p # pubs)))
       - length (segment (map pub_packet pubs))))"
    by blast
  show ?case
  proof (cases "pubs = []")
    case True
    then have "nx = None" using c1(9) segment_pubs_Nil [of pubs] by (simp add: segment_def)
    with c1 True show ?thesis
      by (simp add: p) (simp add: emit_def deliveries_def map_filter_append List.map_filter_def delivery_def)
  next
    case False
    let ?n = "length (packet ?h ?b)"
    have n: "length (segment (map pub_packet (p # pubs))) - length (segment (map pub_packet pubs)) = ?n"
      unfolding seg by simp
    have nx: "nx = Some (segment (map pub_packet pubs), len - of_nat ?n)"
      using c1(9) False segment_pubs_Nil [of pubs] unfolding n by simp
    have rest: "unat len = ?n + length (segment (map pub_packet pubs))"
      using Cons.prems(6) by (simp only: seg length_append)
    note u = rest_of_segment(3) [OF rest]
    have small: "unat (len - of_nat ?n) < MQTT_BUF_SIZE e" using u rest Cons.prems(7) by linarith
    have free: "10 * length pubs \<le> queue_free (msgQueue c1)"
      using Cons.prems(5) c1(8) by simp
    have st: "connState c1 = MQTT_DATA \<or> connState c1 = MQTT_KEEPALIVE_SEND"
      using c1(3) Cons.prems(2) by simp
    from Cons.IH [OF c1(2) st c1(4) _ free u small] Cons.prems(4) c1 nx show ?thesis
      by (auto simp: p)
  qed
qed

section \<open>Properties\<close>

text \<open>
  C10. Every publish of a segment is processed: when a connected client receives a segment of
  complete PUBLISH packets, the data callback gets the topic and the payload of each in order, a
  PUBACK (QoS 1) or PUBREC (QoS 2) with the packet's identifier is queued for each in order, and
  the keep-alive counter restarts.
\<close>

theorem publishes_delivered:
  assumes "env_bounds e" and "5 \<le> MQTT_BUF_SIZE e" and "inert e f" and "client_ok e c"
    and "connState c = MQTT_DATA \<or> connState c = MQTT_KEEPALIVE_SEND"
    and "dataCb c = Some f" and "list_all pub_ok pubs"
    and "10 * length pubs \<le> queue_free (msgQueue c)"
    and "length (segment (map pub_packet pubs)) < MQTT_BUF_SIZE e"
  shows "\<exists>c'. mqtt_tcpclient_recv e (Suc (length pubs)) (segment (map pub_packet pubs))
                (of_nat (length (segment (map pub_packet pubs)))) c = Some (Some c') \<and>
           connState c' = connState c \<and> keepAliveTick c' = 0 \<and>
           deliveries c' = deliveries c @ map pub_content pubs \<and>
           queue_msgs (msgQueue c') = queue_msgs (msgQueue c) @ concat (map pub_ack pubs)"
proof -
  let ?n = "length (segment (map pub_packet pubs))"
  have u: "unat (of_nat ?n :: u16) = ?n"
    using assms(1,9) by (simp add: env_bounds_def unsigned_of_nat take_bit_nat_eq_self)
  have "client_ok e (c\<lparr>keepAliveTick := 0\<rparr>)" using assms(4) by simp
  from recv_loop_pubs [OF assms(1-3) this _ _ assms(7) _ u] assms(5,6,8,9) u show ?thesis
    by (simp add: mqtt_tcpclient_recv_def deliveries_def del: recv_loop.simps)
qed

definition listening0 :: MQTT_Client where
  "listening0 = online0\<lparr>dataCb := Some 0\<rparr>"

lemma listening0: "client_ok env0 listening0" "connState listening0 = MQTT_DATA"
  "dataCb listening0 = Some 0" "queue_free (msgQueue listening0) = 2048" "inert env0 0"
proof -
  show "client_ok env0 listening0" using online0(1) by (simp add: listening0_def client_ok_def)
  show "queue_free (msgQueue listening0) = 2048" by code_simp
qed (simp_all add: listening0_def online0 inert_def env0_def)

theorem publishes_delivered_witness:
  "\<exists>c'. mqtt_tcpclient_recv env0 (Suc (length [([0x74], 1, 7, [1, 2], 0), ([0x75], 2, 8, [3], 1) :: pub]))
          (segment (map pub_packet [([0x74], 1, 7, [1, 2], 0), ([0x75], 2, 8, [3], 1)]))
          (of_nat (length (segment (map pub_packet [([0x74], 1, 7, [1, 2], 0), ([0x75], 2, 8, [3], 1)]))))
          listening0 = Some (Some c') \<and>
     connState c' = connState listening0 \<and> keepAliveTick c' = 0 \<and>
     deliveries c' = deliveries listening0 @
       map pub_content [([0x74], 1, 7, [1, 2], 0), ([0x75], 2, 8, [3], 1)] \<and>
     queue_msgs (msgQueue c') = queue_msgs (msgQueue listening0) @
       concat (map pub_ack [([0x74], 1, 7, [1, 2], 0), ([0x75], 2, 8, [3], 1)])"
  by (rule publishes_delivered [where f = 0])
    (simp_all add: listening0, simp_all add: env0_def env_bounds_def segment_def length_packet
      length_publish_body varint_short)

text \<open>A packet other than PUBLISH: the reply is queued and the receiver leaves the loop.\<close>

lemma recv_reply_other:
  assumes "t \<notin> {msg_type PUBLISH, msg_type PUBREC, msg_type PUBREL}"
  shows "recv_reply t q mid c = recv_reply t q mid' c"
  using assms by (simp add: recv_reply_def Let_def)

lemma replies_other:
  assumes "hdr_type hdr \<notin> {msg_type PUBLISH, msg_type PUBREC, msg_type PUBREL}"
  shows "replies hdr mid = replies hdr mid'"
  using assms by (simp add: replies_def)

lemma recv_packet_control:
  assumes ok: "client_ok e c" and env: "env_bounds e" and big: "5 \<le> MQTT_BUF_SIZE e"
    and st: "connState c = MQTT_DATA \<or> connState c = MQTT_KEEPALIVE_SEND"
    and ctl: "hdr_type hdr \<noteq> msg_type PUBLISH" and mid: "mid \<noteq> 0"
    and ack: "hdr_type hdr \<in> {msg_type PUBREC, msg_type PUBREL} \<Longrightarrow> body = be16 (unat mid)"
    and room: "10 \<le> queue_free (msgQueue c)"
    and pd: "pdata = packet hdr body @ later" and len: "unat len = length pdata"
    and fits: "unat len < MQTT_BUF_SIZE e"
  shows "\<exists>c'. recv_packet e c pdata len = Some (c', None) \<and> trace c' = trace c \<and>
           keepAliveTick c' = keepAliveTick c \<and> connState c' = connState c \<and>
           queue_msgs (msgQueue c') = queue_msgs (msgQueue c) @ replies hdr mid"
proof -
  let ?p = "length (packet hdr body)"
  from recv_packet_dispatch [OF ok env pd len fits] obtain inb m where
    d: "recv_packet e c pdata len =
      recv_dispatch e (c\<lparr>mqtt_state := (mqtt_state c)\<lparr>in_buffer := Some inb\<rparr>\<rparr>) pdata inb len
        (hdr_type hdr) (hdr_qos hdr) m"
    "length inb = MQTT_BUF_SIZE e" "starts_with inb hdr body"
    "mqtt_get_id inb (of_nat (MQTT_BUF_SIZE e)) = Some m" by blast
  have ple: "?p \<le> unat len" using len by (simp add: pd)
  have total: "mqtt_get_total_length inb len = Some (int ?p)"
    by (rule packet_decoders(3) [OF d(3) _ ple]) (use fits d(2) in simp)
  define c1 where "c1 = c\<lparr>mqtt_state := (mqtt_state c)\<lparr>in_buffer := Some inb, message_length_read := len,
      message_length := of_nat ?p\<rparr>\<rparr>"
  have ok1: "client_ok e c1"
    using client_ok_lengths [where c = "c\<lparr>mqtt_state := (mqtt_state c)\<lparr>in_buffer := Some inb\<rparr>\<rparr>"]
      client_ok_in_buffer [OF ok d(2)] by (simp add: c1_def)
  have f1: "msgQueue c1 = msgQueue c" "trace c1 = trace c" "connState c1 = connState c"
    "keepAliveTick c1 = keepAliveTick c" by (simp_all add: c1_def)
  have room1: "10 \<le> queue_free (msgQueue c1)" using room by (simp add: f1)
  have same: "recv_reply (hdr_type hdr) (hdr_qos hdr) m c1 = recv_reply (hdr_type hdr) (hdr_qos hdr) mid c1"
  proof (cases "hdr_type hdr \<in> {msg_type PUBREC, msg_type PUBREL}")
    case True
    obtain rest where "inb = packet hdr body @ rest" using d(3) by (auto simp: starts_with_def)
    moreover have "body = be16 (unat mid) @ []" using ack True by simp
    moreover have "unat (of_nat (MQTT_BUF_SIZE e) :: u16) = MQTT_BUF_SIZE e"
      by (rule buffer_length_word [OF env])
    ultimately have "m = mid"
      using d(4) mqtt_get_id_ack [of hdr "[]" "of_nat (MQTT_BUF_SIZE e)" mid rest] True big
      by (auto simp del: append_Nil2)
    then show ?thesis by simp
  next
    case False
    with ctl show ?thesis by (intro recv_reply_other) simp
  qed
  from recv_reply_queues [OF ok1 big mid room1] obtain c2 where
    c2: "recv_reply (hdr_type hdr) (hdr_qos hdr) mid c1 = Some c2" "reply_frame c1 c2"
    "queue_msgs (msgQueue c2) = queue_msgs (msgQueue c) @ replies hdr mid"
    by (auto simp: f1)
  note r2 = reply_frameD [OF c2(2), unfolded f1]
  have notsend: "connState c \<noteq> MQTT_CONNECT_SENDING" using st by auto
  have "recv_packet e c pdata len = Some (c2, None)"
    using d(1) st notsend total c2(1) ctl same by (simp add: recv_dispatch_def flip: c1_def)
  with c2(3) r2 show ?thesis by simp
qed

text \<open>
  A control packet is answered, and ends its segment: a connected client that receives a
  complete packet other than PUBLISH queues exactly the reply the protocol asks for (PUBREL for
  PUBREC, PUBCOMP for PUBREL, PINGRESP for PINGREQ, nothing otherwise) and posts the task; whatever
  follows the packet in the same segment, publishes included, is dropped without a trace.
\<close>

lemma control_answered:
  assumes "env_bounds e" and "5 \<le> MQTT_BUF_SIZE e" and "client_ok e c"
    and "connState c = MQTT_DATA \<or> connState c = MQTT_KEEPALIVE_SEND"
    and "hdr_type hdr \<noteq> msg_type PUBLISH" and "mid \<noteq> 0"
    and "hdr_type hdr \<in> {msg_type PUBREC, msg_type PUBREL} \<Longrightarrow> body = be16 (unat mid)"
    and "10 \<le> queue_free (msgQueue c)"
    and "length (packet hdr body @ later) < MQTT_BUF_SIZE e"
  shows "\<exists>c'. mqtt_tcpclient_recv e 1 (packet hdr body @ later)
                (of_nat (length (packet hdr body @ later))) c = Some (Some c') \<and>
           queue_msgs (msgQueue c') = queue_msgs (msgQueue c) @ replies hdr mid \<and>
           trace c' = trace c @ [Os_post] \<and> connState c' = connState c \<and> keepAliveTick c' = 0"
proof -
  define n where "n = length (packet hdr body @ later)"
  have u: "unat (of_nat n :: u16) = length (packet hdr body @ later)"
    using assms(1,9) unfolding n_def [symmetric]
    by (simp add: env_bounds_def unsigned_of_nat take_bit_nat_eq_self)
  let ?c = "c\<lparr>keepAliveTick := 0\<rparr>"
  have ok: "client_ok e ?c" using assms(3) by simp
  from recv_packet_control [OF ok assms(1,2) _ assms(5-7) _ refl u] assms(4,8,9) u
  show ?thesis unfolding n_def [symmetric] by (auto simp: mqtt_tcpclient_recv_def emit_def)
qed

lemma control_answered_witness:
  "\<exists>c'. mqtt_tcpclient_recv env0 1 (packet 0x62 (be16 (unat (9 :: u16))) @ packet 0x30 [0, 1, 0x74, 5])
          (of_nat (length (packet 0x62 (be16 (unat (9 :: u16))) @ packet 0x30 [0, 1, 0x74, 5]))) listening0 =
        Some (Some c') \<and>
     queue_msgs (msgQueue c') = queue_msgs (msgQueue listening0) @ replies 0x62 9 \<and>
     trace c' = trace listening0 @ [Os_post] \<and> connState c' = connState listening0 \<and> keepAliveTick c' = 0"
proof (rule control_answered)
  have "hdr_type 0x62 = 6" by code_simp
  then show "hdr_type 0x62 \<noteq> msg_type PUBLISH" by simp
qed (simp_all add: listening0, simp_all add: env0_def env_bounds_def length_packet varint_short)

section \<open>A receiver that never returns\<close>

definition endless :: "u8 list" where
  "endless = [0x30, 0xFC, 0xFF, 0x03]"

lemma endless_length:
  "rem_length_loop (endless @ rest) 4 1 0 = Some (4, 65532)"
  by (simp add: endless_def rem_length_loop.simps rd_def shl_int_def add_int_def)

lemma recv_packet_endless:
  assumes ok: "client_ok e c" and env: "env_bounds e" and big: "4 < MQTT_BUF_SIZE e"
    and st: "connState c = MQTT_DATA" and cb: "dataCb c = None"
  shows "\<exists>c'. recv_packet e c endless 4 = Some (c', Some (endless, 4)) \<and> client_ok e c' \<and>
           connState c' = MQTT_DATA \<and> dataCb c' = None"
proof -
  obtain old where old: "in_buffer (mqtt_state c) = Some old" "length old = MQTT_BUF_SIZE e"
    and ibl: "in_buffer_length (mqtt_state c) = int (MQTT_BUF_SIZE e)"
    using ok by (auto simp: client_ok_def state_ok_def)
  define inb where "inb = endless @ drop 4 old"
  have el: "length endless = 4" by (simp add: endless_def)
  have l: "length inb = MQTT_BUF_SIZE e" using big old by (simp add: inb_def el)
  have wr: "wr_block old 0 endless = Some inb" using big old by (simp add: wr_block_def inb_def el)
  have ne: "inb \<noteq> []" using l big by auto
  have hd: "hd inb = 0x30" by (simp add: inb_def endless_def)
  have ty: "hdr_type 0x30 = 3" "hdr_qos 0x30 = 0" by code_simp+
  obtain m where m: "mqtt_get_id inb (of_nat (MQTT_BUF_SIZE e)) = Some m"
    using mqtt_get_id_defined [of "of_nat (MQTT_BUF_SIZE e)" inb] l buffer_length_word [OF env] by auto
  have loop: "rem_length_loop inb 4 1 0 = Some (4, 65532)"
    unfolding inb_def by (rule endless_length)
  have total: "mqtt_get_total_length inb 4 = Some 65536"
    and parts: "mqtt_get_publish_topic inb 4 = Some (None, 4)" "mqtt_get_publish_data inb 4 = Some (None, 0)"
    using loop by (simp_all add: mqtt_get_total_length_def mqtt_get_publish_topic_def
        mqtt_get_publish_data_def add_int_def)
  define c1 where "c1 = c\<lparr>mqtt_state := (mqtt_state c)\<lparr>in_buffer := Some inb, message_length_read := 4,
      message_length := 0\<rparr>\<rparr>"
  have "client_ok e c1"
    using client_ok_lengths [where c = "c\<lparr>mqtt_state := (mqtt_state c)\<lparr>in_buffer := Some inb\<rparr>\<rparr>"]
      client_ok_in_buffer [OF ok l] by (simp add: c1_def)
  moreover have "recv_packet e c endless 4 = Some (c1, Some (endless, 4))"
    using big st cb old(1) wr ibl m total parts
    by (simp add: recv_packet_def rd_block_def el mqtt_get_type_defined [OF ne]
        mqtt_get_qos_defined [OF ne] hd ty recv_reply_def Let_def deliver_publish_def c1_def)
  ultimately show ?thesis using st cb by (simp add: c1_def)
qed



end
