(* ===== verification/Mqtt_Session.thy ===== *)
theory Mqtt_Session
  imports Mqtt_System_Props
begin

text \<open>
  The session of the client over time: the handshake with the broker, the keep-alive and the
  reconnect counted by \<open>mqtt_timer\<close>, and the subscription that does not fit the buffer.
\<close>

section \<open>Ticks of the timer\<close>

fun ticks :: "env \<Rightarrow> nat \<Rightarrow> MQTT_Client \<Rightarrow> MQTT_Client option" where
  "ticks e 0 c = Some c"
| "ticks e (Suc n) c = do { c \<leftarrow> ticks e n c; mqtt_timer e c }"

lemma tick_below:
  assumes "n < nat k" and "k < 2 ^ 31"
  shows "\<not> word_of_int k < (of_nat n + 1 :: u32)"
proof -
  have "unat (of_nat n + 1 :: u32) = unat (of_nat (Suc n) :: u32)" by (simp add: add.commute)
  also have "\<dots> = Suc n"
    using assms by (simp add: unsigned_of_nat take_bit_nat_eq_self del: of_nat_Suc)
  finally have "unat (of_nat n + 1 :: u32) = Suc n" .
  moreover have "unat (word_of_int k :: u32) = nat k"
    using assms by (simp add: unsigned_of_int take_bit_int_eq_self)
  ultimately show ?thesis using assms(1) by (simp add: word_less_nat_alt)
qed

lemma tick_over:
  assumes "0 \<le> k" and "k < 2 ^ 31"
  shows "word_of_int k < (of_nat (nat k) + 1 :: u32)"
proof -
  have "unat (of_nat (nat k) + 1 :: u32) = unat (of_nat (Suc (nat k)) :: u32)" by (simp add: add.commute)
  also have "\<dots> = Suc (nat k)"
    using assms by (simp add: unsigned_of_nat take_bit_nat_eq_self del: of_nat_Suc)
  finally have "unat (of_nat (nat k) + 1 :: u32) = Suc (nat k)" .
  moreover have "unat (word_of_int k :: u32) = nat k"
    using assms by (simp add: unsigned_of_int take_bit_int_eq_self)
  ultimately show ?thesis by (simp add: word_less_nat_alt)
qed

text \<open>In MQTT\_DATA a tick counts, until the count exceeds the keep-alive time.\<close>

lemma timer_data:
  assumes "connect_info_set (mqtt_state c)" and "connState c = MQTT_DATA"
    and "sendTimeout c \<le> MQTT_SEND_TIMOUT"
  shows "\<exists>s \<le> MQTT_SEND_TIMOUT. mqtt_timer e c = Some
      (if keepAliveTick c + 1 > word_of_int (keepalive (connect_info c))
       then emit Os_post (c\<lparr>keepAliveTick := keepAliveTick c + 1, connState := MQTT_KEEPALIVE_SEND,
                sendTimeout := s\<rparr>)
       else c\<lparr>keepAliveTick := keepAliveTick c + 1, sendTimeout := s\<rparr>)"
  using assms
  by (intro exI [of _ "if sendTimeout c > 0 then sendTimeout c - 1 else sendTimeout c"])
    (simp add: mqtt_timer_def timer_state_def Let_def emit_def timeout_decrement)

lemma ticks_data:
  assumes "connect_info_set (mqtt_state c)" and "connState c = MQTT_DATA" and "keepAliveTick c = 0"
    and "keepalive (connect_info c) = k" and "k < 2 ^ 31" and "n \<le> nat k"
    and st: "sendTimeout c \<le> MQTT_SEND_TIMOUT"
  shows "\<exists>s \<le> MQTT_SEND_TIMOUT. ticks e n c = Some (c\<lparr>keepAliveTick := of_nat n, sendTimeout := s\<rparr>)"
  using assms(6)
proof (induction n)
  case 0
  show ?case using assms(3) st by (intro exI [of _ "sendTimeout c"]) simp
next
  case (Suc n)
  then obtain s where s: "ticks e n c = Some (c\<lparr>keepAliveTick := of_nat n, sendTimeout := s\<rparr>)"
    "s \<le> MQTT_SEND_TIMOUT" by auto
  have "n < nat k" using Suc.prems by simp
  from tick_below [OF this assms(5)] s assms(1,2,4)
    timer_data [of "c\<lparr>keepAliveTick := of_nat n, sendTimeout := s\<rparr>" e]
  show ?case by (auto simp: add.commute)
qed

lemma ping_packet:
  assumes ok: "client_ok e c"
  shows "\<exists>k. mqtt_msg_pingreq (conn (mqtt_state c)) = Some k \<and> conn_step (conn (mqtt_state c)) k \<and>
           packet_bytes k = [0xC0, 0]"
proof -
  have sm: "small_conn (conn (mqtt_state c))" by (rule client_conn [OF ok])
  then have "conn_ok (conn (mqtt_state c))" by (simp add: small_conn_def)
  from empty_packet [OF this, of "msg_type PINGREQ"] ping_conn_step(1) [OF sm]
  have "\<exists>k. mqtt_msg_pingreq (conn (mqtt_state c)) = Some k \<and> conn_step (conn (mqtt_state c)) k \<and>
      packet_bytes k = [header_byte (msg_type PINGREQ) 0 0 0, 0]"
    by (auto simp: mqtt_msg_pingreq_def)
  moreover have "header_byte (msg_type PINGREQ) 0 0 0 = 0xC0" by code_simp
  ultimately show ?thesis by simp
qed

lemma keepalive_runs:
  assumes ok: "client_ok e c"
  shows "\<exists>c0 c1. mqtt_send_keepalive e c = Some (emit Os_post
             (if send_result e c0 [0xC0, 0] = 0 then c1\<lparr>keepAliveTick := 0, connState := MQTT_DATA\<rparr>
              else c1\<lparr>connState := TCP_RECONNECT_DISCONNECTING\<rparr>)) \<and>
           sendTimeout c1 = MQTT_SEND_TIMOUT \<and> trace c1 = trace c @ [send_of c [0xC0, 0]]"
proof -
  obtain k where k: "mqtt_msg_pingreq (conn (mqtt_state c)) = Some k"
    "conn_step (conn (mqtt_state c)) k" "packet_bytes k = [0xC0, 0]"
    using ping_packet [OF ok] by blast
  have "has_outbound (set_conn k c)" using k(2) by (simp add: set_conn_outbound conn_step_def)
  moreover have "conn (mqtt_state (set_conn k c)) = k" by (simp add: set_conn_def)
  ultimately obtain data mid where d: "outbound_data (set_conn k c) = Some data"
    "unat (outbound_length (set_conn k c)) \<le> length data"
    "take (unat (outbound_length (set_conn k c))) data = [0xC0, 0]"
    "mqtt_get_id data (outbound_length (set_conn k c)) = Some mid"
    "mqtt_get_type data = Some (hdr_type (hd data))"
    using outbound_decoded [of "set_conn k c"] k(3) by auto
  define c0 where "c0 = (set_pending (hdr_type (hd data)) mid (set_conn k c))\<lparr>sendTimeout := MQTT_SEND_TIMOUT\<rparr>"
  define c1 where "c1 = clear_outbound (emit (send_of c [0xC0, 0]) c0)"
  have len: "outbound_length c0 = outbound_length (set_conn k c)" "security c0 = security c" "trace c0 = trace c"
    by (simp_all add: c0_def) (simp_all add: set_pending_def set_conn_def)
  have "tcp_send data (outbound_length c0) c0 = Some ([0xC0, 0], emit (send_of c [0xC0, 0]) c0)"
    using tcp_send_ok [of "outbound_length c0" data c0] d(2,3) len by (simp add: send_of_def)
  then have "mqtt_send_keepalive e c = Some (emit Os_post
      (if send_result e c0 [0xC0, 0] = 0 then c1\<lparr>keepAliveTick := 0, connState := MQTT_DATA\<rparr>
       else c1\<lparr>connState := TCP_RECONNECT_DISCONNECTING\<rparr>))"
    using k(1) d(1,4,5) len(1) by (simp add: mqtt_send_keepalive_def Let_def c1_def flip: c0_def)
  moreover have "sendTimeout c1 = MQTT_SEND_TIMOUT" "trace c1 = trace c @ [send_of c [0xC0, 0]]"
    using len(3) by (simp_all add: c1_def c0_def clear_outbound_def emit_def)
  ultimately show ?thesis by blast
qed

lemma send_keepalive_sends:
  assumes "client_ok e c" and "\<And>c b. send_result e c b = 0"
  shows "\<exists>c'. mqtt_send_keepalive e c = Some c' \<and> connState c' = MQTT_DATA \<and> keepAliveTick c' = 0 \<and>
           sendTimeout c' = MQTT_SEND_TIMOUT \<and> trace c' = trace c @ [send_of c [0xC0, 0], Os_post]"
  using keepalive_runs [OF assms(1)] by (auto simp: assms(2) emit_def)

text \<open>
  C23. Keep-alive: a connected client that hears and sends nothing for \<open>keepalive\<close> ticks of the
  timer does nothing; at the next tick it asks for a ping, the task then sends exactly PINGREQ
  (C0 00), and when the send succeeds the client is connected again with the counter at 0.
\<close>

theorem keepalive_ping:
  assumes "client_ok e c" and "connState c = MQTT_DATA" and "keepAliveTick c = 0"
    and "0 \<le> keepalive (connect_info c)" and "keepalive (connect_info c) < 2 ^ 31"
    and "\<And>c b. send_result e c b = 0"
  shows "\<exists>c1 c2 c3. ticks e (nat (keepalive (connect_info c))) c = Some c1 \<and>
           connState c1 = MQTT_DATA \<and> trace c1 = trace c \<and>
           mqtt_timer e c1 = Some c2 \<and> connState c2 = MQTT_KEEPALIVE_SEND \<and>
           MQTT_Task e c2 = Some c3 \<and> connState c3 = MQTT_DATA \<and> keepAliveTick c3 = 0 \<and>
           trace c3 = trace c @ [Os_post, send_of c [0xC0, 0], Os_post]"
proof -
  let ?k = "keepalive (connect_info c)"
  have set: "connect_info_set (mqtt_state c)" using assms(1) by (simp add: client_ok_def state_ok_def)
  have st: "sendTimeout c \<le> MQTT_SEND_TIMOUT" using assms(1) by (simp add: client_ok_def)
  obtain s where s: "ticks e (nat ?k) c = Some (c\<lparr>keepAliveTick := of_nat (nat ?k), sendTimeout := s\<rparr>)"
    "s \<le> MQTT_SEND_TIMOUT"
    using ticks_data [OF set assms(2,3) refl assms(5) order.refl st] by blast
  let ?c1 = "c\<lparr>keepAliveTick := of_nat (nat ?k), sendTimeout := s\<rparr>"
  obtain s' where t: "mqtt_timer e ?c1 = Some (emit Os_post (?c1\<lparr>keepAliveTick := of_nat (nat ?k) + 1,
      connState := MQTT_KEEPALIVE_SEND, sendTimeout := s'\<rparr>))" "s' \<le> MQTT_SEND_TIMOUT"
    using timer_data [of ?c1 e] set assms(2) s(2) tick_over [OF assms(4,5)] by auto
  define c2 where "c2 = emit Os_post (?c1\<lparr>keepAliveTick := of_nat (nat ?k) + 1,
      connState := MQTT_KEEPALIVE_SEND, sendTimeout := s'\<rparr>)"
  have sk: "mqtt_state c2 = mqtt_state c" "security c2 = security c" "trace c2 = trace c @ [Os_post]"
    "connState c2 = MQTT_KEEPALIVE_SEND"
    by (simp_all add: c2_def emit_def)
  have ok2: "client_ok e c2"
    using assms(1) t(2) by (simp add: c2_def client_ok_def emit_def)
  from send_keepalive_sends [OF ok2 assms(6)] sk obtain c3 where
    "MQTT_Task e c2 = Some c3" "connState c3 = MQTT_DATA" "keepAliveTick c3 = 0"
    "trace c3 = trace c @ [Os_post, send_of c [0xC0, 0], Os_post]"
    by (auto simp: MQTT_Task_def send_of_def)
  then show ?thesis
    using s(1) t(1) [folded c2_def] sk assms(2)
    by (intro exI [of _ ?c1] exI [of _ c2] exI [of _ c3]) simp
qed

theorem keepalive_ping_witness:
  "\<exists>c1 c2 c3. ticks env0 (nat (keepalive (connect_info online0))) online0 = Some c1 \<and>
     connState c1 = MQTT_DATA \<and> trace c1 = trace online0 \<and>
     mqtt_timer env0 c1 = Some c2 \<and> connState c2 = MQTT_KEEPALIVE_SEND \<and>
     MQTT_Task env0 c2 = Some c3 \<and> connState c3 = MQTT_DATA \<and> keepAliveTick c3 = 0 \<and>
     trace c3 = trace online0 @ [Os_post, send_of online0 [0xC0, 0], Os_post]"
  by (rule keepalive_ping) (simp_all add: online0, simp_all add: env0_def)

section \<open>Reconnecting\<close>

lemma timer_reconnect:
  assumes "connState c = TCP_RECONNECT_REQ" and "timeoutCb c = None"
  shows "\<exists>s. mqtt_timer e c = Some
      (if reconnectTick c + 1 > MQTT_RECONNECT_TIMEOUT
       then emit Os_post (c\<lparr>reconnectTick := 0, connState := TCP_RECONNECT, sendTimeout := s\<rparr>)
       else c\<lparr>reconnectTick := reconnectTick c + 1, sendTimeout := s\<rparr>)"
  using assms
  by (intro exI [of _ "if sendTimeout c > 0 then sendTimeout c - 1 else sendTimeout c"])
    (simp add: mqtt_timer_def timer_state_def Let_def emit_def call_cb_def)

lemma ticks_reconnect:
  assumes "connState c = TCP_RECONNECT_REQ" and "timeoutCb c = None" and "reconnectTick c = 0"
    and "n \<le> 5"
  shows "\<exists>s. ticks e n c = Some (c\<lparr>reconnectTick := of_nat n, sendTimeout := s\<rparr>)"
  using assms(4)
proof (induction n)
  case 0
  show ?case using assms(3) by (intro exI [of _ "sendTimeout c"]) simp
next
  case (Suc n)
  then obtain s where s: "ticks e n c = Some (c\<lparr>reconnectTick := of_nat n, sendTimeout := s\<rparr>)" by auto
  have "n = 0 \<or> n = 1 \<or> n = 2 \<or> n = 3 \<or> n = 4" using Suc.prems by auto
  then have "\<not> MQTT_RECONNECT_TIMEOUT < (of_nat n + 1 :: u32)"
    by (auto simp: MQTT_RECONNECT_TIMEOUT_def)
  with s assms(1,2) timer_reconnect [of "c\<lparr>reconnectTick := of_nat n, sendTimeout := s\<rparr>" e]
  show ?case by (auto simp: add.commute)
qed

text \<open>The effect of \<open>MQTT_Connect\<close>: callbacks, timer, then the connection or the DNS request.\<close>

lemma MQTT_Connect_effects:
  assumes ok: "client_ok e c" and env: "env_ok e" and "pCon c = None"
  shows "\<exists>c'. MQTT_Connect e c = Some c' \<and> connState c' = TCP_CONNECTING \<and> pCon c' \<noteq> None \<and>
           trace c' = trace c @ [Regist_connectcb, Regist_reconcb, Timer_disarm, Timer_setfn,
             if fst (the (UTILS_StrToIP (the (host c)) [0, 0, 0, 0])) \<noteq> 0 then Tcp_connect
             else Gethostbyname (the (host c))]"
proof -
  obtain h where h: "host c = Some h" and "UTILS_StrToIP h [0, 0, 0, 0] \<noteq> None"
    using ok by (auto simp: client_ok_def host_ok_def)
  then obtain r ip where ip: "UTILS_StrToIP h [0, 0, 0, 0] = Some (r, ip)" by auto
  have z: "zalloc e n = Some (replicate n 0)" for n using env by (simp add: env_ok_def)
  show ?thesis using h ip z assms(3) by (simp add: MQTT_Connect_def Let_def emit_def)
qed

text \<open>What a connection attempt does, and the task in TCP\_RECONNECT.\<close>

definition connect_effects :: "MQTT_Client \<Rightarrow> effect list" where
  "connect_effects c =
     [Regist_connectcb, Regist_reconcb, Timer_disarm, Timer_setfn,
      if fst (the (UTILS_StrToIP (the (host c)) [0, 0, 0, 0])) \<noteq> 0 then Tcp_connect
      else Gethostbyname (the (host c))]"

lemma task_reconnects:
  assumes env: "env_ok e" and ok: "client_ok e c" and st: "connState c = TCP_RECONNECT" and "pCon c \<noteq> None"
  shows "\<exists>c'. MQTT_Task e c = Some c' \<and> client_ok e c' \<and> connState c' = TCP_CONNECTING \<and> pCon c' \<noteq> None \<and>
           trace c' = trace c @ Tcp_delete # connect_effects c"
proof -
  have ok': "client_ok e (mqtt_tcpclient_delete c)" using ok by (rule client_ok_tcp_delete)
  have "pCon (mqtt_tcpclient_delete c) = None" by (simp add: mqtt_tcpclient_delete_def emit_def)
  from MQTT_Connect_effects [OF ok' env this] obtain c' where
    c': "MQTT_Connect e (mqtt_tcpclient_delete c) = Some c'" "connState c' = TCP_CONNECTING" "pCon c' \<noteq> None"
    "trace c' = trace (mqtt_tcpclient_delete c) @ connect_effects (mqtt_tcpclient_delete c)"
    unfolding connect_effects_def by blast
  moreover have "client_ok e c'" using MQTT_Connect_ok [OF ok' env] c'(1) by simp
  ultimately show ?thesis
    using st assms(4) by (simp add: MQTT_Task_def connect_effects_def) (simp add: mqtt_tcpclient_delete_def emit_def)
qed

text \<open>Callbacks that do nothing, and what a call leaves in the trace.\<close>

definition quiet :: "env \<Rightarrow> nat option \<Rightarrow> bool" where
  "quiet e cb \<longleftrightarrow> (case cb of None \<Rightarrow> True | Some f \<Rightarrow> \<forall>c. run_cb e f c = Some c)"

definition called :: "client_cb \<Rightarrow> nat option \<Rightarrow> effect list" where
  "called name cb = (case cb of None \<Rightarrow> [] | Some _ \<Rightarrow> [Called name])"

lemma quiet_none [simp]: "quiet e None"
  by (simp add: quiet_def)

lemma called_none [simp]: "called name None = []"
  by (simp add: called_def)

lemma call_cb_quiet: "quiet e cb \<Longrightarrow> call_cb e name cb c = Some (c\<lparr>trace := trace c @ called name cb\<rparr>)"
  by (auto simp: quiet_def call_cb_def called_def emit_def split: option.splits)

text \<open>
  What a client keeps while its connection is made anew: the queue, the connect record, the host
  and the callbacks.
\<close>

definition kept :: "MQTT_Client \<Rightarrow>
    queue \<times> mqtt_connect_info \<times> u8 \<times> cstring option \<times> nat option \<times> nat option \<times> nat option \<times> nat option" where
  "kept c = (msgQueue c, connect_info c, security c, host c, connectedCb c, disconnectedCb c,
     publishedCb c, timeoutCb c)"

lemma kept_task_reconnects:
  "MQTT_Task e c = Some c' \<Longrightarrow> connState c = TCP_RECONNECT \<Longrightarrow> kept c' = kept c"
  by (auto simp: MQTT_Task_def MQTT_Connect_def mqtt_tcpclient_delete_def kept_def emit_def Let_def
      split: Option.bind_splits if_splits)

lemma ticks_ok:
  assumes "env_ok e" and "client_ok e c" and "ticks e n c = Some c'"
  shows "client_ok e c'"
  using assms(3)
proof (induction n arbitrary: c')
  case 0
  with assms(2) show ?case by simp
next
  case (Suc n)
  then show ?case using mqtt_timer_ok [OF assms(1)] by (fastforce split: Option.bind_splits)
qed

text \<open>
  A lost connection: six ticks without effect, then the old connection is deleted and a new one
  requested. The queue stays as it is.
\<close>

lemma lost_connection:
  assumes env: "env_ok e" and ok: "client_ok e c" and st: "connState c \<notin> {TCP_DISCONNECTING, MQTT_DELETING}"
    and pc: "pCon c \<noteq> None" and q: "quiet e (disconnectedCb c)" and tc: "timeoutCb c = None"
    and rt: "reconnectTick c = 0"
  shows "\<exists>c1 c2 c3 c4. mqtt_tcpclient_discon_cb e c = Some c1 \<and> connState c1 = TCP_RECONNECT_REQ \<and>
           ticks e 5 c1 = Some c2 \<and> connState c2 = TCP_RECONNECT_REQ \<and>
           trace c2 = trace c @ called DisconnectedCb (disconnectedCb c) @ [Os_post] \<and>
           mqtt_timer e c2 = Some c3 \<and> connState c3 = TCP_RECONNECT \<and>
           MQTT_Task e c3 = Some c4 \<and> connState c4 = TCP_CONNECTING \<and>
           trace c4 = trace c @ called DisconnectedCb (disconnectedCb c) @
             [Os_post, Os_post, Tcp_delete] @ connect_effects c \<and>
           client_ok e c4 \<and> pCon c4 \<noteq> None \<and> kept c4 = kept c"
proof -
  let ?tr = "trace c @ called DisconnectedCb (disconnectedCb c) @ [Os_post]"
  define c1 where "c1 = c\<lparr>connState := TCP_RECONNECT_REQ, trace := ?tr\<rparr>"
  have d: "mqtt_tcpclient_discon_cb e c = Some c1"
    using st q by (simp add: mqtt_tcpclient_discon_cb_def call_cb_quiet c1_def emit_def)
  have f1: "connState c1 = TCP_RECONNECT_REQ" "timeoutCb c1 = None" "reconnectTick c1 = 0"
    using tc rt by (simp_all add: c1_def)
  obtain s where "ticks e 5 c1 = Some (c1\<lparr>reconnectTick := of_nat 5, sendTimeout := s\<rparr>)"
    using ticks_reconnect [OF f1, of 5 e] by auto
  then have s: "ticks e 5 c1 = Some (c1\<lparr>reconnectTick := 5, sendTimeout := s\<rparr>)" by simp
  define c2 where "c2 = c1\<lparr>reconnectTick := 5, sendTimeout := s\<rparr>"
  have ok2: "client_ok e c2"
    by (rule ticks_ok [OF env _ s [folded c2_def]]) (use ok in \<open>simp add: c1_def\<close>)
  have f2: "connState c2 = TCP_RECONNECT_REQ" "timeoutCb c2 = None" "reconnectTick c2 + 1 > MQTT_RECONNECT_TIMEOUT"
    using f1 by (simp_all add: c2_def MQTT_RECONNECT_TIMEOUT_def)
  obtain s' where t: "mqtt_timer e c2 =
      Some (emit Os_post (c2\<lparr>reconnectTick := 0, connState := TCP_RECONNECT, sendTimeout := s'\<rparr>))"
    using timer_reconnect [OF f2(1,2), of e] f2(3) by auto
  define c3 where "c3 = emit Os_post (c2\<lparr>reconnectTick := 0, connState := TCP_RECONNECT, sendTimeout := s'\<rparr>)"
  have ok3: "client_ok e c3" using mqtt_timer_ok [OF env ok2] t by (simp add: c3_def)
  have f3: "connState c3 = TCP_RECONNECT" "trace c3 = ?tr @ [Os_post]" "pCon c3 \<noteq> None"
    "connect_effects c3 = connect_effects c" "kept c3 = kept c"
    using pc by (simp_all add: c3_def c2_def c1_def emit_def connect_effects_def kept_def)
  obtain c4 where c4: "MQTT_Task e c3 = Some c4" "client_ok e c4" "connState c4 = TCP_CONNECTING" "pCon c4 \<noteq> None"
    "trace c4 = trace c3 @ Tcp_delete # connect_effects c3"
    using task_reconnects [OF env ok3 f3(1,3)] by blast
  have "trace c2 = ?tr" by (simp add: c2_def c1_def)
  with d f1(1) s [folded c2_def] f2(1) t [folded c3_def] f3 c4 kept_task_reconnects [OF c4(1) f3(1)]
  show ?thesis by (intro exI [of _ c1] exI [of _ c2] exI [of _ c3] exI [of _ c4]) simp
qed

text \<open>
  A lost connection is taken up again: when the SDK reports the disconnection of a client
  that did not ask for it, the client does nothing for five ticks; at the sixth it asks the task
  to reconnect, and the task deletes the old connection and starts a new one, by address or by
  a DNS request for the host.
\<close>

lemma reconnects:
  assumes "env_ok e" and "client_ok e c" and "connState c \<notin> {TCP_DISCONNECTING, MQTT_DELETING}"
    and "pCon c \<noteq> None" and "disconnectedCb c = None" and "timeoutCb c = None" and "reconnectTick c = 0"
  shows "\<exists>c1 c2 c3 c4. mqtt_tcpclient_discon_cb e c = Some c1 \<and> connState c1 = TCP_RECONNECT_REQ \<and>
           ticks e 5 c1 = Some c2 \<and> connState c2 = TCP_RECONNECT_REQ \<and> trace c2 = trace c @ [Os_post] \<and>
           mqtt_timer e c2 = Some c3 \<and> connState c3 = TCP_RECONNECT \<and>
           MQTT_Task e c3 = Some c4 \<and> connState c4 = TCP_CONNECTING \<and>
           trace c4 = trace c @ [Os_post, Os_post, Tcp_delete, Regist_connectcb, Regist_reconcb,
             Timer_disarm, Timer_setfn,
             if fst (the (UTILS_StrToIP (the (host c)) [0, 0, 0, 0])) \<noteq> 0 then Tcp_connect
             else Gethostbyname (the (host c))]"
  using lost_connection [OF assms(1-4) _ assms(6,7)] unfolding assms(5) connect_effects_def
  by auto

definition joined0 :: MQTT_Client where
  "joined0 = online0\<lparr>pCon := Some \<lparr>proto_tcp = Some \<lparr>remote_port = 1883, local_port = 1024,
     remote_ip = [10, 0, 0, 1]\<rparr>\<rparr>, reconnectTick := 0\<rparr>"

lemma joined0: "client_ok env0 joined0" "connState joined0 = MQTT_DATA" "pCon joined0 \<noteq> None"
  "disconnectedCb joined0 = None" "timeoutCb joined0 = None" "reconnectTick joined0 = 0"
  using online0(1) client0
  by (simp_all add: joined0_def online0_def client_ok_def tcp_ok_def)

lemma reconnects_witness:
  "\<exists>c1 c2 c3 c4. mqtt_tcpclient_discon_cb env0 joined0 = Some c1 \<and> connState c1 = TCP_RECONNECT_REQ \<and>
     ticks env0 5 c1 = Some c2 \<and> connState c2 = TCP_RECONNECT_REQ \<and> trace c2 = trace joined0 @ [Os_post] \<and>
     mqtt_timer env0 c2 = Some c3 \<and> connState c3 = TCP_RECONNECT \<and>
     MQTT_Task env0 c3 = Some c4 \<and> connState c4 = TCP_CONNECTING \<and>
     trace c4 = trace joined0 @ [Os_post, Os_post, Tcp_delete, Regist_connectcb, Regist_reconcb,
       Timer_disarm, Timer_setfn,
       if fst (the (UTILS_StrToIP (the (host joined0)) [0, 0, 0, 0])) \<noteq> 0 then Tcp_connect
       else Gethostbyname (the (host joined0))]"
  by (rule reconnects) (simp_all add: joined0 env0)

section \<open>The handshake\<close>

text \<open>What CONNECT looks like: the packet of the connect record, or nothing when it does not fit.\<close>

definition connect_bytes :: "env \<Rightarrow> mqtt_connect_info \<Rightarrow> u8 list" where
  "connect_bytes e info =
     (if present (client_id info) \<and> 3 + length (connect_body info) \<le> MQTT_BUF_SIZE e
      then packet 0x10 (connect_body info) else [])"

lemma no_packet_bytes: "msg_length (message k) = 0 \<Longrightarrow> packet_bytes k = []"
  by (simp add: packet_bytes_def split: option.split)

lemma connect_built:
  assumes ok: "client_ok e c" and env: "env_bounds e"
  defines "st \<equiv> mqtt_state c"
  shows "\<exists>k. mqtt_msg_connect (mqtt_msg_init (buffer (conn st)) (word_of_int (out_buffer_length st))) (connect_info c)
             = Some k \<and> message_inside k \<and> packet_bytes k = connect_bytes e (connect_info c)"
proof -
  let ?k0 = "mqtt_msg_init (buffer (conn st)) (word_of_int (out_buffer_length st))"
  have st: "state_ok e st" "will_ok (connect_info c)" using ok by (simp_all add: client_ok_def st_def)
  have "MQTT_BUF_SIZE e < 65536" using env by (simp add: env_bounds_def)
  then have "unat (word_of_int (int (MQTT_BUF_SIZE e)) :: u16) = MQTT_BUF_SIZE e"
    by (intro unat_u16_of_int) simp_all
  then have k0: "small_conn ?k0" "length (buffer ?k0) = MQTT_BUF_SIZE e"
    using st(1) env
    by (simp_all add: state_ok_def small_conn_def conn_ok_def mqtt_msg_init_def env_bounds_def)
  have hb: "header_byte (msg_type CONNECT) 0 0 0 = 0x10" by code_simp
  show ?thesis
  proof (cases "present (client_id (connect_info c))")
    case True
    from mqtt_msg_connect_built [OF k0(1) True, unfolded hb] st(2) k0(2) show ?thesis
      by (auto simp: will_ok_def built_def connect_bytes_def True no_packet_bytes)
  next
    case False
    have "conn_ok ?k0" using k0(1) by (simp add: small_conn_def)
    from mqtt_msg_connect_no_id [OF this False] show ?thesis
      by (auto simp: failed_def connect_bytes_def False no_packet_bytes)
  qed
qed

lemma connect_cb_runs:
  assumes ok: "client_ok e c" and env: "env_bounds e"
  defines "bytes \<equiv> connect_bytes e (connect_info c)"
  shows "\<exists>c' b. mqtt_tcpclient_connect_cb c = Some c' \<and> connState c' = MQTT_CONNECT_SENDING \<and>
           sendTimeout c' = MQTT_SEND_TIMOUT \<and> connectedCb c' = connectedCb c \<and>
           pending_msg_type (mqtt_state c') = hdr_type b \<and> (bytes \<noteq> [] \<longrightarrow> b = hd bytes) \<and>
           trace c' = trace c @ [Regist_disconcb, Regist_recvcb, Regist_sentcb, send_of c bytes, Os_post]"
proof -
  let ?c0 = "emit Regist_sentcb (emit Regist_recvcb (emit Regist_disconcb c))"
  have ok0: "client_ok e ?c0" and ci: "connect_info ?c0 = connect_info c" using ok by (simp_all add: emit_def)
  let ?st = "mqtt_state ?c0"
  have st: "state_ok e ?st" using ok0 by (simp add: client_ok_def)
  obtain k where k: "mqtt_msg_connect (mqtt_msg_init (buffer (conn ?st)) (word_of_int (out_buffer_length ?st)))
      (connect_info c) = Some k" "message_inside k" "packet_bytes k = bytes"
    using connect_built [OF ok0 env] by (auto simp: ci bytes_def)
  let ?c1 = "set_conn k ?c0"
  have "has_outbound ?c1" using k(2) by (rule set_conn_outbound)
  moreover have "conn (mqtt_state ?c1) = k" by (simp add: set_conn_def)
  ultimately obtain data mid where d: "outbound_data ?c1 = Some data"
    "unat (outbound_length ?c1) \<le> length data" "take (unat (outbound_length ?c1)) data = bytes"
    "mqtt_get_id data (outbound_length ?c1) = Some mid" "mqtt_get_type data = Some (hdr_type (hd data))"
    using outbound_decoded [of ?c1] k(3) by auto
  have hd: "bytes \<noteq> [] \<longrightarrow> hd data = hd bytes"
    unfolding d(3) [symmetric] by (cases data; cases "unat (outbound_length ?c1)") simp_all
  have ob: "(if out_buffer ?st then buffer (conn ?st) else []) = buffer (conn ?st)"
    and cis: "connect_info_set ?st" using st by (simp_all add: state_ok_def)
  define c' where "c' = emit Os_post ((clear_outbound (emit (send_of c bytes)
      ((set_pending (hdr_type (hd data)) mid ?c1)\<lparr>sendTimeout := MQTT_SEND_TIMOUT\<rparr>)))
    \<lparr>connState := MQTT_CONNECT_SENDING\<rparr>)"
  have "mqtt_tcpclient_connect_cb c = Some c'"
    unfolding c'_def using k(1) cis d
    by (simp add: mqtt_tcpclient_connect_cb_def Let_def ob ci tcp_send_ok send_of_def)
      (simp add: set_pending_def set_conn_def emit_def)
  with hd show ?thesis
    by (intro exI [of _ c'] exI [of _ "hd data"])
      (simp add: c'_def emit_def clear_outbound_def set_pending_def set_conn_def)
qed

lemma connect_cb_sends:
  assumes "client_ok e c" and "env_bounds e" and "present (client_id (connect_info c))"
    and "3 + length (connect_body (connect_info c)) \<le> MQTT_BUF_SIZE e"
  shows "\<exists>c'. mqtt_tcpclient_connect_cb c = Some c' \<and> connState c' = MQTT_CONNECT_SENDING \<and>
           sendTimeout c' = MQTT_SEND_TIMOUT \<and> connectedCb c' = connectedCb c \<and>
           pending_msg_type (mqtt_state c') = msg_type CONNECT \<and>
           trace c' = trace c @ [Regist_disconcb, Regist_recvcb, Regist_sentcb,
             send_of c (packet 0x10 (connect_body (connect_info c))), Os_post]"
proof -
  have b: "connect_bytes e (connect_info c) = packet 0x10 (connect_body (connect_info c))"
    using assms(3,4) by (simp add: connect_bytes_def)
  have ty: "hdr_type 0x10 = msg_type CONNECT" by code_simp
  have hd: "hd (packet 0x10 x) = 0x10" "packet 0x10 x \<noteq> []" for x by (simp_all add: packet_def)
  from connect_cb_runs [OF assms(1,2)] hd ty show ?thesis unfolding b by metis
qed

lemma connack_connects:
  assumes ok: "client_ok e c" and env: "env_bounds e" and "connState c = MQTT_CONNECT_SENDING"
    and "pending_msg_type (mqtt_state c) = msg_type CONNECT" and "connectedCb c = None"
    and "4 < MQTT_BUF_SIZE e"
  shows "\<exists>c'. mqtt_tcpclient_recv e 1 [0x20, 2, flags, rc] 4 c = Some (Some c') \<and>
           connState c' = MQTT_DATA \<and> trace c' = trace c @ [Os_post]"
proof -
  let ?c = "c\<lparr>keepAliveTick := 0\<rparr>"
  have ok': "client_ok e ?c" using ok by simp
  have pd: "[0x20, 2, flags, rc] = packet 0x20 [flags, rc] @ []"
    by (simp add: packet_def varint_short)
  have ty: "hdr_type 0x20 = msg_type CONNACK" by code_simp
  from recv_packet_dispatch [OF ok' env pd, of 4] assms(6) obtain inb m where
    "recv_packet e ?c [0x20, 2, flags, rc] 4 =
      recv_dispatch e (?c\<lparr>mqtt_state := (mqtt_state ?c)\<lparr>in_buffer := Some inb\<rparr>\<rparr>) [0x20, 2, flags, rc] inb 4
        (hdr_type 0x20) (hdr_qos 0x20) m"
    by auto
  then show ?thesis
    using assms(3-5) by (simp add: mqtt_tcpclient_recv_def recv_dispatch_def ty call_cb_def emit_def)
qed

text \<open>
  The handshake: once the TCP connection is up, the client registers its callbacks, sends
  exactly the CONNECT packet of its connect record and waits for the answer; then any CONNACK
  makes it connected, whatever its return code says - also 1 to 5, with which the broker refuses
  the connection.
\<close>

lemma handshake:
  assumes "client_ok e c" and "env_bounds e" and "present (client_id (connect_info c))"
    and "3 + length (connect_body (connect_info c)) \<le> MQTT_BUF_SIZE e"
    and "connectedCb c = None" and "4 < MQTT_BUF_SIZE e"
  shows "\<exists>c1 c2. mqtt_tcpclient_connect_cb c = Some c1 \<and> connState c1 = MQTT_CONNECT_SENDING \<and>
           trace c1 = trace c @ [Regist_disconcb, Regist_recvcb, Regist_sentcb,
             send_of c (packet 0x10 (connect_body (connect_info c))), Os_post] \<and>
           mqtt_tcpclient_recv e 1 [0x20, 2, flags, rc] 4 c1 = Some (Some c2) \<and>
           connState c2 = MQTT_DATA \<and> trace c2 = trace c1 @ [Os_post]"
proof -
  obtain c1 where c1: "mqtt_tcpclient_connect_cb c = Some c1" "connState c1 = MQTT_CONNECT_SENDING"
    "pending_msg_type (mqtt_state c1) = msg_type CONNECT" "connectedCb c1 = None"
    "trace c1 = trace c @ [Regist_disconcb, Regist_recvcb, Regist_sentcb,
       send_of c (packet 0x10 (connect_body (connect_info c))), Os_post]"
    using connect_cb_sends [OF assms(1-4)] assms(5) by auto
  have "client_ok e c1" using mqtt_tcpclient_connect_cb_ok [OF assms(1,2)] c1(1) by simp
  from connack_connects [OF this assms(2) c1(2-4) assms(6), of flags rc] c1 show ?thesis by blast
qed

lemma handshake_witness:
  "\<exists>c1 c2. mqtt_tcpclient_connect_cb client0 = Some c1 \<and> connState c1 = MQTT_CONNECT_SENDING \<and>
     trace c1 = trace client0 @ [Regist_disconcb, Regist_recvcb, Regist_sentcb,
       send_of client0 (packet 0x10 (connect_body (connect_info client0))), Os_post] \<and>
     mqtt_tcpclient_recv env0 1 [0x20, 2, 0, 5] 4 c1 = Some (Some c2) \<and>
     connState c2 = MQTT_DATA \<and> trace c2 = trace c1 @ [Os_post]"
proof (rule handshake)
  show "present (client_id (connect_info client0))" by code_simp
  show "3 + length (connect_body (connect_info client0)) \<le> MQTT_BUF_SIZE env0" by code_simp
qed (simp_all add: client0, simp_all add: env0_def env_bounds_def)

section \<open>A subscription that does not fit\<close>

text \<open>
  Subscribing to a topic that does not fit the output buffer is not refused:
  \<open>mqtt_msg_subscribe\<close> reports length 0, which \<open>MQTT_Subscribe\<close> does not check, so it queues an
  empty message and returns TRUE.
\<close>

lemma subscribe_too_long:
  assumes ok: "client_ok e c" and env: "env_bounds e" and "topic \<noteq> []"
    and big: "MQTT_BUF_SIZE e < 8 + length topic" and room: "2 \<le> queue_free (msgQueue c)"
  shows "\<exists>c'. MQTT_Subscribe e (Some topic) qos c = Some (True, c') \<and>
           queue_msgs (msgQueue c') = queue_msgs (msgQueue c) @ [[]]"
proof -
  let ?k = "conn (mqtt_state c)"
  have sm: "small_conn ?k" by (rule client_conn [OF ok])
  have len: "length (buffer ?k) = MQTT_BUF_SIZE e" using ok by (simp add: client_ok_def state_ok_def)
  obtain k mid where k: "mqtt_msg_subscribe ?k (Some topic) (uint qos)
      (pending_msg_id (mqtt_state c)) = Some (k, mid)" and
    b: "built ?k (subscribe_body (used_id 0 ?k) topic @ [word_of_int (uint qos)])
      (header_byte (msg_type SUBSCRIBE) 0 1 0) k"
    using mqtt_msg_subscribe_built [OF sm assms(3), of "uint qos" "pending_msg_id (mqtt_state c)"] by blast
  let ?c1 = "set_pending_id mid (set_conn k c)"
  have ok1: "client_ok e ?c1" "has_outbound ?c1"
    using set_conn_built [OF ok built_conn_step [OF sm b]] by simp_all
  have bytes: "packet_bytes k = []"
    using b big len by (auto simp: built_def subscribe_body_def packet_bytes_def split: option.splits)
  have f1: "msgQueue ?c1 = msgQueue c" "conn (mqtt_state ?c1) = k"
    by (simp_all add: set_pending_id_def set_conn_def)
  have "length (frame []) = 2" by (simp add: frame_def)
  with queue_or_evict_ok(2) [OF ok1(1) env ok1(2)] room bytes obtain q where
    "queue_or_evict e ?c1 = Some (True, emit Os_post (?c1\<lparr>msgQueue := q\<rparr>))"
    "queue_msgs q = queue_msgs (msgQueue c) @ [[]]"
    by (auto simp: f1)
  then show ?thesis using k by (auto simp: MQTT_Subscribe_def emit_def)
qed

lemma subscribe_too_long_witness:
  "\<exists>c'. MQTT_Subscribe env0 (Some (replicate 57 0x74)) 1 online0 = Some (True, c') \<and>
     queue_msgs (msgQueue c') = queue_msgs (msgQueue online0) @ [[]]"
proof (rule subscribe_too_long)
  show "2 \<le> queue_free (msgQueue online0)" by code_simp
qed (simp_all add: online0, simp_all add: env0_def env_bounds_def)

end
