(* ===== verification/Config.thy ===== *)
theory Config
  imports Prelude
begin

text \<open>
  The stored configuration of \<open>src/modules/config.c\<close> and \<open>config.h\<close>. The flash chip and its
  driver are a parameter: the three operations the code uses, with the laws of NOR flash
  (\<open>flash_laws\<close>). A configuration is written to the sector that is not in use, and then the
  flag sector switches over: the last section shows what a loss of power in between leaves.
\<close>

section \<open>Data (config.h)\<close>

text \<open>
  Arrays are their bytes; a \<open>double\<close> is its eight bytes in memory. \<open>cfg_pad\<close> and \<open>cfg_pad2\<close>
  are the padding that the compiler inserts before the first double and at the end.
\<close>

record SYSCFG =
  cfg_holder :: u32
  device_id :: "u8 list"
  sta_ssid :: "u8 list"
  sta_pwd :: "u8 list"
  sta_type :: u32
  mqtt_host :: "u8 list"
  mqtt_port :: u32
  mqtt_user :: "u8 list"
  mqtt_pass :: "u8 list"
  mqtt_keepalive :: u32
  cfg_security :: u8
  mqtt_topicroot :: "u8 list"
  mqtt_topicadc0 :: "u8 list"
  cfg_pad :: "u8 list"
  mqtt_muladc0 :: "u8 list"
  mqtt_topicadc1 :: "u8 list"
  mqtt_muladc1 :: "u8 list"
  mqtt_topicadc2 :: "u8 list"
  mqtt_muladc2 :: "u8 list"
  mqtt_topicadc3 :: "u8 list"
  mqtt_muladc3 :: "u8 list"
  bootToConfig :: u8
  cfg_pad2 :: "u8 list"

record SAVE_FLAG =
  flag :: u8
  pad :: "u8 list"

text \<open>The memory images that are written to and read from flash.\<close>

definition cfg_sizes :: "nat list" where
  "cfg_sizes = [4, 32, 64, 64, 4, 64, 4, 32, 32, 4, 1, 64, 32, 7, 8, 32, 8, 32, 8, 32, 8, 1, 7]"

definition cfg_fields :: "SYSCFG \<Rightarrow> u8 list list" where
  "cfg_fields c =
     [le32 (cfg_holder c), device_id c, sta_ssid c, sta_pwd c, le32 (sta_type c), mqtt_host c,
      le32 (mqtt_port c), mqtt_user c, mqtt_pass c, le32 (mqtt_keepalive c), [cfg_security c],
      mqtt_topicroot c, mqtt_topicadc0 c, cfg_pad c, mqtt_muladc0 c, mqtt_topicadc1 c,
      mqtt_muladc1 c, mqtt_topicadc2 c, mqtt_muladc2 c, mqtt_topicadc3 c, mqtt_muladc3 c,
      [bootToConfig c], cfg_pad2 c]"

definition cfg_image :: "SYSCFG \<Rightarrow> u8 list" where
  "cfg_image c = concat (cfg_fields c)"

definition of_cfg_image :: "u8 list \<Rightarrow> SYSCFG" where
  "of_cfg_image b =
     (let f = (\<lambda>i. chop cfg_sizes b ! i)
      in \<lparr>cfg_holder = of_le32 (f 0), device_id = f 1, sta_ssid = f 2, sta_pwd = f 3,
          sta_type = of_le32 (f 4), mqtt_host = f 5, mqtt_port = of_le32 (f 6), mqtt_user = f 7,
          mqtt_pass = f 8, mqtt_keepalive = of_le32 (f 9), cfg_security = hd (f 10),
          mqtt_topicroot = f 11, mqtt_topicadc0 = f 12, cfg_pad = f 13, mqtt_muladc0 = f 14,
          mqtt_topicadc1 = f 15, mqtt_muladc1 = f 16, mqtt_topicadc2 = f 17, mqtt_muladc2 = f 18,
          mqtt_topicadc3 = f 19, mqtt_muladc3 = f 20, bootToConfig = hd (f 21), cfg_pad2 = f 22\<rparr>)"

definition flag_image :: "SAVE_FLAG \<Rightarrow> u8 list" where
  "flag_image s = flag s # pad s"

definition of_flag_image :: "u8 list \<Rightarrow> SAVE_FLAG" where
  "of_flag_image b = \<lparr>flag = hd b, pad = tl b\<rparr>"

section \<open>The flash chip\<close>

record 'f flash_dev =
  spi_flash_read :: "'f \<Rightarrow> nat \<Rightarrow> nat \<Rightarrow> u8 list"
  spi_flash_erase_sector :: "'f \<Rightarrow> nat \<Rightarrow> 'f"
  spi_flash_write :: "'f \<Rightarrow> nat \<Rightarrow> u8 list \<Rightarrow> 'f"

definition SPI_FLASH_SEC_SIZE :: nat where "SPI_FLASH_SEC_SIZE = 4096"

definition CFG_LOCATION :: nat where "CFG_LOCATION = 0x79"

definition CFG_HOLDER :: u32 where "CFG_HOLDER = 2"

definition STA_TYPE :: u32 where "STA_TYPE = 3"

definition DEFAULT_SECURITY :: u8 where "DEFAULT_SECURITY = 0"

definition sizeof_SYSCFG :: nat where "sizeof_SYSCFG = 544"

definition sizeof_SAVE_FLAG :: nat where "sizeof_SAVE_FLAG = 4"

definition cfg_sector :: "nat \<Rightarrow> nat" where
  "cfg_sector i = CFG_LOCATION + i"

definition sector :: "nat \<Rightarrow> nat" where
  "sector i = cfg_sector i * SPI_FLASH_SEC_SIZE"

datatype flash_op = Erase nat | Write nat "u8 list"

fun run_op :: "'f flash_dev \<Rightarrow> flash_op \<Rightarrow> 'f \<Rightarrow> 'f" where
  "run_op d (Erase s) f = spi_flash_erase_sector d f s"
| "run_op d (Write a bs) f = spi_flash_write d f a bs"

section \<open>Operations of config.c\<close>

record 'f cfg_state =
  sysCfg :: SYSCFG
  saveFlag :: SAVE_FLAG
  flash :: 'f

text \<open>The flash commands of the two branches of \<open>CFG_Save\<close>, in their order.\<close>

definition save_ops :: "SAVE_FLAG \<Rightarrow> SYSCFG \<Rightarrow> flash_op list" where
  "save_ops sf cfg =
     (if flag sf = 0 then
        [Erase (cfg_sector 1), Write (sector 1) (cfg_image cfg),
         Erase (cfg_sector 3), Write (sector 3) (flag_image (sf\<lparr>flag := 1\<rparr>))]
      else
        [Erase (cfg_sector 0), Write (sector 0) (cfg_image cfg),
         Erase (cfg_sector 3), Write (sector 3) (flag_image (sf\<lparr>flag := 0\<rparr>))])"

definition CFG_Save :: "'f flash_dev \<Rightarrow> 'f cfg_state \<Rightarrow> 'f cfg_state" where
  "CFG_Save d s =
     (let sf = of_flag_image (spi_flash_read d (flash s) (sector 3) sizeof_SAVE_FLAG)
      in s\<lparr>saveFlag := sf\<lparr>flag := (if flag sf = 0 then 1 else 0)\<rparr>,
            flash := fold (run_op d) (save_ops sf (sysCfg s)) (flash s)\<rparr>)"

text \<open>\<open>os_sprintf\<close> of a string into an array: undefined when it does not fit.\<close>

definition sprintf_into :: "u8 list \<Rightarrow> cstring \<Rightarrow> u8 list option" where
  "sprintf_into arr str = wr_block arr 0 (str @ [0])"

text \<open>
  \<open>CFG_Load\<close>; \<open>client_name\<close> is the text of the format \<open>MQTT_CLIENT_ID\<close> with the chip id.
  The defaults are written back to flash.
\<close>

definition CFG_Load :: "'f flash_dev \<Rightarrow> cstring \<Rightarrow> 'f cfg_state \<Rightarrow> 'f cfg_state option" where
  "CFG_Load d client_name s =
     do {
       let sf = of_flag_image (spi_flash_read d (flash s) (sector 3) sizeof_SAVE_FLAG);
       let cfg = of_cfg_image (spi_flash_read d (flash s)
                   (if flag sf = 0 then sector 0 else sector 1) sizeof_SYSCFG);
       let s = s\<lparr>saveFlag := sf, sysCfg := cfg\<rparr>;
       (if cfg_holder (sysCfg s) \<noteq> CFG_HOLDER then do {
          let cfg = (of_cfg_image (replicate sizeof_SYSCFG 0))\<lparr>cfg_holder := CFG_HOLDER\<rparr>;
          name \<leftarrow> sprintf_into (device_id cfg) client_name;
          name \<leftarrow> wr name (32 - 1) 0;
          let cfg = cfg\<lparr>device_id := name, sta_type := STA_TYPE, cfg_security := DEFAULT_SECURITY\<rparr>;
          Some (CFG_Save d (s\<lparr>sysCfg := cfg\<rparr>))
        } else Some s)
     }"

section \<open>Laws of the flash chip\<close>

definition inside :: "nat \<Rightarrow> nat \<Rightarrow> nat \<Rightarrow> bool" where
  "inside s a n \<longleftrightarrow> s * SPI_FLASH_SEC_SIZE \<le> a \<and> a + n \<le> (s + 1) * SPI_FLASH_SEC_SIZE"

definition flash_laws :: "'f flash_dev \<Rightarrow> bool" where
  "flash_laws d \<longleftrightarrow>
     (\<forall>f a n. length (spi_flash_read d f a n) = n) \<and>
     (\<forall>f s a n. inside s a n \<longrightarrow>
        spi_flash_read d (spi_flash_erase_sector d f s) a n = replicate n 0xFF) \<and>
     (\<forall>f s t a n. inside t a n \<and> s \<noteq> t \<longrightarrow>
        spi_flash_read d (spi_flash_erase_sector d f s) a n = spi_flash_read d f a n) \<and>
     (\<forall>f a bs. spi_flash_read d f a (length bs) = replicate (length bs) 0xFF \<longrightarrow>
        spi_flash_read d (spi_flash_write d f a bs) a (length bs) = bs) \<and>
     (\<forall>f a bs b n. b + n \<le> a \<or> a + length bs \<le> b \<longrightarrow>
        spi_flash_read d (spi_flash_write d f a bs) b n = spi_flash_read d f b n)"

text \<open>A chip that satisfies the laws: writing can only clear bits, erasing sets them.\<close>

definition nor_flash :: "(nat \<Rightarrow> u8) flash_dev" where
  "nor_flash =
     \<lparr>spi_flash_read = (\<lambda>f a n. map f [a..<a + n]),
      spi_flash_erase_sector = (\<lambda>f s x. if x div SPI_FLASH_SEC_SIZE = s then 0xFF else f x),
      spi_flash_write = (\<lambda>f a bs x. if a \<le> x \<and> x < a + length bs then f x AND bs ! (x - a) else f x)\<rparr>"

lemma nor_flash_laws: "flash_laws nor_flash"
proof -
  have sec: "x div SPI_FLASH_SEC_SIZE = s" if "inside s a n" "a \<le> x" "x < a + n" for s a n x
    using that by (simp add: inside_def SPI_FLASH_SEC_SIZE_def div_nat_eqI)
  have "map f [a..<a + n] = replicate n v" if "\<And>x. a \<le> x \<Longrightarrow> x < a + n \<Longrightarrow> f x = v" for f a n and v :: u8
    using that by (intro nth_equalityI) auto
  moreover have "map (\<lambda>x. if a \<le> x \<and> x < a + length bs then f x AND bs ! (x - a) else f x) [a..<a + length bs] = bs"
    if "map f [a..<a + length bs] = replicate (length bs) 0xFF" for f :: "nat \<Rightarrow> u8" and a bs
  proof (rule nth_equalityI)
    fix i
    assume "i < length (map (\<lambda>x. if a \<le> x \<and> x < a + length bs then f x AND bs ! (x - a) else f x) [a..<a + length bs])"
    then have i: "i < length bs" by simp
    then have "map f [a..<a + length bs] ! i = 0xFF" using that by simp
    then have "f (a + i) = -1" using i by simp
    with i show "map (\<lambda>x. if a \<le> x \<and> x < a + length bs then f x AND bs ! (x - a) else f x) [a..<a + length bs] ! i = bs ! i"
      by simp
  qed simp
  ultimately show ?thesis
    using sec by (auto simp: flash_laws_def nor_flash_def)
qed

section \<open>Saving and loading\<close>

definition cfg_wf :: "SYSCFG \<Rightarrow> bool" where
  "cfg_wf c \<longleftrightarrow> map length (cfg_fields c) = cfg_sizes"

lemma of_cfg_image_image: "cfg_wf c \<Longrightarrow> of_cfg_image (cfg_image c) = c"
proof -
  assume "cfg_wf c"
  then have "chop cfg_sizes (cfg_image c) = cfg_fields c"
    unfolding cfg_image_def by (intro chop_concat) (simp add: cfg_wf_def)
  then show ?thesis by (simp add: of_cfg_image_def Let_def cfg_fields_def)
qed

lemma length_cfg_image: "cfg_wf c \<Longrightarrow> length (cfg_image c) = sizeof_SYSCFG"
proof -
  assume "cfg_wf c"
  then have "length (cfg_image c) = sum_list cfg_sizes"
    by (simp only: cfg_image_def length_concat cfg_wf_def)
  then show ?thesis by (simp add: cfg_sizes_def sizeof_SYSCFG_def)
qed

lemma of_flag_image_image [simp]: "of_flag_image (flag_image s) = s"
  by (simp add: of_flag_image_def flag_image_def)

lemma length_flag_image: "length b = 4 \<Longrightarrow> length (flag_image (of_flag_image b\<lparr>flag := v\<rparr>)) = 4"
  by (cases b) (simp_all add: flag_image_def of_flag_image_def)

text \<open>Which configuration a flash content stands for: the one \<open>CFG_Load\<close> reads.\<close>

definition stored_flag :: "'f flash_dev \<Rightarrow> 'f \<Rightarrow> u8" where
  "stored_flag d f = flag (of_flag_image (spi_flash_read d f (sector 3) sizeof_SAVE_FLAG))"

definition stored_slot :: "'f flash_dev \<Rightarrow> 'f \<Rightarrow> nat \<Rightarrow> SYSCFG" where
  "stored_slot d f i = of_cfg_image (spi_flash_read d f (sector i) sizeof_SYSCFG)"

definition stored :: "'f flash_dev \<Rightarrow> 'f \<Rightarrow> SYSCFG" where
  "stored d f = (if stored_flag d f = 0 then stored_slot d f 0 else stored_slot d f 1)"

lemma cfg_sector_eq [simp]: "cfg_sector i = cfg_sector j \<longleftrightarrow> i = j"
  by (simp add: cfg_sector_def)

lemma inside_sectors: "n \<le> 4096 \<Longrightarrow> inside (cfg_sector i) (sector i) n"
  by (simp add: inside_def sector_def SPI_FLASH_SEC_SIZE_def)

lemma CFG_Load_stored:
  assumes "cfg_holder (stored d (flash s)) = CFG_HOLDER"
  shows "\<exists>s'. CFG_Load d name s = Some s' \<and> sysCfg s' = stored d (flash s) \<and> flash s' = flash s"
  using assms
  by (auto simp: CFG_Load_def Let_def stored_def stored_slot_def stored_flag_def split: if_splits)

lemma cfg_wf_default:
  "length name = 32 \<Longrightarrow>
     cfg_wf ((of_cfg_image (replicate sizeof_SYSCFG 0))\<lparr>cfg_holder := h, device_id := name,
               sta_type := t, cfg_security := sc\<rparr>)"
  by (simp add: cfg_wf_def cfg_fields_def of_cfg_image_def Let_def cfg_sizes_def sizeof_SYSCFG_def)

section \<open>The interface of the chip\<close>

text \<open>
  What saving and loading rely on, as a locale: everything about \<open>CFG_Save\<close> and \<open>CFG_Load\<close> that
  depends on the chip is proved from these five laws.
\<close>

locale flash_chip =
  fixes d :: "'f flash_dev"
  assumes read_length [simp]: "length (spi_flash_read d f a n) = n"
    and read_erased: "inside s a n \<Longrightarrow>
      spi_flash_read d (spi_flash_erase_sector d f s) a n = replicate n 0xFF"
    and read_erased_other: "inside t a n \<Longrightarrow> s \<noteq> t \<Longrightarrow>
      spi_flash_read d (spi_flash_erase_sector d f s) a n = spi_flash_read d f a n"
    and read_written: "spi_flash_read d f a (length bs) = replicate (length bs) 0xFF \<Longrightarrow>
      spi_flash_read d (spi_flash_write d f a bs) a (length bs) = bs"
    and read_written_other: "b + n \<le> a \<or> a + length bs \<le> b \<Longrightarrow>
      spi_flash_read d (spi_flash_write d f a bs) b n = spi_flash_read d f b n"
begin

lemma erase_other:
  "i \<noteq> j \<Longrightarrow> n \<le> 4096 \<Longrightarrow>
     spi_flash_read d (spi_flash_erase_sector d f (cfg_sector i)) (sector j) n = spi_flash_read d f (sector j) n"
  by (simp add: read_erased_other [OF inside_sectors])

lemma erase_same:
  "n \<le> 4096 \<Longrightarrow>
     spi_flash_read d (spi_flash_erase_sector d f (cfg_sector i)) (sector i) n = replicate n 0xFF"
  by (simp add: read_erased [OF inside_sectors])

lemma write_other:
  assumes "i \<noteq> j" and "length bs \<le> 4096" and "n \<le> 4096"
  shows "spi_flash_read d (spi_flash_write d f (sector i) bs) (sector j) n = spi_flash_read d f (sector j) n"
proof (rule read_written_other)
  show "sector j + n \<le> sector i \<or> sector i + length bs \<le> sector j"
    using assms by (cases "j < i") (auto simp: sector_def cfg_sector_def SPI_FLASH_SEC_SIZE_def)
qed

lemma write_same:
  assumes "length bs \<le> 4096" and "n = length bs"
  shows "spi_flash_read d (spi_flash_write d (spi_flash_erase_sector d f (cfg_sector i)) (sector i) bs)
           (sector i) n = bs"
  unfolding assms(2) by (rule read_written) (rule erase_same [OF assms(1)])

lemmas slot_simps = erase_other erase_same write_other write_same sizeof_SYSCFG_def sizeof_SAVE_FLAG_def
  stored_flag_def stored_slot_def

text \<open>
  The first two commands of \<open>CFG_Save\<close> fill slot \<open>w\<close> and leave flag and other slot alone; the
  last two change the flag alone. An erased flag sector reads as a flag that is not 0.
\<close>

lemma replace_slot:
  assumes wf: "cfg_wf cfg" and w: "w < 2"
  defines "f1 \<equiv> \<lambda>f. spi_flash_erase_sector d f (cfg_sector w)"
    and "f2 \<equiv> \<lambda>f. spi_flash_write d (spi_flash_erase_sector d f (cfg_sector w)) (sector w) (cfg_image cfg)"
  shows "stored_flag d (f1 f) = stored_flag d f" "stored_flag d (f2 f) = stored_flag d f"
    and "stored_slot d (f1 f) (1 - w) = stored_slot d f (1 - w)"
    and "stored_slot d (f2 f) (1 - w) = stored_slot d f (1 - w)" "stored_slot d (f2 f) w = cfg"
proof -
  have "1 - w \<noteq> w" "w \<noteq> 1 - w" "1 - w \<noteq> 3" "w \<noteq> 3" using w by presburger+
  note this length_cfg_image [OF wf] of_cfg_image_image [OF wf]
  then show "stored_flag d (f1 f) = stored_flag d f" "stored_flag d (f2 f) = stored_flag d f"
    and "stored_slot d (f1 f) (1 - w) = stored_slot d f (1 - w)"
    and "stored_slot d (f2 f) (1 - w) = stored_slot d f (1 - w)" "stored_slot d (f2 f) w = cfg"
    by (simp_all add: f1_def f2_def slot_simps)
qed

lemma replace_flag:
  fixes sf :: SAVE_FLAG
  defines "f3 \<equiv> \<lambda>f. spi_flash_erase_sector d f (cfg_sector 3)"
    and "f4 \<equiv> \<lambda>f. spi_flash_write d (spi_flash_erase_sector d f (cfg_sector 3)) (sector 3) (flag_image sf)"
  assumes "length (flag_image sf) = 4"
  shows "stored_flag d (f3 f) \<noteq> 0" "stored_flag d (f4 f) = flag sf"
    and "i < 2 \<Longrightarrow> stored_slot d (f3 f) i = stored_slot d f i"
    and "i < 2 \<Longrightarrow> stored_slot d (f4 f) i = stored_slot d f i"
  using assms(3) by (simp_all add: f3_def f4_def slot_simps) (simp add: of_flag_image_def hd_replicate)

lemma save_prefix:
  assumes wf: "cfg_wf cfg" and w: "w < 2"
    and used: "stored_flag d f = 0 \<longleftrightarrow> w = 1" and v: "flag sf = 0 \<longleftrightarrow> w = 0"
    and sl: "length (flag_image sf) = 4"
    and ops: "ops = [Erase (cfg_sector w), Write (sector w) (cfg_image cfg),
                     Erase (cfg_sector 3), Write (sector 3) (flag_image sf)]"
  shows "stored d (fold (run_op d) (take k ops) f) = (if 4 \<le> k \<or> k = 3 \<and> w = 1 then cfg else stored d f)"
proof -
  note slot = replace_slot [OF wf w]
  note flg = replace_flag [OF sl]
  have w01: "w = 0 \<or> w = 1" using w by auto
  consider "k = 0" | "k = 1" | "k = 2" | "k = 3" | j where "k = Suc (Suc (Suc (Suc j)))"
    by (metis One_nat_def numeral_2_eq_2 numeral_3_eq_3 old.nat.exhaust)
  then show ?thesis
    using w01 used v slot flg
    by cases (auto simp: ops numeral_2_eq_2 numeral_3_eq_3 stored_def)
qed

lemma save_prefixes:
  assumes wf: "cfg_wf cfg"
    and sf: "sf = of_flag_image (spi_flash_read d f (sector 3) sizeof_SAVE_FLAG)"
  shows "stored d (fold (run_op d) (take k (save_ops sf cfg)) f) =
           (if 4 \<le> k \<or> k = 3 \<and> flag sf = 0 then cfg else stored d f)"
proof -
  have sl: "length (flag_image (sf\<lparr>flag := v\<rparr>)) = 4" for v
    unfolding sf by (rule length_flag_image) (simp add: sizeof_SAVE_FLAG_def)
  have fl: "stored_flag d f = flag sf" by (simp add: stored_flag_def sf)
  show ?thesis
  proof (cases "flag sf = 0")
    case True
    with save_prefix [OF wf, of 1 f "sf\<lparr>flag := 1\<rparr>" "save_ops sf cfg" k] sl fl show ?thesis
      by (simp add: save_ops_def)
  next
    case False
    with save_prefix [OF wf, of 0 f "sf\<lparr>flag := 0\<rparr>" "save_ops sf cfg" k] sl fl show ?thesis
      by (simp add: save_ops_def)
  qed
qed

lemma CFG_Save_stored:
  assumes "cfg_wf (sysCfg s)"
  shows "stored d (flash (CFG_Save d s)) = sysCfg s"
  using save_prefixes [OF assms refl, of 4]
  by (simp add: CFG_Save_def Let_def save_ops_def)

text \<open>Without a valid configuration in flash the defaults are loaded and saved.\<close>

lemma CFG_Load_default:
  assumes "cfg_holder (stored d (flash s)) \<noteq> CFG_HOLDER"
    and name: "length name < 32"
  shows "\<exists>s'. CFG_Load d name s = Some s' \<and> stored d (flash s') = sysCfg s' \<and>
           cfg_holder (sysCfg s') = CFG_HOLDER \<and> take (Suc (length name)) (device_id (sysCfg s')) = name @ [0]"
proof -
  let ?zero = "of_cfg_image (replicate sizeof_SYSCFG 0)"
  have dev: "device_id ?zero = replicate 32 0"
    by (simp add: of_cfg_image_def Let_def cfg_sizes_def sizeof_SYSCFG_def)
  define nm where "nm = ((name @ [0]) @ replicate (31 - length name) (0 :: u8))[31 := 0]"
  have nm: "nm = (name @ [0]) @ replicate (31 - length name) 0"
  proof -
    have "((name @ [0]) @ replicate (31 - length name) (0 :: u8)) ! 31 = 0"
      using name by (cases "length name = 31") (auto simp: nth_append)
    then show ?thesis by (metis list_update_id nm_def)
  qed
  have len: "length nm = 32" using name by (simp add: nm)
  define cfg where "cfg = ?zero\<lparr>cfg_holder := CFG_HOLDER, device_id := nm, sta_type := STA_TYPE,
      cfg_security := DEFAULT_SECURITY\<rparr>"
  define s1 where "s1 = s\<lparr>saveFlag := of_flag_image (spi_flash_read d (flash s) (sector 3) sizeof_SAVE_FLAG),
      sysCfg := cfg\<rparr>"
  have load: "CFG_Load d name s = Some (CFG_Save d s1)"
    using assms(1) name dev
    by (simp add: CFG_Load_def Let_def stored_def stored_slot_def stored_flag_def sprintf_into_def
        mem_simps s1_def cfg_def nm_def split: if_splits)
  have "cfg_wf (sysCfg s1)" using cfg_wf_default [OF len] by (simp add: s1_def cfg_def)
  then have "stored d (flash (CFG_Save d s1)) = sysCfg s1" by (rule CFG_Save_stored)
  moreover have "sysCfg (CFG_Save d s1) = cfg" by (simp add: CFG_Save_def Let_def s1_def)
  ultimately show ?thesis using load by (simp add: cfg_def s1_def nm)
qed

end

lemma flash_chipI: "flash_laws d \<Longrightarrow> flash_chip d"
  by (simp add: flash_laws_def flash_chip_def)

interpretation nor: flash_chip nor_flash
  by (rule flash_chipI [OF nor_flash_laws])

section \<open>Properties\<close>

text \<open>A configuration, a chip that holds it in slot 0, and the state at run time.\<close>

definition cfg0 :: SYSCFG where
  "cfg0 = (of_cfg_image (replicate sizeof_SYSCFG 0))\<lparr>cfg_holder := CFG_HOLDER, mqtt_port := 1883\<rparr>"

text \<open>A chip with a configuration in its first slot, and zeros elsewhere.\<close>

definition chip_with :: "SYSCFG \<Rightarrow> nat \<Rightarrow> u8" where
  "chip_with cfg x = (if sector 0 \<le> x \<and> x < sector 0 + sizeof_SYSCFG then cfg_image cfg ! (x - sector 0) else 0)"

definition board0 :: "(nat \<Rightarrow> u8) cfg_state" where
  "board0 = \<lparr>sysCfg = cfg0\<lparr>mqtt_port := 8883\<rparr>, saveFlag = \<lparr>flag = 0, pad = [0, 0, 0]\<rparr>, flash = chip_with cfg0\<rparr>"

lemma cfg0: "cfg_wf cfg0" "cfg_wf (cfg0\<lparr>mqtt_port := 8883\<rparr>)" "cfg_holder cfg0 = CFG_HOLDER"
  by (simp_all add: cfg0_def cfg_wf_def cfg_fields_def of_cfg_image_def Let_def cfg_sizes_def
      sizeof_SYSCFG_def)

lemma stored_chip_with:
  assumes "cfg_wf cfg"
  shows "stored nor_flash (chip_with cfg) = cfg"
proof -
  have l: "length (cfg_image cfg) = sizeof_SYSCFG" by (rule length_cfg_image [OF assms])
  have "stored_flag nor_flash (chip_with cfg) = 0"
    by (simp add: stored_flag_def nor_flash_def of_flag_image_def sizeof_SAVE_FLAG_def chip_with_def
        sector_def cfg_sector_def CFG_LOCATION_def SPI_FLASH_SEC_SIZE_def sizeof_SYSCFG_def upt_conv_Cons)
  moreover have "map (chip_with cfg) [sector 0..<sector 0 + sizeof_SYSCFG] = cfg_image cfg"
    by (rule nth_equalityI) (simp_all add: l chip_with_def)
  then have "stored_slot nor_flash (chip_with cfg) 0 = cfg"
    using of_cfg_image_image [OF assms] by (simp add: stored_slot_def nor_flash_def)
  ultimately show ?thesis by (simp add: stored_def)
qed

lemma board0: "stored nor_flash (flash board0) = cfg0" "sysCfg board0 = cfg0\<lparr>mqtt_port := 8883\<rparr>"
  by (simp_all add: board0_def stored_chip_with cfg0)

text \<open>
  C24. A saved configuration is loaded back: after \<open>CFG_Save\<close> and a restart, \<open>CFG_Load\<close> gives
  exactly the configuration that was saved, whichever of the two slots was in use, and does not
  write to flash.
\<close>

theorem save_then_load:
  assumes "flash_laws d" and "cfg_wf (sysCfg s)" and "cfg_holder (sysCfg s) = CFG_HOLDER"
  shows "\<exists>s'. CFG_Load d name (CFG_Save d s) = Some s' \<and> sysCfg s' = sysCfg s \<and>
           flash s' = flash (CFG_Save d s)"
  using CFG_Load_stored [of d "CFG_Save d s" name] flash_chip.CFG_Save_stored [OF flash_chipI [OF assms(1)] assms(2)] assms(3) by simp

theorem save_then_load_witness:
  "\<exists>s'. CFG_Load nor_flash [0x45] (CFG_Save nor_flash board0) = Some s' \<and> sysCfg s' = sysCfg board0 \<and>
     flash s' = flash (CFG_Save nor_flash board0)"
  by (rule save_then_load) (simp_all add: nor_flash_laws board0 cfg0)

text \<open>
  C25. Saving survives a loss of power: if \<open>CFG_Save\<close> is cut off after any number k of its four
  flash commands, the next \<open>CFG_Load\<close> finds a complete configuration - the new one once the flag
  is written (or just erased, when it said slot 0), the old one before - never a mixture.
\<close>

theorem save_power_loss:
  assumes "flash_laws d" and "cfg_wf (sysCfg s)" and "cfg_holder (sysCfg s) = CFG_HOLDER"
    and "cfg_holder (stored d (flash s)) = CFG_HOLDER"
    and "sf = of_flag_image (spi_flash_read d (flash s) (sector 3) sizeof_SAVE_FLAG)"
  shows "flash (CFG_Save d s) = fold (run_op d) (save_ops sf (sysCfg s)) (flash s) \<and>
         (\<exists>s'. CFG_Load d name (s\<lparr>flash := fold (run_op d) (take k (save_ops sf (sysCfg s))) (flash s)\<rparr>) = Some s' \<and>
           sysCfg s' = (if 4 \<le> k \<or> k = 3 \<and> flag sf = 0 then sysCfg s else stored d (flash s)))"
proof -
  let ?f = "fold (run_op d) (take k (save_ops sf (sysCfg s))) (flash s)"
  have "stored d ?f = (if 4 \<le> k \<or> k = 3 \<and> flag sf = 0 then sysCfg s else stored d (flash s))"
    by (rule flash_chip.save_prefixes [OF flash_chipI [OF assms(1)] assms(2,5)])
  moreover from this have "cfg_holder (stored d (flash (s\<lparr>flash := ?f\<rparr>))) = CFG_HOLDER"
    using assms(3,4) by simp
  ultimately show ?thesis
    using CFG_Load_stored [of d "s\<lparr>flash := ?f\<rparr>" name]
    by (auto simp: CFG_Save_def Let_def simp flip: assms(5))
qed

theorem save_power_loss_witness:
  "flash (CFG_Save nor_flash board0) = fold (run_op nor_flash)
     (save_ops (of_flag_image (spi_flash_read nor_flash (flash board0) (sector 3) sizeof_SAVE_FLAG))
       (sysCfg board0)) (flash board0) \<and>
   (\<exists>s'. CFG_Load nor_flash [0x45] (board0\<lparr>flash := fold (run_op nor_flash) (take 2
           (save_ops (of_flag_image (spi_flash_read nor_flash (flash board0) (sector 3) sizeof_SAVE_FLAG))
             (sysCfg board0))) (flash board0)\<rparr>) = Some s' \<and>
      sysCfg s' =
        (if 4 \<le> (2 :: nat) \<or> (2 :: nat) = 3 \<and>
              flag (of_flag_image (spi_flash_read nor_flash (flash board0) (sector 3) sizeof_SAVE_FLAG)) = 0
         then sysCfg board0 else stored nor_flash (flash board0)))"
  by (rule save_power_loss) (simp_all add: nor_flash_laws board0 cfg0)



end
