(* ===== verification/Gpio16.thy ===== *)
theory Gpio16
  imports Prelude
begin

text \<open>
  GPIO16, the RTC pin, of \<open>src/modules/gpio16.c\<close>: the peripheral registers it uses, read and
  written whole (\<open>READ_PERI_REG\<close>, \<open>WRITE_PERI_REG\<close>), and its four operations.
\<close>

section \<open>Registers\<close>

datatype rtc_reg = PAD_XPD_DCDC_CONF | RTC_GPIO_CONF | RTC_GPIO_ENABLE | RTC_GPIO_OUT | RTC_GPIO_IN_DATA

type_synonym rtc_regs = "rtc_reg \<Rightarrow> u32"

section \<open>Operations\<close>

definition gpio16_output_conf :: "rtc_regs \<Rightarrow> rtc_regs" where
  "gpio16_output_conf r =
     (let r = r(PAD_XPD_DCDC_CONF := (r PAD_XPD_DCDC_CONF AND 0xffffffbc) OR 1);
          r = r(RTC_GPIO_CONF := (r RTC_GPIO_CONF AND 0xfffffffe) OR 0)
      in r(RTC_GPIO_ENABLE := (r RTC_GPIO_ENABLE AND 0xfffffffe) OR 1))"

definition gpio16_output_set :: "u8 \<Rightarrow> rtc_regs \<Rightarrow> rtc_regs" where
  "gpio16_output_set v r =
     r(RTC_GPIO_OUT := (r RTC_GPIO_OUT AND 0xfffffffe) OR ucast (v AND 1))"

definition gpio16_input_conf :: "rtc_regs \<Rightarrow> rtc_regs" where
  "gpio16_input_conf r =
     (let r = r(PAD_XPD_DCDC_CONF := (r PAD_XPD_DCDC_CONF AND 0xffffffbc) OR 1);
          r = r(RTC_GPIO_CONF := (r RTC_GPIO_CONF AND 0xfffffffe) OR 0)
      in r(RTC_GPIO_ENABLE := r RTC_GPIO_ENABLE AND 0xfffffffe))"

definition gpio16_input_get :: "rtc_regs \<Rightarrow> u8" where
  "gpio16_input_get r = ucast (r RTC_GPIO_IN_DATA AND 1)"

section \<open>Bits of the registers\<close>

lemma bit_all_but_0: "bit (w AND 0xfffffffe) n \<longleftrightarrow> bit w n \<and> n \<noteq> 0" for w :: u32
proof (cases "n < 32")
  case True
  have "(0xfffffffe :: u32) = NOT 1" by simp
  then show ?thesis using True by (simp only: bit_and_iff bit_not_iff) (auto simp: bit_1_iff)
next
  case False
  then have "\<not> bit w n" using bit_imp_le_length [of w n] by auto
  then show ?thesis by (simp add: bit_and_iff)
qed

text \<open>What the pin drives: \<open>None\<close> when the output is disabled.\<close>

definition gpio16_pin :: "rtc_regs \<Rightarrow> bool option" where
  "gpio16_pin r =
     (if bit (r RTC_GPIO_ENABLE) 0 \<and> \<not> bit (r RTC_GPIO_CONF) 0 then Some (bit (r RTC_GPIO_OUT) 0) else None)"

lemma bit_ucast_and_1: "bit (ucast (v AND 1) :: u32) n \<longleftrightarrow> n = 0 \<and> odd v" for v :: u8
proof -
  have "v AND 1 = (if odd v then 1 else 0)" by (simp add: and_one_eq odd_iff_mod_2_eq_one)
  then show ?thesis by (simp add: bit_1_iff)
qed

lemma gpio16_set_pin:
  "gpio16_pin (gpio16_output_set v r) = map_option (\<lambda>_. odd v) (gpio16_pin r)"
  by (simp add: gpio16_pin_def gpio16_output_set_def bit_or_iff bit_all_but_0 bit_ucast_and_1)

lemma gpio16_conf_pin:
  "gpio16_pin (gpio16_output_conf r) = Some (bit (r RTC_GPIO_OUT) 0)"
  "gpio16_pin (gpio16_input_conf r) = None"
  by (simp_all add: gpio16_pin_def gpio16_output_conf_def gpio16_input_conf_def Let_def bit_or_iff
      bit_all_but_0 bit_1_iff)

section \<open>Properties\<close>

lemma bit_mux: "bit (w AND 0xffffffbc) n \<longleftrightarrow> bit w n \<and> n \<notin> {0, 1, 6}" for w :: u32
proof (cases "n < 32")
  case True
  have "list_all (\<lambda>n. bit (0xffffffbc :: u32) n = (n \<notin> {0, 1, 6})) [0..<32]" by code_simp
  with True have "bit (0xffffffbc :: u32) n = (n \<notin> {0, 1, 6})" by (simp only: list_all_iff) simp
  then show ?thesis by (simp only: bit_and_iff)
next
  case False
  then have "\<not> bit w n" using bit_imp_le_length [of w n] by auto
  then show ?thesis by (simp add: bit_and_iff)
qed

text \<open>
  GPIO16: configured as an output the pin drives exactly the lowest bit of the value last
  set, configured as an input it drives nothing, reading gives the lowest bit of the input
  register; all other bits of the shared registers keep their values, but for the three
  multiplexer bits of the pad.
\<close>

lemma gpio16_drives:
  "gpio16_pin (gpio16_output_set v (gpio16_output_conf r)) = Some (odd v) \<and>
   gpio16_pin (gpio16_input_conf (gpio16_output_set v r)) = None \<and>
   gpio16_input_get (gpio16_input_conf r) = (if odd (r RTC_GPIO_IN_DATA) then 1 else 0) \<and>
   (bit (gpio16_output_set v (gpio16_output_conf r) x) n = bit (r x) n \<or> n = 0 \<or>
    x = PAD_XPD_DCDC_CONF \<and> n \<in> {1, 6})"
proof -
  have "(ucast (w AND 1) :: u8) = (if odd w then 1 else 0)" for w :: u32
  proof -
    have "w AND 1 = (if odd w then 1 else 0)" by (simp add: and_one_eq odd_iff_mod_2_eq_one)
    then show ?thesis by simp
  qed
  moreover have "bit (gpio16_output_set v (gpio16_output_conf r) x) n = bit (r x) n \<or> n = 0 \<or>
    x = PAD_XPD_DCDC_CONF \<and> n \<in> {1, 6}"
    by (cases x) (auto simp: gpio16_output_set_def gpio16_output_conf_def Let_def bit_or_iff
        bit_all_but_0 bit_1_iff bit_mux bit_ucast_and_1)
  moreover have "gpio16_input_get (gpio16_input_conf r) = ucast (r RTC_GPIO_IN_DATA AND 1)"
    by (simp add: gpio16_input_get_def gpio16_input_conf_def Let_def)
  ultimately show ?thesis by (simp add: gpio16_set_pin gpio16_conf_pin)
qed

end
