(* ===== verification/Wifi.thy ===== *)
theory Wifi
  imports Config
begin

text \<open>
  The station of \<open>src/modules/wifi.c\<close>: connecting to the access point, the handler of the
  SDK's WiFi events and the status check that calls the application back on every change. The
  world \<open>'w\<close> that the callback acts on and the callback itself are parameters.
\<close>

section \<open>State\<close>

text \<open>The connection status and the events of the SDK.\<close>

definition STATION_IDLE :: u8 where "STATION_IDLE = 0"
definition STATION_CONNECTING :: u8 where "STATION_CONNECTING = 1"
definition STATION_WRONG_PASSWORD :: u8 where "STATION_WRONG_PASSWORD = 2"
definition STATION_NO_AP_FOUND :: u8 where "STATION_NO_AP_FOUND = 3"
definition STATION_CONNECT_FAIL :: u8 where "STATION_CONNECT_FAIL = 4"
definition STATION_GOT_IP :: u8 where "STATION_GOT_IP = 5"

definition EVENT_STAMODE_DISCONNECTED :: u32 where "EVENT_STAMODE_DISCONNECTED = 1"

text \<open>The two arrays of \<open>struct station_config\<close> that the code writes; the rest stays zero.\<close>

record station_config =
  sc_ssid :: "u8 list"
  sc_password :: "u8 list"

datatype wifi_op =
    Set_station_mode
  | Set_event_handler
  | Set_config_current station_config
  | Set_auto_connect bool
  | Station_connect
  | Status_called nat u8

record wifi =
  wifiCb :: "nat option"
  wifiStatus :: u8
  lastWifiStatus :: u8
  wifi_trace :: "wifi_op list"

definition wifi_init :: wifi where
  "wifi_init = \<lparr>wifiCb = None, wifiStatus = STATION_IDLE, lastWifiStatus = STATION_IDLE, wifi_trace = []\<rparr>"

definition wifi_do :: "wifi_op \<Rightarrow> wifi \<Rightarrow> wifi" where
  "wifi_do op w = w\<lparr>wifi_trace := wifi_trace w @ [op]\<rparr>"

section \<open>Operations\<close>

text \<open>\<open>status\<close> is what \<open>wifi_station_get_connect_status\<close> returns, \<open>run\<close> the callback.\<close>

definition wifi_check_ip ::
  "(nat \<Rightarrow> u8 \<Rightarrow> 'w \<Rightarrow> 'w option) \<Rightarrow> u8 \<Rightarrow> wifi \<times> 'w \<Rightarrow> (wifi \<times> 'w) option" where
  "wifi_check_ip run status = (\<lambda>(w, x).
     do {
       let w = w\<lparr>wifiStatus := status\<rparr>;
       let w = (if wifiStatus w = STATION_WRONG_PASSWORD then wifi_do Station_connect w
                else if wifiStatus w = STATION_NO_AP_FOUND then wifi_do Station_connect w
                else if wifiStatus w = STATION_CONNECT_FAIL then wifi_do Station_connect w
                else w);
       (if wifiStatus w \<noteq> lastWifiStatus w then
          do {
            let w = w\<lparr>lastWifiStatus := wifiStatus w\<rparr>;
            (case wifiCb w of
               None \<Rightarrow> Some (w, x)
             | Some f \<Rightarrow>
                 do {
                   x \<leftarrow> run f (wifiStatus w) x;
                   Some (wifi_do (Status_called f (wifiStatus w)) w, x)
                 })
          }
        else Some (w, x))
     })"

text \<open>The other events are only printed.\<close>

definition wifi_handle_event_cb ::
  "(nat \<Rightarrow> u8 \<Rightarrow> 'w \<Rightarrow> 'w option) \<Rightarrow> u32 \<Rightarrow> u8 \<Rightarrow> wifi \<times> 'w \<Rightarrow> (wifi \<times> 'w) option" where
  "wifi_handle_event_cb run event status = (\<lambda>(w, x).
     wifi_check_ip run status
       (if event = EVENT_STAMODE_DISCONNECTED then (wifi_do Station_connect w, x) else (w, x)))"

text \<open>\<open>ssid\<close> and \<open>pass\<close> are the strings; a copy that does not fit its array is undefined.\<close>

definition WIFI_Connect :: "cstring \<Rightarrow> cstring \<Rightarrow> nat option \<Rightarrow> wifi \<Rightarrow> wifi option" where
  "WIFI_Connect ssid pass cb w =
     do {
       let w = wifi_do Set_station_mode w;
       let w = w\<lparr>wifiCb := cb\<rparr>;
       let w = wifi_do Set_event_handler w;
       let conf = \<lparr>sc_ssid = replicate 32 0, sc_password = replicate 64 0\<rparr>;
       s \<leftarrow> sprintf_into (sc_ssid conf) ssid;
       p \<leftarrow> sprintf_into (sc_password conf) pass;
       let conf = conf\<lparr>sc_ssid := s, sc_password := p\<rparr>;
       let w = wifi_do (Set_config_current conf) w;
       let w = wifi_do (Set_auto_connect True) w;
       Some (wifi_do Station_connect w)
     }"

section \<open>Properties\<close>

text \<open>A sequence of SDK events, each with the connection status at that time.\<close>

fun wifi_events ::
  "(nat \<Rightarrow> u8 \<Rightarrow> 'w \<Rightarrow> 'w option) \<Rightarrow> (u32 \<times> u8) list \<Rightarrow> wifi \<times> 'w \<Rightarrow> (wifi \<times> 'w) option" where
  "wifi_events run [] st = Some st"
| "wifi_events run ((event, status) # evs) st =
     do { st \<leftarrow> wifi_handle_event_cb run event status st; wifi_events run evs st }"

text \<open>The statuses that differ from the one before.\<close>

fun changes :: "'a \<Rightarrow> 'a list \<Rightarrow> 'a list" where
  "changes l [] = []"
| "changes l (s # ss) = (if s = l then changes l ss else s # changes s ss)"

definition is_status_call :: "wifi_op \<Rightarrow> bool" where
  "is_status_call op \<longleftrightarrow> (case op of Status_called _ _ \<Rightarrow> True | _ \<Rightarrow> False)"

definition status_calls :: "wifi \<Rightarrow> wifi_op list" where
  "status_calls w = filter is_status_call (wifi_trace w)"

definition connects :: "wifi \<Rightarrow> nat" where
  "connects w = length (filter ((=) Station_connect) (wifi_trace w))"

text \<open>The attempts to connect that an event causes.\<close>

fun attempts :: "u32 \<times> u8 \<Rightarrow> nat" where
  "attempts (event, status) =
     (if event = EVENT_STAMODE_DISCONNECTED then 1 else 0) +
     (if status \<in> {STATION_WRONG_PASSWORD, STATION_NO_AP_FOUND, STATION_CONNECT_FAIL} then 1 else 0)"

lemma if_same: "(if a then x else if b then x else y) = (if a \<or> b then x else y)"
  by simp

definition lost :: "u8 \<Rightarrow> bool" where
  "lost status \<longleftrightarrow> status = STATION_WRONG_PASSWORD \<or> status = STATION_NO_AP_FOUND \<or> status = STATION_CONNECT_FAIL"

lemma wifi_check_ip_run:
  assumes "wifiCb w = Some f" and "run f status x = Some x'"
  shows "wifi_check_ip run status (w, x) = Some
     (let w1 = (if lost status then wifi_do Station_connect w else w)\<lparr>wifiStatus := status, lastWifiStatus := status\<rparr>
      in if status = lastWifiStatus w then (w1, x) else (wifi_do (Status_called f status) w1, x'))"
  using assms
  by (cases "lost status"; cases "status = lastWifiStatus w")
    (simp_all add: wifi_check_ip_def if_same lost_def Let_def wifi_do_def)

lemma wifi_event_step:
  assumes "wifiCb w = Some f" and "\<And>s x. run f s x \<noteq> None"
  shows "\<exists>w' x'. wifi_handle_event_cb run event status (w, x) = Some (w', x') \<and> wifiCb w' = Some f \<and>
           lastWifiStatus w' = status \<and> connects w' = connects w + attempts (event, status) \<and>
           status_calls w' = status_calls w @
             (if status = lastWifiStatus w then [] else [Status_called f status])"
proof -
  define w0 where "w0 = (if event = EVENT_STAMODE_DISCONNECTED then wifi_do Station_connect w else w)"
  have w0: "wifiCb w0 = Some f" "lastWifiStatus w0 = lastWifiStatus w" "status_calls w0 = status_calls w"
    "connects w0 = connects w + (if event = EVENT_STAMODE_DISCONNECTED then 1 else 0)"
    using assms(1) by (simp_all add: w0_def wifi_do_def status_calls_def is_status_call_def connects_def)
  obtain x' where x': "run f status x = Some x'" using assms(2) [of status x] by blast
  have "wifi_handle_event_cb run event status (w, x) = wifi_check_ip run status (w0, x)"
    by (simp add: wifi_handle_event_cb_def w0_def)
  with wifi_check_ip_run [of w0 f run status x x', OF w0(1) x'] w0 show ?thesis
    by (cases "lost status"; cases "status = lastWifiStatus w")
      (simp_all add: lost_def wifi_do_def status_calls_def is_status_call_def connects_def)
qed

lemma wifi_events_calls:
  assumes "wifiCb w = Some f" and "\<And>s x. run f s x \<noteq> None"
  shows "\<exists>w' x'. wifi_events run evs (w, x) = Some (w', x') \<and>
           status_calls w' = status_calls w @ map (Status_called f) (changes (lastWifiStatus w) (map snd evs)) \<and>
           connects w' = connects w + sum_list (map attempts evs)"
  using assms(1)
proof (induction evs arbitrary: w x)
  case Nil
  then show ?case by simp
next
  case (Cons ev evs)
  obtain event status where ev: "ev = (event, status)" by (cases ev)
  from wifi_event_step [of w f run event status x, OF Cons.prems assms(2)] obtain w1 x1 where
    s: "wifi_handle_event_cb run event status (w, x) = Some (w1, x1)" "wifiCb w1 = Some f"
    "lastWifiStatus w1 = status" "connects w1 = connects w + attempts (event, status)"
    "status_calls w1 = status_calls w @ (if status = lastWifiStatus w then [] else [Status_called f status])"
    by blast
  from Cons.IH [OF s(2), of x1] s show ?case by (auto simp: ev simp del: attempts.simps)
qed



text \<open>
  Joining a network: \<open>WIFI_Connect\<close> sets a configuration that holds exactly the given SSID
  and password and asks for the connection when the SSID has at most 31 and the password at most
  63 characters. A 32-character SSID, which the standard allows and \<open>sta_ssid\<close> can hold,
  overflows the \<open>ssid\<close> array by its terminator, as do longer ones.
\<close>

lemma wifi_connect_fits:
  assumes "0 \<notin> set ssid" and "0 \<notin> set pass"
  shows "(case WIFI_Connect ssid pass cb w of
            None \<Rightarrow> 32 \<le> length ssid \<or> 64 \<le> length pass
          | Some w' \<Rightarrow> length ssid < 32 \<and> length pass < 64 \<and> wifiCb w' = cb \<and>
              (\<exists>conf. wifi_trace w' = wifi_trace w @ [Set_station_mode, Set_event_handler,
                 Set_config_current conf, Set_auto_connect True, Station_connect] \<and>
                 takeWhile (\<lambda>b. b \<noteq> 0) (sc_ssid conf) = ssid \<and> length (sc_ssid conf) = 32 \<and>
                 takeWhile (\<lambda>b. b \<noteq> 0) (sc_password conf) = pass \<and> length (sc_password conf) = 64))"
proof -
  have tw: "takeWhile (\<lambda>b. b \<noteq> 0) (xs @ 0 # ys) = xs" if "0 \<notin> set xs" for xs ys :: "u8 list"
    using that by (induction xs) auto
  show ?thesis
    using assms by (auto simp: WIFI_Connect_def Let_def sprintf_into_def wr_block_def wifi_do_def tw
        split: option.split)
qed

lemma wifi_connect_fits_witness:
  "(case WIFI_Connect [0x68] (replicate 32 0x70) (Some 0) wifi_init of
      None \<Rightarrow> 32 \<le> length [0x68 :: u8] \<or> 64 \<le> length (replicate 32 (0x70 :: u8))
    | Some w' \<Rightarrow> length [0x68 :: u8] < 32 \<and> length (replicate 32 (0x70 :: u8)) < 64 \<and> wifiCb w' = Some 0 \<and>
        (\<exists>conf. wifi_trace w' = wifi_trace wifi_init @ [Set_station_mode, Set_event_handler,
           Set_config_current conf, Set_auto_connect True, Station_connect] \<and>
           takeWhile (\<lambda>b. b \<noteq> 0) (sc_ssid conf) = [0x68] \<and> length (sc_ssid conf) = 32 \<and>
           takeWhile (\<lambda>b. b \<noteq> 0) (sc_password conf) = replicate 32 0x70 \<and> length (sc_password conf) = 64))"
  by (rule wifi_connect_fits) simp_all

end
