(* ===== verification/Sleep.thy ===== *)
theory Sleep
  imports Mqtt_System Wifi Gpio16
begin

text \<open>
  Measuring and sleeping, \<open>src/modules/sleep.c\<close>: the analogue multiplexer, the publication of the
  eight channels and of a counter, the wake-up interrupt and the decision to sleep. What the code
  makes the SDK do to the board is appended to the ghost field \<open>board_trace\<close>. Floating point is
  a parameter: the operations on the type \<open>'d\<close> of doubles (\<open>fp\<close>).
\<close>

section \<open>The board\<close>

datatype board_timer = ReadADC_timer | GoToSleep_timer

datatype sleep_type = NONE_SLEEP_T | LIGHT_SLEEP_T

datatype pin = MTDO | MTDI | MTCK | MTMS

datatype board_op =
    Gpio_init
  | Pin_func_select pin
  | Pin_pullup_en pin
  | Pin_pullup_dis pin
  | Gpio_output_set u32 u32 u32 u32
  | Delay_us nat
  | Intr_lock
  | Adc_read_fast nat nat
  | Intr_unlock
  | Wakeup_enable nat
  | Isr_attach
  | Intr_enable
  | Board_timer_disarm board_timer
  | Board_timer_setfn board_timer
  | Board_timer_arm board_timer nat bool
  | Set_sleep_type sleep_type
  | Gpio_status_clear u32
  | Os_malloc nat

text \<open>\<open>mqttClient\<close> is set by \<open>sleepInit\<close>; the client itself is passed to the functions.\<close>

record board =
  counter :: u32
  wakeCount :: u32
  lastWakeTime :: u32
  client_known :: bool
  rtc :: rtc_regs
  board_trace :: "board_op list"

definition board_init :: "rtc_regs \<Rightarrow> board" where
  "board_init r =
     \<lparr>counter = 0, wakeCount = 0, lastWakeTime = 0, client_known = False, rtc = r, board_trace = []\<rparr>"

definition board_do :: "board_op \<Rightarrow> board \<Rightarrow> board" where
  "board_do op b = b\<lparr>board_trace := board_trace b @ [op]\<rparr>"

definition gpio16_set :: "u8 \<Rightarrow> board \<Rightarrow> board" where
  "gpio16_set v b = b\<lparr>rtc := gpio16_output_set v (rtc b)\<rparr>"

definition BIT :: "nat \<Rightarrow> u32" where "BIT n = push_bit n 1"

section \<open>The multiplexer\<close>

definition setADC :: "u32 \<Rightarrow> board \<Rightarrow> board" where
  "setADC index b =
     (let b = (if drop_bit 0 index AND 1 \<noteq> 0 then gpio16_set 1 b else gpio16_set 0 b);
          b = (if drop_bit 1 index AND 1 \<noteq> 0
               then board_do (Gpio_output_set (BIT 12) 0 (BIT 12) 0) b
               else board_do (Gpio_output_set 0 (BIT 12) (BIT 12) 0) b)
      in if drop_bit 2 index AND 1 \<noteq> 0
         then board_do (Gpio_output_set (BIT 13) 0 (BIT 13) 0) b
         else board_do (Gpio_output_set 0 (BIT 13) (BIT 13) 0) b)"

section \<open>Publishing the measurements\<close>

text \<open>
  The doubles: constants, conversions and arithmetic; \<open>fp_to_uint\<close> is the cast to
  \<open>unsigned int\<close>, \<open>None\<close> when the value is out of range.
\<close>

record 'd fp =
  fp_of_int :: "int \<Rightarrow> 'd"
  fp_4_3 :: 'd
  fp_of_bytes :: "u8 list \<Rightarrow> 'd"
  fp_add :: "'d \<Rightarrow> 'd \<Rightarrow> 'd"
  fp_mul :: "'d \<Rightarrow> 'd \<Rightarrow> 'd"
  fp_div :: "'d \<Rightarrow> 'd \<Rightarrow> 'd"
  fp_to_uint :: "'d \<Rightarrow> u32 option"

definition adc_length :: nat where "adc_length = 1024"

definition adc_sum :: "'d fp \<Rightarrow> u16 list \<Rightarrow> 'd" where
  "adc_sum d samples = foldl (\<lambda>s v. fp_add d s (fp_of_int d (uint v))) (fp_of_int d 0) samples"

text \<open>The factor of a channel, and the text that is appended to the topic root.\<close>

definition adc_factor :: "'d fp \<Rightarrow> SYSCFG \<Rightarrow> nat \<Rightarrow> 'd" where
  "adc_factor d cfg adc =
     [fp_of_bytes d (mqtt_muladc0 cfg), fp_of_bytes d (mqtt_muladc1 cfg),
      fp_of_bytes d (mqtt_muladc2 cfg), fp_of_bytes d (mqtt_muladc3 cfg),
      fp_of_int d 10, fp_of_int d 10, fp_4_3 d, fp_4_3 d] ! adc"

definition adc_topic :: "SYSCFG \<Rightarrow> nat \<Rightarrow> cstring option" where
  "adc_topic cfg adc =
     [c_string (mqtt_topicadc0 cfg), c_string (mqtt_topicadc1 cfg), c_string (mqtt_topicadc2 cfg),
      c_string (mqtt_topicadc3 cfg), Some (lit ''/ChargeSupply''),
      Some (lit ''/RegulatedChargeSupply''), Some (lit ''/BatteryVoltage''),
      Some (lit ''/Regulated3.3V'')] ! adc"

text \<open>\<open>adcValue\<close> is a \<open>uint16\<close>.\<close>

definition adc_value :: "'d fp \<Rightarrow> SYSCFG \<Rightarrow> nat \<Rightarrow> u16 list \<Rightarrow> u16 option" where
  "adc_value d cfg adc samples =
     map_option ucast (fp_to_uint d (fp_div d (fp_mul d (adc_sum d samples) (adc_factor d cfg adc))
       (fp_of_int d (int adc_length))))"

text \<open>
  What the measurement needs of the platform: memory, the samples that
  \<open>system_adc_read_fast\<close> gives for a channel, and the doubles.
\<close>

record 'd adc_env =
  adc_malloc :: "nat \<Rightarrow> u8 list option"
  adc_samples :: "nat \<Rightarrow> u16 list"
  adc_fp :: "'d fp"

text \<open>One pass of the loop: the state is the board, the client and the two strings.\<close>

type_synonym adc_state = "board \<times> MQTT_Client \<times> u8 list \<times> u8 list"

definition adc_channel ::
  "'d adc_env \<Rightarrow> env \<Rightarrow> SYSCFG \<Rightarrow> nat \<Rightarrow> adc_state \<Rightarrow> adc_state option" where
  "adc_channel a e cfg adc = (\<lambda>(b, c, mqttTopic, mqttValue).
     do {
       let b = board_do (Delay_us 100) (setADC (of_nat adc) b);
       let b = board_do Intr_unlock (board_do (Adc_read_fast adc_length 8) (board_do Intr_lock b));
       let d = adc_fp a;
       let adcValueSum = adc_sum d (adc_samples a adc);
       _ \<leftarrow> fp_to_uint d (fp_div d adcValueSum (fp_of_int d (int adc_length)));
       root \<leftarrow> c_string (mqtt_topicroot cfg);
       mqttTopic \<leftarrow> c_strcpy mqttTopic root;
       adcValue \<leftarrow> adc_value d cfg adc (adc_samples a adc);
       mqttValue \<leftarrow> (if adc = 5 then Some mqttValue else c_strcpy mqttValue (dec (unat adcValue)));
       t \<leftarrow> adc_topic cfg adc;
       mqttTopic \<leftarrow> c_strcat mqttTopic t;
       topic \<leftarrow> c_string mqttTopic;
       value \<leftarrow> c_string mqttValue;
       (_, c) \<leftarrow> MQTT_Publish e (Some topic) value (int (length value)) 1 1 c;
       Some (b, c, mqttTopic, mqttValue)
     })"

fun adc_loop ::
  "'d adc_env \<Rightarrow> env \<Rightarrow> SYSCFG \<Rightarrow> nat list \<Rightarrow> adc_state \<Rightarrow> adc_state option" where
  "adc_loop a e cfg [] st = Some st"
| "adc_loop a e cfg (adc # adcs) st = do { st \<leftarrow> adc_channel a e cfg adc st; adc_loop a e cfg adcs st }"

text \<open>\<open>%d\<close> of a 32-bit number.\<close>

definition dec_signed :: "u32 \<Rightarrow> cstring" where
  "dec_signed w = (if sint w < 0 then 0x2D # dec (nat (- sint w)) else dec (nat (sint w)))"

definition sendADCData ::
  "'d adc_env \<Rightarrow> env \<Rightarrow> SYSCFG \<Rightarrow> board \<Rightarrow> MQTT_Client \<Rightarrow> (board \<times> MQTT_Client) option" where
  "sendADCData a e cfg b c =
     do {
       mqttTopic \<leftarrow> adc_malloc a 96;
       mqttValue \<leftarrow> adc_malloc a 8;
       let b = board_do (Os_malloc 8) (board_do (Os_malloc 96) b);
       let b = board_do (Delay_us 100) (board_do (Gpio_output_set 0 (BIT 15) (BIT 15) 0) b);
       (b, c, mqttTopic, mqttValue) \<leftarrow> adc_loop a e cfg [0..<8] (b, c, mqttTopic, mqttValue);
       let b = board_do (Gpio_output_set (BIT 15) 0 (BIT 15) 0) b;
       let b = b\<lparr>counter := counter b + 1\<rparr>;
       mqttValue \<leftarrow> c_strcpy mqttValue (dec_signed (counter b));
       root \<leftarrow> c_string (mqtt_topicroot cfg);
       mqttTopic \<leftarrow> c_strcpy mqttTopic root;
       mqttTopic \<leftarrow> c_strcat mqttTopic (lit ''/Counter'');
       topic \<leftarrow> c_string mqttTopic;
       value \<leftarrow> c_string mqttValue;
       (_, c) \<leftarrow> MQTT_Publish e (Some topic) value (int (length value)) 1 1 c;
       Some (b, c)
     }"

section \<open>Sleeping and waking\<close>

text \<open>The timer of the client is part of the client: its effects go to the client's trace.\<close>

definition goToSleep :: "board \<Rightarrow> MQTT_Client \<Rightarrow> board \<times> MQTT_Client" where
  "goToSleep b c =
     (let b = board_do (Board_timer_disarm GoToSleep_timer) b
      in if fill_cnt (rb (msgQueue c)) > 0
         then (board_do (Board_timer_arm GoToSleep_timer 500 False) b,
               emit (Timer_arm 100 True) (emit Timer_disarm c))
         else (board_do (Set_sleep_type LIGHT_SLEEP_T) b, emit Timer_disarm c))"

text \<open>
  \<open>gpio_status\<close> is the interrupt status, \<open>now\<close> and \<open>later\<close> the two readings of the RTC,
  \<open>status\<close> the WiFi status that \<open>wifi_check_ip\<close> finds.
\<close>

definition sleepWakeOnInterruptHandeler ::
  "(nat \<Rightarrow> u8 \<Rightarrow> 'w \<Rightarrow> 'w option) \<Rightarrow> u8 \<Rightarrow> u32 \<Rightarrow> u32 \<Rightarrow> u32 \<Rightarrow> board \<Rightarrow> wifi \<times> 'w
     \<Rightarrow> (board \<times> wifi \<times> 'w) option" where
  "sleepWakeOnInterruptHandeler run status gpio_status now later b wx =
     (if now - lastWakeTime b < 10000 then Some (board_do (Gpio_status_clear gpio_status) b, wx)
      else do {
        let b = b\<lparr>lastWakeTime := later\<rparr>;
        let b = board_do (Gpio_output_set (BIT 14) 0 (BIT 14) 0) b;
        let b = board_do (Delay_us 2000) b;
        let b = board_do (Gpio_output_set (BIT 14) 0 0 (BIT 14)) b;
        wx \<leftarrow> wifi_check_ip run status wx;
        let b = b\<lparr>wakeCount := wakeCount b + 1\<rparr>;
        let b = (if wakeCount b \<ge> 3 then
            let b = board_do (Set_sleep_type NONE_SLEEP_T) b;
                b = b\<lparr>wakeCount := 0\<rparr>;
                b = board_do (Board_timer_disarm ReadADC_timer) b;
                b = board_do (Board_timer_arm ReadADC_timer 10 False) b;
                b = board_do (Board_timer_disarm GoToSleep_timer) b
            in board_do (Board_timer_arm GoToSleep_timer 100 False) b
          else b);
        Some (board_do (Gpio_status_clear gpio_status) b, wx)
      })"

definition sleepInit :: "board \<Rightarrow> board" where
  "sleepInit b =
     (let b = board_do Gpio_init b;
          b = board_do (Pin_func_select MTDO) b;
          b = board_do (Pin_func_select MTDI) b;
          b = board_do (Pin_pullup_en MTDI) b;
          b = board_do (Pin_func_select MTCK) b;
          b = board_do (Pin_func_select MTMS) b;
          b = board_do (Pin_pullup_dis MTMS) b;
          b = board_do (Gpio_output_set (BIT 14) 0 (BIT 14) 0) b;
          b = b\<lparr>rtc := gpio16_output_conf (rtc b)\<rparr>;
          b = board_do (Gpio_output_set (BIT 2) 0 (BIT 2) 0) b;
          b = board_do (Gpio_output_set 0 (BIT 14) 0 (BIT 14)) b;
          b = board_do (Gpio_output_set 0 (BIT 15) (BIT 15) 0) b;
          b = board_do (Gpio_output_set (BIT 13) 0 (BIT 13) 0) b;
          b = board_do (Gpio_output_set (BIT 12) 0 (BIT 12) 0) b;
          b = gpio16_set 1 b;
          b = b\<lparr>client_known := True\<rparr>;
          b = board_do (Pin_func_select MTMS) b;
          b = board_do (Pin_pullup_dis MTMS) b;
          b = board_do (Gpio_output_set 0 (BIT 14) (BIT 14) 0) b;
          b = board_do (Wakeup_enable 14) b;
          b = board_do Isr_attach b;
          b = board_do (Board_timer_disarm GoToSleep_timer) b;
          b = board_do (Board_timer_setfn GoToSleep_timer) b;
          b = board_do (Board_timer_disarm ReadADC_timer) b;
          b = board_do (Board_timer_setfn ReadADC_timer) b
      in board_do Intr_enable b)"

end
