(* ===== verification/User_Main.thy ===== *)
theory User_Main
  imports Sleep Mqtt_System_Props
begin

text \<open>
  The application, \<open>src/user/user_main.c\<close>: the callbacks it gives to the MQTT client and to the
  WiFi module, the choice of the RF calibration sector, and \<open>user_init\<close>, which puts the
  components together. The properties close the loop: the callbacks satisfy what the client
  assumes of them, so the client is safe in this application.
\<close>

section \<open>Callbacks\<close>

definition wifiConnectCb :: "env \<Rightarrow> u8 \<Rightarrow> MQTT_Client \<Rightarrow> MQTT_Client option" where
  "wifiConnectCb e status c =
     (if status = STATION_GOT_IP then MQTT_Connect e c else Some (MQTT_Disconnect c))"

definition mqttConnectedCb :: "env \<Rightarrow> MQTT_Client \<Rightarrow> MQTT_Client option" where
  "mqttConnectedCb e c =
     do {
       (_, c) \<leftarrow> MQTT_Publish e (Some (lit ''/sensor/test/online'')) (lit ''1'') 1 1 1 c;
       c \<leftarrow> MQTT_InitLWT e (lit ''/sensor/test/online'') (lit ''0'') 1 1 c;
       (_, c) \<leftarrow> MQTT_Publish e (Some (lit ''/sensor/test/max'')) (lit ''4500'') 4 1 1 c;
       (_, c) \<leftarrow> MQTT_Publish e (Some (lit ''/sensor/test/min'')) (lit ''2500'') 4 1 1 c;
       Some c
     }"

text \<open>The two callbacks that only print.\<close>

definition mqttDisconnectedCb :: "MQTT_Client \<Rightarrow> MQTT_Client option" where
  "mqttDisconnectedCb c = Some c"

definition mqttPublishedCb :: "MQTT_Client \<Rightarrow> MQTT_Client option" where
  "mqttPublishedCb c = Some c"

text \<open>A copy into a fresh block with a terminator; NULL is the empty block.\<close>

definition copy_string :: "env \<Rightarrow> u8 list option \<Rightarrow> u16 \<Rightarrow> u8 list option" where
  "copy_string e p len =
     do {
       m \<leftarrow> zalloc e (unat len + 1);
       src \<leftarrow> rd_block (case p of None \<Rightarrow> [] | Some b \<Rightarrow> b) 0 (unat len);
       m \<leftarrow> wr_block m 0 src;
       wr m (unat len) 0
     }"

definition mqttDataCb ::
  "env \<Rightarrow> MQTT_Client \<Rightarrow> u8 list option \<Rightarrow> u16 \<Rightarrow> u8 list option \<Rightarrow> u16 \<Rightarrow> MQTT_Client option" where
  "mqttDataCb e c topic topic_len data data_len =
     do {
       topicBuf \<leftarrow> copy_string e topic topic_len;
       dataBuf \<leftarrow> copy_string e data data_len;
       Some c
     }"

text \<open>The application's callbacks as the numbers that the client's pointers hold.\<close>

definition app_env :: "env \<Rightarrow> env" where
  "app_env e =
     e\<lparr>run_cb := (\<lambda>f c. if f = 0 then mqttConnectedCb e c
                        else if f = 1 then mqttDisconnectedCb c else mqttPublishedCb c),
       run_data_cb := (\<lambda>f c t tn d dn. mqttDataCb e c t tn d dn)\<rparr>"

section \<open>The RF calibration sector\<close>

datatype flash_size_map =
    FLASH_SIZE_4M_MAP_256_256 | FLASH_SIZE_2M | FLASH_SIZE_8M_MAP_512_512
  | FLASH_SIZE_16M_MAP_512_512 | FLASH_SIZE_32M_MAP_512_512 | FLASH_SIZE_16M_MAP_1024_1024
  | FLASH_SIZE_32M_MAP_1024_1024 | FLASH_SIZE_32M_MAP_2048_2048 | FLASH_SIZE_64M_MAP_1024_1024
  | FLASH_SIZE_128M_MAP_1024_1024

definition user_rf_cal_sector_set :: "flash_size_map \<Rightarrow> u32" where
  "user_rf_cal_sector_set size_map =
     (case size_map of
        FLASH_SIZE_4M_MAP_256_256 \<Rightarrow> 128 - 5
      | FLASH_SIZE_8M_MAP_512_512 \<Rightarrow> 256 - 5
      | FLASH_SIZE_16M_MAP_512_512 \<Rightarrow> 512 - 5
      | FLASH_SIZE_16M_MAP_1024_1024 \<Rightarrow> 512 - 5
      | FLASH_SIZE_32M_MAP_512_512 \<Rightarrow> 1024 - 5
      | FLASH_SIZE_32M_MAP_1024_1024 \<Rightarrow> 1024 - 5
      | FLASH_SIZE_64M_MAP_1024_1024 \<Rightarrow> 2048 - 5
      | FLASH_SIZE_128M_MAP_1024_1024 \<Rightarrow> 4096 - 5
      | _ \<Rightarrow> 0)"

section \<open>Start-up\<close>

text \<open>All state of the firmware.\<close>

record 'f system =
  sys_cfg :: "'f cfg_state"
  sys_client :: MQTT_Client
  sys_wifi :: wifi
  sys_board :: board

text \<open>
  \<open>user_init\<close>: the branch that starts the configuration page is switched off by \<open>if (0)\<close>. The
  strings are those in the arrays of the configuration; an array without terminator is undefined.
\<close>

definition user_init ::
  "'f flash_dev \<Rightarrow> env \<Rightarrow> cstring \<Rightarrow> 'f system \<Rightarrow> 'f system option" where
  "user_init d e client_name s =
     do {
       cfgs \<leftarrow> CFG_Load d client_name (sys_cfg s);
       let cfg = sysCfg cfgs;
       hst \<leftarrow> c_string (mqtt_host cfg);
       c \<leftarrow> MQTT_InitConnection e hst (mqtt_port cfg) 0 (sys_client s);
       dev \<leftarrow> c_string (device_id cfg);
       user \<leftarrow> c_string (mqtt_user cfg);
       pass \<leftarrow> c_string (mqtt_pass cfg);
       c \<leftarrow> MQTT_InitClient e dev (Some user) (Some pass) (mqtt_keepalive cfg) 1 c;
       let c = MQTT_OnConnected (Some 0) c;
       let c = MQTT_OnDisconnected (Some 1) c;
       let c = MQTT_OnPublished (Some 2) c;
       let c = MQTT_OnData (Some 0) c;
       ssid \<leftarrow> c_string (sta_ssid cfg);
       pwd \<leftarrow> c_string (sta_pwd cfg);
       w \<leftarrow> WIFI_Connect ssid pwd (Some 0) (sys_wifi s);
       Some (s\<lparr>sys_cfg := cfgs, sys_client := c, sys_wifi := w, sys_board := sleepInit (sys_board s)\<rparr>)
     }"

section \<open>The callbacks keep the client's invariant\<close>

lemma client_ok_app_env [simp]: "client_ok (app_env e) c = client_ok e c"
  by (simp add: client_ok_def state_ok_def app_env_def)

lemma env_bounds_app_env [simp]: "env_bounds (app_env e) = env_bounds e"
  by (simp add: env_bounds_def app_env_def)

lemma MQTT_Publish_app_env [simp]: "MQTT_Publish (app_env e) = MQTT_Publish e"
proof -
  have eq: "queue_or_evict (app_env e) = queue_or_evict e"
    by (rule ext) (simp add: queue_or_evict_def dataBuffer_def app_env_def)
  show ?thesis by (intro ext) (unfold MQTT_Publish_def eq, rule refl)
qed

lemma copy_string_ok:
  assumes "\<And>n. zalloc e n = Some (replicate n 0)" and "points_to p len bytes"
  shows "copy_string e p len = Some (bytes @ [0])"
proof -
  have len: "unat len = length bytes" using assms(2) by (simp add: points_to_def)
  have rd: "rd_block (case p of None \<Rightarrow> [] | Some b \<Rightarrow> b) 0 (length bytes) = Some bytes"
  proof (cases "bytes = []")
    case False
    then obtain m where "p = Some m" "take (length bytes) m = bytes"
      using assms(2) by (auto simp: points_to_def)
    then show ?thesis by (auto simp: rd_block_def dest: arg_cong [of _ _ length])
  qed (simp add: rd_block_def)
  have "drop n (replicate (n + 1) (0 :: u8)) = [0]" for n
    by (subst drop_replicate) simp
  then show ?thesis
    by (simp add: copy_string_def assms(1) len rd wr_block_def wr_def list_update_append
        del: replicate_Suc)
qed

lemma publish_keeps:
  assumes "client_ok e c" and "env_bounds e" and "int (length data) = n"
  shows "\<exists>r c'. MQTT_Publish e (Some topic) data n qos retain c = Some (r, c') \<and> client_ok e c' \<and>
           recv_state c' = recv_state c"
proof -
  obtain r c' where p: "MQTT_Publish e (Some topic) data (int (length data)) qos retain c = Some (r, c')"
    "client_ok e c'"
    using MQTT_Publish_ok [OF assms(1,2), of "Some topic" data qos retain] by blast
  from p(1) have "recv_state c' = recv_state c"
    by (auto simp: MQTT_Publish_def queue_or_evict_def Let_def recv_state_def set_pending_id_def
        set_conn_def emit_def split: if_splits Option.bind_splits prod.splits)
  with p assms(3) show ?thesis by simp
qed

lemma initlwt_keeps:
  assumes "client_ok e c" and z: "\<And>n. zalloc e n = Some (replicate n 0)"
    and "0 \<notin> set topic" and "0 \<notin> set msg"
  shows "\<exists>c'. MQTT_InitLWT e topic msg qos retain c = Some c' \<and> client_ok e c' \<and> recv_state c' = recv_state c"
proof -
  have "dup_string e topic = Some topic" "dup_string e msg = Some msg"
    using dup_string_ok [OF z] assms(3,4) by simp_all
  with assms(1) show ?thesis
    by (auto simp: MQTT_InitLWT_def client_ok_def will_ok_def recv_state_def)
qed

lemma lit_no_zero:
  "0 \<notin> set (lit ''/sensor/test/online'')" "0 \<notin> set (lit ''0'')"
  "int (length (lit ''1'')) = 1" "int (length (lit ''4500'')) = 4" "int (length (lit ''2500'')) = 4"
  by code_simp+

lemma mqttConnectedCb_ok:
  assumes "client_ok e c" and env: "env_bounds e" and z: "\<And>n. zalloc e n = Some (replicate n 0)"
  shows "\<exists>c'. mqttConnectedCb e c = Some c' \<and> client_ok e c' \<and> recv_state c' = recv_state c"
proof -
  obtain r1 c1 where 1: "MQTT_Publish e (Some (lit ''/sensor/test/online'')) (lit ''1'') 1 1 1 c = Some (r1, c1)"
    "client_ok e c1" "recv_state c1 = recv_state c"
    using publish_keeps [OF assms(1) env lit_no_zero(3)] by blast
  obtain c2 where 2: "MQTT_InitLWT e (lit ''/sensor/test/online'') (lit ''0'') 1 1 c1 = Some c2"
    "client_ok e c2" "recv_state c2 = recv_state c1"
    using initlwt_keeps [OF 1(2) z lit_no_zero(1,2)] by blast
  obtain r3 c3 where 3: "MQTT_Publish e (Some (lit ''/sensor/test/max'')) (lit ''4500'') 4 1 1 c2 = Some (r3, c3)"
    "client_ok e c3" "recv_state c3 = recv_state c2"
    using publish_keeps [OF 2(2) env lit_no_zero(4)] by blast
  obtain r4 c4 where 4: "MQTT_Publish e (Some (lit ''/sensor/test/min'')) (lit ''2500'') 4 1 1 c3 = Some (r4, c4)"
    "client_ok e c4" "recv_state c4 = recv_state c3"
    using publish_keeps [OF 3(2) env lit_no_zero(5)] by blast
  show ?thesis using 1 2 3 4 by (simp add: mqttConnectedCb_def)
qed

lemma mqttDataCb_ok:
  assumes "\<And>n. zalloc e n = Some (replicate n 0)" and "points_to t tn topic" and "points_to d dn data"
  shows "mqttDataCb e c t tn d dn = Some c"
  using copy_string_ok [OF assms(1,2)] copy_string_ok [OF assms(1,3)] by (simp add: mqttDataCb_def)

lemma app_env_callbacks [simp]:
  "run_cb (app_env e) f c = (if f = 0 then mqttConnectedCb e c
     else if f = 1 then mqttDisconnectedCb c else mqttPublishedCb c)"
  "run_data_cb (app_env e) f c t tn d dn = mqttDataCb e c t tn d dn"
  "zalloc (app_env e) = zalloc e"
  by (simp_all add: app_env_def)

lemma app_env_ok:
  assumes env: "env_bounds e" and z: "\<And>n. zalloc e n = Some (replicate n 0)"
  shows "env_ok (app_env e)"
proof -
  have cb: "\<exists>c'. run_cb (app_env e) f c = Some c' \<and> client_ok (app_env e) c' \<and> recv_state c' = recv_state c"
    if "client_ok (app_env e) c" for f c
    using mqttConnectedCb_ok [of e c] that env z
    by (simp add: mqttDisconnectedCb_def mqttPublishedCb_def)
  have data: "\<exists>c'. run_data_cb (app_env e) f c t tn d dn = Some c' \<and> client_ok (app_env e) c' \<and>
      recv_state c' = recv_state c"
    if "client_ok (app_env e) c" "points_to t tn topic" "points_to d dn data" for f c t tn d dn topic data
    using mqttDataCb_ok [OF z that(2,3)] that(1) by simp
  show ?thesis
    unfolding env_ok_def
  proof (intro conjI allI impI)
    show "env_bounds (app_env e)" using env by simp
    show "zalloc (app_env e) n = Some (replicate n 0)" for n by (simp add: z)
  qed (use cb data in blast)+
qed

section \<open>Safety of the client in this application\<close>

text \<open>
  The application is safe: with the callbacks of user_main.c - which publish, set the last
  will and copy every received message from inside a callback - no sequence of SDK events and API
  calls leads the MQTT client into undefined behaviour; the callbacks satisfy everything the
  client assumes of its environment, given an allocator that succeeds.
\<close>

lemma application_safe:
  assumes "env_bounds e" and "\<And>n. zalloc e n = Some (replicate n 0)" and "client_ok e c0"
    and "reachable (app_env e) c0 c" and "\<not> freed c" and "event_ok (app_env e) c ev"
  shows "env_ok (app_env e) \<and> client_ok e c \<and> (\<exists>c'. handle (app_env e) ev c = Some c')"
proof -
  have env: "env_ok (app_env e)" by (rule app_env_ok [OF assms(1,2)])
  have "client_ok (app_env e) c"
    using reachable_ok [OF assms(4) env] assms(3,5) by simp
  with handle_returns [OF env this assms(6)] env show ?thesis by auto
qed

end
