(* ===== verification/Sleep_Props.thy ===== *)
theory Sleep_Props
  imports Sleep Mqtt_System_Props
begin

text \<open>
  Properties of measuring and sleeping: the multiplexer selects the channel, the measurements are
  published under the right topics without leaving the string buffers, interrupts are debounced
  and every third one measures, and the chip sleeps only with an empty queue.
\<close>

section \<open>The multiplexer\<close>

text \<open>The meaning of \<open>gpio_output_set\<close>: levels and output enables of the pins.\<close>

fun gpio_apply :: "board_op \<Rightarrow> (nat \<Rightarrow> bool) \<times> (nat \<Rightarrow> bool) \<Rightarrow> (nat \<Rightarrow> bool) \<times> (nat \<Rightarrow> bool)" where
  "gpio_apply (Gpio_output_set s r en dis) (level, oe) =
     ((\<lambda>n. if bit s n then True else if bit r n then False else level n),
      (\<lambda>n. if bit en n then True else if bit dis n then False else oe n))"
| "gpio_apply _ st = st"

definition gpio_levels :: "board \<Rightarrow> (nat \<Rightarrow> bool) \<times> (nat \<Rightarrow> bool)" where
  "gpio_levels b = foldl (\<lambda>st op. gpio_apply op st) ((\<lambda>n. False), (\<lambda>n. False)) (board_trace b)"

definition gpio_pin :: "board \<Rightarrow> nat \<Rightarrow> bool option" where
  "gpio_pin b n = (if snd (gpio_levels b) n then Some (fst (gpio_levels b) n) else None)"

lemma gpio_levels_do: "gpio_levels (board_do op b) = gpio_apply op (gpio_levels b)"
  by (simp add: gpio_levels_def board_do_def)

lemma gpio_levels_gpio16 [simp]: "gpio_levels (gpio16_set v b) = gpio_levels b"
  by (simp add: gpio_levels_def gpio16_set_def)

lemma bit_BIT [simp]: "k < 32 \<Longrightarrow> bit (BIT k) n \<longleftrightarrow> n = k"
  unfolding BIT_def by (subst bit_push_bit_iff) (auto simp: bit_1_iff)

lemma gpio_pin_set:
  assumes "k < 32"
  shows "gpio_pin (board_do (Gpio_output_set (BIT k) 0 (BIT k) 0) b) n = (if n = k then Some True else gpio_pin b n)"
    and "gpio_pin (board_do (Gpio_output_set 0 (BIT k) (BIT k) 0) b) n = (if n = k then Some False else gpio_pin b n)"
  using assms by (cases "gpio_levels b"; simp add: gpio_pin_def gpio_levels_do)+

lemma gpio_pin_gpio16 [simp]: "gpio_pin (gpio16_set v b) n = gpio_pin b n"
  by (simp add: gpio_pin_def)

lemma and_1_bit: "w AND 1 \<noteq> 0 \<longleftrightarrow> bit w 0" for w :: u32
  by (simp add: and_one_eq bit_0 odd_iff_mod_2_eq_one)

lemma gpio16_pin_do [simp]: "gpio16_pin (rtc (board_do op b)) = gpio16_pin (rtc b)"
  by (simp add: board_do_def)

lemma gpio16_pin_gpio16_set: "gpio16_pin (rtc (gpio16_set v b)) = map_option (\<lambda>_. odd v) (gpio16_pin (rtc b))"
  by (simp add: gpio16_set_def gpio16_set_pin)

text \<open>
  The multiplexer: \<open>setADC\<close> drives the three select lines - GPIO16, GPIO12 and GPIO13 -
  with the three low bits of the channel number, and leaves every other pin as it was.
\<close>

lemma setADC_selects:
  "gpio16_pin (rtc (setADC index b)) = map_option (\<lambda>_. bit index 0) (gpio16_pin (rtc b)) \<and>
   gpio_pin (setADC index b) n =
     (if n = 12 then Some (bit index 1) else if n = 13 then Some (bit index 2) else gpio_pin b n)"
  by (auto simp: setADC_def Let_def and_1_bit bit_drop_bit_eq gpio_pin_set gpio16_pin_gpio16_set)

section \<open>Decimal numbers\<close>

lemma length_dec: "n < 10 ^ Suc k \<Longrightarrow> length (dec n) \<le> Suc k"
proof (induction k arbitrary: n)
  case 0
  then show ?case by (subst dec_simps) simp
next
  case (Suc k)
  have "n div 10 < 10 ^ Suc k" using Suc.prems by (simp add: less_mult_imp_div_less mult.commute)
  from Suc.IH [OF this] show ?case by (subst dec_simps) simp
qed

lemma dec_no_zero: "0 \<notin> set (dec n)"
proof (induction n rule: dec_rev.induct)
  case (1 n)
  have "uint (of_nat (48 + n mod 10) :: u8) \<noteq> 0" by (subst uint_digit) simp
  then have "(of_nat (48 + n mod 10) :: u8) \<noteq> 0" by auto
  with 1 show ?case by (subst dec_simps) auto
qed

section \<open>Publishing the measurements\<close>

definition adc_text :: "'d adc_env \<Rightarrow> SYSCFG \<Rightarrow> nat \<Rightarrow> cstring" where
  "adc_text a cfg ch = dec (unat (the (adc_value (adc_fp a) cfg ch (adc_samples a ch))))"

definition adc_message :: "'d adc_env \<Rightarrow> SYSCFG \<Rightarrow> cstring \<Rightarrow> nat \<Rightarrow> cstring \<times> cstring" where
  "adc_message a cfg root ch =
     (root @ the (adc_topic cfg ch), adc_text a cfg (if ch = 5 then 4 else ch))"

fun publish_all :: "env \<Rightarrow> (cstring \<times> cstring) list \<Rightarrow> MQTT_Client \<Rightarrow> MQTT_Client option" where
  "publish_all e [] c = Some c"
| "publish_all e ((topic, value) # ms) c =
     do { (_, c) \<leftarrow> MQTT_Publish e (Some topic) value (int (length value)) 1 1 c; publish_all e ms c }"

lemma publish_all_append:
  "publish_all e (ms @ ms') c = do { c \<leftarrow> publish_all e ms c; publish_all e ms' c }"
proof (induction ms arbitrary: c)
  case (Cons m ms)
  then show ?case by (cases m) (auto split: Option.bind_split option.split)
qed simp

lemma publish_all_ok:
  assumes "client_ok e c" and "env_bounds e"
  shows "\<exists>c'. publish_all e ms c = Some c' \<and> client_ok e c'"
  using assms(1)
proof (induction ms arbitrary: c)
  case (Cons m ms)
  obtain t v where m: "m = (t, v)" by (cases m)
  from MQTT_Publish_ok [OF Cons.prems assms(2), of "Some t" v 1 1] Cons.IH show ?case
    by (auto simp: m)
qed simp

text \<open>What a measurement relies on: terminated strings that fit, and defined casts.\<close>

definition adc_ok :: "'d adc_env \<Rightarrow> SYSCFG \<Rightarrow> cstring \<Rightarrow> bool" where
  "adc_ok a cfg root \<longleftrightarrow> c_string (mqtt_topicroot cfg) = Some root \<and> length root \<le> 63 \<and>
     map_option length (adc_malloc a 96) = Some 96 \<and> map_option length (adc_malloc a 8) = Some 8 \<and>
     list_all (\<lambda>ch. (case adc_topic cfg ch of None \<Rightarrow> False | Some t \<Rightarrow> length t \<le> 32) \<and>
       adc_value (adc_fp a) cfg ch (adc_samples a ch) \<noteq> None \<and>
       fp_to_uint (adc_fp a) (fp_div (adc_fp a) (adc_sum (adc_fp a) (adc_samples a ch))
         (fp_of_int (adc_fp a) (int adc_length))) \<noteq> None) [0..<8]"

lemma adc_okD:
  assumes "adc_ok a cfg root"
  shows "c_string (mqtt_topicroot cfg) = Some root" "length root \<le> 63" "0 \<notin> set root"
    and "ch < 8 \<Longrightarrow> \<exists>t. adc_topic cfg ch = Some t \<and> length t \<le> 32"
    and "ch < 8 \<Longrightarrow> \<exists>v. adc_value (adc_fp a) cfg ch (adc_samples a ch) = Some v"
    and "ch < 8 \<Longrightarrow> \<exists>v. fp_to_uint (adc_fp a) (fp_div (adc_fp a) (adc_sum (adc_fp a) (adc_samples a ch))
         (fp_of_int (adc_fp a) (int adc_length))) = Some v"
proof -
  show r: "c_string (mqtt_topicroot cfg) = Some root" "length root \<le> 63"
    using assms by (simp_all add: adc_ok_def)
  show "0 \<notin> set root" by (rule c_string_no_zero [OF r(1)])
  have all: "(case adc_topic cfg ch of None \<Rightarrow> False | Some t \<Rightarrow> length t \<le> 32) \<and>
      adc_value (adc_fp a) cfg ch (adc_samples a ch) \<noteq> None \<and>
      fp_to_uint (adc_fp a) (fp_div (adc_fp a) (adc_sum (adc_fp a) (adc_samples a ch))
        (fp_of_int (adc_fp a) (int adc_length))) \<noteq> None" if "ch < 8"
    using assms that unfolding adc_ok_def list_all_iff by (elim conjE) (drule bspec [of _ _ ch]; simp)
  show "\<exists>t. adc_topic cfg ch = Some t \<and> length t \<le> 32" if "ch < 8"
    using all [OF that] by (auto split: option.splits)
  show "\<exists>v. adc_value (adc_fp a) cfg ch (adc_samples a ch) = Some v" if "ch < 8"
    using all [OF that] by auto
  show "\<exists>v. fp_to_uint (adc_fp a) (fp_div (adc_fp a) (adc_sum (adc_fp a) (adc_samples a ch))
         (fp_of_int (adc_fp a) (int adc_length))) = Some v" if "ch < 8"
    using all [OF that] by auto
qed

lemma adc_topic_no_zero: "ch < 8 \<Longrightarrow> adc_topic cfg ch = Some t \<Longrightarrow> 0 \<notin> set t"
proof -
  assume "ch < 8" and t: "adc_topic cfg ch = Some t"
  have lits: "0 \<notin> set (lit ''/ChargeSupply'')" "0 \<notin> set (lit ''/RegulatedChargeSupply'')"
    "0 \<notin> set (lit ''/BatteryVoltage'')" "0 \<notin> set (lit ''/Regulated3.3V'')"
    by code_simp+
  have "ch = 0 \<or> ch = 1 \<or> ch = 2 \<or> ch = 3 \<or> ch = 4 \<or> ch = 5 \<or> ch = 6 \<or> ch = 7" using \<open>ch < 8\<close> by auto
  with t lits show "0 \<notin> set t" by (auto simp: adc_topic_def dest: c_string_no_zero)
qed

text \<open>
  What the operations of the board leave alone, apart from the pins: the counters, the sleep
  commands given to the SDK, and the memory that has been allocated (nothing is ever freed).
\<close>

definition sleep_ops :: "board \<Rightarrow> board_op list" where
  "sleep_ops b = filter (\<lambda>op. case op of Set_sleep_type _ \<Rightarrow> True | _ \<Rightarrow> False) (board_trace b)"

definition allocated :: "board \<Rightarrow> nat" where
  "allocated b = sum_list (map (\<lambda>op. case op of Os_malloc n \<Rightarrow> n | _ \<Rightarrow> 0) (board_trace b))"

definition board_kept :: "board \<Rightarrow> board \<Rightarrow> bool" where
  "board_kept b b' \<longleftrightarrow> counter b' = counter b \<and> wakeCount b' = wakeCount b \<and>
     client_known b' = client_known b \<and> sleep_ops b' = sleep_ops b \<and> allocated b' = allocated b"

lemmas board_kept_defs = board_kept_def sleep_ops_def allocated_def board_do_def gpio16_set_def

lemma board_kept_refl [simp]: "board_kept b b"
  by (simp add: board_kept_def)

lemma board_kept_trans [trans]: "board_kept a b \<Longrightarrow> board_kept b c \<Longrightarrow> board_kept a c"
  by (simp add: board_kept_def)

lemma setADC_kept: "board_kept b (setADC n b)"
  by (simp add: setADC_def Let_def board_kept_defs)

text \<open>The two strings in their blocks; after channel 4 the value is that of channel 4.\<close>

definition adc_blocks :: "'d adc_env \<Rightarrow> SYSCFG \<Rightarrow> nat \<Rightarrow> u8 list \<Rightarrow> u8 list \<Rightarrow> bool" where
  "adc_blocks a cfg ch topic value \<longleftrightarrow> length topic = 96 \<and> length value = 8 \<and>
     (ch = 5 \<longrightarrow> c_string value = Some (adc_text a cfg 4))"

lemma adc_channel_publishes:
  assumes ok: "adc_ok a cfg root" and "ch < 8" and blocks: "adc_blocks a cfg ch topic value"
  shows "\<exists>b' topic' value'. board_kept b b' \<and> adc_blocks a cfg (Suc ch) topic' value' \<and>
           adc_channel a e cfg ch (b, c, topic, value) =
             map_option (\<lambda>c'. (b', c', topic', value')) (publish_all e [adc_message a cfg root ch] c)"
proof -
  obtain t v w where t: "adc_topic cfg ch = Some t" "length t \<le> 32"
    and v: "adc_value (adc_fp a) cfg ch (adc_samples a ch) = Some v"
    and w: "fp_to_uint (adc_fp a) (fp_div (adc_fp a) (adc_sum (adc_fp a) (adc_samples a ch))
         (fp_of_int (adc_fp a) (int adc_length))) = Some w"
    using adc_okD [OF ok] assms(2) by meson
  note root = adc_okD(1-3) [OF ok]
  have tz: "0 \<notin> set t" by (rule adc_topic_no_zero [OF assms(2) t(1)])
  have len: "length topic = 96" "length value = 8" using blocks by (simp_all add: adc_blocks_def)
  have tx: "adc_text a cfg ch = dec (unat v)" by (simp add: adc_text_def v)
  define value' where "value' = (if ch = 5 then value else dec (unat v) @ 0 # drop (Suc (length (dec (unat v)))) value)"
  define topic' where "topic' = (root @ t) @ 0 # drop (length t) (drop (Suc (length root)) topic)"
  have "unat v < 2 ^ LENGTH(16)" by (rule unsigned_less)
  then have dl: "length (dec (unat v)) \<le> 5" using length_dec [of "unat v" 4] by simp
  have cv: "(if ch = 5 then Some value else c_strcpy value (dec (unat v))) = Some value'"
    using dl len by (simp add: value'_def c_strcpy_fits)
  have sv: "c_string value' = Some (adc_text a cfg (if ch = 5 then 4 else ch))"
    using blocks tx dec_no_zero [of "unat v"] by (simp add: value'_def adc_blocks_def)
  have ct: "c_strcpy topic root = Some (root @ 0 # drop (Suc (length root)) topic)"
    using root(2) len by (intro c_strcpy_fits) simp
  have "length t \<le> length (drop (Suc (length root)) topic)" using t(2) root(2) len by simp
  then have cc: "c_strcat (root @ 0 # drop (Suc (length root)) topic) t = Some topic'"
    unfolding topic'_def by (rule c_strcat_fits [OF root(3)])
  have st: "c_string topic' = Some (root @ t)"
    using root(3) tz by (simp add: topic'_def del: append_assoc)
  let ?b = "board_do Intr_unlock (board_do (Adc_read_fast adc_length 8) (board_do Intr_lock
      (board_do (Delay_us 100) (setADC (of_nat ch) b))))"
  have "board_kept (setADC (of_nat ch) b) ?b" by (simp add: board_kept_defs)
  then have "board_kept b ?b" by (rule board_kept_trans [OF setADC_kept])
  moreover have "adc_blocks a cfg (Suc ch) topic' value'"
    using sv len dl t(2) root(2) by (auto simp: adc_blocks_def topic'_def value'_def)
  moreover have "adc_channel a e cfg ch (b, c, topic, value) =
      map_option (\<lambda>c'. (?b, c', topic', value')) (publish_all e [adc_message a cfg root ch] c)"
    using t(1) v w root(1) cv sv ct cc st
    by (simp add: adc_channel_def Let_def adc_message_def split: Option.bind_split)
  ultimately show ?thesis by blast
qed

lemma adc_loop_publishes:
  assumes ok: "adc_ok a cfg root" and "ch \<le> 8" and "adc_blocks a cfg ch topic value"
  shows "\<exists>b' topic' value'. board_kept b b' \<and> length topic' = 96 \<and> length value' = 8 \<and>
           adc_loop a e cfg [ch..<8] (b, c, topic, value) =
             map_option (\<lambda>c'. (b', c', topic', value'))
               (publish_all e (map (adc_message a cfg root) [ch..<8]) c)"
  using assms(2,3)
proof (induction "8 - ch" arbitrary: ch b c topic "value")
  case 0
  then show ?case
    by (intro exI [of _ b] exI [of _ topic] exI [of _ "value"]) (simp add: adc_blocks_def)
next
  case (Suc n)
  then have lt: "ch < 8" by simp
  from adc_channel_publishes [OF ok lt Suc.prems(2), of b e c] obtain b1 t1 v1 where
    s: "board_kept b b1" "adc_blocks a cfg (Suc ch) t1 v1"
    "adc_channel a e cfg ch (b, c, topic, value) =
      map_option (\<lambda>c'. (b1, c', t1, v1)) (publish_all e [adc_message a cfg root ch] c)" by blast
  have up: "[ch..<8] = ch # [Suc ch..<8]" using lt by (rule upt_conv_Cons)
  show ?case
  proof (cases "publish_all e [adc_message a cfg root ch] c")
    case None
    have "publish_all e (map (adc_message a cfg root) [ch..<8]) c = None"
      using publish_all_append [of e "[adc_message a cfg root ch]" "map (adc_message a cfg root) [Suc ch..<8]" c]
      by (simp add: up None)
    with s(3) None Suc.prems(2) show ?thesis
      by (intro exI [of _ b] exI [of _ topic] exI [of _ "value"]) (simp add: up adc_blocks_def)
  next
    case (Some c1)
    have "n = 8 - Suc ch" "Suc ch \<le> 8" using Suc.hyps(2) lt by simp_all
    from Suc.hyps(1) [OF this s(2), of b1 c1] s(2,3) board_kept_trans [OF s(1)]
      publish_all_append [of e "[adc_message a cfg root ch]" "map (adc_message a cfg root) [Suc ch..<8]" c]
    show ?thesis by (simp add: up Some) blast
  qed
qed

lemma dec_signed_small: "unat w < 10 ^ 7 \<Longrightarrow> dec_signed w = dec (unat w) \<and> length (dec_signed w) \<le> 7"
proof -
  assume w: "unat w < 10 ^ 7"
  then have "int (unat w) < int (10 ^ 7)" by (simp only: of_nat_less_iff)
  then have u: "uint w < 10000000" by simp
  have p: "0 \<le> uint w" by simp
  have "signed_take_bit 31 (uint w) = uint w"
  proof (rule signed_take_bit_int_eq_self)
    show "- (2 ^ 31) \<le> uint w" by (rule order_trans [OF _ p]) simp
    show "uint w < 2 ^ 31" by (rule less_trans [OF u]) simp
  qed
  then have "sint w = int (unat w)" by (simp add: sint_uint)
  then show "dec_signed w = dec (unat w) \<and> length (dec_signed w) \<le> 7"
    using length_dec [of "unat w" 6] w by (simp add: dec_signed_def)
qed

definition adc_messages :: "'d adc_env \<Rightarrow> SYSCFG \<Rightarrow> cstring \<Rightarrow> u32 \<Rightarrow> (cstring \<times> cstring) list" where
  "adc_messages a cfg root count =
     map (adc_message a cfg root) [0..<8] @ [(root @ lit ''/Counter'', dec (unat count))]"

lemma sendADCData_publishes:
  assumes "adc_ok a cfg root" and "client_ok e c" and "env_bounds e"
    and "unat (counter b + 1) < 10 ^ 7"
  shows "\<exists>b' c'. sendADCData a e cfg b c = Some (b', c') \<and> counter b' = counter b + 1 \<and>
           wakeCount b' = wakeCount b \<and> client_known b' = client_known b \<and>
           sleep_ops b' = sleep_ops b \<and> allocated b' = allocated b + 104 \<and>
           publish_all e (adc_messages a cfg root (counter b + 1)) c = Some c' \<and> client_ok e c'"
proof -
  note root = adc_okD(1-3) [OF assms(1)]
  obtain t0 v0 where mem: "adc_malloc a 96 = Some t0" "length t0 = 96" "adc_malloc a 8 = Some v0" "length v0 = 8"
    using assms(1) by (auto simp: adc_ok_def)
  let ?b0 = "board_do (Delay_us 100) (board_do (Gpio_output_set 0 (BIT 15) (BIT 15) 0)
    (board_do (Os_malloc 8) (board_do (Os_malloc 96) b)))"
  have "adc_blocks a cfg 0 t0 v0" using mem by (simp add: adc_blocks_def)
  from adc_loop_publishes [OF assms(1) _ this, of ?b0 e c] obtain b1 t1 v1 where
    l: "board_kept ?b0 b1" "length t1 = 96" "length v1 = 8"
    "adc_loop a e cfg [0..<8] (?b0, c, t0, v0) =
      map_option (\<lambda>c'. (b1, c', t1, v1)) (publish_all e (map (adc_message a cfg root) [0..<8]) c)"
    by auto
  obtain c1 where c1: "publish_all e (map (adc_message a cfg root) [0..<8]) c = Some c1" "client_ok e c1"
    using publish_all_ok [OF assms(2,3)] by blast
  define n where "n = dec (unat (counter b + 1))"
  have n: "dec_signed (counter b + 1) = n" "length n \<le> 7" "0 \<notin> set n"
    using dec_signed_small [OF assms(4)] dec_no_zero by (auto simp: n_def)
  define v2 where "v2 = n @ 0 # drop (Suc (length n)) v1"
  have v2: "c_strcpy v1 n = Some v2" "c_string v2 = Some n"
    using n l(3) by (simp_all add: v2_def c_strcpy_fits)
  define t2 where "t2 = (root @ lit ''/Counter'') @ 0 # drop (length (lit ''/Counter'')) (drop (Suc (length root)) t1)"
  have lz: "0 \<notin> set (lit ''/Counter'')" "length (lit ''/Counter'') = 8" by code_simp+
  have ct: "c_strcpy t1 root = Some (root @ 0 # drop (Suc (length root)) t1)"
    using root(2) l(2) by (intro c_strcpy_fits) simp
  have "length (lit ''/Counter'') \<le> length (drop (Suc (length root)) t1)" using lz(2) root(2) l(2) by simp
  then have cc: "c_strcat (root @ 0 # drop (Suc (length root)) t1) (lit ''/Counter'') = Some t2"
    unfolding t2_def by (rule c_strcat_fits [OF root(3)])
  have st: "c_string t2 = Some (root @ lit ''/Counter'')"
    using root(3) lz(1) by (simp add: t2_def del: append_assoc)
  obtain r c2 where c2: "MQTT_Publish e (Some (root @ lit ''/Counter'')) n (int (length n)) 1 1 c1 = Some (r, c2)"
    "client_ok e c2"
    using MQTT_Publish_ok [OF c1(2) assms(3)] by blast
  have l0: "counter b1 = counter b" "wakeCount b1 = wakeCount b" "client_known b1 = client_known b"
    "sleep_ops b1 = sleep_ops b" "allocated b1 = allocated b + 104"
    using l(1) by (simp_all add: board_kept_defs)
  let ?b2 = "(board_do (Gpio_output_set (BIT 15) 0 (BIT 15) 0) b1)\<lparr>counter := counter b + 1\<rparr>"
  have "sendADCData a e cfg b c = Some (?b2, c2)"
    using mem l c1 n(1) l0(1) v2 ct cc st root(1) c2(1) by (simp add: sendADCData_def Let_def board_do_def)
  moreover have "publish_all e (adc_messages a cfg root (counter b + 1)) c = Some c2"
    using c1(1) c2(1) by (simp add: adc_messages_def publish_all_append n_def)
  moreover have "sleep_ops ?b2 = sleep_ops b" "allocated ?b2 = allocated b + 104"
    using l0(4,5) by (simp_all add: board_kept_defs)
  ultimately show ?thesis using c2(2) l0(2,3)
    by (intro exI [of _ ?b2] exI [of _ c2]) (simp add: board_do_def)
qed

text \<open>
  C20. A measurement publishes nine messages: for each of the eight channels, in order, the scaled
  mean under topic root and channel topic, then the number of measurements - all with QoS 1 and
  retained, and without leaving the buffers of 96 and 8 bytes as long as the topic root has at
  most 63 characters, the channel topics at most 32 and the count at most seven digits. Channel 5
  is the exception: its value is never printed, so it publishes the value of channel 4 again. And the two buffers are never
  freed: every measurement leaks 104 bytes.
\<close>

theorem measurement_published:
  assumes "adc_ok a cfg root" and "client_ok e c" and "env_bounds e"
    and "unat (counter b + 1) < 10 ^ 7"
  shows "\<exists>b' c'. sendADCData a e cfg b c = Some (b', c') \<and> counter b' = counter b + 1 \<and>
           allocated b' = allocated b + 104 \<and>
           publish_all e (adc_messages a cfg root (counter b + 1)) c = Some c' \<and> client_ok e c' \<and>
           snd (adc_message a cfg root 5) = snd (adc_message a cfg root 4)"
  using sendADCData_publishes [of a cfg root e c b, OF assms] by (auto simp: adc_message_def)

text \<open>An instance: whole numbers as doubles, samples that depend on the channel.\<close>

definition fp0 :: "int fp" where
  "fp0 = \<lparr>fp_of_int = id, fp_4_3 = 4, fp_of_bytes = (\<lambda>b. 2), fp_add = (+), fp_mul = (*),
          fp_div = (div), fp_to_uint = (\<lambda>x. Some (word_of_int x))\<rparr>"

definition adc0 :: "int adc_env" where
  "adc0 = \<lparr>adc_malloc = (\<lambda>n. Some (replicate n 0xAA)), adc_samples = (\<lambda>ch. replicate 1024 (of_nat ch)),
           adc_fp = fp0\<rparr>"

definition cfg1 :: SYSCFG where
  "cfg1 = cfg0\<lparr>mqtt_topicroot := lit ''/home'' @ replicate 59 0, mqtt_topicadc0 := lit ''/a'' @ replicate 30 0,
     mqtt_topicadc1 := lit ''/b'' @ replicate 30 0, mqtt_topicadc2 := lit ''/c'' @ replicate 30 0,
     mqtt_topicadc3 := lit ''/d'' @ replicate 30 0\<rparr>"

lemma adc0: "adc_ok adc0 cfg1 (lit ''/home'')"
proof -
  have root: "c_string (mqtt_topicroot cfg1) = Some (lit ''/home'')" "length (lit ''/home'') \<le> 63"
    by code_simp+
  have topics: "list_all (\<lambda>ch. case adc_topic cfg1 ch of None \<Rightarrow> False | Some t \<Rightarrow> length t \<le> 32) [0..<8]"
    by code_simp
  show ?thesis
    using root topics
    by (simp add: adc_ok_def list_all_iff adc_value_def) (simp add: adc0_def fp0_def)
qed

theorem measurement_published_witness:
  "\<exists>b' c'. sendADCData adc0 env0 cfg1 (board_init (\<lambda>_. 0)) online0 = Some (b', c') \<and>
     counter b' = counter (board_init (\<lambda>_. 0)) + 1 \<and>
     allocated b' = allocated (board_init (\<lambda>_. 0)) + 104 \<and>
     publish_all env0 (adc_messages adc0 cfg1 (lit ''/home'') (counter (board_init (\<lambda>_. 0)) + 1)) online0 =
       Some c' \<and> client_ok env0 c' \<and>
     snd (adc_message adc0 cfg1 (lit ''/home'') 5) = snd (adc_message adc0 cfg1 (lit ''/home'') 4)"
  by (rule measurement_published [OF adc0 online0(1)])
    (simp_all add: env0_def env_bounds_def board_init_def)

section \<open>Sleeping\<close>

text \<open>
  \<open>goToSleep\<close> switches to light sleep when the ring buffer of the queue is empty, and otherwise
  comes back in 500 ms and lets the client's timer run every 100 ms.
\<close>

lemma goToSleep_ring:
  assumes "client_ok e c"
  shows "goToSleep b c =
     (if rb_contents (rb (msgQueue c)) = []
      then (b\<lparr>board_trace := board_trace b @ [Board_timer_disarm GoToSleep_timer, Set_sleep_type LIGHT_SLEEP_T]\<rparr>,
            c\<lparr>trace := trace c @ [Timer_disarm]\<rparr>)
      else (b\<lparr>board_trace := board_trace b @ [Board_timer_disarm GoToSleep_timer,
                Board_timer_arm GoToSleep_timer 500 False]\<rparr>,
            c\<lparr>trace := trace c @ [Timer_disarm, Timer_arm 100 True]\<rparr>))"
proof -
  have "rb_wf (rb (msgQueue c))" using assms by (simp add: client_ok_def msg_queue_ok_def queue_inv_def)
  then have "fill_cnt (rb (msgQueue c)) = int (length (rb_contents (rb (msgQueue c))))"
    by (simp add: rb_wf_def)
  then have "fill_cnt (rb (msgQueue c)) > 0 \<longleftrightarrow> rb_contents (rb (msgQueue c)) \<noteq> []"
    by (cases "rb_contents (rb (msgQueue c))") (simp_all del: length_rb_contents)
  then show ?thesis by (simp add: goToSleep_def Let_def board_do_def emit_def)
qed

text \<open>Whatever is left in a ring without a message, the next run of the task removes.\<close>

lemma task_empties_ring:
  assumes ok: "client_ok e c" and env: "env_bounds e" and "connState c = MQTT_DATA"
    and "sendTimeout c = 0" and "queue_msgs (msgQueue c) = []"
  shows "\<exists>c'. MQTT_Task e c = Some c' \<and> client_ok e c' \<and> rb_contents (rb (msgQueue c')) = [] \<and>
           sent c' = sent c"
proof (cases "QUEUE_IsEmpty (msgQueue c)")
  case True
  then have "length (rb_contents (rb (msgQueue c))) = 0" by (simp add: QUEUE_IsEmpty_def)
  then have "rb_contents (rb (msgQueue c)) = []" by (simp only: length_0_conv)
  moreover have "MQTT_Task e c = Some c" using True assms(3) by (simp add: MQTT_Task_def task_send_def)
  ultimately show ?thesis using ok by blast
next
  case False
  have qi: "queue_inv (msgQueue c)" using ok by (simp add: client_ok_def msg_queue_ok_def)
  have len: "unat (of_nat (MQTT_BUF_SIZE e) :: u16) \<le> length (dataBuffer e)"
    by (simp add: buffer_length_word [OF env])
  from QUEUE_Gets_none [OF qi assms(5) len, of "junk_parser e" "junk_len e"] obtain buf q' where
    g: "QUEUE_Gets (junk_parser e) (msgQueue c) (dataBuffer e) (junk_len e) (of_nat (MQTT_BUF_SIZE e)) =
      Some (-1, buf, junk_len e, q')" "rb_contents (rb q') = []" by blast
  have task: "MQTT_Task e c = Some (c\<lparr>msgQueue := q'\<rparr>)"
    using g(1) False assms(3,4) by (simp add: MQTT_Task_def task_send_def)
  moreover have "client_ok e (c\<lparr>msgQueue := q'\<rparr>)"
    using task_send_ok [OF ok env] task assms(3) by (auto simp: MQTT_Task_def)
  ultimately show ?thesis using g(2) by (auto simp: sent_def)
qed

text \<open>
  C19. The chip sleeps once everything is sent, and not before: while a message is queued,
  \<open>goToSleep\<close> only comes back in 500 ms; after as many rounds of the client's task and the SDK's
  sent callback as there were messages, and one more run of the task, it switches to light
  sleep - and by then exactly the queued messages have been sent, in order.
\<close>

theorem sleeps_after_sending:
  assumes "client_ok e c" and "env_bounds e" and "connState c = MQTT_DATA"
    and "sendTimeout c = 0" and "published_quiet e c"
  shows "\<exists>c1 c2.
     (queue_msgs (msgQueue c) \<noteq> [] \<longrightarrow>
        board_trace (fst (goToSleep b c)) =
          board_trace b @ [Board_timer_disarm GoToSleep_timer, Board_timer_arm GoToSleep_timer 500 False]) \<and>
     drain e (length (queue_msgs (msgQueue c))) (snd (goToSleep b c)) = Some c1 \<and>
     MQTT_Task e c1 = Some c2 \<and>
     board_trace (fst (goToSleep b' c2)) =
       board_trace b' @ [Board_timer_disarm GoToSleep_timer, Set_sleep_type LIGHT_SLEEP_T] \<and>
     sent c2 = sent c @ map (\<lambda>m. send_of c (take (MQTT_BUF_SIZE e) m)) (queue_msgs (msgQueue c))"
proof -
  define t where
    "t = (if rb_contents (rb (msgQueue c)) = [] then [Timer_disarm] else [Timer_disarm, Timer_arm 100 True])"
  have c0: "snd (goToSleep b c) = c\<lparr>trace := trace c @ t\<rparr>" "filter is_send t = []"
    by (simp_all add: goToSleep_ring [OF assms(1)] t_def is_send_def)
  define c0 where "c0 = c\<lparr>trace := trace c @ t\<rparr>"
  have ok0: "client_ok e c0" "connState c0 = MQTT_DATA" "sendTimeout c0 = 0" "published_quiet e c0"
    using assms by (simp_all add: c0_def published_quiet_def)
  obtain c1 where c1: "drain e (length (queue_msgs (msgQueue c0))) c0 = Some c1" "client_ok e c1"
    "queue_msgs (msgQueue c1) = []" "connState c1 = MQTT_DATA" "sendTimeout c1 = 0"
    "sent c1 = sent c0 @ map (\<lambda>m. send_of c0 (take (MQTT_BUF_SIZE e) m)) (queue_msgs (msgQueue c0))"
    using drain_sends_all [OF ok0(1) assms(2) ok0(2-4)] by blast
  obtain c2 where c2: "MQTT_Task e c1 = Some c2" "client_ok e c2" "rb_contents (rb (msgQueue c2)) = []"
    "sent c2 = sent c1"
    using task_empties_ring [OF c1(2) assms(2) c1(4,5,3)] by blast
  have "queue_msgs (msgQueue c) \<noteq> [] \<Longrightarrow> rb_contents (rb (msgQueue c)) \<noteq> []"
    by (auto simp: queue_msgs_def messages_def)
  moreover have "sent c0 = sent c" "send_of c0 = send_of c" "msgQueue c0 = msgQueue c"
    using c0(2) by (simp_all add: c0_def sent_def send_of_def fun_eq_iff)
  ultimately show ?thesis
    using c0(1) c1(1,6) c2 by (simp add: c0_def [symmetric] goToSleep_ring [OF assms(1)] goToSleep_ring [OF c2(2)])
qed

theorem sleeps_after_sending_witness:
  "\<exists>c1 c2.
     (queue_msgs (msgQueue busy0) \<noteq> [] \<longrightarrow>
        board_trace (fst (goToSleep (board_init (\<lambda>_. 0)) busy0)) = board_trace (board_init (\<lambda>_. 0)) @
          [Board_timer_disarm GoToSleep_timer, Board_timer_arm GoToSleep_timer 500 False]) \<and>
     drain env0 (length (queue_msgs (msgQueue busy0))) (snd (goToSleep (board_init (\<lambda>_. 0)) busy0)) = Some c1 \<and>
     MQTT_Task env0 c1 = Some c2 \<and>
     board_trace (fst (goToSleep (board_init (\<lambda>_. 1)) c2)) = board_trace (board_init (\<lambda>_. 1)) @
       [Board_timer_disarm GoToSleep_timer, Set_sleep_type LIGHT_SLEEP_T] \<and>
     sent c2 = sent busy0 @ map (\<lambda>m. send_of busy0 (take (MQTT_BUF_SIZE env0) m)) (queue_msgs (msgQueue busy0))"
  by (rule sleeps_after_sending) (simp_all only: busy0 published_none, simp add: env0_def env_bounds_def)

section \<open>Waking\<close>

text \<open>An interrupt: WiFi status, interrupt status and the two readings of the RTC.\<close>

type_synonym irq = "u8 \<times> u32 \<times> u32 \<times> u32"

fun interrupts ::
  "(nat \<Rightarrow> u8 \<Rightarrow> 'w \<Rightarrow> 'w option) \<Rightarrow> irq list \<Rightarrow> board \<times> wifi \<times> 'w \<Rightarrow> (board \<times> wifi \<times> 'w) option" where
  "interrupts run [] st = Some st"
| "interrupts run ((status, gs, now, later) # irqs) (b, wx) =
     do { st \<leftarrow> sleepWakeOnInterruptHandeler run status gs now later b wx; interrupts run irqs st }"

text \<open>The interrupts that are not bounces.\<close>

fun accepted :: "u32 \<Rightarrow> irq list \<Rightarrow> nat" where
  "accepted l [] = 0"
| "accepted l ((status, gs, now, later) # irqs) =
     (if now - l < 10000 then accepted l irqs else Suc (accepted later irqs))"

definition measures :: "board \<Rightarrow> nat" where
  "measures b = length (filter ((=) (Board_timer_arm ReadADC_timer 10 False)) (board_trace b))"

lemma wifi_check_ip_returns:
  assumes "\<And>f s x. run f s x \<noteq> None"
  shows "\<exists>wx'. wifi_check_ip run status wx = Some wx'"
proof -
  obtain w x where wx: "wx = (w, x)" by (cases wx)
  show ?thesis
  proof (cases "wifiCb w")
    case None
    then show ?thesis by (simp add: wx wifi_check_ip_def Let_def if_same wifi_do_def)
  next
    case (Some f)
    obtain y where "run f status x = Some y" using assms [of f status x] by blast
    from wifi_check_ip_run [of w f run status x y, OF Some this] show ?thesis by (simp add: wx)
  qed
qed

lemma wake_step:
  assumes "\<And>f s x. run f s x \<noteq> None" and "wakeCount b = of_nat k" and "k < 3"
  shows "\<exists>b' wx'. sleepWakeOnInterruptHandeler run status gs now later b wx = Some (b', wx') \<and>
     (if now - lastWakeTime b < 10000
      then wakeCount b' = of_nat k \<and> measures b' = measures b \<and> lastWakeTime b' = lastWakeTime b
      else wakeCount b' = of_nat (Suc k mod 3) \<and> measures b' = measures b + Suc k div 3 \<and> lastWakeTime b' = later)"
proof -
  obtain wx' where "wifi_check_ip run status wx = Some wx'"
    using wifi_check_ip_returns [of run status wx, OF assms(1)] by blast
  moreover have "k = 0 \<or> k = 1 \<or> k = 2" using assms(3) by auto
  moreover have "\<not> (3 :: u32) \<le> 1" "\<not> (3 :: u32) \<le> 2" by code_simp+
  ultimately show ?thesis
    using assms(2)
    by (auto simp: sleepWakeOnInterruptHandeler_def Let_def board_do_def measures_def)
qed

lemma interrupts_measure:
  assumes "\<And>f s x. run f s x \<noteq> None" and "wakeCount b = of_nat k" and "k < 3"
  shows "\<exists>b' wx'. interrupts run irqs (b, wx) = Some (b', wx') \<and>
           wakeCount b' = of_nat ((k + accepted (lastWakeTime b) irqs) mod 3) \<and>
           measures b' = measures b + (k + accepted (lastWakeTime b) irqs) div 3"
  using assms(2,3)
proof (induction irqs arbitrary: b k wx)
  case Nil
  then show ?case by simp
next
  case (Cons i irqs)
  obtain status gs now later where i: "i = (status, gs, now, later)" by (cases i)
  from wake_step [of run b k status gs now later wx, OF assms(1) Cons.prems] obtain b1 wx1 where
    s: "sleepWakeOnInterruptHandeler run status gs now later b wx = Some (b1, wx1)"
    "if now - lastWakeTime b < 10000
      then wakeCount b1 = of_nat k \<and> measures b1 = measures b \<and> lastWakeTime b1 = lastWakeTime b
      else wakeCount b1 = of_nat (Suc k mod 3) \<and> measures b1 = measures b + Suc k div 3 \<and> lastWakeTime b1 = later"
    by blast
  show ?case
  proof (cases "now - lastWakeTime b < 10000")
    case True
    with s Cons.IH [of b1 k wx1] Cons.prems show ?thesis by (auto simp: i)
  next
    case False
    define n where "n = accepted later irqs"
    have s1: "wakeCount b1 = of_nat (Suc k mod 3)" "measures b1 = measures b + Suc k div 3"
      "lastWakeTime b1 = later" using s(2) False by simp_all
    from Cons.IH [OF s1(1), of wx1] s1(3) obtain b2 wx2 where
      r: "interrupts run irqs (b1, wx1) = Some (b2, wx2)"
      "wakeCount b2 = of_nat ((Suc k mod 3 + n) mod 3)" "measures b2 = measures b1 + (Suc k mod 3 + n) div 3"
      by (auto simp: n_def)
    have "(Suc k mod 3 + n) mod 3 = (k + Suc n) mod 3" by (simp add: mod_add_left_eq)
    moreover have "Suc k div 3 + (Suc k mod 3 + n) div 3 = (k + Suc n) div 3"
      by presburger
    moreover have "accepted (lastWakeTime b) (i # irqs) = Suc n" using False by (simp add: i n_def)
    ultimately show ?thesis using s(1) r s1(2) by (simp add: i)
  qed
qed

text \<open>
  C21. Waking: interrupts that come less than 10000 RTC ticks after the last accepted one are
  bounces and only cleared - also when the 32-bit tick counter wraps around; of the others every
  third one starts exactly one measurement, whatever happened before.
\<close>

theorem every_third_wake_measures:
  assumes "\<And>f s x. run f s x \<noteq> None" and "wakeCount b = of_nat k" and "k < 3"
  shows "\<exists>b' wx'. interrupts run irqs (b, wx) = Some (b', wx') \<and>
           wakeCount b' = of_nat ((k + accepted (lastWakeTime b) irqs) mod 3) \<and>
           measures b' = measures b + (k + accepted (lastWakeTime b) irqs) div 3"
  using interrupts_measure [of run b k irqs wx] assms by blast

theorem every_third_wake_measures_witness:
  "\<exists>b' wx'. interrupts (\<lambda>f s x. Some x) [(5, 1, 20000, 20001), (5, 1, 20100, 20101), (5, 1, 40000, 40001),
        (5, 1, 70000, 70001), (5, 1, 90000, 90001)] (board_init (\<lambda>_. 0), wifi_init, ()) = Some (b', wx') \<and>
     wakeCount b' = of_nat ((0 + accepted (lastWakeTime (board_init (\<lambda>_. 0))) [(5, 1, 20000, 20001),
        (5, 1, 20100, 20101), (5, 1, 40000, 40001), (5, 1, 70000, 70001), (5, 1, 90000, 90001)]) mod 3) \<and>
     measures b' = measures (board_init (\<lambda>_. 0)) + (0 + accepted (lastWakeTime (board_init (\<lambda>_. 0)))
        [(5, 1, 20000, 20001), (5, 1, 20100, 20101), (5, 1, 40000, 40001), (5, 1, 70000, 70001),
         (5, 1, 90000, 90001)]) div 3"
  by (rule every_third_wake_measures) (simp_all add: board_init_def)

end
