(* ===== verification/Firmware.thy ===== *)
theory Firmware
  imports User_Main Sleep_Props
begin

text \<open>
  The firmware as a whole: everything the SDK can call after \<open>user_init\<close> - the client's task and
  callbacks, the WiFi events, the wake-up interrupt and the two timers of \<open>sleep.c\<close> - as events
  on the state of all components. The start-up puts the system into its invariant, every event
  keeps it and has no undefined behaviour, and a whole cycle from the interrupt over the
  measurement to the next sleep does what the firmware is for.
\<close>

section \<open>Events\<close>

datatype 'd fw_event =
    Sdk event
  | Wifi_event u32 u8
  | Interrupt u8 u32 u32 u32
  | ReadADC "'d adc_env"
  | GoToSleep

text \<open>
  The only callback that \<open>user_init\<close> gives to the WiFi module. \<open>goToSleep\<close> and \<open>sendADCData\<close>
  go through the pointer \<open>mqttClient\<close>, which is NULL until \<open>sleepInit\<close> sets it.
\<close>

definition wifi_cb :: "env \<Rightarrow> nat \<Rightarrow> u8 \<Rightarrow> MQTT_Client \<Rightarrow> MQTT_Client option" where
  "wifi_cb e f status c = wifiConnectCb (app_env e) status c"

definition fw_handle :: "env \<Rightarrow> 'd fw_event \<Rightarrow> 'f system \<Rightarrow> 'f system option" where
  "fw_handle e ev s =
     (case ev of
        Sdk ev \<Rightarrow> map_option (\<lambda>c. s\<lparr>sys_client := c\<rparr>) (handle (app_env e) ev (sys_client s))
      | Wifi_event event status \<Rightarrow>
          map_option (\<lambda>(w, c). s\<lparr>sys_wifi := w, sys_client := c\<rparr>)
            (wifi_handle_event_cb (wifi_cb e) event status (sys_wifi s, sys_client s))
      | Interrupt status gs now later \<Rightarrow>
          map_option (\<lambda>(b, w, c). s\<lparr>sys_board := b, sys_wifi := w, sys_client := c\<rparr>)
            (sleepWakeOnInterruptHandeler (wifi_cb e) status gs now later (sys_board s)
              (sys_wifi s, sys_client s))
      | ReadADC a \<Rightarrow>
          (if client_known (sys_board s)
           then map_option (\<lambda>(b, c). s\<lparr>sys_board := b, sys_client := c\<rparr>)
                  (sendADCData a (app_env e) (sysCfg (sys_cfg s)) (sys_board s) (sys_client s))
           else None)
      | GoToSleep \<Rightarrow>
          (if client_known (sys_board s)
           then (case goToSleep (sys_board s) (sys_client s) of
                   (b, c) \<Rightarrow> Some (s\<lparr>sys_board := b, sys_client := c\<rparr>))
           else None))"

fun fw_run :: "env \<Rightarrow> 'd fw_event list \<Rightarrow> 'f system \<Rightarrow> 'f system option" where
  "fw_run e [] s = Some s"
| "fw_run e (ev # evs) s = do { s \<leftarrow> fw_handle e ev s; fw_run e evs s }"

text \<open>
  The SDK does not call the API of the client. A measurement relies on the samples and on the
  configuration (\<open>adc_ok\<close>), and its counter has at most seven digits.
\<close>

definition sdk_event :: "event \<Rightarrow> bool" where
  "sdk_event ev \<longleftrightarrow>
     (case ev of Task \<Rightarrow> True | Timer \<Rightarrow> True | Recv _ \<Rightarrow> True | Sent \<Rightarrow> True | Tcp_connected \<Rightarrow> True
      | Tcp_recon \<Rightarrow> True | Tcp_discon \<Rightarrow> True | Dns _ \<Rightarrow> True | _ \<Rightarrow> False)"

definition fw_event_ok :: "env \<Rightarrow> 'f system \<Rightarrow> 'd fw_event \<Rightarrow> bool" where
  "fw_event_ok e s ev \<longleftrightarrow>
     (case ev of
        Sdk ev \<Rightarrow> sdk_event ev \<and> event_ok (app_env e) (sys_client s) ev
      | ReadADC a \<Rightarrow> (\<exists>root. adc_ok a (sysCfg (sys_cfg s)) root) \<and>
          unat (counter (sys_board s) + 1) < 10 ^ 7
      | _ \<Rightarrow> True)"

fun fw_events_ok :: "env \<Rightarrow> 'd fw_event list \<Rightarrow> 'f system \<Rightarrow> bool" where
  "fw_events_ok e [] s = True"
| "fw_events_ok e (ev # evs) s =
     (fw_event_ok e s ev \<and>
      (case fw_handle e ev s of None \<Rightarrow> True | Some s \<Rightarrow> fw_events_ok e evs s))"

section \<open>The client is never deleted\<close>

named_theorems keeps_alive \<open>handlers that never lead to the deletion of the client\<close>

text \<open>
  After MQTT\_DELETED the task frees the client. The firmware never asks for that: no handler
  and no callback leaves the other states.
\<close>

definition alive :: "MQTT_Client \<Rightarrow> bool" where
  "alive c \<longleftrightarrow> connState c \<noteq> MQTT_DELETING \<and> connState c \<noteq> MQTT_DELETED"

lemma MQTT_Publish_connState:
  "MQTT_Publish e topic data n qos retain c = Some (r, c') \<Longrightarrow> connState c' = connState c"
  by (auto simp: MQTT_Publish_def queue_or_evict_def Let_def set_pending_id_def set_conn_def emit_def
      split: if_splits Option.bind_splits prod.splits)

lemma MQTT_InitLWT_connState:
  "MQTT_InitLWT e topic msg qos retain c = Some c' \<Longrightarrow> connState c' = connState c"
  by (auto simp: MQTT_InitLWT_def split: Option.bind_splits)

lemma run_cb_connState: "run_cb (app_env e) f c = Some c' \<Longrightarrow> connState c' = connState c"
  by (auto simp: mqttConnectedCb_def mqttDisconnectedCb_def mqttPublishedCb_def
      split: if_splits Option.bind_splits prod.splits
      dest!: MQTT_Publish_connState MQTT_InitLWT_connState)

lemma run_data_cb_connState: "run_data_cb (app_env e) f c t tn d dn = Some c' \<Longrightarrow> connState c' = connState c"
  by (auto simp: mqttDataCb_def split: Option.bind_splits)

lemma call_cb_connState: "call_cb (app_env e) name cb c = Some c' \<Longrightarrow> connState c' = connState c"
  by (auto simp: call_cb_def emit_def simp del: app_env_callbacks split: option.splits dest!: run_cb_connState)

lemma recv_reply_connState: "recv_reply t q mid c = Some c' \<Longrightarrow> connState c' = connState c"
  by (auto simp: recv_reply_def queue_outbound_def set_conn_def Let_def
      split: if_splits Option.bind_splits prod.splits option.splits)

lemma deliver_publish_connState:
  "deliver_publish (app_env e) buf len c = Some c' \<Longrightarrow> connState c' = connState c"
  by (auto simp: deliver_publish_def emit_def Let_def simp del: app_env_callbacks
      split: option.splits Option.bind_splits prod.splits dest!: run_data_cb_connState)

lemma recv_packet_alive:
  assumes "recv_packet (app_env e) c pdata len = Some (c', next)" and "alive c"
  shows "alive c'"
  using assms
  by (auto simp: recv_packet_def Let_def alive_def tcp_disconnect_def emit_def
      split: if_splits Option.bind_splits
      dest!: call_cb_connState recv_reply_connState deliver_publish_connState)

lemma recv_loop_alive [keeps_alive]:
  "recv_loop (app_env e) n c pdata len = Some (Some c') \<Longrightarrow> alive c \<Longrightarrow> alive c'"
proof (induction n arbitrary: c pdata len)
  case (Suc n)
  then obtain c1 next1 where r: "recv_packet (app_env e) c pdata len = Some (c1, next1)"
    by (auto split: Option.bind_splits)
  have "alive c1" by (rule recv_packet_alive [OF r Suc.prems(2)])
  with Suc r show ?case
    by (cases next1) (auto simp: alive_def emit_def)
qed simp

lemma MQTT_Connect_alive: "MQTT_Connect e c = Some c' \<Longrightarrow> alive c'"
  by (auto simp: MQTT_Connect_def alive_def Let_def split: Option.bind_splits)

lemma tcp_delete_connState [simp]: "connState (mqtt_tcpclient_delete c) = connState c"
  by (simp add: mqtt_tcpclient_delete_def emit_def)

lemma task_send_alive: "task_send e c = Some c' \<Longrightarrow> alive c \<Longrightarrow> alive c'"
  by (auto simp: task_send_def tcp_send_def alive_def emit_def clear_outbound_def set_pending_def Let_def
      split: if_splits Option.bind_splits prod.splits)

lemma keepalive_alive: "mqtt_send_keepalive e c = Some c' \<Longrightarrow> alive c'"
  by (auto simp: mqtt_send_keepalive_def alive_def emit_def Let_def
      split: if_splits Option.bind_splits prod.splits)

lemma MQTT_Task_alive [keeps_alive]:
  assumes "MQTT_Task e c = Some c'" and "alive c"
  shows "alive c'"
  using assms
  by (cases "connState c")
    (auto simp: MQTT_Task_def alive_def tcp_disconnect_def emit_def
      split: Option.bind_splits dest: task_send_alive keepalive_alive [unfolded alive_def]
        task_send_alive [unfolded alive_def])

lemma mqtt_timer_alive [keeps_alive]: "mqtt_timer (app_env e) c = Some c' \<Longrightarrow> alive c \<Longrightarrow> alive c'"
  by (auto simp: mqtt_timer_def timer_state_def alive_def emit_def Let_def
      split: if_splits Option.bind_splits dest!: call_cb_connState)

lemma sent_cb_alive [keeps_alive]: "mqtt_tcpclient_sent_cb (app_env e) c = Some c' \<Longrightarrow> alive c \<Longrightarrow> alive c'"
  by (auto simp: mqtt_tcpclient_sent_cb_def alive_def emit_def Let_def
      split: if_splits Option.bind_splits dest!: call_cb_connState)

lemma discon_cb_alive [keeps_alive]: "mqtt_tcpclient_discon_cb (app_env e) c = Some c' \<Longrightarrow> alive c \<Longrightarrow> alive c'"
  by (auto simp: mqtt_tcpclient_discon_cb_def alive_def emit_def Let_def
      split: if_splits Option.bind_splits dest!: call_cb_connState)

lemma connect_cb_alive [keeps_alive]: "mqtt_tcpclient_connect_cb c = Some c' \<Longrightarrow> alive c'"
  by (auto simp: mqtt_tcpclient_connect_cb_def alive_def emit_def Let_def
      split: if_splits Option.bind_splits prod.splits)

lemma dns_found_alive [keeps_alive]: "mqtt_dns_found ip c = Some c' \<Longrightarrow> alive c \<Longrightarrow> alive c'"
  by (auto simp: mqtt_dns_found_def alive_def emit_def Let_def
      split: option.splits if_splits Option.bind_splits)

lemma handle_alive:
  assumes h: "handle (app_env e) ev c = Some c'" and "sdk_event ev" and a: "alive c"
  shows "alive c'"
proof (cases ev)
  case (Recv pkts)
  with h obtain len where
    "recv_loop (app_env e) (Suc (length pkts)) (c\<lparr>keepAliveTick := 0\<rparr>) (segment pkts) len = Some (Some c')"
    by (auto simp: handle_def mqtt_tcpclient_recv_def simp del: recv_loop.simps split: option.splits)
  then show ?thesis by (rule recv_loop_alive) (use a in \<open>simp add: alive_def\<close>)
next
  case Tcp_recon
  with h show ?thesis by (auto simp: handle_def mqtt_tcpclient_recon_cb_def alive_def emit_def)
qed (use assms in \<open>auto simp: handle_def sdk_event_def dest: keeps_alive\<close>)

section \<open>The invariant of the system\<close>

definition fw_ok :: "env \<Rightarrow> 'f system \<Rightarrow> bool" where
  "fw_ok e s \<longleftrightarrow> client_ok e (sys_client s) \<and> alive (sys_client s) \<and>
     client_known (sys_board s) \<and> wifiCb (sys_wifi s) = Some 0"

lemma wifi_cb_ok:
  assumes "env_ok (app_env e)" and "client_ok e c"
  shows "\<exists>c'. wifi_cb e f status c = Some c' \<and> client_ok e c' \<and> alive c'"
proof (cases "status = STATION_GOT_IP")
  case True
  have "client_ok (app_env e) c" using assms(2) by simp
  from MQTT_Connect_ok [OF this assms(1)] MQTT_Connect_alive True show ?thesis
    by (auto simp: wifi_cb_def wifiConnectCb_def)
next
  case False
  with assms(2) show ?thesis
    by (simp add: wifi_cb_def wifiConnectCb_def MQTT_Disconnect_def alive_def emit_def)
qed

text \<open>What the WiFi callback keeps, the check and the event handler keep.\<close>

lemma wifi_check_ip_keeps:
  assumes "wifiCb w = Some f" and "P x" and "\<exists>x'. run f status x = Some x' \<and> P x'"
  shows "\<exists>w' x'. wifi_check_ip run status (w, x) = Some (w', x') \<and> wifiCb w' = Some f \<and> P x'"
proof -
  obtain x' where "run f status x = Some x'" "P x'" using assms(3) by blast
  with wifi_check_ip_run [of w f run status x x'] assms(1,2) show ?thesis
    by (auto simp: Let_def wifi_do_def)
qed

lemma interrupt_keeps:
  assumes "wifiCb w = Some f" and "P x" and "\<exists>x'. run f status x = Some x' \<and> P x'"
  shows "\<exists>b' w' x'. sleepWakeOnInterruptHandeler run status gs now later b (w, x) = Some (b', w', x') \<and>
           client_known b' = client_known b \<and> wifiCb w' = Some f \<and> P x'"
proof -
  obtain w' x' where "wifi_check_ip run status (w, x) = Some (w', x')" "wifiCb w' = Some f" "P x'"
    using wifi_check_ip_keeps [of w f P x run status] assms by blast
  with assms(1,2) show ?thesis
    by (simp add: sleepWakeOnInterruptHandeler_def Let_def board_do_def)
qed

lemma goToSleep_ok:
  shows "client_ok e (snd (goToSleep b c)) = client_ok e c"
    and "connState (snd (goToSleep b c)) = connState c"
    and "client_known (fst (goToSleep b c)) = client_known b"
  by (simp_all add: goToSleep_def Let_def board_do_def) (simp_all add: emit_def)

lemma publish_all_connState: "publish_all e ms c = Some c' \<Longrightarrow> connState c' = connState c"
proof (induction ms arbitrary: c)
  case (Cons m ms)
  then show ?case by (cases m) (auto split: Option.bind_splits dest!: MQTT_Publish_connState)
qed simp

lemma fw_handle_ok:
  assumes env: "env_ok (app_env e)" and ok: "fw_ok e s" and ev: "fw_event_ok e s ev"
  shows "\<exists>s'. fw_handle e ev s = Some s' \<and> fw_ok e s'"
proof -
  let ?c = "sys_client s" and ?keep = "\<lambda>c. client_ok e c \<and> alive c"
  have c: "client_ok e ?c" "alive ?c" "client_ok (app_env e) ?c" and b: "client_known (sys_board s)"
    and w: "wifiCb (sys_wifi s) = Some 0"
    using ok by (simp_all add: fw_ok_def)
  have run: "\<exists>c'. wifi_cb e 0 status ?c = Some c' \<and> ?keep c'" for status
    by (rule wifi_cb_ok [OF env c(1)])
  show ?thesis
  proof (cases ev)
    case (Sdk x)
    with ev have x: "sdk_event x" "event_ok (app_env e) ?c x" by (simp_all add: fw_event_ok_def)
    have "\<exists>c'. handle (app_env e) x ?c = Some c' \<and> client_ok (app_env e) c'"
      by (rule handle_ok [OF env c(3) x(2)]) (use c(2) in \<open>simp add: alive_def\<close>)
    with handle_alive [OF _ x(1) c(2)] b w show ?thesis
      by (auto simp: Sdk fw_handle_def fw_ok_def)
  next
    case (Wifi_event event status)
    have "wifiCb (if event = EVENT_STAMODE_DISCONNECTED then wifi_do Station_connect (sys_wifi s)
        else sys_wifi s) = Some 0" using w by (simp add: wifi_do_def)
    from wifi_check_ip_keeps [where P = ?keep and run = "wifi_cb e" and x = ?c, OF this _ run [of status]] c b show ?thesis
      by (auto simp: Wifi_event fw_handle_def wifi_handle_event_cb_def fw_ok_def split: if_splits)
  next
    case (Interrupt status gs now later)
    from interrupt_keeps [where P = ?keep and run = "wifi_cb e" and x = ?c, OF w _ run [of status], of gs now later "sys_board s"] c b
    show ?thesis by (auto simp: Interrupt fw_handle_def fw_ok_def)
  next
    case (ReadADC a)
    then obtain root where "adc_ok a (sysCfg (sys_cfg s)) root" "unat (counter (sys_board s) + 1) < 10 ^ 7"
      using ev by (auto simp: fw_event_ok_def)
    moreover have "env_bounds (app_env e)" using env by (simp add: env_ok_def)
    ultimately obtain b' c' where "sendADCData a (app_env e) (sysCfg (sys_cfg s)) (sys_board s) ?c = Some (b', c')"
      "client_known b' = client_known (sys_board s)" "client_ok (app_env e) c'"
      "publish_all (app_env e) (adc_messages a (sysCfg (sys_cfg s)) root (counter (sys_board s) + 1)) ?c = Some c'"
      using sendADCData_publishes [OF _ c(3)] by meson
    with publish_all_connState c(2) b w show ?thesis
      by (simp add: ReadADC fw_handle_def fw_ok_def alive_def)
  next
    case GoToSleep
    with c b w show ?thesis
      by (simp add: fw_handle_def fw_ok_def alive_def goToSleep_ok case_prod_beta)
  qed
qed

lemma fw_run_ok:
  assumes "env_ok (app_env e)" and "fw_ok e s" and "fw_events_ok e evs s"
  shows "\<exists>s'. fw_run e evs s = Some s' \<and> fw_ok e s'"
  using assms(2,3)
proof (induction evs arbitrary: s)
  case (Cons ev evs)
  with fw_handle_ok [OF assms(1), of s ev] show ?case by auto
qed simp

section \<open>Start-up\<close>

lemma c_string_lengths:
  assumes "c_string (mqtt_host cfg) = Some hst" and "c_string (device_id cfg) = Some dev"
    and "c_string (mqtt_user cfg) = Some user" and "c_string (mqtt_pass cfg) = Some pass"
  shows "0 \<notin> set hst" "0 \<notin> set dev" "no_zero (Some user)" "no_zero (Some pass)"
  using assms [THEN c_string_no_zero] by (simp_all add: no_zero_def)

lemma WIFI_Connect_some:
  "WIFI_Connect ssid pass cb w = Some w' \<Longrightarrow> wifiCb w' = cb \<and> Station_connect \<in> set (wifi_trace w')"
  by (auto simp: WIFI_Connect_def Let_def wifi_do_def split: Option.bind_splits)

lemma WIFI_Connect_returns: "length ssid < 32 \<Longrightarrow> length pass < 64 \<Longrightarrow> WIFI_Connect ssid pass cb w \<noteq> None"
  by (simp add: WIFI_Connect_def Let_def sprintf_into_def wr_block_def)

lemma sleepInit_board:
  "client_known (sleepInit b)" "wakeCount (sleepInit b) = wakeCount b" "counter (sleepInit b) = counter b"
  by (simp_all add: sleepInit_def Let_def board_do_def gpio16_set_def)

text \<open>The middle of \<open>user_init\<close>: the client with its callbacks.\<close>

definition start_client ::
  "env \<Rightarrow> SYSCFG \<Rightarrow> cstring \<Rightarrow> cstring \<Rightarrow> cstring \<Rightarrow> cstring \<Rightarrow> MQTT_Client \<Rightarrow> MQTT_Client option" where
  "start_client e cfg hst dev user pass c =
     map_option (\<lambda>c. MQTT_OnData (Some 0) (MQTT_OnPublished (Some 2) (MQTT_OnDisconnected (Some 1)
         (MQTT_OnConnected (Some 0) c))))
       (init_client e hst (mqtt_port cfg) 0 dev (Some user) (Some pass) (mqtt_keepalive cfg) 1 c)"

lemma app_env_same [simp]:
  "dup_string (app_env e) = dup_string e" "MQTT_BUF_SIZE (app_env e) = MQTT_BUF_SIZE e"
  "state_ok (app_env e) = state_ok e"
  by (rule ext, simp add: dup_string_def) (simp_all add: app_env_def state_ok_def fun_eq_iff)

lemma init_client_host:
  "init_client e hst prt sec cid user pass ka cs c = Some c' \<Longrightarrow> host c' = dup_string e hst"
  by (auto simp: init_client_def MQTT_InitConnection_def MQTT_InitClient_def Let_def emit_def
      split: Option.bind_splits)

lemma start_client_ok:
  assumes env: "env_bounds e" and z: "\<And>n. zalloc e n = Some (replicate n 0)"
    and str: "c_string (mqtt_host cfg) = Some hst" "c_string (device_id cfg) = Some dev"
    "c_string (mqtt_user cfg) = Some user" "c_string (mqtt_pass cfg) = Some pass"
    and ip: "UTILS_StrToIP hst [0, 0, 0, 0] \<noteq> None"
  shows "\<exists>c'. start_client e cfg hst dev user pass c = Some c' \<and> client_ok e c' \<and> alive c' \<and>
           queue_msgs (msgQueue c') = [] \<and> connState c' = WIFI_INIT \<and> host c' = Some hst \<and>
           publishedCb c' = Some 2"
proof -
  note nz = c_string_lengths [OF str]
  have same: "init_client (app_env e) = init_client e"
    by (intro ext) (unfold init_client_def MQTT_InitConnection_def MQTT_InitClient_def app_env_same
        app_env_callbacks(3), rule refl)
  from init_client_ok [OF app_env_ok [OF env z] nz ip, of "mqtt_port cfg" 0 "mqtt_keepalive cfg" 1 c]
  show ?thesis
    by (auto simp: same start_client_def alive_def MQTT_OnData_def MQTT_OnPublished_def
        MQTT_OnDisconnected_def MQTT_OnConnected_def client_ok_def)
qed

lemma user_init_parts:
  "user_init d e name s =
     do {
       cfgs \<leftarrow> CFG_Load d name (sys_cfg s);
       hst \<leftarrow> c_string (mqtt_host (sysCfg cfgs));
       dev \<leftarrow> (if MQTT_InitConnection e hst (mqtt_port (sysCfg cfgs)) 0 (sys_client s) = None then None
               else c_string (device_id (sysCfg cfgs)));
       user \<leftarrow> c_string (mqtt_user (sysCfg cfgs));
       pass \<leftarrow> c_string (mqtt_pass (sysCfg cfgs));
       c \<leftarrow> start_client e (sysCfg cfgs) hst dev user pass (sys_client s);
       ssid \<leftarrow> c_string (sta_ssid (sysCfg cfgs));
       pwd \<leftarrow> c_string (sta_pwd (sysCfg cfgs));
       w \<leftarrow> WIFI_Connect ssid pwd (Some 0) (sys_wifi s);
       Some (s\<lparr>sys_cfg := cfgs, sys_client := c, sys_wifi := w, sys_board := sleepInit (sys_board s)\<rparr>)
     }"
  by (auto simp: user_init_def start_client_def init_client_def Let_def
      split: Option.bind_split option.split)

lemma user_init_ok:
  assumes env: "env_bounds e" and z: "\<And>n. zalloc e n = Some (replicate n 0)"
    and run: "user_init d e name s = Some s1"
    and ip: "\<And>h. host (sys_client s1) = Some h \<Longrightarrow> UTILS_StrToIP h [0, 0, 0, 0] \<noteq> None"
  shows "fw_ok e s1"
proof -
  from run obtain cfgs hst dev user pass c ssid pwd w where
    str: "c_string (mqtt_host (sysCfg cfgs)) = Some hst" "c_string (device_id (sysCfg cfgs)) = Some dev"
    "c_string (mqtt_user (sysCfg cfgs)) = Some user" "c_string (mqtt_pass (sysCfg cfgs)) = Some pass"
    and c: "start_client e (sysCfg cfgs) hst dev user pass (sys_client s) = Some c"
    and w: "WIFI_Connect ssid pwd (Some 0) (sys_wifi s) = Some w"
    and s1: "s1 = s\<lparr>sys_cfg := cfgs, sys_client := c, sys_wifi := w, sys_board := sleepInit (sys_board s)\<rparr>"
    by (auto simp: user_init_parts split: Option.bind_splits if_splits)
  have "dup_string e hst = Some hst" using dup_string_ok [OF z c_string_lengths(1) [OF str]] .
  then have "host c = Some hst"
    using c by (auto simp: start_client_def MQTT_OnData_def MQTT_OnPublished_def MQTT_OnDisconnected_def
        MQTT_OnConnected_def dest!: init_client_host)
  then have "UTILS_StrToIP hst [0, 0, 0, 0] \<noteq> None" using ip by (simp add: s1)
  from start_client_ok [OF env z str this, of "sys_client s"] c WIFI_Connect_some [OF w]
  show ?thesis by (auto simp: fw_ok_def s1 sleepInit_board)
qed

text \<open>
  What a stored configuration needs so that the firmware starts: terminated strings, a host that
  \<open>UTILS_StrToIP\<close> can read, and a WiFi name and password that fit the SDK's arrays.
\<close>

definition bootable :: "SYSCFG \<Rightarrow> bool" where
  "bootable cfg \<longleftrightarrow> cfg_holder cfg = CFG_HOLDER \<and>
     (case c_string (mqtt_host cfg) of None \<Rightarrow> False | Some hst \<Rightarrow> UTILS_StrToIP hst [0, 0, 0, 0] \<noteq> None) \<and>
     (case c_string (sta_ssid cfg) of None \<Rightarrow> False | Some ssid \<Rightarrow> length ssid < 32) \<and>
     (case c_string (sta_pwd cfg) of None \<Rightarrow> False | Some pwd \<Rightarrow> length pwd < 64) \<and>
     c_string (device_id cfg) \<noteq> None \<and> c_string (mqtt_user cfg) \<noteq> None \<and> c_string (mqtt_pass cfg) \<noteq> None"

lemma user_init_returns:
  assumes env: "env_bounds e" and z: "\<And>n. zalloc e n = Some (replicate n 0)"
    and boot: "bootable (stored d (flash (sys_cfg s)))"
  shows "\<exists>s1. user_init d e name s = Some s1 \<and> fw_ok e s1 \<and>
           sysCfg (sys_cfg s1) = stored d (flash (sys_cfg s)) \<and> flash (sys_cfg s1) = flash (sys_cfg s) \<and>
           queue_msgs (msgQueue (sys_client s1)) = [] \<and> connState (sys_client s1) = WIFI_INIT \<and>
           publishedCb (sys_client s1) = Some 2 \<and> Station_connect \<in> set (wifi_trace (sys_wifi s1))"
proof -
  obtain cfgs where cfg: "CFG_Load d name (sys_cfg s) = Some cfgs" "sysCfg cfgs = stored d (flash (sys_cfg s))"
    "flash cfgs = flash (sys_cfg s)"
    using CFG_Load_stored [of d "sys_cfg s" name] boot by (auto simp: bootable_def)
  obtain hst dev user pass ssid pwd where
    str: "c_string (mqtt_host (sysCfg cfgs)) = Some hst" "c_string (device_id (sysCfg cfgs)) = Some dev"
    "c_string (mqtt_user (sysCfg cfgs)) = Some user" "c_string (mqtt_pass (sysCfg cfgs)) = Some pass"
    and ip: "UTILS_StrToIP hst [0, 0, 0, 0] \<noteq> None"
    and net: "c_string (sta_ssid (sysCfg cfgs)) = Some ssid" "length ssid < 32"
    "c_string (sta_pwd (sysCfg cfgs)) = Some pwd" "length pwd < 64"
    using boot unfolding bootable_def cfg(2) by (auto split: option.splits)
  obtain c where c: "start_client e (sysCfg cfgs) hst dev user pass (sys_client s) = Some c"
    "client_ok e c" "alive c" "queue_msgs (msgQueue c) = []" "connState c = WIFI_INIT"
    "publishedCb c = Some 2"
    using start_client_ok [OF env z str ip, of "sys_client s"] by blast
  obtain w where w: "WIFI_Connect ssid pwd (Some 0) (sys_wifi s) = Some w"
    using WIFI_Connect_returns [OF net(2,4)] by blast
  have "MQTT_InitConnection e hst (mqtt_port (sysCfg cfgs)) 0 (sys_client s) \<noteq> None"
    using c(1) by (auto simp: start_client_def init_client_def split: Option.bind_splits)
  with cfg str net c w WIFI_Connect_some [OF w] show ?thesis
    by (simp add: user_init_parts fw_ok_def sleepInit_board)
qed

section \<open>Publishing a whole measurement\<close>

text \<open>The packets of a list of messages with QoS 1, retained, when the last identifier was \<open>mid\<close>.\<close>

fun publish_packets :: "u16 \<Rightarrow> (cstring \<times> cstring) list \<Rightarrow> u8 list list" where
  "publish_packets mid [] = []"
| "publish_packets mid ((topic, value) # ms) =
     packet (header_byte 3 0 1 1) (publish_body topic 1 (next_id mid) value) # publish_packets (next_id mid) ms"

text \<open>The most that a message can need in the queue: every byte of its packet escaped.\<close>

definition message_size :: "cstring \<times> cstring \<Rightarrow> nat" where
  "message_size m = 7 + length (fst m) + length (snd m)"

definition queue_need :: "(cstring \<times> cstring) list \<Rightarrow> nat" where
  "queue_need ms = sum_list (map (\<lambda>m. 2 * message_size m + 2) ms)"

lemma length_publish_packet:
  assumes "message_size (t, v) \<le> 16386"
  shows "length (packet h (publish_body t 1 mid v)) \<le> message_size (t, v)"
proof -
  have "length (varint (length (publish_body t 1 mid v))) \<le> 2"
    using assms by (cases "length (publish_body t 1 mid v) < 128")
      (simp_all add: varint_short varint_two message_size_def publish_body_def)
  then show ?thesis by (simp add: length_packet message_size_def publish_body_def)
qed

lemma publish_packets_size:
  "list_all (\<lambda>m. fst m \<noteq> [] \<and> message_size m \<le> n) ms \<Longrightarrow> n \<le> 16386 \<Longrightarrow>
     list_all (\<lambda>p. length p \<le> n) (publish_packets mid ms) \<and> length (publish_packets mid ms) = length ms"
proof (induction ms arbitrary: mid)
  case (Cons m ms)
  obtain t v where m: "m = (t, v)" by (cases m)
  have "message_size (t, v) \<le> n" using Cons.prems(1) by (simp add: m)
  with length_publish_packet [of t v "header_byte 3 0 1 1" "next_id mid"] Cons show ?case by (simp add: m)
qed simp

text \<open>One message: \<open>MQTT_Publish_effect\<close> for QoS 1, retained.\<close>

lemma publish_one:
  assumes ok: "client_ok e c" and env: "env_bounds e" and t: "t \<noteq> []"
    and sz: "message_size (t, v) \<le> MQTT_BUF_SIZE e" "2 * message_size (t, v) + 2 \<le> queue_free (msgQueue c)"
  defines "i \<equiv> next_id (message_id (conn (mqtt_state c)))"
  shows "\<exists>st q. MQTT_Publish e (Some t) v (int (length v)) 1 1 c =
             Some (True, c\<lparr>mqtt_state := st, msgQueue := q, trace := trace c @ [Os_post]\<rparr>) \<and>
           client_ok e (c\<lparr>mqtt_state := st, msgQueue := q\<rparr>) \<and> message_id (conn st) = i \<and>
           queue_msgs q = queue_msgs (msgQueue c) @ [packet (header_byte 3 0 1 1) (publish_body t 1 i v)] \<and>
           queue_free (msgQueue c) \<le> queue_free q + (2 * message_size (t, v) + 2)"
proof -
  define body where "body = publish_body t 1 i v"
  let ?p = "packet (header_byte 3 0 1 1) body"
  have body: "body = publish_body t (nat 1) (used_id 0 (conn (mqtt_state c))) v"
    by (simp add: body_def i_def used_id_def)
  have "message_size (t, v) \<le> 16386" using sz(1) env by (simp add: env_bounds_def)
  then have "length ?p \<le> message_size (t, v)" unfolding body_def by (rule length_publish_packet)
  then have fr: "length (frame ?p) \<le> 2 * message_size (t, v) + 2"
    using length_frame_le [of ?p] by simp
  with sz(2) have room: "length (frame ?p) \<le> queue_free (msgQueue c)" by simp
  have fits: "3 + length body \<le> MQTT_BUF_SIZE e"
    using sz(1) by (simp add: body_def message_size_def publish_body_def)
  obtain st q r where
    r: "MQTT_Publish e (Some t) v (int (length v)) 1 1 c =
      Some (r, c\<lparr>mqtt_state := st, msgQueue := q, trace := trace c @ (if r then [Os_post] else [])\<rparr>)"
    "client_ok e (c\<lparr>mqtt_state := st, msgQueue := q\<rparr>)" "r = (3 + length body \<le> MQTT_BUF_SIZE e)"
    "queue_msgs q = queue_msgs (msgQueue c) @ (if r then [?p] else [])"
    "r \<longrightarrow> queue_free q = queue_free (msgQueue c) - length (frame ?p) \<and>
       message_id (conn st) = (if (1 :: int) > 0 then used_id 0 (conn (mqtt_state c)) else message_id (conn (mqtt_state c)))"
    using MQTT_Publish_effect [OF ok env t body room] by blast
  show ?thesis
    using r fits fr by (intro exI [of _ st] exI [of _ q]) (simp add: i_def used_id_def body_def)
qed

lemma publish_all_queues:
  assumes "client_ok e c" and env: "env_bounds e"
    and "list_all (\<lambda>m. fst m \<noteq> [] \<and> message_size m \<le> MQTT_BUF_SIZE e) ms"
    and "queue_need ms \<le> queue_free (msgQueue c)"
  shows "\<exists>st q. publish_all e ms c =
             Some (c\<lparr>mqtt_state := st, msgQueue := q, trace := trace c @ replicate (length ms) Os_post\<rparr>) \<and>
           client_ok e (c\<lparr>mqtt_state := st, msgQueue := q\<rparr>) \<and>
           queue_msgs q = queue_msgs (msgQueue c) @ publish_packets (message_id (conn (mqtt_state c))) ms"
  using assms(1,3,4)
proof (induction ms arbitrary: c)
  case Nil
  then show ?case
    by (intro exI [of _ "mqtt_state c"] exI [of _ "msgQueue c"]) simp
next
  case (Cons m ms)
  obtain t v where m: "m = (t, v)" by (cases m)
  have t: "t \<noteq> []" "message_size (t, v) \<le> MQTT_BUF_SIZE e" "2 * message_size (t, v) + 2 \<le> queue_free (msgQueue c)"
    using Cons.prems(2,3) by (simp_all add: m queue_need_def)
  from publish_one [OF Cons.prems(1) env t] obtain st q where 1: "MQTT_Publish e (Some t) v (int (length v)) 1 1 c =
      Some (True, c\<lparr>mqtt_state := st, msgQueue := q, trace := trace c @ [Os_post]\<rparr>)"
    "client_ok e (c\<lparr>mqtt_state := st, msgQueue := q\<rparr>)"
    "message_id (conn st) = next_id (message_id (conn (mqtt_state c)))"
    "queue_msgs q = queue_msgs (msgQueue c) @
      [packet (header_byte 3 0 1 1) (publish_body t 1 (next_id (message_id (conn (mqtt_state c)))) v)]"
    "queue_free (msgQueue c) \<le> queue_free q + (2 * message_size (t, v) + 2)" by blast
  define c1 where "c1 = c\<lparr>mqtt_state := st, msgQueue := q, trace := trace c @ [Os_post]\<rparr>"
  have "client_ok e c1" using 1(2) by (simp add: c1_def client_ok_def)
  moreover have "queue_need ms \<le> queue_free (msgQueue c1)"
    using Cons.prems(3) 1(5) by (simp add: c1_def queue_need_def m)
  ultimately obtain st2 q2 where
    "publish_all e ms c1 = Some (c1\<lparr>mqtt_state := st2, msgQueue := q2,
       trace := trace c1 @ replicate (length ms) Os_post\<rparr>)"
    "client_ok e (c1\<lparr>mqtt_state := st2, msgQueue := q2\<rparr>)"
    "queue_msgs q2 = queue_msgs (msgQueue c1) @ publish_packets (message_id (conn (mqtt_state c1))) ms"
    using Cons.IH [of c1] Cons.prems(2) by auto
  then show ?case
    using 1(1,3,4) by (intro exI [of _ st2] exI [of _ q2]) (simp add: m c1_def client_ok_def)
qed

lemma adc_messages_fit:
  assumes ok: "adc_ok a cfg root" and "root \<noteq> []" and n: "unat n < 10 ^ 7"
  shows "list_all (\<lambda>m. fst m \<noteq> [] \<and> message_size m \<le> 107) (adc_messages a cfg root n)"
    and "queue_need (adc_messages a cfg root n) \<le> 1900"
proof -
  have len5: "length (adc_text a cfg ch) \<le> 5" for ch
  proof -
    have "unat (the (adc_value (adc_fp a) cfg ch (adc_samples a ch))) < 2 ^ LENGTH(16)" by (rule unsigned_less)
    then show ?thesis unfolding adc_text_def by (intro length_dec [of _ 4, simplified]) simp
  qed
  have chan: "fst (adc_message a cfg root ch) \<noteq> [] \<and> message_size (adc_message a cfg root ch) \<le> 107"
    if "ch < 8" for ch
    using adc_okD(4) [OF ok that] adc_okD(2) [OF ok] assms(2) len5 [of "if ch = 5 then 4 else ch"]
    by (auto simp: adc_message_def message_size_def)
  have "length (dec (unat n)) \<le> 7" using length_dec [of "unat n" 6] n by simp
  moreover have "length (lit ''/Counter'') = 8" by code_simp
  ultimately have cnt: "message_size (root @ lit ''/Counter'', dec (unat n)) \<le> 85"
    using adc_okD(2) [OF ok] by (simp add: message_size_def)
  show "list_all (\<lambda>m. fst m \<noteq> [] \<and> message_size m \<le> 107) (adc_messages a cfg root n)"
    using chan cnt assms(2) by (auto simp: adc_messages_def list_all_iff)
  have "sum_list (map (\<lambda>ch. 2 * message_size (adc_message a cfg root ch) + 2) [0..<8]) \<le>
      sum_list (map (\<lambda>ch. 216) [0..<8])"
    using chan by (intro sum_list_mono) auto
  then show "queue_need (adc_messages a cfg root n) \<le> 1900"
    using cnt by (simp add: queue_need_def adc_messages_def comp_def sum_list_triv)
qed

section \<open>A cycle of the firmware\<close>

lemma fw_run_append: "fw_run e (xs @ ys) s = do { s \<leftarrow> fw_run e xs s; fw_run e ys s }"
  by (induction xs arbitrary: s) (auto split: Option.bind_split)

text \<open>Rounds of the client's task and the SDK's sent callback.\<close>

definition rounds :: "nat \<Rightarrow> 'd fw_event list" where
  "rounds n = concat (replicate n [Sdk Task, Sdk Sent])"

lemma fw_run_rounds:
  "fw_run e (rounds n) s = map_option (\<lambda>c. s\<lparr>sys_client := c\<rparr>) (drain (app_env e) n (sys_client s))"
proof (induction n arbitrary: s)
  case 0
  then show ?case by (simp add: rounds_def)
next
  case (Suc n)
  then show ?case
    by (cases "MQTT_Task (app_env e) (sys_client s)")
      (auto simp: rounds_def fw_handle_def handle_def split: Option.bind_split)
qed

text \<open>The third accepted interrupt: out of sleep, and the timers for measuring and sleeping.\<close>

lemma third_interrupt:
  assumes "10000 \<le> now - lastWakeTime b" and "wakeCount b = 2" and "wifiCb w = Some f"
    and "status = lastWifiStatus w" and "\<exists>x'. run f status x = Some x'"
  shows "\<exists>b' w'. sleepWakeOnInterruptHandeler run status gs now later b (w, x) = Some (b', w', x) \<and>
           wifiCb w' = Some f \<and> counter b' = counter b \<and> client_known b' = client_known b \<and>
           wakeCount b' = 0 \<and> sleep_ops b' = sleep_ops b @ [Set_sleep_type NONE_SLEEP_T]"
proof -
  obtain x' where "run f status x = Some x'" using assms(5) by blast
  from wifi_check_ip_run [of w f run status x x', OF assms(3) this] obtain w' where
    "wifi_check_ip run status (w, x) = Some (w', x)" "wifiCb w' = Some f"
    using assms(3,4) by (auto simp: Let_def wifi_do_def)
  moreover have "\<not> now - lastWakeTime b < 10000" using assms(1) by simp
  moreover have "(3 :: u32) \<le> 2 + 1" by simp
  ultimately show ?thesis
    using assms(2) by (simp add: sleepWakeOnInterruptHandeler_def Let_def board_do_def sleep_ops_def)
qed

lemma fw_interrupt:
  assumes "env_ok (app_env e)" and "client_ok e (sys_client s)"
    and "10000 \<le> now - lastWakeTime (sys_board s)" and "wakeCount (sys_board s) = 2"
    and "wifiCb (sys_wifi s) = Some 0" and "status = lastWifiStatus (sys_wifi s)"
  shows "\<exists>b w. fw_handle e (Interrupt status gs now later) s = Some (s\<lparr>sys_board := b, sys_wifi := w\<rparr>) \<and>
           wifiCb w = Some 0 \<and> counter b = counter (sys_board s) \<and>
           client_known b = client_known (sys_board s) \<and> wakeCount b = 0 \<and>
           sleep_ops b = sleep_ops (sys_board s) @ [Set_sleep_type NONE_SLEEP_T]"
proof -
  have "\<exists>x'. wifi_cb e 0 status (sys_client s) = Some x'" using wifi_cb_ok [OF assms(1,2)] by blast
  from third_interrupt [where run = "wifi_cb e" and x = "sys_client s", OF assms(3-6) this, of gs later]
  show ?thesis by (fastforce simp: fw_handle_def)
qed

text \<open>A client that can send: connected, nothing pending, the application's callbacks.\<close>

definition ready :: "env \<Rightarrow> MQTT_Client \<Rightarrow> bool" where
  "ready e c \<longleftrightarrow> client_ok e c \<and> connState c = MQTT_DATA \<and> sendTimeout c = 0 \<and> publishedCb c = Some 2"

lemma ready_quiet: "ready e c \<Longrightarrow> published_quiet (app_env e) c"
  by (simp add: ready_def published_quiet_def mqttPublishedCb_def)

lemma ready_trace [simp]: "ready e (c\<lparr>trace := t\<rparr>) = ready e c"
  by (simp add: ready_def)

text \<open>The timer of \<open>sleep.c\<close> while messages are queued: come back later.\<close>

lemma sleep_refused:
  assumes "client_ok e c" and "queue_msgs (msgQueue c) \<noteq> []"
  shows "\<exists>b'. goToSleep b c = (b', c\<lparr>trace := trace c @ [Timer_disarm, Timer_arm 100 True]\<rparr>) \<and> board_kept b b'"
proof -
  have "rb_contents (rb (msgQueue c)) \<noteq> []"
    using assms(2) by (auto simp: queue_msgs_def messages_def)
  then show ?thesis by (simp add: goToSleep_ring [OF assms(1)] board_kept_defs)
qed

text \<open>First half: measuring fills the queue, and the first attempt to sleep is refused.\<close>

lemma measure_and_try:
  assumes env: "env_bounds e" and rd: "ready e (sys_client s)"
    and room: "rb_contents (rb (msgQueue (sys_client s))) = []" and known: "client_known (sys_board s)"
    and adc: "adc_ok a (sysCfg (sys_cfg s)) root" "root \<noteq> []" and big: "107 \<le> MQTT_BUF_SIZE e"
    and cnt: "unat (counter (sys_board s) + 1) < 10 ^ 7"
  defines "ps \<equiv> publish_packets (message_id (conn (mqtt_state (sys_client s))))
      (adc_messages a (sysCfg (sys_cfg s)) root (counter (sys_board s) + 1))"
  shows "\<exists>b c. fw_run e [ReadADC a, GoToSleep] s = Some (s\<lparr>sys_board := b, sys_client := c\<rparr>) \<and>
           ready e c \<and> queue_msgs (msgQueue c) = ps \<and> sent c = sent (sys_client s) \<and>
           send_of c = send_of (sys_client s) \<and> client_known b \<and> counter b = counter (sys_board s) + 1 \<and>
           wakeCount b = wakeCount (sys_board s) \<and> sleep_ops b = sleep_ops (sys_board s)"
proof -
  let ?c = "sys_client s" and ?b = "sys_board s" and ?cfg = "sysCfg (sys_cfg s)"
  define ms where "ms = adc_messages a ?cfg root (counter ?b + 1)"
  have ok: "client_ok e ?c" "client_ok (app_env e) ?c" using rd by (simp_all add: ready_def)
  have q0: "queue_msgs (msgQueue ?c) = []" using room by (simp add: queue_msgs_def messages_def)
  have "queue_free (msgQueue ?c) = 2048"
    using ok(1) room unfolding queue_free_def by (simp add: client_ok_def msg_queue_ok_def del: length_rb_contents)
  moreover have fit: "list_all (\<lambda>m. fst m \<noteq> [] \<and> message_size m \<le> 107) ms" "queue_need ms \<le> 1900"
    using adc_messages_fit [OF adc cnt] by (simp_all add: ms_def)
  moreover have "list_all (\<lambda>m. fst m \<noteq> [] \<and> message_size m \<le> MQTT_BUF_SIZE (app_env e)) ms"
    using fit(1) big by (auto simp: list_all_iff)
  ultimately obtain st q where p: "publish_all (app_env e) ms ?c =
      Some (?c\<lparr>mqtt_state := st, msgQueue := q, trace := trace ?c @ replicate (length ms) Os_post\<rparr>)"
    "client_ok e (?c\<lparr>mqtt_state := st, msgQueue := q\<rparr>)" "queue_msgs q = ps"
    using publish_all_queues [OF ok(2), of ms] env q0 by (auto simp: ps_def ms_def)
  define c1 where "c1 = ?c\<lparr>mqtt_state := st, msgQueue := q, trace := trace ?c @ replicate (length ms) Os_post\<rparr>"
  have env': "env_bounds (app_env e)" using env by simp
  obtain b1 where b1: "sendADCData a (app_env e) ?cfg ?b ?c = Some (b1, c1)" "counter b1 = counter ?b + 1"
    "wakeCount b1 = wakeCount ?b" "client_known b1 = client_known ?b" "sleep_ops b1 = sleep_ops ?b"
    using sendADCData_publishes [OF adc(1) ok(2) env' cnt] p(1) by (auto simp: ms_def c1_def)
  have ok1: "client_ok e c1" using p(2) by (simp add: c1_def client_ok_def)
  have "ms \<noteq> []" by (simp add: ms_def adc_messages_def)
  then have "ps \<noteq> []" by (cases ms) (auto simp: ps_def ms_def [symmetric])
  then obtain b2 where b2: "goToSleep b1 c1 = (b2, c1\<lparr>trace := trace c1 @ [Timer_disarm, Timer_arm 100 True]\<rparr>)"
    "board_kept b1 b2"
    using sleep_refused [OF ok1, of b1] p(3) by (auto simp: c1_def)
  have "filter is_send (replicate n Os_post) = []" for n by (induction n) (simp_all add: is_send_def)
  then show ?thesis
    using b1 b2 known rd ok1 p(3)
    by (intro exI [of _ b2] exI [of _ "c1\<lparr>trace := trace c1 @ [Timer_disarm, Timer_arm 100 True]\<rparr>"])
      (simp add: fw_handle_def ready_def board_kept_def, simp add: c1_def sent_def send_of_def is_send_def fun_eq_iff)
qed

text \<open>Second half: everything is sent, and then the chip sleeps.\<close>

lemma drain_and_sleep:
  assumes env: "env_bounds e" and rd: "ready e (sys_client s)" and known: "client_known (sys_board s)"
  defines "ms \<equiv> queue_msgs (msgQueue (sys_client s))"
  shows "\<exists>b c. fw_run e (rounds (length ms) @ [Sdk Task, GoToSleep]) s =
             Some (s\<lparr>sys_board := b, sys_client := c\<rparr>) \<and> client_ok e c \<and> alive c \<and>
           rb_contents (rb (msgQueue c)) = [] \<and> client_known b \<and> counter b = counter (sys_board s) \<and>
           wakeCount b = wakeCount (sys_board s) \<and>
           sent c = sent (sys_client s) @ map (\<lambda>m. send_of (sys_client s) (take (MQTT_BUF_SIZE e) m)) ms \<and>
           sleep_ops b = sleep_ops (sys_board s) @ [Set_sleep_type LIGHT_SLEEP_T]"
proof -
  let ?c = "sys_client s"
  have ok: "client_ok (app_env e) ?c" "connState ?c = MQTT_DATA" "sendTimeout ?c = 0"
    using rd by (simp_all add: ready_def)
  have env': "env_bounds (app_env e)" using env by simp
  obtain c1 where c1: "drain (app_env e) (length ms) ?c = Some c1" "client_ok (app_env e) c1"
    "queue_msgs (msgQueue c1) = []" "connState c1 = MQTT_DATA" "sendTimeout c1 = 0"
    "sent c1 = sent ?c @ map (\<lambda>m. send_of ?c (take (MQTT_BUF_SIZE e) m)) ms"
    using drain_sends_all [OF ok(1) env' ok(2,3) ready_quiet [OF rd]] unfolding ms_def app_env_same by blast
  obtain c2 where c2: "MQTT_Task (app_env e) c1 = Some c2" "client_ok (app_env e) c2"
    "rb_contents (rb (msgQueue c2)) = []" "sent c2 = sent c1"
    using task_empties_ring [OF c1(2) env' c1(4,5,3)] by blast
  have al: "alive c2" using MQTT_Task_alive [OF c2(1)] c1(4) by (simp add: alive_def)
  define b3 where "b3 = sys_board s\<lparr>board_trace := board_trace (sys_board s) @
      [Board_timer_disarm GoToSleep_timer, Set_sleep_type LIGHT_SLEEP_T]\<rparr>"
  define c3 where "c3 = c2\<lparr>trace := trace c2 @ [Timer_disarm]\<rparr>"
  have "fw_run e (rounds (length ms) @ [Sdk Task, GoToSleep]) s =
      Some (s\<lparr>sys_board := b3, sys_client := c3\<rparr>)"
    using c1(1) c2(1,3) known
    by (simp add: fw_run_append fw_run_rounds fw_handle_def handle_def goToSleep_ring [OF c2(2)] b3_def c3_def)
  moreover have "client_ok e c3" "alive c3" "rb_contents (rb (msgQueue c3)) = []" "sent c3 = sent c2"
    using c2(2,3) al by (simp_all add: c3_def alive_def sent_def is_send_def)
  moreover have "client_known b3" "counter b3 = counter (sys_board s)" "wakeCount b3 = wakeCount (sys_board s)"
    "sleep_ops b3 = sleep_ops (sys_board s) @ [Set_sleep_type LIGHT_SLEEP_T]"
    using known by (simp_all add: b3_def sleep_ops_def)
  ultimately show ?thesis unfolding c1(6) [symmetric] c2(4) [symmetric] by blast
qed

section \<open>Properties\<close>

text \<open>A concrete environment with a buffer of 128 bytes, and a system that is connected.\<close>

definition env1 :: env where "env1 = env0\<lparr>MQTT_BUF_SIZE := 128\<rparr>"

lemma env1: "env_ok env1" "env_bounds env1" "zalloc env1 n = Some (replicate n 0)" "MQTT_BUF_SIZE env1 = 128"
  unfolding env_ok_def by (simp_all add: env1_def env0_def env_bounds_def)

definition client1 :: MQTT_Client where
  "client1 = (the (init_client env1 host0 1883 0 [0x61] None None 120 1 (client_zero [])))
     \<lparr>connState := MQTT_DATA, publishedCb := Some 2\<rparr>"

definition sys1 :: "(nat \<Rightarrow> u8) system" where
  "sys1 = \<lparr>sys_cfg = board0\<lparr>sysCfg := cfg1\<rparr>, sys_client = client1,
     sys_wifi = wifi_init\<lparr>wifiCb := Some 0, lastWifiStatus := STATION_GOT_IP\<rparr>,
     sys_board = sleepInit (board_init (\<lambda>_. 0))\<lparr>wakeCount := 2\<rparr>\<rparr>"

lemma client1: "ready env1 client1" "rb_contents (rb (msgQueue client1)) = []"
proof -
  have ip: "UTILS_StrToIP host0 [0, 0, 0, 0] \<noteq> None" by (simp add: host0(2))
  have a: "0 \<notin> set [0x61 :: u8]" by simp
  have n: "no_zero None" by (simp add: no_zero_def)
  from init_client_ok [OF env1(1) host0(1) a n n ip, of 1883 0 120 1 "client_zero []"]
  show "ready env1 client1" by (auto simp: client1_def ready_def client_ok_def)
  show "rb_contents (rb (msgQueue client1)) = []" by code_simp
qed

text \<open>
  C1. The purpose of the firmware, from one sleep to the next: when the third accepted interrupt
  comes while the client is connected and its queue is empty, the chip leaves sleep; the
  measurement that follows publishes all eight channels and the counter, the first attempt to
  sleep is refused because of them, then nine rounds of the client's task and the SDK's sent
  callback send exactly these nine packets, with fresh consecutive identifiers and in order, and
  the next attempt puts the chip into light sleep - and not before - with an empty queue again. A
  whole measurement always fits the queue, whatever the samples are.
\<close>

theorem wake_cycle:
  fixes s :: "'f system" and a :: "'d adc_env"
  assumes "env_bounds e" and "\<And>n. zalloc e n = Some (replicate n 0)" and "107 \<le> MQTT_BUF_SIZE e"
    and "ready e (sys_client s)" and "rb_contents (rb (msgQueue (sys_client s))) = []"
    and "client_known (sys_board s)" and "wakeCount (sys_board s) = 2"
    and "10000 \<le> now - lastWakeTime (sys_board s)"
    and "wifiCb (sys_wifi s) = Some 0" and "status = lastWifiStatus (sys_wifi s)"
    and "adc_ok a (sysCfg (sys_cfg s)) root" and "root \<noteq> []"
    and "unat (counter (sys_board s) + 1) < 10 ^ 7"
  shows "\<exists>s'. fw_run e ([Interrupt status gs now later, ReadADC a, GoToSleep] @ rounds 9 @ [Sdk Task, GoToSleep]) s = Some s' \<and>
     sent (sys_client s') = sent (sys_client s) @ map (send_of (sys_client s))
       (publish_packets (message_id (conn (mqtt_state (sys_client s))))
          (adc_messages a (sysCfg (sys_cfg s)) root (counter (sys_board s) + 1))) \<and>
     sleep_ops (sys_board s') = sleep_ops (sys_board s) @ [Set_sleep_type NONE_SLEEP_T, Set_sleep_type LIGHT_SLEEP_T] \<and>
     rb_contents (rb (msgQueue (sys_client s'))) = [] \<and> wakeCount (sys_board s') = 0 \<and>
     counter (sys_board s') = counter (sys_board s) + 1 \<and> fw_ok e s'"
proof -
  let ?c = "sys_client s" and ?b = "sys_board s" and ?cfg = "sysCfg (sys_cfg s)"
  define ps where "ps = publish_packets (message_id (conn (mqtt_state ?c))) (adc_messages a ?cfg root (counter ?b + 1))"
  have ok: "env_ok (app_env e)" "client_ok e ?c" using app_env_ok [OF assms(1,2)] assms(4) by (simp_all add: ready_def)
  from fw_interrupt [OF ok assms(8,7,9,10), of gs later] assms(6) obtain b0 w0 where
    1: "fw_handle e (Interrupt status gs now later :: 'd fw_event) s = Some (s\<lparr>sys_board := b0, sys_wifi := w0\<rparr>)"
    "wifiCb w0 = Some 0" "counter b0 = counter ?b" "client_known b0" "wakeCount b0 = 0"
    "sleep_ops b0 = sleep_ops ?b @ [Set_sleep_type NONE_SLEEP_T]" by auto
  define s0 where "s0 = s\<lparr>sys_board := b0, sys_wifi := w0\<rparr>"
  obtain b1 c1 where 2: "fw_run e [ReadADC a, GoToSleep] s0 = Some (s0\<lparr>sys_board := b1, sys_client := c1\<rparr>)"
    "ready e c1" "queue_msgs (msgQueue c1) = ps" "sent c1 = sent ?c" "send_of c1 = send_of ?c" "client_known b1"
    "counter b1 = counter ?b + 1" "wakeCount b1 = 0" "sleep_ops b1 = sleep_ops b0"
    using measure_and_try [of e s0 a root] assms(1,3-5,11-13) 1(3-5) by (auto simp: s0_def ps_def)
  define s1 where "s1 = s0\<lparr>sys_board := b1, sys_client := c1\<rparr>"
  have len: "length ps = 9" "list_all (\<lambda>p. length p \<le> MQTT_BUF_SIZE e) ps"
    using publish_packets_size [OF adc_messages_fit(1) [OF assms(11-13)]] assms(3)
    by (auto simp: ps_def adc_messages_def list_all_iff dest: order_trans)
  obtain b2 c2 where 3: "fw_run e (rounds 9 @ [Sdk Task, GoToSleep :: 'd fw_event]) s1 = Some (s1\<lparr>sys_board := b2, sys_client := c2\<rparr>)"
    "client_ok e c2" "alive c2" "rb_contents (rb (msgQueue c2)) = []" "client_known b2" "counter b2 = counter b1"
    "wakeCount b2 = 0" "sent c2 = sent c1 @ map (\<lambda>m. send_of c1 (take (MQTT_BUF_SIZE e) m)) ps"
    "sleep_ops b2 = sleep_ops b1 @ [Set_sleep_type LIGHT_SLEEP_T]"
    using drain_and_sleep [of e s1] assms(1) 2(2,3,6,8) len(1) by (auto simp: s1_def)
  have "map (\<lambda>m. send_of c1 (take (MQTT_BUF_SIZE e) m)) ps = map (send_of ?c) ps"
    using len(2) 2(5) by (auto simp: list_all_iff)
  moreover have i: "fw_run e [Interrupt status gs now later :: 'd fw_event] s = Some s0" using 1(1) by (simp add: s0_def)
  have "fw_run e ([Interrupt status gs now later] @ [ReadADC a, GoToSleep] @ (rounds 9 @ [Sdk Task, GoToSleep])) s =
      Some (s1\<lparr>sys_board := b2, sys_client := c2\<rparr>)"
    unfolding fw_run_append [of e "[Interrupt status gs now later]"]
      fw_run_append [of e "[ReadADC a, GoToSleep]"]
    by (simp only: i 2(1) s1_def [symmetric] 3(1) bind.bind_lunit)
  ultimately show ?thesis
    using 1(2,6) 2(4,7,9) 3 by (auto simp: s1_def s0_def ps_def [symmetric] fw_ok_def)
qed

theorem wake_cycle_witness:
  "\<exists>s'. fw_run env1 ([Interrupt STATION_GOT_IP 1 20000 20001, ReadADC adc0, GoToSleep] @ rounds 9 @ [Sdk Task, GoToSleep]) sys1 = Some s' \<and>
     sent (sys_client s') = sent (sys_client sys1) @ map (send_of (sys_client sys1))
       (publish_packets (message_id (conn (mqtt_state (sys_client sys1))))
          (adc_messages adc0 (sysCfg (sys_cfg sys1)) (lit ''/home'') (counter (sys_board sys1) + 1))) \<and>
     sleep_ops (sys_board s') = sleep_ops (sys_board sys1) @ [Set_sleep_type NONE_SLEEP_T, Set_sleep_type LIGHT_SLEEP_T] \<and>
     rb_contents (rb (msgQueue (sys_client s'))) = [] \<and> wakeCount (sys_board s') = 0 \<and>
     counter (sys_board s') = counter (sys_board sys1) + 1 \<and> fw_ok env1 s'"
proof (rule wake_cycle)
  show "ready env1 (sys_client sys1)" "rb_contents (rb (msgQueue (sys_client sys1))) = []"
    using client1 by (simp_all add: sys1_def)
  show "adc_ok adc0 (sysCfg (sys_cfg sys1)) (lit ''/home'')" using adc0 by (simp add: sys1_def)
  show "lit ''/home'' \<noteq> []" by code_simp
  show "10000 \<le> 20000 - lastWakeTime (sys_board sys1)"
    by (simp add: sys1_def sleepInit_def Let_def board_do_def gpio16_set_def board_init_def)
qed (simp_all add: env1 sys1_def sleepInit_board board_init_def)


text \<open>The system at power-on, with the configuration \<open>cfg0\<close> in flash.\<close>

definition power_on :: "(nat \<Rightarrow> u8) system" where
  "power_on = \<lparr>sys_cfg = board0, sys_client = client_zero [], sys_wifi = wifi_init, sys_board = board_init (\<lambda>_. 0)\<rparr>"

lemma cfg0_bootable: "bootable (stored nor_flash (flash (sys_cfg power_on)))"
proof -
  have "bootable cfg0" by code_simp
  then show ?thesis by (simp add: power_on_def board0)
qed




end
