(* ===== verification/Mqtt_Recovery.thy ===== *)
theory Mqtt_Recovery
  imports Mqtt_Session
begin

text \<open>
  Runs of the client over sequences of events, and the handshake as such a run: from a requested
  connection, through the answer of the DNS, the CONNECT packet and its sent callback, to the
  CONNACK and the application's callback. Everything that is queued stays queued.
\<close>

section \<open>Runs\<close>

fun run_events :: "env \<Rightarrow> event list \<Rightarrow> MQTT_Client \<Rightarrow> MQTT_Client option" where
  "run_events e [] c = Some c"
| "run_events e (ev # evs) c = do { c \<leftarrow> handle e ev c; run_events e evs c }"

lemma run_events_append:
  "run_events e (xs @ ys) c = do { c \<leftarrow> run_events e xs c; run_events e ys c }"
  by (induction xs arbitrary: c) (auto split: Option.bind_split)

lemma run_events_timer: "run_events e (replicate n Timer) c = ticks e n c"
proof (induction n)
  case (Suc n)
  have "run_events e (replicate (Suc n) Timer) c = run_events e (replicate n Timer @ [Timer]) c"
    by (simp add: replicate_append_same)
  also have "\<dots> = ticks e (Suc n) c"
    unfolding run_events_append Suc by (cases "ticks e n c") (auto simp: handle_def split: Option.bind_split)
  finally show ?case .
qed simp

text \<open>Loss and new request as one run.\<close>

lemma lost_connection_run:
  assumes "env_ok e" and "client_ok e c" and "connState c \<notin> {TCP_DISCONNECTING, MQTT_DELETING}"
    and "pCon c \<noteq> None" and "quiet e (disconnectedCb c)" and "timeoutCb c = None" and "reconnectTick c = 0"
  shows "\<exists>c'. run_events e (Tcp_discon # replicate 6 Timer @ [Task]) c = Some c' \<and> client_ok e c' \<and>
           connState c' = TCP_CONNECTING \<and> pCon c' \<noteq> None \<and> kept c' = kept c \<and>
           trace c' = trace c @ called DisconnectedCb (disconnectedCb c) @
             [Os_post, Os_post, Tcp_delete] @ connect_effects c"
proof -
  obtain c1 c2 c3 c4 where run: "mqtt_tcpclient_discon_cb e c = Some c1" "ticks e 5 c1 = Some c2"
    "mqtt_timer e c2 = Some c3" "MQTT_Task e c3 = Some c4"
    and c4: "connState c4 = TCP_CONNECTING" "client_ok e c4" "pCon c4 \<noteq> None" "kept c4 = kept c"
    "trace c4 = trace c @ called DisconnectedCb (disconnectedCb c) @
       [Os_post, Os_post, Tcp_delete] @ connect_effects c"
    using lost_connection [OF assms] by blast
  have "ticks e 6 c1 = Some c3" using run(2,3) by (simp add: numeral_eq_Suc)
  with run(1,4) have "run_events e (Tcp_discon # replicate 6 Timer @ [Task]) c = Some c4"
    by (simp add: run_events_append run_events_timer handle_def)
  with c4 show ?thesis by blast
qed

section \<open>The handshake keeps the queue\<close>

text \<open>Building CONNECT uses no message identifier.\<close>

lemma push_message_id:
  "push_byte c b = Some c' \<Longrightarrow> message_id c' = message_id c"
  "push_block c s n = Some c' \<Longrightarrow> message_id c' = message_id c"
  "set_flags c b = Some c' \<Longrightarrow> message_id c' = message_id c"
  by (auto simp: push_byte_def push_block_def set_flags_def split: Option.bind_splits)

lemma append_string_message_id: "append_string c s n = Some (r, c') \<Longrightarrow> message_id c' = message_id c"
  by (auto simp: append_string_def split: if_splits Option.bind_splits dest!: push_message_id)

lemma connect_parts_message_id:
  "connect_header c info = Some c' \<Longrightarrow> message_id c' = message_id c"
  "connect_will c info = Some (ok, c') \<Longrightarrow> message_id c' = message_id c"
  "connect_credential c s b = Some (ok, c') \<Longrightarrow> message_id c' = message_id c"
  "fini_message c t d q r = Some c' \<Longrightarrow> message_id c' = message_id c"
  by (auto simp: connect_header_def connect_will_def connect_credential_def fini_message_def Let_def
      split: if_splits Option.bind_splits dest!: push_message_id append_string_message_id)

lemma mqtt_msg_connect_message_id: "mqtt_msg_connect c info = Some c' \<Longrightarrow> message_id c' = message_id c"
  by (auto simp: mqtt_msg_connect_def init_message_def fail_message_def Let_def
      split: if_splits Option.bind_splits
      dest!: push_message_id append_string_message_id connect_parts_message_id)

lemma connect_cb_keeps:
  assumes "mqtt_tcpclient_connect_cb c = Some c'"
  shows "kept c' = kept c" and "pCon c' = pCon c" and "message_id (conn (mqtt_state c')) = 0"
  using assms
  by (auto simp: mqtt_tcpclient_connect_cb_def tcp_send_def kept_def emit_def clear_outbound_def
      set_pending_def set_conn_def Let_def mqtt_msg_init_def
      split: if_splits Option.bind_splits dest!: mqtt_msg_connect_message_id)

lemma dns_found_keeps:
  assumes "mqtt_dns_found (Some addr) c = Some c'"
  shows "kept c' = kept c" and "sent c' = sent c" and "pCon c \<noteq> None \<Longrightarrow> pCon c' \<noteq> None"
    and "mqtt_state c' = mqtt_state c"
  using assms
  by (auto simp: mqtt_dns_found_def kept_def emit_def sent_def is_send_def Let_def
      split: if_splits Option.bind_splits)

text \<open>The sent callback of the CONNECT packet.\<close>

lemma sent_cb_handshaking:
  "connState c = MQTT_CONNECT_SENDING \<Longrightarrow>
     mqtt_tcpclient_sent_cb e c = Some (c\<lparr>sendTimeout := 0, keepAliveTick := 0, trace := trace c @ [Os_post]\<rparr>)"
  by (simp add: mqtt_tcpclient_sent_cb_def emit_def)

lemma dns_answered:
  assumes "client_ok e c" and "pCon c \<noteq> None" and "dns = [] \<or> dns = [Dns (Some addr)]"
  shows "\<exists>c'. run_events e dns c = Some c' \<and> client_ok e c' \<and> pCon c' \<noteq> None \<and> kept c' = kept c \<and> sent c' = sent c"
  using assms(3)
proof
  assume "dns = []"
  with assms(1,2) show ?thesis by simp
next
  assume d: "dns = [Dns (Some addr)]"
  obtain c' where c': "mqtt_dns_found (Some addr) c = Some c'" "client_ok e c'"
    using mqtt_dns_found_ok [OF assms(1,2)] by blast
  from dns_found_keeps [OF c'(1)] c' assms(2) show ?thesis by (auto simp: d handle_def)
qed

lemma handshake_run:
  assumes env: "env_bounds e" and ok: "client_ok e c" and pc: "pCon c \<noteq> None"
    and dns: "dns = [] \<or> dns = [Dns (Some addr)]" and cid: "present (client_id (connect_info c))"
    and fits: "3 + length (connect_body (connect_info c)) \<le> MQTT_BUF_SIZE e"
  shows "\<exists>c'. run_events e (dns @ [Tcp_connected, Sent]) c = Some c' \<and> client_ok e c' \<and>
           connState c' = MQTT_CONNECT_SENDING \<and> pending_msg_type (mqtt_state c') = msg_type CONNECT \<and>
           sendTimeout c' = 0 \<and> pCon c' \<noteq> None \<and> kept c' = kept c \<and>
           message_id (conn (mqtt_state c')) = 0 \<and>
           sent c' = sent c @ [send_of c (packet 0x10 (connect_body (connect_info c)))]"
proof -
  obtain c1 where c1: "run_events e dns c = Some c1" "client_ok e c1" "pCon c1 \<noteq> None" "kept c1 = kept c"
    "sent c1 = sent c"
    using dns_answered [OF ok pc dns] by blast
  have ci: "connect_info c1 = connect_info c" "security c1 = security c" using c1(4) by (simp_all add: kept_def)
  obtain c2 where c2: "mqtt_tcpclient_connect_cb c1 = Some c2" "connState c2 = MQTT_CONNECT_SENDING"
    "pending_msg_type (mqtt_state c2) = msg_type CONNECT"
    "trace c2 = trace c1 @ [Regist_disconcb, Regist_recvcb, Regist_sentcb,
       send_of c1 (packet 0x10 (connect_body (connect_info c))), Os_post]"
    using connect_cb_sends [OF c1(2) env] cid fits ci by auto
  have ok2: "client_ok e c2" using mqtt_tcpclient_connect_cb_ok [OF c1(2) env] c2(1) by simp
  define c3 where "c3 = c2\<lparr>sendTimeout := 0, keepAliveTick := 0, trace := trace c2 @ [Os_post]\<rparr>"
  have c3: "mqtt_tcpclient_sent_cb e c2 = Some c3" using sent_cb_handshaking [OF c2(2)] by (simp add: c3_def)
  have "run_events e (dns @ [Tcp_connected, Sent]) c = Some c3"
    using c1(1) c2(1) c3 by (simp add: run_events_append handle_def)
  moreover have "client_ok e c3" using ok2 by (simp add: c3_def)
  ultimately show ?thesis
    using connect_cb_keeps [OF c2(1)] c1(3-5) c2(2-4) ci
    by (intro exI [of _ c3]) (simp add: c3_def sent_def is_send_def send_of_def kept_def)
qed

text \<open>CONNACK: the state before the application's callback runs.\<close>

lemma connack_run:
  assumes ok: "client_ok e c" and env: "env_bounds e" and st: "connState c = MQTT_CONNECT_SENDING"
    and pend: "pending_msg_type (mqtt_state c) = msg_type CONNECT" and big: "4 < MQTT_BUF_SIZE e"
  shows "\<exists>c0. handle e (Recv [(0x20, [flags, rc])]) c =
             map_option (emit Os_post) (call_cb e ConnectedCb (connectedCb c) c0) \<and>
           client_ok e c0 \<and> connState c0 = MQTT_DATA \<and> sendTimeout c0 = sendTimeout c \<and>
           kept c0 = kept c \<and> conn (mqtt_state c0) = conn (mqtt_state c) \<and> trace c0 = trace c"
proof -
  let ?c = "c\<lparr>keepAliveTick := 0\<rparr>"
  have ok': "client_ok e ?c" using ok by simp
  have pd: "segment [(0x20, [flags, rc])] = packet 0x20 [flags, rc] @ []" by (simp add: segment_def)
  have len: "length (segment [(0x20, [flags, rc])]) = 4" by (simp add: pd length_packet varint_short)
  have ty: "hdr_type 0x20 = msg_type CONNACK" by code_simp
  from recv_packet_dispatch [OF ok' env pd, of 4] big len obtain inb mid where
    r: "recv_packet e ?c (segment [(0x20, [flags, rc])]) 4 =
      recv_dispatch e (?c\<lparr>mqtt_state := (mqtt_state ?c)\<lparr>in_buffer := Some inb\<rparr>\<rparr>)
        (segment [(0x20, [flags, rc])]) inb 4 (hdr_type 0x20) (hdr_qos 0x20) mid"
    and l: "length inb = MQTT_BUF_SIZE e" by auto
  define c0 where "c0 = ?c\<lparr>mqtt_state := (mqtt_state ?c)\<lparr>in_buffer := Some inb\<rparr>, connState := MQTT_DATA\<rparr>"
  have "recv_packet e ?c (segment [(0x20, [flags, rc])]) 4 =
      map_option (\<lambda>c. (c, None)) (call_cb e ConnectedCb (connectedCb c) c0)"
    using r st pend by (simp add: recv_dispatch_def ty c0_def split: Option.bind_split option.split)
  then have "handle e (Recv [(0x20, [flags, rc])]) c =
      map_option (emit Os_post) (call_cb e ConnectedCb (connectedCb c) c0)"
    unfolding handle_def mqtt_tcpclient_recv_def
    by (cases "call_cb e ConnectedCb (connectedCb c) c0") (simp_all add: len)
  moreover have "client_ok e c0"
    using client_ok_in_buffer [OF ok' l] by (simp add: c0_def client_ok_def)
  ultimately show ?thesis by (intro exI [of _ c0]) (simp add: c0_def kept_def)
qed

end
