(* ===== verification/Mqtt_Order.thy ===== *)
theory Mqtt_Order
  imports Mqtt_Recovery
begin

text \<open>
  The order of a session: a client that is not connected sends nothing but CONNECT, and only a
  CONNACK connects it - whatever the SDK, the broker and the application do in between.
\<close>

section \<open>Callbacks that do not interfere with the session\<close>

definition polite :: "env \<Rightarrow> bool" where
  "polite e \<longleftrightarrow>
     (\<forall>f c c'. run_cb e f c = Some c' \<longrightarrow> connState c' = connState c \<and> sent c' = sent c) \<and>
     (\<forall>f c t tn d dn c'. run_data_cb e f c t tn d dn = Some c' \<longrightarrow> connState c' = connState c \<and> sent c' = sent c)"

lemma sent_emit [simp]: "sent (emit x c) = (if is_send x then sent c @ [x] else sent c)"
  by (simp add: sent_def emit_def)

lemma sent_update [simp]:
  "sent (c\<lparr>connState := x1\<rparr>) = sent c" "sent (c\<lparr>reconnectTick := x2\<rparr>) = sent c"
  "sent (c\<lparr>sendTimeout := x2\<rparr>) = sent c" "sent (c\<lparr>keepAliveTick := x2\<rparr>) = sent c"
  "sent (c\<lparr>connect_info := x3\<rparr>) = sent c" "sent (c\<lparr>msgQueue := x4\<rparr>) = sent c"
  "sent (c\<lparr>mqtt_state := x5\<rparr>) = sent c" "sent (c\<lparr>pCon := x6\<rparr>) = sent c"
  "sent (c\<lparr>host := x7\<rparr>) = sent c" "sent (c\<lparr>user_data := x8\<rparr>) = sent c"
  by (simp_all add: sent_def)

lemma emit_connState [simp]: "connState (emit x c) = connState c"
  by (simp add: emit_def)

lemma is_send_simps [simp]:
  "is_send (Tcp_send b)" "is_send (Tcp_secure_send b)" "\<not> is_send Os_post" "\<not> is_send (Called n)"
  "\<not> is_send Tcp_connect" "\<not> is_send (Gethostbyname h)" "\<not> is_send Tcp_delete" "\<not> is_send Timer_disarm"
  "\<not> is_send Timer_setfn" "\<not> is_send Regist_connectcb" "\<not> is_send Regist_reconcb" "\<not> is_send Regist_disconcb"
  "\<not> is_send Regist_recvcb" "\<not> is_send Regist_sentcb" "\<not> is_send Tcp_disconnect" "\<not> is_send Tcp_secure_disconnect"
  by (simp_all add: is_send_def)

lemma call_cb_polite:
  assumes "polite e" and "call_cb e name cb c = Some c'"
  shows "connState c' = connState c \<and> sent c' = sent c"
proof (cases cb)
  case None
  with assms(2) show ?thesis by (simp add: call_cb_def)
next
  case (Some f)
  then have "run_cb e f (emit (Called name) c) = Some c'" using assms(2) by (simp add: call_cb_def)
  with assms(1) have "connState c' = connState (emit (Called name) c) \<and> sent c' = sent (emit (Called name) c)"
    unfolding polite_def by blast
  then show ?thesis by simp
qed

section \<open>One event of a client that is not connected\<close>

definition offline :: "MQTT_Client \<Rightarrow> bool" where
  "offline c \<longleftrightarrow> connState c \<noteq> MQTT_DATA \<and> connState c \<noteq> MQTT_KEEPALIVE_SEND"

definition connack :: "event \<Rightarrow> bool" where
  "connack ev \<longleftrightarrow> (case ev of Recv ((hdr, body) # _) \<Rightarrow> hdr_type hdr = msg_type CONNACK | _ \<Rightarrow> False)"

lemma queue_or_evict_undisturbed:
  "queue_or_evict e c = Some (r, c') \<Longrightarrow> connState c' = connState c \<and> sent c' = sent c"
  by (auto simp: queue_or_evict_def Let_def
      split: if_splits Option.bind_splits prod.splits)

lemma set_parts [simp]:
  "connState (set_pending_id i (set_conn k c)) = connState c" "sent (set_pending_id i (set_conn k c)) = sent c"
  "connState (set_conn k c) = connState c" "sent (set_conn k c) = sent c"
  by (simp_all add: set_pending_id_def set_conn_def)

lemma api_undisturbed:
  "MQTT_Publish e topic data n qos retain c = Some (r, c') \<Longrightarrow> connState c' = connState c \<and> sent c' = sent c"
  "MQTT_Subscribe e topic q c = Some (r, c') \<Longrightarrow> connState c' = connState c \<and> sent c' = sent c"
  "MQTT_UnSubscribe e topic c = Some (r, c') \<Longrightarrow> connState c' = connState c \<and> sent c' = sent c"
  "MQTT_Ping e c = Some (r, c') \<Longrightarrow> connState c' = connState c \<and> sent c' = sent c"
  "MQTT_InitLWT e t msg w x c = Some c' \<Longrightarrow> connState c' = connState c \<and> sent c' = sent c"
  by (auto simp: MQTT_Publish_def MQTT_Subscribe_def MQTT_UnSubscribe_def MQTT_Ping_def MQTT_InitLWT_def
      Let_def
      split: if_splits Option.bind_splits dest!: queue_or_evict_undisturbed)

lemma MQTT_Connect_undisturbed:
  "MQTT_Connect e c = Some c' \<Longrightarrow> offline c' \<and> sent c' = sent c"
  by (auto simp: MQTT_Connect_def mqtt_tcpclient_delete_def offline_def Let_def
      split: if_splits Option.bind_splits)

lemma task_undisturbed:
  assumes "MQTT_Task e c = Some c'" and "offline c"
  shows "offline c' \<and> sent c' = sent c"
proof -
  have d: "connState (mqtt_tcpclient_delete c) = connState c" "sent (mqtt_tcpclient_delete c) = sent c"
    by (simp_all add: mqtt_tcpclient_delete_def)
  have x: "connState (mqtt_client_delete c) = connState c" "sent (mqtt_client_delete c) = sent c"
    by (simp_all add: mqtt_client_delete_def mqtt_tcpclient_delete_def Let_def)
  have t: "connState (tcp_disconnect c) = connState c" "sent (tcp_disconnect c) = sent c"
    by (simp_all add: tcp_disconnect_def)
  show ?thesis
  proof (cases "connState c = TCP_RECONNECT")
    case True
    with assms(1) obtain c1 where "MQTT_Connect e (mqtt_tcpclient_delete c) = Some c1"
      "c' = c1\<lparr>connState := TCP_CONNECTING\<rparr>" by (auto simp: MQTT_Task_def split: Option.bind_splits)
    with MQTT_Connect_undisturbed [OF this(1)] d show ?thesis by (simp add: offline_def)
  next
    case False
    with assms d x t show ?thesis
      by (cases "connState c") (auto simp: MQTT_Task_def offline_def)
  qed
qed

lemma timer_undisturbed:
  assumes "mqtt_timer e c = Some c'" and "offline c" and "polite e"
  shows "offline c' \<and> sent c' = sent c"
proof -
  obtain c1 where c1: "timer_state e c = Some c1" "connState c' = connState c1" "sent c' = sent c1"
    using assms(1) by (auto simp: mqtt_timer_def split: Option.bind_splits if_splits)
  have "offline c1 \<and> sent c1 = sent c"
    using c1(1) assms(2,3)
    by (auto simp: timer_state_def offline_def Let_def split: if_splits dest!: call_cb_polite)
  with c1 show ?thesis by (simp add: offline_def)
qed

text \<open>The receiver: only a CONNACK that is waited for has an effect.\<close>

lemma recv_undisturbed:
  assumes h: "handle e (Recv pkts) c = Some c'" and env: "env_bounds e" and ok: "client_ok e c"
    and fits: "length (segment pkts) < MQTT_BUF_SIZE e" and "offline c" and "\<not> connack (Recv pkts)"
  shows "offline c' \<and> sent c' = sent c"
proof -
  let ?c = "c\<lparr>keepAliveTick := 0\<rparr>" and ?len = "of_nat (length (segment pkts)) :: u16"
  have ok': "client_ok e ?c" and off: "offline ?c" using ok assms(5) by (simp_all add: offline_def)
  have len: "unat ?len = length (segment pkts)"
    using fits env by (simp add: env_bounds_def unsigned_of_nat take_bit_nat_eq_self)
  have "\<exists>st. recv_packet e ?c (segment pkts) ?len = Some (?c\<lparr>mqtt_state := st\<rparr>, None)"
  proof (cases pkts)
    case Nil
    then show ?thesis by (intro exI [of _ "mqtt_state c"]) (simp add: recv_packet_def segment_def)
  next
    case (Cons p ps)
    obtain hdr body where p: "p = (hdr, body)" by (cases p)
    have pd: "segment pkts = packet hdr body @ segment ps" by (simp add: Cons p segment_def)
    have "hdr_type hdr \<noteq> msg_type CONNACK" using assms(6) by (simp add: Cons p connack_def)
    with recv_packet_dispatch [OF ok' env pd len] fits len off show ?thesis
      by (auto simp: recv_dispatch_def offline_def)
  qed
  then have "\<exists>st. c' = emit Os_post (?c\<lparr>mqtt_state := st\<rparr>)"
    using h by (auto simp: handle_def mqtt_tcpclient_recv_def)
  with assms(5) show ?thesis by (auto simp: offline_def)
qed

lemma dns_undisturbed:
  "mqtt_dns_found ip c = Some c' \<Longrightarrow> offline c \<Longrightarrow> offline c' \<and> sent c' = sent c"
  by (auto simp: mqtt_dns_found_def offline_def Let_def split: option.splits if_splits Option.bind_splits)

lemma discon_undisturbed:
  "mqtt_tcpclient_discon_cb e c = Some c' \<Longrightarrow> polite e \<Longrightarrow> offline c' \<and> sent c' = sent c"
  by (auto simp: mqtt_tcpclient_discon_cb_def offline_def Let_def split: if_splits Option.bind_splits
      dest!: call_cb_polite)

lemma sent_cb_undisturbed:
  "mqtt_tcpclient_sent_cb e c = Some c' \<Longrightarrow> offline c \<Longrightarrow> offline c' \<and> sent c' = sent c"
  by (auto simp: mqtt_tcpclient_sent_cb_def offline_def Let_def split: if_splits Option.bind_splits)

lemma connect_cb_offline:
  assumes "mqtt_tcpclient_connect_cb c = Some c'" and "client_ok e c" and "env_bounds e"
  shows "offline c' \<and> sent c' = sent c @ [send_of c (connect_bytes e (connect_info c))]"
  using connect_cb_runs [OF assms(2,3)] assms(1)
  by (auto simp: offline_def sent_def send_of_def)

text \<open>Any event but a CONNACK leaves the client unconnected and sends at most CONNECT.\<close>

lemma offline_step:
  assumes h: "handle e ev c = Some c'" and env: "env_bounds e" and pol: "polite e" and ok: "client_ok e c"
    and ev: "event_ok e c ev" and off: "offline c" and "\<not> connack ev"
  shows "offline c' \<and> sent c' = sent c @
    (if ev = Tcp_connected then [send_of c (connect_bytes e (connect_info c))] else [])"
proof (cases ev)
  case (Recv pkts)
  with recv_undisturbed [OF h [unfolded Recv] env ok _ off] ev assms(7) show ?thesis
    by (simp add: event_ok_def)
next
  case Tcp_connected
  with connect_cb_offline [OF _ ok env] h show ?thesis by (simp add: handle_def)
next
  case Timer
  with timer_undisturbed [OF _ off pol] h show ?thesis by (simp add: handle_def)
qed (use h off pol in \<open>auto simp: handle_def offline_def mqtt_tcpclient_recon_cb_def MQTT_Disconnect_def MQTT_DeleteClient_def
      dest!: task_undisturbed sent_cb_undisturbed discon_undisturbed dns_undisturbed
        api_undisturbed MQTT_Connect_undisturbed\<close>)

section \<open>What any event sends\<close>

text \<open>
  The specification of the sender, on the queue as a list of messages: CONNECT when the connection
  stands, the oldest message when the task runs in a session with nothing pending, a ping when the
  task runs after the keep-alive time. Nothing else is ever sent.
\<close>

definition step_sends :: "env \<Rightarrow> event \<Rightarrow> MQTT_Client \<Rightarrow> effect list" where
  "step_sends e ev c =
     (if ev = Tcp_connected then [send_of c (connect_bytes e (connect_info c))]
      else if ev = Task \<and> connState c = MQTT_DATA \<and> sendTimeout c = 0 then
        (case queue_msgs (msgQueue c) of [] \<Rightarrow> [] | m # _ \<Rightarrow> [send_of c (take (MQTT_BUF_SIZE e) m)])
      else if ev = Task \<and> connState c = MQTT_KEEPALIVE_SEND then [send_of c [0xC0, 0]]
      else [])"

fun run_sends :: "env \<Rightarrow> event list \<Rightarrow> MQTT_Client \<Rightarrow> effect list" where
  "run_sends e [] c = []"
| "run_sends e (ev # evs) c =
     step_sends e ev c @ (case handle e ev c of None \<Rightarrow> [] | Some c \<Rightarrow> run_sends e evs c)"

lemma connState_eqs:
  "connState c = MQTT_DATA \<Longrightarrow> \<not> offline c" "connState c = MQTT_KEEPALIVE_SEND \<Longrightarrow> \<not> offline c"
  by (simp_all add: offline_def)

text \<open>The task in a session.\<close>

lemma task_send_nothing:
  assumes "client_ok e c" and "env_bounds e" and "task_send e c = Some c'"
    and "queue_msgs (msgQueue c) = []"
  shows "sent c' = sent c"
proof -
  have qi: "queue_inv (msgQueue c)" using assms(1) by (simp add: client_ok_def msg_queue_ok_def)
  have len: "unat (of_nat (MQTT_BUF_SIZE e) :: u16) \<le> length (dataBuffer e)"
    by (simp add: buffer_length_word [OF assms(2)])
  from QUEUE_Gets_none [OF qi assms(4) len, of "junk_parser e" "junk_len e"] assms(3) show ?thesis
    by (auto simp: task_send_def split: if_splits)
qed

lemma keepalive_sends:
  assumes "client_ok e c" and "mqtt_send_keepalive e c = Some c'"
  shows "sent c' = sent c @ [send_of c [0xC0, 0]]"
proof -
  obtain c0 c1 where "mqtt_send_keepalive e c = Some (emit Os_post
      (if send_result e c0 [0xC0, 0] = 0 then c1\<lparr>keepAliveTick := 0, connState := MQTT_DATA\<rparr>
       else c1\<lparr>connState := TCP_RECONNECT_DISCONNECTING\<rparr>))"
    and tr: "trace c1 = trace c @ [send_of c [0xC0, 0]]"
    using keepalive_runs [OF assms(1)] by blast
  with assms(2) have "sent c' = sent c1" by (auto split: if_splits)
  then show ?thesis using tr by (simp add: sent_def is_send_def send_of_def)
qed

lemma task_sends:
  assumes run: "MQTT_Task e c = Some c'" and ok: "client_ok e c" and env: "env_bounds e"
  shows "sent c' = sent c @ step_sends e Task c"
proof (cases "offline c")
  case True
  with task_undisturbed [OF run True] show ?thesis by (auto simp: step_sends_def dest: connState_eqs)
next
  case False
  then consider (data) "connState c = MQTT_DATA" | (ping) "connState c = MQTT_KEEPALIVE_SEND"
    by (auto simp: offline_def)
  then show ?thesis
  proof cases
    case ping
    with run keepalive_sends [OF ok] show ?thesis by (simp add: MQTT_Task_def step_sends_def)
  next
    case data
    then have t: "task_send e c = Some c'" using run by (simp add: MQTT_Task_def)
    show ?thesis
    proof (cases "sendTimeout c = 0")
      case False
      with t task_send_waits [OF False, of e] have "c' = c" by simp
      then show ?thesis using False by (simp add: step_sends_def data)
    next
      case idle: True
      show ?thesis
      proof (cases "queue_msgs (msgQueue c)")
        case Nil
        with task_send_nothing [OF ok env t] show ?thesis by (simp add: step_sends_def data)
      next
        case (Cons m ms)
        from task_send_head [OF ok env Cons idle] t show ?thesis
          by (auto simp: step_sends_def data idle Cons sent_def is_send_def send_of_def)
      qed
    qed
  qed
qed

text \<open>The receiver and the other handlers queue, but do not send.\<close>

lemma recv_reply_sends: "recv_reply t q mid c = Some c' \<Longrightarrow> sent c' = sent c"
  by (auto simp: recv_reply_def queue_outbound_def Let_def
      split: if_splits Option.bind_splits prod.splits option.splits)

lemma deliver_publish_sends:
  assumes "deliver_publish e buf len c = Some c'" and "polite e"
  shows "sent c' = sent c"
proof -
  have "sent c2 = sent (emit (Called_data t tn d dn) c)"
    if "run_data_cb e f (emit (Called_data t tn d dn) c) t tn d dn = Some c2" for f t tn d dn c2
    using assms(2) that unfolding polite_def by blast
  then show ?thesis
    using assms(1) by (auto simp: deliver_publish_def Let_def is_send_def
      split: option.splits Option.bind_splits prod.splits)
qed

lemma recv_packet_sends:
  "recv_packet e c pdata len = Some (c', next) \<Longrightarrow> polite e \<Longrightarrow> sent c' = sent c"
  by (auto simp: recv_packet_def Let_def tcp_disconnect_def split: if_splits Option.bind_splits
      dest!: call_cb_polite recv_reply_sends deliver_publish_sends)

lemma recv_loop_sends:
  "recv_loop e n c pdata len = Some (Some c') \<Longrightarrow> polite e \<Longrightarrow> sent c' = sent c"
proof (induction n arbitrary: c pdata len)
  case (Suc n)
  then obtain c1 next1 where r: "recv_packet e c pdata len = Some (c1, next1)"
    by (auto split: Option.bind_splits)
  have "sent c1 = sent c" by (rule recv_packet_sends [OF r Suc.prems(2)])
  with Suc r show ?case by (cases next1) auto
qed simp

lemma timer_sends: "mqtt_timer e c = Some c' \<Longrightarrow> polite e \<Longrightarrow> sent c' = sent c"
  by (auto simp: mqtt_timer_def timer_state_def Let_def split: if_splits Option.bind_splits dest!: call_cb_polite)

lemma sent_cb_sends: "mqtt_tcpclient_sent_cb e c = Some c' \<Longrightarrow> polite e \<Longrightarrow> sent c' = sent c"
  by (auto simp: mqtt_tcpclient_sent_cb_def Let_def split: if_splits Option.bind_splits dest!: call_cb_polite)

lemma dns_sends: "mqtt_dns_found ip c = Some c' \<Longrightarrow> sent c' = sent c"
  by (auto simp: mqtt_dns_found_def Let_def split: option.splits if_splits Option.bind_splits)

lemma recv_event_sends: "handle e (Recv pkts) c = Some c' \<Longrightarrow> polite e \<Longrightarrow> sent c' = sent c"
  by (auto simp: handle_def mqtt_tcpclient_recv_def simp del: recv_loop.simps split: option.splits
      dest!: recv_loop_sends)

lemma step_sent:
  assumes h: "handle e ev c = Some c'" and env: "env_bounds e" and pol: "polite e" and ok: "client_ok e c"
  shows "sent c' = sent c @ step_sends e ev c"
proof (cases ev)
  case Task
  with task_sends [OF _ ok env] h show ?thesis by (simp add: handle_def)
next
  case Tcp_connected
  with connect_cb_offline [OF _ ok env] h show ?thesis by (simp add: handle_def step_sends_def)
next
  case (Recv pkts)
  with recv_event_sends [OF h [unfolded Recv] pol] show ?thesis by (simp add: step_sends_def)
qed (use h pol in \<open>auto simp: handle_def step_sends_def mqtt_tcpclient_recon_cb_def MQTT_Disconnect_def MQTT_DeleteClient_def
      dest!: sent_cb_sends timer_sends discon_undisturbed dns_sends api_undisturbed MQTT_Connect_undisturbed\<close>)

section \<open>Runs\<close>

text \<open>The events of a run come when they can; a freed client takes none.\<close>

fun events_ok :: "env \<Rightarrow> event list \<Rightarrow> MQTT_Client \<Rightarrow> bool" where
  "events_ok e [] c = True"
| "events_ok e (ev # evs) c =
     (\<not> freed c \<and> event_ok e c ev \<and> (case handle e ev c of None \<Rightarrow> True | Some c \<Rightarrow> events_ok e evs c))"

lemma run_sent:
  assumes env: "env_ok e" and pol: "polite e"
  shows "client_ok e c \<or> freed c \<Longrightarrow> events_ok e evs c \<Longrightarrow>
    \<exists>c'. run_events e evs c = Some c' \<and> sent c' = sent c @ run_sends e evs c \<and>
      (offline c \<longrightarrow> list_all (\<lambda>ev. \<not> connack ev) evs \<longrightarrow>
         offline c' \<and> length (run_sends e evs c) = length (filter (\<lambda>ev. ev = Tcp_connected) evs))"
proof (induction evs arbitrary: c)
  case Nil
  then show ?case by simp
next
  case (Cons ev evs)
  have b: "env_bounds e" using env by (simp add: env_ok_def)
  have ok: "client_ok e c" and ev: "event_ok e c ev" using Cons.prems by auto
  obtain c1 where c1: "handle e ev c = Some c1" "client_ok e c1 \<or> freed c1"
    using handle_returns [OF env ok ev] by blast
  have "events_ok e evs c1" using Cons.prems(2) c1(1) by simp
  from Cons.IH [OF c1(2) this] obtain c' where c': "run_events e evs c1 = Some c'"
    "sent c' = sent c1 @ run_sends e evs c1"
    "offline c1 \<longrightarrow> list_all (\<lambda>ev. \<not> connack ev) evs \<longrightarrow>
       offline c' \<and> length (run_sends e evs c1) = length (filter (\<lambda>ev. ev = Tcp_connected) evs)" by blast
  have "length (step_sends e ev c) = (if ev = Tcp_connected then 1 else 0)" if "offline c"
    using that by (auto simp: step_sends_def dest: connState_eqs)
  with c' c1(1) step_sent [OF c1(1) b pol ok] offline_step [OF c1(1) b pol ok ev] show ?case
    by auto
qed

section \<open>The property\<close>

text \<open>
  C7. What the client sends, and when: in every run of SDK events and API calls, with an application
  whose callbacks do not interfere with the session, the bytes that leave the client are exactly
  those of the specification - CONNECT when a connection stands, the oldest queued message when
  the task runs in a session and no send is pending, PINGREQ after the keep-alive time - and a
  client that is not connected stays so until a CONNACK comes, sending only one CONNECT per
  established TCP connection: no queued message leaves before the broker has answered.
\<close>

theorem session_order:
  assumes "env_ok e" and "polite e" and "client_ok e c" and "events_ok e evs c"
  shows "\<exists>c'. run_events e evs c = Some c' \<and> sent c' = sent c @ run_sends e evs c \<and>
    (offline c \<longrightarrow> list_all (\<lambda>ev. \<not> connack ev) evs \<longrightarrow>
       offline c' \<and> length (run_sends e evs c) = length (filter (\<lambda>ev. ev = Tcp_connected) evs))"
  using run_sent [OF assms(1,2)] assms(3,4) by blast

lemma env0_polite: "polite env0"
  by (simp add: polite_def env0_def)

definition first_run :: "event list" where
  "first_run = [Connect, Task, Tcp_connected, Task, Sent, Timer, Recv [(0x20, [0, 0])], Task, Timer, Disconnect]"

lemma first_run_ok: "events_ok env0 first_run client0"
  by code_simp

theorem session_order_witness:
  "\<exists>c'. run_events env0 first_run client0 = Some c' \<and> sent c' = sent client0 @ run_sends env0 first_run client0 \<and>
    (offline client0 \<longrightarrow> list_all (\<lambda>ev. \<not> connack ev) first_run \<longrightarrow>
       offline c' \<and> length (run_sends env0 first_run client0) = length (filter (\<lambda>ev. ev = Tcp_connected) first_run))"
  by (rule session_order [OF env0 env0_polite client0(2) first_run_ok])

end
