(* ===== verification/Firmware_Session.thy ===== *)
theory Firmware_Session
  imports Firmware Mqtt_Order
begin

text \<open>
  The session of the whole firmware: from \<open>user_init\<close> to a connected client that has announced
  itself, and from a lost connection back to it without losing a queued message.
\<close>

section \<open>Events of the SDK as a run of the client\<close>

lemma fw_run_sdk:
  "fw_run e (map Sdk evs) s = map_option (\<lambda>c. s\<lparr>sys_client := c\<rparr>) (run_events (app_env e) evs (sys_client s))"
proof (induction evs arbitrary: s)
  case (Cons ev evs)
  then show ?case
    by (cases "handle (app_env e) ev (sys_client s)") (simp_all add: fw_handle_def option.map_comp comp_def)
qed simp

text \<open>The application's callbacks do not interfere with the session, so it has the order of \<open>Mqtt_Order\<close>.\<close>

lemma app_polite: "polite (app_env e)"
proof -
  have "connState c' = connState c \<and> sent c' = sent c" if "mqttConnectedCb e c = Some c'" for c c'
    using that by (auto simp: mqttConnectedCb_def split: Option.bind_splits dest!: api_undisturbed)
  moreover have "connState c' = connState c \<and> sent c' = sent c" if "mqttDataCb e c t tn d dn = Some c'" for c c' t tn d dn
    using that by (auto simp: mqttDataCb_def split: Option.bind_splits)
  ultimately show ?thesis
    by (auto simp: polite_def mqttDisconnectedCb_def mqttPublishedCb_def split: if_splits)
qed

lemma app_session_order:
  assumes "env_bounds e" and "\<And>n. zalloc e n = Some (replicate n 0)" and "client_ok e c"
    and "events_ok (app_env e) evs c"
  shows "\<exists>c'. run_events (app_env e) evs c = Some c' \<and> sent c' = sent c @ run_sends (app_env e) evs c"
  using run_sent [OF app_env_ok [OF assms(1,2)] app_polite, of c evs] assms(3,4) by auto

section \<open>What the application announces\<close>

text \<open>The three messages of \<open>mqttConnectedCb\<close>, all with QoS 1 and retained.\<close>

definition online_messages :: "(cstring \<times> cstring) list" where
  "online_messages =
     [(lit ''/sensor/test/online'', lit ''1''), (lit ''/sensor/test/max'', lit ''4500''),
      (lit ''/sensor/test/min'', lit ''2500'')]"

lemma online_messages_fit:
  "list_all (\<lambda>m. fst m \<noteq> [] \<and> message_size m \<le> 27) online_messages" "queue_need online_messages = 168"
  by code_simp+

text \<open>\<open>MQTT_InitLWT\<close> changes only the connect record, which publishing does not read.\<close>

definition with_will :: "cstring \<Rightarrow> cstring \<Rightarrow> MQTT_Client \<Rightarrow> MQTT_Client" where
  "with_will topic msg c = c\<lparr>connect_info := (connect_info c)\<lparr>will_topic := Some topic, will_message := Some msg,
     will_qos := 1, will_retain := 1\<rparr>\<rparr>"

lemma InitLWT_with_will:
  assumes z: "\<And>n. zalloc e n = Some (replicate n 0)" and "0 \<notin> set topic" and "0 \<notin> set msg"
  shows "MQTT_InitLWT e topic msg 1 1 c = Some (with_will topic msg c)"
  using dup_string_ok [OF z] assms(2,3) by (simp add: MQTT_InitLWT_def with_will_def)

lemma client_ok_with_will [simp]: "client_ok e c \<Longrightarrow> client_ok e (with_will topic msg c)"
  by (simp add: with_will_def client_ok_def will_ok_def)

text \<open>The callback queues exactly these messages behind what is queued already.\<close>

lemma mqttConnectedCb_queues:
  assumes ok: "client_ok e c" and env: "env_bounds e" and z: "\<And>n. zalloc e n = Some (replicate n 0)"
    and big: "27 \<le> MQTT_BUF_SIZE e" and room: "168 \<le> queue_free (msgQueue c)"
  shows "\<exists>c'. mqttConnectedCb e c = Some c' \<and> client_ok e c' \<and>
           queue_msgs (msgQueue c') =
             queue_msgs (msgQueue c) @ publish_packets (message_id (conn (mqtt_state c))) online_messages \<and>
           connState c' = connState c \<and> sendTimeout c' = sendTimeout c \<and> publishedCb c' = publishedCb c \<and>
           security c' = security c \<and> sent c' = sent c"
proof -
  define m where "m = (lit ''/sensor/test/online'', lit ''1'')"
  define ms where "ms = [(lit ''/sensor/test/max'', lit ''4500''), (lit ''/sensor/test/min'', lit ''2500'')]"
  have om: "online_messages = m # ms" by (simp add: online_messages_def m_def ms_def)
  have fit: "fst m \<noteq> []" "message_size m \<le> MQTT_BUF_SIZE e"
    "list_all (\<lambda>m. fst m \<noteq> [] \<and> message_size m \<le> MQTT_BUF_SIZE e) ms"
    and need: "2 * message_size m + 2 + queue_need ms = 168"
    using online_messages_fit big by (auto simp: om list_all_iff queue_need_def)
  have fit1: "fst m \<noteq> []" "message_size (fst m, snd m) \<le> MQTT_BUF_SIZE e"
    "2 * message_size (fst m, snd m) + 2 \<le> queue_free (msgQueue c)"
    using fit need room by simp_all
  obtain st q where 1: "MQTT_Publish e (Some (fst m)) (snd m) (int (length (snd m))) 1 1 c =
      Some (True, c\<lparr>mqtt_state := st, msgQueue := q, trace := trace c @ [Os_post]\<rparr>)"
    "client_ok e (c\<lparr>mqtt_state := st, msgQueue := q\<rparr>)" "message_id (conn st) = next_id (message_id (conn (mqtt_state c)))"
    "queue_msgs q = queue_msgs (msgQueue c) @ publish_packets (message_id (conn (mqtt_state c))) [m]"
    "queue_free (msgQueue c) \<le> queue_free q + (2 * message_size m + 2)"
    using publish_one [OF ok env fit1] by (cases m) auto
  define c1 where "c1 = c\<lparr>mqtt_state := st, msgQueue := q, trace := trace c @ [Os_post]\<rparr>"
  define c2 where "c2 = with_will (lit ''/sensor/test/online'') (lit ''0'') c1"
  have "client_ok e c1" using 1(2) by (simp add: c1_def client_ok_def)
  then have ok2: "client_ok e c2" by (simp add: c2_def)
  have 2: "MQTT_InitLWT e (lit ''/sensor/test/online'') (lit ''0'') 1 1 c1 = Some c2"
    unfolding c2_def by (rule InitLWT_with_will [OF z lit_no_zero(1,2)])
  have room2: "queue_need ms \<le> queue_free (msgQueue c2)"
    using 1(5) need room by (simp add: c2_def c1_def with_will_def)
  obtain st3 q3 where 3: "publish_all e ms c2 = Some (c2\<lparr>mqtt_state := st3, msgQueue := q3,
       trace := trace c2 @ replicate (length ms) Os_post\<rparr>)"
    "client_ok e (c2\<lparr>mqtt_state := st3, msgQueue := q3\<rparr>)"
    "queue_msgs q3 = queue_msgs (msgQueue c2) @ publish_packets (message_id (conn (mqtt_state c2))) ms"
    using publish_all_queues [OF ok2 env fit(3) room2] by blast
  define c3 where "c3 = c2\<lparr>mqtt_state := st3, msgQueue := q3, trace := trace c2 @ replicate (length ms) Os_post\<rparr>"
  have "mqttConnectedCb e c = publish_all e ms c2"
    using 1(1) [folded c1_def] 2 lit_no_zero(3-5)
    by (simp add: mqttConnectedCb_def m_def ms_def split: Option.bind_split)
  moreover have "client_ok e c3" using 3(2) by (simp add: c3_def client_ok_def)
  moreover have "publish_packets k (m # ms) = publish_packets k [m] @ publish_packets (next_id k) ms" for k
    by (cases m) simp
  moreover have "filter is_send (replicate n Os_post) = []" for n by (induction n) (simp_all add: is_send_def)
  ultimately show ?thesis
    using 3(1) [folded c3_def] 3(3) 1(3,4)
    by (intro exI [of _ c3]) (simp add: om, simp add: c3_def c2_def c1_def with_will_def sent_def is_send_def)
qed

section \<open>From a requested connection to a client that can send\<close>

text \<open>The callbacks that \<open>user_init\<close> registers.\<close>

definition app_client :: "MQTT_Client \<Rightarrow> bool" where
  "app_client c \<longleftrightarrow> connectedCb c = Some 0 \<and> disconnectedCb c = Some 1 \<and> publishedCb c = Some 2 \<and> timeoutCb c = None"

text \<open>The packet that opens the session.\<close>

definition connect_of :: "MQTT_Client \<Rightarrow> u8 list" where
  "connect_of c = packet 0x10 (connect_body (connect_info c))"

text \<open>What the connect record and the buffer have to allow.\<close>

definition can_connect :: "env \<Rightarrow> MQTT_Client \<Rightarrow> bool" where
  "can_connect e c \<longleftrightarrow> present (client_id (connect_info c)) \<and>
     3 + length (connect_body (connect_info c)) \<le> MQTT_BUF_SIZE e \<and> 27 \<le> MQTT_BUF_SIZE e \<and>
     168 \<le> queue_free (msgQueue c)"

definition accepted :: "u8 \<Rightarrow> u8 \<Rightarrow> event list \<Rightarrow> event list" where
  "accepted flags rc dns = dns @ [Tcp_connected, Sent, Recv [(0x20, [flags, rc])]]"

lemma accepted_run:
  assumes env: "env_bounds e" and z: "\<And>n. zalloc e n = Some (replicate n 0)" and ok: "client_ok e c"
    and pc: "pCon c \<noteq> None" and cb: "connectedCb c = Some 0" "publishedCb c = Some 2"
    and can: "can_connect e c" and dns: "dns = [] \<or> dns = [Dns (Some addr)]"
  shows "\<exists>c'. run_events (app_env e) (accepted flags rc dns) c = Some c' \<and> ready e c' \<and>
           queue_msgs (msgQueue c') = queue_msgs (msgQueue c) @ publish_packets 0 online_messages \<and>
           send_of c' = send_of c \<and> sent c' = sent c @ [send_of c (connect_of c)]"
proof -
  have env': "env_bounds (app_env e)" and ok': "client_ok (app_env e) c" using env ok by simp_all
  have fits: "present (client_id (connect_info c))"
    "3 + length (connect_body (connect_info c)) \<le> MQTT_BUF_SIZE (app_env e)" "4 < MQTT_BUF_SIZE (app_env e)"
    using can by (simp_all add: can_connect_def)
  from handshake_run [OF env' ok' pc dns fits(1,2)] obtain c1 where
    c1: "run_events (app_env e) (dns @ [Tcp_connected, Sent]) c = Some c1" "client_ok (app_env e) c1"
    "connState c1 = MQTT_CONNECT_SENDING" "pending_msg_type (mqtt_state c1) = msg_type CONNECT"
    "sendTimeout c1 = 0" "kept c1 = kept c" "message_id (conn (mqtt_state c1)) = 0"
    "sent c1 = sent c @ [send_of c (connect_of c)]" unfolding connect_of_def by blast
  from connack_run [OF c1(2) env' c1(3,4) fits(3), of flags rc] obtain c2 where
    c2: "handle (app_env e) (Recv [(0x20, [flags, rc])]) c1 =
      map_option (emit Os_post) (call_cb (app_env e) ConnectedCb (connectedCb c1) c2)"
    "client_ok (app_env e) c2" "connState c2 = MQTT_DATA" "sendTimeout c2 = 0" "kept c2 = kept c"
    "conn (mqtt_state c2) = conn (mqtt_state c1)" "trace c2 = trace c1"
    unfolding c1(5,6) by blast
  have k: "msgQueue c2 = msgQueue c" "connectedCb c1 = Some 0" "publishedCb c2 = Some 2" "security c2 = security c"
    using c2(5) c1(6) cb by (simp_all add: kept_def)
  define c3 where "c3 = emit (Called ConnectedCb) c2"
  have ok3: "client_ok e c3" using c2(2) by (simp add: c3_def)
  have f3: "msgQueue c3 = msgQueue c" "mqtt_state c3 = mqtt_state c2" "sent c3 = sent c1"
    "connState c3 = MQTT_DATA" "sendTimeout c3 = 0" "publishedCb c3 = Some 2" "security c3 = security c"
    using c2(3,4,7) k by (simp_all add: c3_def emit_def sent_def is_send_def)
  have room: "27 \<le> MQTT_BUF_SIZE e" "168 \<le> queue_free (msgQueue c3)" using can f3(1) by (simp_all add: can_connect_def)
  obtain c4 where c4: "mqttConnectedCb e c3 = Some c4" "client_ok e c4"
    "queue_msgs (msgQueue c4) = queue_msgs (msgQueue c) @ publish_packets 0 online_messages"
    "connState c4 = MQTT_DATA" "sendTimeout c4 = 0" "publishedCb c4 = Some 2" "security c4 = security c"
    "sent c4 = sent c1"
    using mqttConnectedCb_queues [OF ok3 env z room] f3 c2(6) c1(7) by auto
  have "run_events (app_env e) (accepted flags rc dns) c = Some (emit Os_post c4)"
    using c1(1) c2(1) c4(1) k(2)
    by (simp add: accepted_def run_events_append call_cb_def c3_def split: Option.bind_split_asm)
  then show ?thesis
    using c4 c1(8)
    by (intro exI [of _ "emit Os_post c4"]) (simp add: ready_def, simp add: emit_def sent_def is_send_def send_of_def fun_eq_iff)
qed

text \<open>And then everything that is queued is sent.\<close>

lemma ready_drains:
  assumes "env_bounds e" and "ready e c"
  shows "\<exists>c'. drain (app_env e) (length (queue_msgs (msgQueue c))) c = Some c' \<and> client_ok e c' \<and>
           queue_msgs (msgQueue c') = [] \<and> connState c' = MQTT_DATA \<and> sendTimeout c' = 0 \<and>
           sent c' = sent c @ map (send_of c) (map (take (MQTT_BUF_SIZE e)) (queue_msgs (msgQueue c)))"
proof -
  have "env_bounds (app_env e)" "client_ok (app_env e) c" "connState c = MQTT_DATA" "sendTimeout c = 0"
    using assms by (simp_all add: ready_def)
  from drain_sends_all [OF this(2,1,3,4) ready_quiet [OF assms(2)]] show ?thesis by (simp add: comp_def)
qed

section \<open>A lost connection\<close>

lemma online_packets_short:
  "27 \<le> n \<Longrightarrow> map (take n) (publish_packets k online_messages) = publish_packets k online_messages"
  "length (publish_packets k online_messages) = 3"
  using publish_packets_size [OF online_messages_fit(1), of k]
  by (auto simp: online_messages_def)

text \<open>
  C5. The firmware survives the loss of its connection: when the SDK reports a disconnection that
  nobody asked for, the first five ticks of the timer have no effect, and after the sixth the task deletes the old
  connection and requests a new one, by address or by name; once it stands, the client sends
  CONNECT first, and after CONNACK, in one round of task and sent callback per message, everything
  that was queued when the connection broke, in order and nothing twice, followed by the three
  messages with which the application announces itself. (That the timer ticks is up to
  \<open>goToSleep\<close>, which arms it.)
\<close>

theorem connection_recovered:
  fixes s :: "'f system"
  assumes "env_bounds e" and "\<And>n. zalloc e n = Some (replicate n 0)" and "client_ok e (sys_client s)"
    and "connState (sys_client s) \<notin> {TCP_DISCONNECTING, MQTT_DELETING}" and "pCon (sys_client s) \<noteq> None"
    and "app_client (sys_client s)" and "reconnectTick (sys_client s) = 0"
    and "can_connect e (sys_client s)" and "dns = [] \<or> dns = [Dns (Some addr)]"
  shows "\<exists>s1 s2 s3.
     fw_run e (map Sdk (Tcp_discon # replicate 6 Timer @ [Task]) :: 'd fw_event list) s = Some s1 \<and>
     trace (sys_client s1) = trace (sys_client s) @
       [Called DisconnectedCb, Os_post, Os_post, Tcp_delete] @ connect_effects (sys_client s) \<and>
     fw_run e (map Sdk (accepted flags rc dns) :: 'd fw_event list) s1 = Some s2 \<and>
     sent (sys_client s2) = sent (sys_client s) @ [send_of (sys_client s) (connect_of (sys_client s))] \<and>
     fw_run e (rounds (length (queue_msgs (msgQueue (sys_client s))) + 3) :: 'd fw_event list) s2 = Some s3 \<and>
     queue_msgs (msgQueue (sys_client s3)) = [] \<and> connState (sys_client s3) = MQTT_DATA \<and>
     sent (sys_client s3) = sent (sys_client s2) @ map (send_of (sys_client s))
       (map (take (MQTT_BUF_SIZE e)) (queue_msgs (msgQueue (sys_client s))) @ publish_packets 0 online_messages)"
proof -
  let ?c = "sys_client s" and ?ms = "queue_msgs (msgQueue (sys_client s))"
  have env: "env_ok (app_env e)" by (rule app_env_ok [OF assms(1,2)])
  have app: "quiet (app_env e) (disconnectedCb ?c)" "timeoutCb ?c = None"
    "called DisconnectedCb (disconnectedCb ?c) = [Called DisconnectedCb]"
    using assms(6) by (simp_all add: app_client_def quiet_def called_def mqttDisconnectedCb_def)
  obtain c1 where c1: "run_events (app_env e) (Tcp_discon # replicate 6 Timer @ [Task]) ?c = Some c1"
    "client_ok (app_env e) c1" "pCon c1 \<noteq> None" "kept c1 = kept ?c"
    "trace c1 = trace ?c @ [Called DisconnectedCb, Os_post, Os_post, Tcp_delete] @ connect_effects ?c"
    using lost_connection_run [OF env _ assms(4,5) app(1,2) assms(7)] assms(3) app(3) by auto
  have k: "msgQueue c1 = msgQueue ?c" "connectedCb c1 = Some 0" "publishedCb c1 = Some 2"
    "can_connect e c1" "connect_of c1 = connect_of ?c" "send_of c1 = send_of ?c" "sent c1 = sent ?c"
    using c1(4,5) assms(6,8)
    by (auto simp: kept_def app_client_def can_connect_def connect_of_def send_of_def sent_def is_send_def
        connect_effects_def fun_eq_iff)
  obtain c2 where c2: "run_events (app_env e) (accepted flags rc dns) c1 = Some c2" "ready e c2"
    "queue_msgs (msgQueue c2) = ?ms @ publish_packets 0 online_messages" "send_of c2 = send_of ?c"
    "sent c2 = sent ?c @ [send_of ?c (connect_of ?c)]"
    using accepted_run [OF assms(1,2) _ c1(3) k(2-4) assms(9)] c1(2) k by auto
  have big: "27 \<le> MQTT_BUF_SIZE e" using assms(8) by (simp add: can_connect_def)
  obtain c3 where c3: "drain (app_env e) (length ?ms + 3) c2 = Some c3" "queue_msgs (msgQueue c3) = []"
    "connState c3 = MQTT_DATA" "sent c3 = sent c2 @
       map (send_of ?c) (map (take (MQTT_BUF_SIZE e)) ?ms @ publish_packets 0 online_messages)"
    using ready_drains [OF assms(1) c2(2)] big unfolding c2(3,4) by (auto simp: online_packets_short simp del: map_map)
  define s1 where "s1 = s\<lparr>sys_client := c1\<rparr>"
  define s2 where "s2 = s\<lparr>sys_client := c2\<rparr>"
  define s3 where "s3 = s\<lparr>sys_client := c3\<rparr>"
  have "fw_run e (map Sdk (Tcp_discon # replicate 6 Timer @ [Task]) :: 'd fw_event list) s = Some s1"
    unfolding fw_run_sdk c1(1) by (simp add: s1_def)
  moreover have "fw_run e (map Sdk (accepted flags rc dns) :: 'd fw_event list) s1 = Some s2"
    unfolding fw_run_sdk by (simp add: s1_def s2_def c2(1))
  moreover have "fw_run e (rounds (length ?ms + 3) :: 'd fw_event list) s2 = Some s3"
    unfolding fw_run_rounds by (simp add: s2_def s3_def c3(1))
  moreover have "sys_client s1 = c1" "sys_client s2 = c2" "sys_client s3 = c3"
    by (simp_all add: s1_def s2_def s3_def)
  ultimately show ?thesis using c1(5) c2(5) c3(2-4) by metis
qed

section \<open>Coming online\<close>

text \<open>What \<open>user_init\<close> leaves in the client and in the WiFi module.\<close>

definition first_connect :: "SYSCFG \<Rightarrow> cstring \<Rightarrow> cstring \<Rightarrow> cstring \<Rightarrow> mqtt_connect_info" where
  "first_connect cfg dev user pass = connect_info_zero\<lparr>client_id := Some dev, username := Some user,
     password := Some pass, keepalive := sint (mqtt_keepalive cfg), clean_session := 1\<rparr>"

lemma queue_init_free:
  "queue_free (QUEUE_Init (Some (replicate (nat QUEUE_BUFFER_SIZE) 0)) queue_zero QUEUE_BUFFER_SIZE) = 2048"
  by code_simp

lemma start_client_fields:
  assumes "start_client e cfg hst dev user pass c = Some c'" and z: "\<And>n. zalloc e n = Some (replicate n 0)"
  shows "app_client c'" and "pCon c' = None" and "sent c' = sent c" and "queue_msgs (msgQueue c') = []"
    and "queue_free (msgQueue c') = 2048"
    and "0 \<notin> set dev \<Longrightarrow> no_zero (Some user) \<Longrightarrow> no_zero (Some pass) \<Longrightarrow> connect_info c' = first_connect cfg dev user pass"
  using assms(1) queue_init_ok queue_init_free dup_string_ok [OF z]
  by (auto simp: no_zero_def first_connect_def start_client_def init_client_def MQTT_InitConnection_def MQTT_InitClient_def app_client_def z
      MQTT_OnData_def MQTT_OnPublished_def MQTT_OnDisconnected_def MQTT_OnConnected_def emit_def Let_def
      client_zero_def sent_def is_send_def split: Option.bind_splits)

lemma user_init_fields:
  assumes "user_init d e name s = Some s1" and "\<And>n. zalloc e n = Some (replicate n 0)"
  shows "app_client (sys_client s1)" and "pCon (sys_client s1) = None"
    and "sent (sys_client s1) = sent (sys_client s)" and "queue_msgs (msgQueue (sys_client s1)) = []"
    and "queue_free (msgQueue (sys_client s1)) = 2048"
    and "lastWifiStatus (sys_wifi s1) = lastWifiStatus (sys_wifi s)"
    and "\<exists>dev user pass. c_string (device_id (sysCfg (sys_cfg s1))) = Some dev \<and>
           c_string (mqtt_user (sysCfg (sys_cfg s1))) = Some user \<and>
           c_string (mqtt_pass (sysCfg (sys_cfg s1))) = Some pass \<and>
           connect_info (sys_client s1) = first_connect (sysCfg (sys_cfg s1)) dev user pass"
proof -
  from assms(1) obtain cfgs hst dev user pass c ssid pwd w where
    str: "c_string (mqtt_host (sysCfg cfgs)) = Some hst" "c_string (device_id (sysCfg cfgs)) = Some dev"
    "c_string (mqtt_user (sysCfg cfgs)) = Some user" "c_string (mqtt_pass (sysCfg cfgs)) = Some pass"
    and c: "start_client e (sysCfg cfgs) hst dev user pass (sys_client s) = Some c"
    and w: "WIFI_Connect ssid pwd (Some 0) (sys_wifi s) = Some w"
    and s1: "s1 = s\<lparr>sys_cfg := cfgs, sys_client := c, sys_wifi := w, sys_board := sleepInit (sys_board s)\<rparr>"
    by (auto simp: user_init_parts split: Option.bind_splits if_splits)
  from start_client_fields [OF c assms(2)] s1
  show "app_client (sys_client s1)" "pCon (sys_client s1) = None"
    "sent (sys_client s1) = sent (sys_client s)" "queue_msgs (msgQueue (sys_client s1)) = []"
    "queue_free (msgQueue (sys_client s1)) = 2048" by simp_all
  show "\<exists>dev user pass. c_string (device_id (sysCfg (sys_cfg s1))) = Some dev \<and>
      c_string (mqtt_user (sysCfg (sys_cfg s1))) = Some user \<and> c_string (mqtt_pass (sysCfg (sys_cfg s1))) = Some pass \<and>
      connect_info (sys_client s1) = first_connect (sysCfg (sys_cfg s1)) dev user pass"
    using start_client_fields(6) [OF c assms(2) c_string_lengths(2-4) [OF str]] str(2-4) s1 by simp
  show "lastWifiStatus (sys_wifi s1) = lastWifiStatus (sys_wifi s)"
    using w s1 by (auto simp: WIFI_Connect_def wifi_do_def Let_def split: Option.bind_splits)
qed

text \<open>The event that reports the address requests the connection.\<close>

lemma got_ip_connects:
  assumes env: "env_ok (app_env e)" and ok: "client_ok e (sys_client s)" and pc: "pCon (sys_client s) = None"
    and cb: "wifiCb (sys_wifi s) = Some 0" and new: "lastWifiStatus (sys_wifi s) \<noteq> STATION_GOT_IP"
  shows "\<exists>w c. fw_handle e (Wifi_event event STATION_GOT_IP :: 'd fw_event) s = Some (s\<lparr>sys_wifi := w, sys_client := c\<rparr>) \<and>
           wifiCb w = Some 0 \<and> client_ok e c \<and> pCon c \<noteq> None \<and> kept c = kept (sys_client s) \<and>
           trace c = trace (sys_client s) @ connect_effects (sys_client s)"
proof -
  let ?c = "sys_client s"
  have ok': "client_ok (app_env e) ?c" using ok by simp
  obtain c where c: "MQTT_Connect (app_env e) ?c = Some c" "pCon c \<noteq> None"
    "trace c = trace ?c @ connect_effects ?c"
    using MQTT_Connect_effects [OF ok' env pc] unfolding connect_effects_def by blast
  have okc: "client_ok e c" using MQTT_Connect_ok [OF ok' env] c(1) by simp
  have k: "kept c = kept ?c"
    using c(1) pc by (auto simp: MQTT_Connect_def kept_def emit_def Let_def split: Option.bind_splits)
  define w0 where "w0 = (if event = EVENT_STAMODE_DISCONNECTED then wifi_do Station_connect (sys_wifi s) else sys_wifi s)"
  have w0: "wifiCb w0 = Some 0" "lastWifiStatus w0 \<noteq> STATION_GOT_IP"
    using cb new by (simp_all add: w0_def wifi_do_def)
  have "wifi_cb e 0 STATION_GOT_IP ?c = Some c" using c(1) by (simp add: wifi_cb_def wifiConnectCb_def)
  from wifi_check_ip_run [where run = "wifi_cb e" and x = ?c, OF w0(1) this] w0(2) obtain w where
    "wifi_check_ip (wifi_cb e) STATION_GOT_IP (w0, ?c) = Some (w, c)" "wifiCb w = Some 0"
    using w0(1) by (auto simp: Let_def wifi_do_def)
  then show ?thesis
    using c okc k
    by (intro exI [of _ w] exI [of _ c]) (simp add: fw_handle_def wifi_handle_event_cb_def w0_def if_distrib split: if_splits)
qed


section \<open>A concrete loss and a concrete start\<close>

text \<open>The connected client of \<open>Firmware\<close> with its connection, its callbacks and one queued message.\<close>

definition base1 :: MQTT_Client where
  "base1 = client1\<lparr>pCon := Some \<lparr>proto_tcp = Some \<lparr>remote_port = 1883, local_port = 1024,
     remote_ip = [10, 0, 0, 1]\<rparr>\<rparr>, connectedCb := Some 0, disconnectedCb := Some 1, publishedCb := Some 2,
     timeoutCb := None, reconnectTick := 0\<rparr>"

definition lossy1 :: "(nat \<Rightarrow> u8) system" where
  "lossy1 = sys1\<lparr>sys_client :=
     snd (the (MQTT_Publish env1 (Some [0x74]) [0x31] (int (length [0x31 :: u8])) 1 1 base1))\<rparr>"

lemma base1: "client_ok env1 base1" "app_client base1" "pCon base1 \<noteq> None" "reconnectTick base1 = 0"
  "connState base1 = MQTT_DATA" "queue_msgs (msgQueue base1) = []" "queue_free (msgQueue base1) = 2048"
  "present (client_id (connect_info base1))" "3 + length (connect_body (connect_info base1)) \<le> MQTT_BUF_SIZE env1"
proof -
  show "client_ok env1 base1" using client1(1) by (simp add: base1_def ready_def client_ok_def tcp_ok_def)
  show "app_client base1" "pCon base1 \<noteq> None" "reconnectTick base1 = 0" by (simp_all add: base1_def app_client_def)
  show "connState base1 = MQTT_DATA" using client1(1) by (simp add: base1_def ready_def)
  show "queue_msgs (msgQueue base1) = []" using client1(2) by (simp add: base1_def queue_msgs_def messages_def)
  show "queue_free (msgQueue base1) = 2048" by code_simp
  show "present (client_id (connect_info base1))" by code_simp
  show "3 + length (connect_body (connect_info base1)) \<le> MQTT_BUF_SIZE env1" by code_simp
qed

lemma lossy1:
  "client_ok env1 (sys_client lossy1)" "app_client (sys_client lossy1)" "pCon (sys_client lossy1) \<noteq> None"
  "reconnectTick (sys_client lossy1) = 0" "connState (sys_client lossy1) = MQTT_DATA"
  "length (queue_msgs (msgQueue (sys_client lossy1))) = 1" "can_connect env1 (sys_client lossy1)"
proof -
  have "message_size ([0x74], [0x31]) = 9" by code_simp
  then have fit: "message_size ([0x74], [0x31]) \<le> MQTT_BUF_SIZE env1"
    "2 * message_size ([0x74], [0x31]) + 2 \<le> queue_free (msgQueue base1)"
    by (simp_all add: base1(7) env1(4))
  obtain st q where p: "sys_client lossy1 = base1\<lparr>mqtt_state := st, msgQueue := q, trace := trace base1 @ [Os_post]\<rparr>"
    "client_ok env1 (base1\<lparr>mqtt_state := st, msgQueue := q\<rparr>)" "length (queue_msgs q) = 1" "2000 \<le> queue_free q"
    using publish_one [OF base1(1) env1(2) _ fit] base1(6,7) \<open>message_size ([0x74], [0x31]) = 9\<close>
    by (fastforce simp: lossy1_def)
  from p base1 show "client_ok env1 (sys_client lossy1)" "app_client (sys_client lossy1)"
    "pCon (sys_client lossy1) \<noteq> None" "reconnectTick (sys_client lossy1) = 0"
    "connState (sys_client lossy1) = MQTT_DATA" "length (queue_msgs (msgQueue (sys_client lossy1))) = 1"
    by (simp_all add: client_ok_def app_client_def)
  show "can_connect env1 (sys_client lossy1)" using p(1,4) base1(8,9) by (simp add: can_connect_def env1(4))
qed

theorem connection_recovered_witness:
  "\<exists>s1 s2 s3.
     fw_run env1 (map Sdk (Tcp_discon # replicate 6 Timer @ [Task]) :: unit fw_event list) lossy1 = Some s1 \<and>
     trace (sys_client s1) = trace (sys_client lossy1) @
       [Called DisconnectedCb, Os_post, Os_post, Tcp_delete] @ connect_effects (sys_client lossy1) \<and>
     fw_run env1 (map Sdk (accepted 0 0 [Dns (Some 0x0100000A)]) :: unit fw_event list) s1 = Some s2 \<and>
     sent (sys_client s2) = sent (sys_client lossy1) @ [send_of (sys_client lossy1) (connect_of (sys_client lossy1))] \<and>
     fw_run env1 (rounds (length (queue_msgs (msgQueue (sys_client lossy1))) + 3) :: unit fw_event list) s2 = Some s3 \<and>
     queue_msgs (msgQueue (sys_client s3)) = [] \<and> connState (sys_client s3) = MQTT_DATA \<and>
     sent (sys_client s3) = sent (sys_client s2) @ map (send_of (sys_client lossy1))
       (map (take (MQTT_BUF_SIZE env1)) (queue_msgs (msgQueue (sys_client lossy1))) @ publish_packets 0 online_messages)"
  by (rule connection_recovered [where addr = "0x0100000A"]) (simp_all only: lossy1 env1, simp_all)

text \<open>A stored configuration with a device, a broker and a network.\<close>

definition cfg2 :: SYSCFG where
  "cfg2 = cfg0\<lparr>device_id := lit ''sensor'' @ replicate 26 0, mqtt_host := lit ''10.0.0.1'' @ replicate 56 0,
     mqtt_keepalive := 120\<rparr>"

definition power_on2 :: "(nat \<Rightarrow> u8) system" where
  "power_on2 = power_on\<lparr>sys_cfg := board0\<lparr>flash := chip_with cfg2\<rparr>\<rparr>"

lemma cfg2: "stored nor_flash (flash (sys_cfg power_on2)) = cfg2" "bootable cfg2"
proof -
  have "length (lit ''sensor'') = 6" "length (lit ''10.0.0.1'') = 8" by code_simp+
  then have "cfg_wf cfg2" using cfg0(1) by (simp add: cfg2_def cfg_wf_def cfg_fields_def cfg_sizes_def)
  then show "stored nor_flash (flash (sys_cfg power_on2)) = cfg2" by (simp add: power_on2_def stored_chip_with)
  show "bootable cfg2" by code_simp
qed

lemma cfg2_connects:
  "c_string (device_id cfg2) = Some (lit ''sensor'')" "c_string (mqtt_user cfg2) = Some []"
  "c_string (mqtt_pass cfg2) = Some []" "present (client_id (first_connect cfg2 (lit ''sensor'') [] []))"
  "3 + length (connect_body (first_connect cfg2 (lit ''sensor'') [] [])) \<le> 128"
  by code_simp+


end
