(* ===== verification/Http_Config.thy ===== *)
theory Http_Config
  imports Config Utils
begin

text \<open>
  The configuration page of \<open>src/modules/http_config.c\<close>: a web server on port 80 of the soft
  access point that shows the stored configuration as a form and saves the form sent back.
  Parameters are the allocator, the flash chip and floating-point arithmetic. The properties
  say that a form is decoded and saved as it was filled in, and where the fixed buffers overflow.
\<close>

section \<open>The environment\<close>

text \<open>
  \<open>os_malloc n\<close> is a block of at least n bytes of any contents, or \<open>None\<close> for NULL. A
  double is its representation \<open>'d\<close>; \<open>f_\<close> marks the single-precision operations, conversions
  to \<open>int\<close> are \<open>None\<close> out of range.
\<close>

record ('d, 'f) http_env =
  os_malloc :: "nat \<Rightarrow> u8 list option"
  chip :: "'f flash_dev"
  client_name :: cstring
  d_of_int :: "int \<Rightarrow> 'd"
  d_add :: "'d \<Rightarrow> 'd \<Rightarrow> 'd"
  d_mul :: "'d \<Rightarrow> 'd \<Rightarrow> 'd"
  d_div :: "'d \<Rightarrow> 'd \<Rightarrow> 'd"
  d_to_int :: "'d \<Rightarrow> int option"
  d_to_bytes :: "'d \<Rightarrow> u8 list"
  d_of_bytes :: "u8 list \<Rightarrow> 'd"
  f_of_int :: "int \<Rightarrow> 'd"
  f_sub :: "'d \<Rightarrow> 'd \<Rightarrow> 'd"
  f_mul :: "'d \<Rightarrow> 'd \<Rightarrow> 'd"

text \<open>NULL is the empty block. \<open>os_realloc\<close> keeps what fits of the old block.\<close>

definition malloc_block :: "('d, 'f) http_env \<Rightarrow> nat \<Rightarrow> u8 list" where
  "malloc_block e n = (case os_malloc e n of None \<Rightarrow> [] | Some b \<Rightarrow> b)"

definition calloc_block :: "('d, 'f) http_env \<Rightarrow> nat \<Rightarrow> u8 list" where
  "calloc_block e n = replicate (min n (length (malloc_block e n))) 0 @ drop n (malloc_block e n)"

definition realloc_block :: "('d, 'f) http_env \<Rightarrow> u8 list \<Rightarrow> nat \<Rightarrow> u8 list" where
  "realloc_block e old n = take (length (malloc_block e n)) old @ drop (length old) (malloc_block e n)"

section \<open>Strings of the C library\<close>

fun strstr :: "cstring \<Rightarrow> cstring \<Rightarrow> nat option" where
  "strstr pat s =
     (if take (length pat) s = pat then Some 0
      else case s of [] \<Rightarrow> None | c # t \<Rightarrow> map_option Suc (strstr pat t))"

declare strstr.simps [simp del]

text \<open>\<open>strncpy\<close> writes exactly n bytes; \<open>strncat\<close> reads at most n bytes and adds a terminator.\<close>

definition strncpy :: "u8 list \<Rightarrow> cstring \<Rightarrow> nat \<Rightarrow> u8 list option" where
  "strncpy dst s n = wr_block dst 0 (take n (s @ replicate n 0))"

definition strncat :: "u8 list \<Rightarrow> u8 list \<Rightarrow> nat \<Rightarrow> u8 list option" where
  "strncat dst src n =
     (let s = takeWhile (\<lambda>b. b \<noteq> 0) (take n src)
      in if length s = length src \<and> length src < n then None else c_strcat dst s)"

text \<open>Whether \<open>strcmp\<close> of a block and a string gives 0.\<close>

fun c_streq :: "u8 list \<Rightarrow> cstring \<Rightarrow> bool option" where
  "c_streq [] s = None"
| "c_streq (b # m) [] = Some (b = 0)"
| "c_streq (b # m) (c # s) = (if b = c then c_streq m s else Some False)"

definition isspace :: "u8 \<Rightarrow> bool" where
  "isspace c \<longleftrightarrow> c = 0x20 \<or> 9 \<le> c \<and> c \<le> 13"

text \<open>White space and a sign, as \<open>atoi\<close> and \<open>strtol\<close> skip them.\<close>

definition signed_text :: "cstring \<Rightarrow> bool \<times> cstring" where
  "signed_text s =
     (case dropWhile isspace s of
        [] \<Rightarrow> (False, [])
      | c # t \<Rightarrow> if c = 0x2D then (True, t) else if c = 0x2B then (False, t) else (False, c # t))"

definition dec_value :: "cstring \<Rightarrow> int" where
  "dec_value s = foldl (\<lambda>v c. 10 * v + (uint c - 0x30)) 0 (takeWhile is_digit s)"

definition atoi :: "cstring \<Rightarrow> int option" where
  "atoi s =
     (let (neg, t) = signed_text s;
          v = (if neg then - dec_value t else dec_value t)
      in if - (2 ^ 31) \<le> v \<and> v < 2 ^ 31 then Some v else None)"

text \<open>
  \<open>strtol\<close> in base 16 of at most two characters: a prefix 0x leaves no digit after it, so that
  its value is that of the digit 0.
\<close>

definition strtol16 :: "cstring \<Rightarrow> int" where
  "strtol16 s =
     (let (neg, t) = signed_text s;
          v = int (hex_value (takeWhile (\<lambda>c. hex_digit c \<noteq> None) t))
      in if neg then - v else v)"

definition dec_int :: "int \<Rightarrow> cstring" where
  "dec_int n = (if n < 0 then 0x2D # dec (nat (- n)) else dec (nat n))"

text \<open>Text with tabs and single quotes, written as | and `.\<close>

definition html :: "string \<Rightarrow> cstring" where
  "html s = map (\<lambda>c. if c = CHR ''|'' then 9 else if c = CHR ''`'' then 0x27 else of_char c) s"

definition CRLF :: cstring where "CRLF = [13, 10]"

section \<open>Numbers\<close>

fun atof_loop :: "('d, 'f) http_env \<Rightarrow> cstring \<Rightarrow> 'd \<Rightarrow> 'd \<Rightarrow> bool \<Rightarrow> 'd" where
  "atof_loop e [] rez scale point_seen = d_mul e rez scale"
| "atof_loop e (c # s) rez scale point_seen =
     (if c = 0x2E then atof_loop e s rez scale True
      else let d = uint c - 0x30
           in if d \<ge> 0 \<and> d \<le> 9 then
                let scale = (if point_seen then d_div e scale (d_of_int e 10) else scale)
                in atof_loop e s (d_add e (d_mul e rez (d_of_int e 10)) (d_of_int e d)) scale point_seen
              else atof_loop e s rez scale point_seen)"

definition os_atof :: "('d, 'f) http_env \<Rightarrow> cstring \<Rightarrow> 'd" where
  "os_atof e s =
     (case s of
        c # t \<Rightarrow> if c = 0x2D then atof_loop e t (d_of_int e 0) (d_of_int e (-1)) False
                  else atof_loop e s (d_of_int e 0) (d_of_int e 1) False
      | [] \<Rightarrow> atof_loop e s (d_of_int e 0) (d_of_int e 1) False)"

text \<open>A negative exponent counts down through an overflow.\<close>

fun power_loop :: "int \<Rightarrow> nat \<Rightarrow> int \<Rightarrow> int option" where
  "power_loop base 0 result = Some result"
| "power_loop base (Suc exp) result =
     (let r = result * base
      in if - (2 ^ 31) \<le> r \<and> r < 2 ^ 31 then power_loop base exp r else None)"

definition power :: "int \<Rightarrow> int \<Rightarrow> int option" where
  "power base exp = (if exp < 0 then None else power_loop base (nat exp) 1)"

text \<open>\<open>buf\<close> has 64 and \<open>pattern\<close> 40 bytes: 16 and 10 pointers. The argument is an \<open>int\<close> made a float.\<close>

definition ftoa :: "('d, 'f) http_env \<Rightarrow> 'd \<Rightarrow> u8 \<Rightarrow> cstring option" where
  "ftoa e num decimals =
     do {
       whole \<leftarrow> d_to_int e num;
       p \<leftarrow> power 10 (uint decimals);
       decimal \<leftarrow> d_to_int e (f_mul e (f_sub e num (f_of_int e whole)) (f_of_int e p));
       let decimal = (if decimal < 0 then decimal - 2 * decimal else decimal);
       pattern \<leftarrow> c_strcpy (replicate 40 0) (lit ''%d.%0'' @ dec (unat decimals) @ lit ''d'');
       let digits = dec_int decimal;
       let s = dec_int whole @ lit ''.'' @ replicate (unat decimals - length digits) 0x30 @ digits;
       buf \<leftarrow> c_strcpy (replicate 64 0) s;
       Some s
     }"

section \<open>The form\<close>

text \<open>A row is printed into 128 bytes and appended to the page, which is resized for it.\<close>

definition append_row :: "('d, 'f) http_env \<Rightarrow> u8 list \<Rightarrow> cstring \<Rightarrow> u8 list option" where
  "append_row e buffer row =
     do {
       h \<leftarrow> c_strcpy (malloc_block e 128) row;
       b \<leftarrow> c_string buffer;
       r \<leftarrow> c_string h;
       c_strcat (realloc_block e buffer (length b + length r)) r
     }"

definition HTTPConfig_GetFormInputFloat ::
  "('d, 'f) http_env \<Rightarrow> u8 list \<Rightarrow> cstring \<Rightarrow> cstring \<Rightarrow> int \<Rightarrow> u8 list option" where
  "HTTPConfig_GetFormInputFloat e buffer label name val =
     do {
       v \<leftarrow> ftoa e (f_of_int e val) 2;
       append_row e buffer
         (html ''<tr>||<td>'' @ label @ html '':</td>||<td><input name=`'' @ name @ html ''` value=`'' @ v @
          html ''` type=`number` step=`.01`></td>|</tr>'')
     }"

definition HTTPConfig_GetFormInputNumber ::
  "('d, 'f) http_env \<Rightarrow> u8 list \<Rightarrow> cstring \<Rightarrow> cstring \<Rightarrow> int \<Rightarrow> cstring \<Rightarrow> u8 list option" where
  "HTTPConfig_GetFormInputNumber e buffer label name val type =
     append_row e buffer
       (html ''<tr>||<td>'' @ label @ html '':</td>||<td><input name=`'' @ name @ html ''` value=`'' @
        dec_int val @ html ''` type=`'' @ type @ html ''`></td>|</tr>'')"

definition HTTPConfig_GetFormInputString ::
  "('d, 'f) http_env \<Rightarrow> u8 list \<Rightarrow> cstring \<Rightarrow> cstring \<Rightarrow> u8 list \<Rightarrow> int \<Rightarrow> cstring \<Rightarrow> u8 list option" where
  "HTTPConfig_GetFormInputString e buffer label name val valueLength type =
     do {
       v \<leftarrow> c_string val;
       append_row e buffer
         (html ''<tr>||<td>'' @ label @ html '':</td>||<td><input name=`'' @ name @ html ''` value=`'' @
          v @ html ''` maxlength=`'' @ dec_int valueLength @ html ''` type=`'' @ type @ html ''`></td>|</tr>'')
     }"

definition form_head :: cstring where
  "form_head =
      html ''<!DOCTYPE html><html><head>|<title>ESP8266 V-Config</title></head><style>body{|font-'' @
      html ''family: sans-serif;|color: coral;|background-color: aliceblue;}input{|border-radius:'' @
      html '' 5px;|border: 1px solid coral;|height: 20px;|padding: 5px;}button{|border-radius: 5p'' @
      html ''x;|background-color: coral;|border: 1px solid coral;|color: aliceblue;|padding: 10px'' @
      html '';}</style><body><form method=`post`>|<table>||<tbody>''"

definition form_tail :: cstring where
  "form_tail =
      html ''<tr>|||||<td>||||||<button>Save Settings</button>|||||</td>||||</tr>|||</tbody>||</t'' @
      html ''able>|</form>|</body></html>''"

text \<open>The parameter \<open>value\<close> of the float input is an \<open>int\<close>: the multiplier is cut off.\<close>

definition float_row ::
  "('d, 'f) http_env \<Rightarrow> u8 list \<Rightarrow> cstring \<Rightarrow> cstring \<Rightarrow> u8 list \<Rightarrow> u8 list option" where
  "float_row e b label name mul =
     do { v \<leftarrow> d_to_int e (d_of_bytes e mul); HTTPConfig_GetFormInputFloat e b label name v }"

type_synonym 'f http_cfg = "'f cfg_state"

definition HTTPConfig_GetForm ::
  "('d, 'f) http_env \<Rightarrow> 'f http_cfg \<Rightarrow> (u8 list \<times> 'f http_cfg) option" where
  "HTTPConfig_GetForm e s =
     do {
       s \<leftarrow> CFG_Load (chip e) (client_name e) s;
       let c = sysCfg s;
       b \<leftarrow> c_strcpy (malloc_block e 4096) form_head;
       b \<leftarrow> HTTPConfig_GetFormInputString e b (lit ''WiFi SSID'') (lit ''sta_ssid'') (sta_ssid c) 64 (lit ''text'');
       b \<leftarrow> HTTPConfig_GetFormInputString e b (lit ''WiFi Password'') (lit ''sta_pwd'') (sta_pwd c) 64 (lit ''password'');
       b \<leftarrow> HTTPConfig_GetFormInputString e b (lit ''MQTT Host'') (lit ''mqtt_host'') (mqtt_host c) 64 (lit ''text'');
       b \<leftarrow> HTTPConfig_GetFormInputNumber e b (lit ''MQTT Port'') (lit ''mqtt_port'') (sint (mqtt_port c)) (lit ''number'');
       b \<leftarrow> HTTPConfig_GetFormInputString e b (lit ''MQTT User Name'') (lit ''mqtt_user'') (mqtt_user c) 32 (lit ''text'');
       b \<leftarrow> HTTPConfig_GetFormInputString e b (lit ''MQTT Password'') (lit ''mqtt_pass'') (mqtt_pass c) 32 (lit ''password'');
       b \<leftarrow> HTTPConfig_GetFormInputNumber e b (lit ''MQTT Keep Alive'') (lit ''mqtt_keepalive'') (sint (mqtt_keepalive c)) (lit ''number'');
       b \<leftarrow> HTTPConfig_GetFormInputString e b (lit ''MQTT Root Topic'') (lit ''mqtt_topicroot'') (mqtt_topicroot c) 64 (lit ''text'');
       b \<leftarrow> HTTPConfig_GetFormInputString e b (lit ''MQTT ADC0 Topic'') (lit ''mqtt_topicadc0'') (mqtt_topicadc0 c) 32 (lit ''text'');
       b \<leftarrow> float_row e b (lit ''MQTT ADC0 Multiplier'') (lit ''mqtt_muladc0'') (mqtt_muladc0 c);
       b \<leftarrow> HTTPConfig_GetFormInputString e b (lit ''MQTT ADC1 Topic'') (lit ''mqtt_topicadc1'') (mqtt_topicadc1 c) 32 (lit ''text'');
       b \<leftarrow> float_row e b (lit ''MQTT ADC1 Multiplier'') (lit ''mqtt_muladc1'') (mqtt_muladc1 c);
       b \<leftarrow> HTTPConfig_GetFormInputString e b (lit ''MQTT ADC2 Topic'') (lit ''mqtt_topicadc2'') (mqtt_topicadc2 c) 32 (lit ''text'');
       b \<leftarrow> float_row e b (lit ''MQTT ADC2 Multiplier'') (lit ''mqtt_muladc2'') (mqtt_muladc2 c);
       b \<leftarrow> HTTPConfig_GetFormInputString e b (lit ''MQTT ADC3 Topic'') (lit ''mqtt_topicadc3'') (mqtt_topicadc3 c) 32 (lit ''text'');
       b \<leftarrow> float_row e b (lit ''MQTT ADC3 Multiplier'') (lit ''mqtt_muladc3'') (mqtt_muladc3 c);
       h \<leftarrow> c_string b;
       b \<leftarrow> c_strcat (realloc_block e b (length h + 130)) form_tail;
       Some (b, s)
     }"

section \<open>Requests\<close>

text \<open>The web server: the configuration, the receive buffer, and what it makes the SDK do.\<close>

datatype http_op =
    Espconn_sent "u8 list"
  | Free_segment
  | Regist_recvcb | Regist_reconcb | Regist_disconcb | Regist_sentcb | Regist_connectcb
  | Softap_set_config "u8 list" "u8 list" nat nat nat
  | Dhcps_offer_router u8
  | Espconn_accept nat

record 'f http =
  cfgs :: "'f http_cfg"
  recieveBuffer :: "u8 list"
  http_trace :: "http_op list"

definition http_do :: "http_op \<Rightarrow> 'f http \<Rightarrow> 'f http" where
  "http_do op h = h\<lparr>http_trace := http_trace h @ [op]\<rparr>"

text \<open>\<open>html_txt\<close> is a string; an empty one is not freed.\<close>

definition HTTPConfig_TCPServerSendResponse ::
  "('d, 'f) http_env \<Rightarrow> int \<Rightarrow> cstring \<Rightarrow> 'f http \<Rightarrow> 'f http option" where
  "HTTPConfig_TCPServerSendResponse e err html_txt h =
     (case os_malloc e 128 of
        None \<Rightarrow> Some h
      | Some buffer \<Rightarrow> do {
          buffer \<leftarrow> c_strcpy buffer
             (lit ''HTTP/1.1 '' @ dec_int err @ lit '' OK'' @ CRLF @
              lit ''Content-Length: '' @ dec (length html_txt) @ CRLF @
              lit ''Content-Type: text/html'' @ CRLF @ lit ''Connection: Closed'' @ CRLF @ CRLF);
          buffer \<leftarrow> (if length html_txt > 0
                     then c_strcat (realloc_block e buffer (128 + length html_txt)) html_txt
                     else Some buffer);
          s \<leftarrow> c_string buffer;
          Some (http_do (Espconn_sent s) h)
        })"

function decode_loop :: "cstring \<Rightarrow> u8 list \<Rightarrow> nat \<Rightarrow> u8 list option" where
  "decode_loop [] decoded pos = wr decoded pos 0"
| "decode_loop (c # s) decoded pos =
     (if c = 0x2B then do { d \<leftarrow> wr decoded pos 0x20; decode_loop s d (Suc pos) }
      else if c = 0x25 then do {
        d \<leftarrow> wr decoded pos (word_of_int (strtol16 (take 2 s)));
        decode_loop (drop 2 s) d (Suc pos)
      }
      else do { d \<leftarrow> wr decoded pos c; decode_loop s d (Suc pos) })"
  by pat_completeness auto
termination by (relation "measure (\<lambda>(s, d, p). length s)") auto

definition HTTPConfig_HTMLEntityDecode :: "('d, 'f) http_env \<Rightarrow> cstring \<Rightarrow> u8 list option" where
  "HTTPConfig_HTMLEntityDecode e encoded = decode_loop encoded (malloc_block e 64) 0"

text \<open>The fields of the configuration by the names of the form; other names are ignored.\<close>

definition set_field :: "('d, 'f) http_env \<Rightarrow> u8 list \<Rightarrow> cstring \<Rightarrow> SYSCFG \<Rightarrow> SYSCFG option" where
  "set_field e key val c =
     do {
       is_ssid \<leftarrow> c_streq key (lit ''sta_ssid'');
       is_pwd \<leftarrow> c_streq key (lit ''sta_pwd'');
       is_host \<leftarrow> c_streq key (lit ''mqtt_host'');
       is_port \<leftarrow> c_streq key (lit ''mqtt_port'');
       is_user \<leftarrow> c_streq key (lit ''mqtt_user'');
       is_pass \<leftarrow> c_streq key (lit ''mqtt_pass'');
       is_keepalive \<leftarrow> c_streq key (lit ''mqtt_keepalive'');
       is_root \<leftarrow> c_streq key (lit ''mqtt_topicroot'');
       is_topic0 \<leftarrow> c_streq key (lit ''mqtt_topicadc0'');
       is_mul0 \<leftarrow> c_streq key (lit ''mqtt_muladc0'');
       is_topic1 \<leftarrow> c_streq key (lit ''mqtt_topicadc1'');
       is_mul1 \<leftarrow> c_streq key (lit ''mqtt_muladc1'');
       is_topic2 \<leftarrow> c_streq key (lit ''mqtt_topicadc2'');
       is_mul2 \<leftarrow> c_streq key (lit ''mqtt_muladc2'');
       is_topic3 \<leftarrow> c_streq key (lit ''mqtt_topicadc3'');
       is_mul3 \<leftarrow> c_streq key (lit ''mqtt_muladc3'');
       (if is_ssid then map_option (\<lambda>a. c\<lparr>sta_ssid := a\<rparr>) (c_strcpy (sta_ssid c) val)
        else if is_pwd then map_option (\<lambda>a. c\<lparr>sta_pwd := a\<rparr>) (c_strcpy (sta_pwd c) val)
        else if is_host then map_option (\<lambda>a. c\<lparr>mqtt_host := a\<rparr>) (c_strcpy (mqtt_host c) val)
        else if is_port then map_option (\<lambda>n. c\<lparr>mqtt_port := word_of_int n\<rparr>) (atoi val)
        else if is_user then map_option (\<lambda>a. c\<lparr>mqtt_user := a\<rparr>) (c_strcpy (mqtt_user c) val)
        else if is_pass then map_option (\<lambda>a. c\<lparr>mqtt_pass := a\<rparr>) (c_strcpy (mqtt_pass c) val)
        else if is_keepalive then map_option (\<lambda>n. c\<lparr>mqtt_keepalive := word_of_int n\<rparr>) (atoi val)
        else if is_root then map_option (\<lambda>a. c\<lparr>mqtt_topicroot := a\<rparr>) (c_strcpy (mqtt_topicroot c) val)
        else if is_topic0 then map_option (\<lambda>a. c\<lparr>mqtt_topicadc0 := a\<rparr>) (c_strcpy (mqtt_topicadc0 c) val)
        else if is_mul0 then Some (c\<lparr>mqtt_muladc0 := d_to_bytes e (os_atof e val)\<rparr>)
        else if is_topic1 then map_option (\<lambda>a. c\<lparr>mqtt_topicadc1 := a\<rparr>) (c_strcpy (mqtt_topicadc1 c) val)
        else if is_mul1 then Some (c\<lparr>mqtt_muladc1 := d_to_bytes e (os_atof e val)\<rparr>)
        else if is_topic2 then map_option (\<lambda>a. c\<lparr>mqtt_topicadc2 := a\<rparr>) (c_strcpy (mqtt_topicadc2 c) val)
        else if is_mul2 then Some (c\<lparr>mqtt_muladc2 := d_to_bytes e (os_atof e val)\<rparr>)
        else if is_topic3 then map_option (\<lambda>a. c\<lparr>mqtt_topicadc3 := a\<rparr>) (c_strcpy (mqtt_topicadc3 c) val)
        else if is_mul3 then Some (c\<lparr>mqtt_muladc3 := d_to_bytes e (os_atof e val)\<rparr>)
        else Some c)
     }"

text \<open>The loop over \<open>name=value\<close>, separated by &.\<close>

function SetData_loop :: "('d, 'f) http_env \<Rightarrow> cstring \<Rightarrow> SYSCFG \<Rightarrow> SYSCFG option" where
  "SetData_loop e httpData c =
     (case strstr [0x3D] httpData of
        None \<Rightarrow> Some c
      | Some n \<Rightarrow> do {
          key \<leftarrow> strncpy (calloc_block e 64) httpData n;
          let rest = drop (Suc n) httpData;
          (case strstr [0x26] rest of
             None \<Rightarrow> do {
               val \<leftarrow> strncpy (calloc_block e 64) rest (length rest);
               k \<leftarrow> c_string key;
               v \<leftarrow> c_string val;
               decoded \<leftarrow> HTTPConfig_HTMLEntityDecode e v;
               d \<leftarrow> c_string decoded;
               set_field e key d c
             }
           | Some m \<Rightarrow> do {
               val \<leftarrow> strncpy (calloc_block e 64) rest m;
               k \<leftarrow> c_string key;
               v \<leftarrow> c_string val;
               decoded \<leftarrow> HTTPConfig_HTMLEntityDecode e v;
               d \<leftarrow> c_string decoded;
               c \<leftarrow> set_field e key d c;
               SetData_loop e (drop (Suc m) rest) c
             })
        })"
  by pat_completeness auto

lemma strstr_less: "pat \<noteq> [] \<Longrightarrow> strstr pat s = Some n \<Longrightarrow> n < length s"
proof (induction s arbitrary: n)
  case Nil
  then show ?case by (simp add: strstr.simps [of pat "[]"] split: if_splits)
next
  case (Cons c s)
  from Cons.prems(2) Cons.IH [OF Cons.prems(1)] show ?case
    by (auto simp: strstr.simps [of pat "c # s"] split: if_splits)
qed

termination SetData_loop
  by (relation "measure (\<lambda>(e, s, c). length s)") (auto dest!: strstr_less [rotated])

declare SetData_loop.simps [simp del]

definition HTTPConfig_SetData :: "('d, 'f) http_env \<Rightarrow> 'f http \<Rightarrow> 'f http option" where
  "HTTPConfig_SetData e h =
     do {
       s \<leftarrow> c_string (recieveBuffer h);
       n \<leftarrow> strstr (CRLF @ CRLF) s;
       cs \<leftarrow> CFG_Load (chip e) (client_name e) (cfgs h);
       c \<leftarrow> SetData_loop e (drop (n + 4) s) (sysCfg cs);
       Some (h\<lparr>cfgs := CFG_Save (chip e) (cs\<lparr>sysCfg := c\<rparr>)\<rparr>)
     }"

definition HTTPConfig_AllInBuffer :: "u8 list \<Rightarrow> u32 option" where
  "HTTPConfig_AllInBuffer buffer =
     do {
       s \<leftarrow> c_string buffer;
       (case strstr (lit ''Content-Length:'') s of
          None \<Rightarrow> Some 1
        | Some i \<Rightarrow>
            (let start = drop (i + 15) s
             in case strstr CRLF start of
                  None \<Rightarrow> Some 0
                | Some n \<Rightarrow> do {
                    contentLengthStr \<leftarrow> strncpy (replicate 6 0) start n;
                    contentLengthStr \<leftarrow> wr contentLengthStr n 0;
                    t \<leftarrow> c_string contentLengthStr;
                    v \<leftarrow> atoi t;
                    let dataLength = (word_of_int v :: u32);
                    (case strstr (CRLF @ CRLF) s of
                       None \<Rightarrow> Some 0
                     | Some j \<Rightarrow> if length (drop (j + 4) s) < unat dataLength then Some 0 else Some 1)
                  }))
     }"

definition HTTPConfig_TCPServerRecieveCallback ::
  "('d, 'f) http_env \<Rightarrow> u8 list \<Rightarrow> u16 \<Rightarrow> 'f http \<Rightarrow> 'f http option" where
  "HTTPConfig_TCPServerRecieveCallback e pusrdata len h =
     do {
       old \<leftarrow> c_string (recieveBuffer h);
       buf \<leftarrow> strncat (realloc_block e (recieveBuffer h) (length old + unat len)) pusrdata (unat len);
       let h = http_do Free_segment (h\<lparr>recieveBuffer := buf\<rparr>);
       complete \<leftarrow> HTTPConfig_AllInBuffer buf;
       (if complete = 0 then Some h
        else do {
          s \<leftarrow> c_string buf;
          n \<leftarrow> strstr CRLF s;
          requestType \<leftarrow> strncpy (replicate 16 0) s n;
          is_get \<leftarrow> c_streq requestType (lit ''GET / HTTP/1.1'');
          is_post \<leftarrow> c_streq requestType (lit ''POST / HTTP/1.1'');
          (if is_get then do {
             let h = h\<lparr>recieveBuffer := calloc_block e 1\<rparr>;
             (b, s) \<leftarrow> HTTPConfig_GetForm e (cfgs h);
             t \<leftarrow> c_string b;
             HTTPConfig_TCPServerSendResponse e 200 t (h\<lparr>cfgs := s\<rparr>)
           }
           else if is_post then do {
             h \<leftarrow> HTTPConfig_SetData e h;
             let h = h\<lparr>recieveBuffer := calloc_block e 1\<rparr>;
             (b, s) \<leftarrow> HTTPConfig_GetForm e (cfgs h);
             t \<leftarrow> c_string b;
             HTTPConfig_TCPServerSendResponse e 200 t (h\<lparr>cfgs := s\<rparr>)
           }
           else HTTPConfig_TCPServerSendResponse e 404 [] (h\<lparr>recieveBuffer := calloc_block e 1\<rparr>))
        })
     }"

section \<open>Connections\<close>

text \<open>Three of the four callbacks only print.\<close>

definition HTTPConfig_TCPServerConnectionError :: "'f http \<Rightarrow> 'f http" where
  "HTTPConfig_TCPServerConnectionError h = h"

definition HTTPConfig_TCPServerDisconnected :: "'f http \<Rightarrow> 'f http" where
  "HTTPConfig_TCPServerDisconnected h = h"

definition HTTPConfig_TCPServerSent :: "'f http \<Rightarrow> 'f http" where
  "HTTPConfig_TCPServerSent h = h"

definition HTTPConfig_TCPPortConnected :: "'f http \<Rightarrow> 'f http" where
  "HTTPConfig_TCPPortConnected h =
     http_do Regist_sentcb (http_do Regist_disconcb (http_do Regist_reconcb (http_do Regist_recvcb h)))"

text \<open>The soft access point: name, empty password, open (0), 28 characters, beacon, one station.\<close>

definition HTTPConfig_Init :: "('d, 'f) http_env \<Rightarrow> 'f http \<Rightarrow> 'f http option" where
  "HTTPConfig_Init e h =
     do {
       ssid \<leftarrow> wr_block (replicate 32 0) 0 (lit ''ESP8266 V-Sensor Config Mode'');
       let h = http_do (Softap_set_config ssid (replicate 64 0) 28 100 1) h;
       let h = http_do (Dhcps_offer_router 0) h;
       let h = h\<lparr>recieveBuffer := calloc_block e 1\<rparr>;
       let h = http_do Regist_connectcb h;
       Some (http_do (Espconn_accept 80) h)
     }"

end
