(* ===== verification/Http_Props.thy ===== *)
theory Http_Props
  imports Http_Config
begin

text \<open>
  Properties of the configuration page: a submitted form is decoded and stored as it was filled
  in, and what the fixed and the resized buffers cannot hold.
\<close>

section \<open>Strings\<close>

lemma of_char_u8_inject [simp]: "(of_char c :: u8) = of_char d \<longleftrightarrow> c = d"
proof
  have small: "of_char x < (256 :: nat)" for x :: char by simp
  have w: "(of_char x :: u8) = of_nat (of_char x)" for x :: char by (simp only: of_nat_of_char)
  assume "(of_char c :: u8) = of_char d"
  then have "unat (of_nat (of_char c) :: u8) = unat (of_nat (of_char d) :: u8)" using w by metis
  then have "(of_char c :: nat) = of_char d"
    using small by (simp only: unsigned_of_nat) (simp add: take_bit_nat_eq_self)
  then show "c = d" by simp
qed simp

lemma lit_inject [simp]: "lit s = lit t \<longleftrightarrow> s = t"
  unfolding lit_def by (rule inj_map_eq_map) (simp add: inj_def)

lemma c_streq_string:
  "0 \<notin> set k \<Longrightarrow> 0 \<notin> set s \<Longrightarrow> c_streq (k @ 0 # m) s = Some (k = s)"
proof (induction k arbitrary: s)
  case Nil
  then show ?case by (cases s) auto
next
  case (Cons b k)
  then show ?case by (cases s) auto
qed

lemma strstr_char: "c \<notin> set s \<Longrightarrow> strstr [c] (s @ c # t) = Some (length s)"
proof (induction s)
  case Nil
  then show ?case by (simp add: strstr.simps [of "[c]" "c # t"])
next
  case (Cons b s)
  then show ?case by (auto simp: strstr.simps [of "[c]" "b # s @ c # t"])
qed

lemma strstr_char_none: "c \<notin> set s \<Longrightarrow> strstr [c] s = None"
proof (induction s)
  case Nil
  then show ?case by (simp add: strstr.simps [of "[c]" "[]"])
next
  case (Cons b s)
  then show ?case by (auto simp: strstr.simps [of "[c]" "b # s"])
qed

lemma strstr_first: "c \<notin> set s \<Longrightarrow> strstr (c # pat) (s @ c # pat @ t) = Some (length s)"
proof (induction s)
  case Nil
  then show ?case by (simp add: strstr.simps)
next
  case (Cons b s)
  then show ?case by (auto simp: strstr.simps [of "c # pat" "b # s @ c # pat @ t"])
qed

section \<open>Blocks of the allocator\<close>

definition alloc_ok :: "('d, 'f) http_env \<Rightarrow> bool" where
  "alloc_ok e \<longleftrightarrow> (\<forall>n. \<exists>b. os_malloc e n = Some b \<and> n \<le> length b)"

lemma malloc_length: "alloc_ok e \<Longrightarrow> n \<le> length (malloc_block e n)"
  unfolding alloc_ok_def malloc_block_def by (metis option.simps(5))

lemma calloc_ok:
  assumes "alloc_ok e"
  shows "calloc_block e n = replicate n 0 @ drop n (malloc_block e n)"
  using malloc_length [OF assms, of n] by (simp add: calloc_block_def min_absorb1)

lemma strncpy_calloc:
  assumes "alloc_ok e" and "n < m" and "n \<le> length s"
  shows "\<exists>rest. strncpy (calloc_block e m) s n = Some (take n s @ 0 # rest)"
proof -
  have "drop n (replicate m 0) = (0 :: u8) # replicate (m - n - 1) 0"
    using assms(2) by (simp add: Suc_diff_Suc flip: replicate_Suc)
  then show ?thesis
    using assms malloc_length [OF assms(1), of m]
    by (simp add: strncpy_def calloc_ok wr_block_def)
qed

section \<open>Percent encoding\<close>

definition hex_char :: "nat \<Rightarrow> u8" where
  "hex_char n = (if n < 10 then of_nat (0x30 + n) else of_nat (0x37 + n))"

definition plain :: "u8 \<Rightarrow> bool" where
  "plain c \<longleftrightarrow> is_digit c \<or> 0x41 \<le> c \<and> c \<le> 0x5A \<or> 0x61 \<le> c \<and> c \<le> 0x7A \<or> c \<in> {0x2A, 0x2D, 0x2E, 0x5F}"

text \<open>How browsers encode the values of a form.\<close>

definition enc_byte :: "u8 \<Rightarrow> cstring" where
  "enc_byte c =
     (if c = 0x20 then [0x2B] else if plain c then [c]
      else [0x25, hex_char (unat c div 16), hex_char (unat c mod 16)])"

definition encode :: "cstring \<Rightarrow> cstring" where
  "encode s = concat (map enc_byte s)"

lemma hex_char_digit:
  assumes "n < 16"
  shows "hex_digit (hex_char n) = Some (of_nat n) \<and> \<not> isspace (hex_char n) \<and>
         hex_char n \<noteq> 0x2D \<and> hex_char n \<noteq> 0x2B"
proof -
  have "list_all (\<lambda>n. hex_digit (hex_char n) = Some (of_nat n) \<and> \<not> isspace (hex_char n) \<and>
         hex_char n \<noteq> 0x2D \<and> hex_char n \<noteq> 0x2B) [0..<16]"
    by code_simp
  then show ?thesis using assms by (simp add: list_all_iff)
qed

lemma strtol16_hex: "word_of_int (strtol16 [hex_char (unat c div 16), hex_char (unat c mod 16)]) = c"
  for c :: u8
proof -
  have "unat c < 256" using unsigned_less [of c] by simp
  then have h: "unat c div 16 < 16" and l: "unat c mod 16 < 16" by auto
  have small: "unat (of_nat n :: u32) = n" if "n < 16" for n
    using that by (simp only: unsigned_of_nat) (simp add: take_bit_nat_eq_self)
  have "strtol16 [hex_char (unat c div 16), hex_char (unat c mod 16)] = int (unat c)"
    using hex_char_digit [OF h] hex_char_digit [OF l] small [OF h] small [OF l]
    by (simp add: strtol16_def signed_text_def hex_value_def)
  then show ?thesis by simp
qed

lemma enc_byte_safe: "set (enc_byte c) \<inter> {0, 0x26, 0x3D, 13, 10} = {}"
proof -
  have "\<not> plain 0" "\<not> plain 0x26" "\<not> plain 0x3D" "\<not> plain 13" "\<not> plain 10" by code_simp+
  then have p: "plain c \<Longrightarrow> c \<notin> {0, 0x26, 0x3D, 13, 10}" by auto
  have "list_all (\<lambda>n. hex_char n \<notin> {0, 0x26, 0x3D, 13, 10}) [0..<16]" by code_simp
  then have h: "n < 16 \<Longrightarrow> hex_char n \<notin> {0, 0x26, 0x3D, 13, 10}" for n by (simp add: list_all_iff)
  have "unat c < 256" using unsigned_less [of c] by simp
  then have "unat c div 16 < 16" "unat c mod 16 < 16" by auto
  then show ?thesis using h p by (auto simp: enc_byte_def)
qed

lemma encode_safe: "set (encode s) \<inter> {0, 0x26, 0x3D, 13, 10} = {}"
  using enc_byte_safe unfolding encode_def by fastforce

lemma enc_byte_nonempty: "1 \<le> length (enc_byte c)"
  by (simp add: enc_byte_def)

lemma length_encode: "length s \<le> length (encode s)"
proof (induction s)
  case Nil
  then show ?case by simp
next
  case (Cons c s)
  then show ?case using enc_byte_nonempty [of c] by (simp add: encode_def)
qed

lemma decode_step:
  assumes "pos < length d"
  shows "decode_loop (enc_byte c @ s) d pos = decode_loop s (d[pos := c]) (Suc pos)"
proof -
  have "\<not> plain 0x2B" "\<not> plain 0x25" by code_simp+
  then show ?thesis using assms
    by (auto simp: enc_byte_def mem_simps strtol16_hex)
qed

lemma decode_loop_encode:
  "pos + length s < length d \<Longrightarrow>
     decode_loop (encode s) d pos = Some (take pos d @ s @ 0 # drop (Suc (pos + length s)) d)"
proof (induction s arbitrary: d pos)
  case Nil
  then show ?case by (simp add: encode_def mem_simps upd_conv_take_nth_drop)
next
  case (Cons c s)
  have "decode_loop (encode (c # s)) d pos = decode_loop (encode s) (d[pos := c]) (Suc pos)"
    using decode_step [of pos d c "encode s"] Cons.prems by (simp add: encode_def)
  then show ?case
    using Cons.IH [of "Suc pos" "d[pos := c]"] Cons.prems by (simp add: take_list_update_append)
qed

lemma HTMLEntityDecode_encode:
  assumes "alloc_ok e" and "length s < 64" and "0 \<notin> set s"
  shows "\<exists>d. HTTPConfig_HTMLEntityDecode e (encode s) = Some d \<and> c_string d = Some s"
  using decode_loop_encode [of 0 s "malloc_block e 64"] malloc_length [OF assms(1), of 64] assms(2,3)
  by (simp add: HTTPConfig_HTMLEntityDecode_def)

section \<open>The loop over the form\<close>

fun form_body :: "(cstring \<times> cstring) list \<Rightarrow> cstring" where
  "form_body [] = []"
| "form_body [(k, v)] = k @ 0x3D # encode v"
| "form_body ((k, v) # fs) = k @ 0x3D # encode v @ 0x26 # form_body fs"

fun apply_form :: "('d, 'f) http_env \<Rightarrow> (cstring \<times> cstring) list \<Rightarrow> SYSCFG \<Rightarrow> SYSCFG option" where
  "apply_form e [] c = Some c"
| "apply_form e ((k, v) # fs) c = do { c \<leftarrow> set_field e (k @ [0]) v c; apply_form e fs c }"

text \<open>Names and encoded values of at most 63 bytes.\<close>

definition entry_ok :: "cstring \<times> cstring \<Rightarrow> bool" where
  "entry_ok kv \<longleftrightarrow>
     length (fst kv) < 64 \<and> 0 \<notin> set (fst kv) \<and> 0x3D \<notin> set (fst kv) \<and>
     length (encode (snd kv)) < 64 \<and> 0 \<notin> set (snd kv)"

lemma set_field_key:
  "0 \<notin> set k \<Longrightarrow> set_field e (k @ 0 # m) v c = set_field e (k @ [0]) v c"
  unfolding set_field_def by (simp add: c_streq_string lit_def)

lemma SetData_entry:
  assumes "alloc_ok e" and "entry_ok (k, v)"
  shows "SetData_loop e (k @ 0x3D # encode v) c = set_field e (k @ [0]) v c"
    and "SetData_loop e (k @ 0x3D # encode v @ 0x26 # rest) c =
           do { c \<leftarrow> set_field e (k @ [0]) v c; SetData_loop e rest c }"
proof -
  have k: "length k < 64" "0 \<notin> set k" "0x3D \<notin> set k" and v: "length (encode v) < 64" "0 \<notin> set v"
    using assms(2) by (simp_all add: entry_ok_def)
  have safe: "0 \<notin> set (encode v)" "0x26 \<notin> set (encode v)" using encode_safe [of v] by blast+
  obtain d where d: "HTTPConfig_HTMLEntityDecode e (encode v) = Some d" "c_string d = Some v"
    using HTMLEntityDecode_encode [OF assms(1) _ v(2)] length_encode [of v] v(1) by (meson le_less_trans)
  have key: "\<exists>m. strncpy (calloc_block e 64) (k @ 0x3D # t) (length k) = Some (k @ 0 # m)" for t
    using strncpy_calloc [OF assms(1) k(1), of "k @ 0x3D # t"] by simp
  have val: "\<exists>m. strncpy (calloc_block e 64) (encode v @ t) (length (encode v)) = Some (encode v @ 0 # m)" for t
    using strncpy_calloc [OF assms(1) v(1), of "encode v @ t"] by simp
  obtain m1 m2 where m: "strncpy (calloc_block e 64) (k @ 0x3D # encode v) (length k) = Some (k @ 0 # m1)"
      "strncpy (calloc_block e 64) (encode v) (length (encode v)) = Some (encode v @ 0 # m2)"
    using key [of "encode v"] val [of "[]"] by auto
  show "SetData_loop e (k @ 0x3D # encode v) c = set_field e (k @ [0]) v c"
    by (subst SetData_loop.simps)
      (simp add: strstr_char k m strstr_char_none safe d set_field_key [OF k(2), of _ m1] Let_def)
  obtain m3 m4 where m': "strncpy (calloc_block e 64) (k @ 0x3D # encode v @ 0x26 # rest) (length k) = Some (k @ 0 # m3)"
      "strncpy (calloc_block e 64) (encode v @ 0x26 # rest) (length (encode v)) = Some (encode v @ 0 # m4)"
    using key [of "encode v @ 0x26 # rest"] val [of "0x26 # rest"] by auto
  show "SetData_loop e (k @ 0x3D # encode v @ 0x26 # rest) c =
          do { c \<leftarrow> set_field e (k @ [0]) v c; SetData_loop e rest c }"
    by (subst SetData_loop.simps)
      (simp add: strstr_char k m' safe d set_field_key [OF k(2), of _ m3] Let_def)
qed

lemma SetData_form:
  assumes "alloc_ok e" and "fs \<noteq> []" and "\<forall>kv \<in> set fs. entry_ok kv"
  shows "SetData_loop e (form_body fs) c = apply_form e fs c"
  using assms(2,3)
proof (induction fs arbitrary: c rule: form_body.induct)
  case (2 k v)
  then show ?case using SetData_entry(1) [OF assms(1), of k v c]
    by (cases "set_field e (k @ [0]) v c") simp_all
next
  case (3 k v kv fs)
  then show ?case using SetData_entry(2) [OF assms(1), of k v "form_body (kv # fs)" c]
    by (cases "set_field e (k @ [0]) v c") simp_all
qed simp

section \<open>The fields\<close>

lemma zero_lit [simp]: "0 \<in> set (lit s) \<longleftrightarrow> CHR 0x00 \<in> set s"
proof -
  have "(0 :: u8) = of_char (CHR 0x00)" by simp
  then show ?thesis unfolding lit_def set_map by (metis (no_types, lifting) imageE image_eqI of_char_u8_inject)
qed

lemma set_field_simps:
  "set_field e (lit ''sta_ssid'' @ [0]) v c = map_option (\<lambda>a. c\<lparr>sta_ssid := a\<rparr>) (c_strcpy (sta_ssid c) v)"
  "set_field e (lit ''sta_pwd'' @ [0]) v c = map_option (\<lambda>a. c\<lparr>sta_pwd := a\<rparr>) (c_strcpy (sta_pwd c) v)"
  "set_field e (lit ''mqtt_host'' @ [0]) v c = map_option (\<lambda>a. c\<lparr>mqtt_host := a\<rparr>) (c_strcpy (mqtt_host c) v)"
  "set_field e (lit ''mqtt_port'' @ [0]) v c = map_option (\<lambda>n. c\<lparr>mqtt_port := word_of_int n\<rparr>) (atoi v)"
  "set_field e (lit ''mqtt_user'' @ [0]) v c = map_option (\<lambda>a. c\<lparr>mqtt_user := a\<rparr>) (c_strcpy (mqtt_user c) v)"
  "set_field e (lit ''mqtt_pass'' @ [0]) v c = map_option (\<lambda>a. c\<lparr>mqtt_pass := a\<rparr>) (c_strcpy (mqtt_pass c) v)"
  "set_field e (lit ''mqtt_keepalive'' @ [0]) v c = map_option (\<lambda>n. c\<lparr>mqtt_keepalive := word_of_int n\<rparr>) (atoi v)"
  "set_field e (lit ''mqtt_topicroot'' @ [0]) v c = map_option (\<lambda>a. c\<lparr>mqtt_topicroot := a\<rparr>) (c_strcpy (mqtt_topicroot c) v)"
  "set_field e (lit ''mqtt_topicadc0'' @ [0]) v c = map_option (\<lambda>a. c\<lparr>mqtt_topicadc0 := a\<rparr>) (c_strcpy (mqtt_topicadc0 c) v)"
  "set_field e (lit ''mqtt_muladc0'' @ [0]) v c = Some (c\<lparr>mqtt_muladc0 := d_to_bytes e (os_atof e v)\<rparr>)"
  "set_field e (lit ''mqtt_topicadc1'' @ [0]) v c = map_option (\<lambda>a. c\<lparr>mqtt_topicadc1 := a\<rparr>) (c_strcpy (mqtt_topicadc1 c) v)"
  "set_field e (lit ''mqtt_muladc1'' @ [0]) v c = Some (c\<lparr>mqtt_muladc1 := d_to_bytes e (os_atof e v)\<rparr>)"
  "set_field e (lit ''mqtt_topicadc2'' @ [0]) v c = map_option (\<lambda>a. c\<lparr>mqtt_topicadc2 := a\<rparr>) (c_strcpy (mqtt_topicadc2 c) v)"
  "set_field e (lit ''mqtt_muladc2'' @ [0]) v c = Some (c\<lparr>mqtt_muladc2 := d_to_bytes e (os_atof e v)\<rparr>)"
  "set_field e (lit ''mqtt_topicadc3'' @ [0]) v c = map_option (\<lambda>a. c\<lparr>mqtt_topicadc3 := a\<rparr>) (c_strcpy (mqtt_topicadc3 c) v)"
  "set_field e (lit ''mqtt_muladc3'' @ [0]) v c = Some (c\<lparr>mqtt_muladc3 := d_to_bytes e (os_atof e v)\<rparr>)"
  by (simp_all add: set_field_def c_streq_string)

text \<open>Decimal numbers are read back.\<close>

lemma dec_digits: "list_all is_digit (dec n)"
proof (induction n rule: dec_rev.induct)
  case (1 n)
  have "is_digit (of_nat (48 + n mod 10))"
    using uint_digit [of n] by (simp add: is_digit_def word_le_def del: of_nat_add)
  then show ?case using 1 by (subst dec_simps) auto
qed

lemma dec_value_dec: "dec_value (dec n) = int n"
proof -
  have "foldl (\<lambda>v c. 10 * v + (uint c - 0x30)) 0 (dec n) = int n"
  proof (induction n rule: dec_rev.induct)
    case (1 n)
    have d: "foldl (\<lambda>v c. 10 * v + (uint c - 0x30)) v [of_nat (48 + n mod 10) :: u8] = 10 * v + int (n mod 10)" for v
      by (simp add: uint_digit del: of_nat_add)
    have "10 * int (n div 10) + int (n mod 10) = int n" by presburger
    then show ?case using 1 d by (subst dec_simps) (auto simp del: of_nat_add)
  qed
  moreover have "takeWhile is_digit (dec n) = dec n"
    using dec_digits [of n] by (simp add: list_all_iff takeWhile_eq_all_conv)
  ultimately show ?thesis by (simp only: dec_value_def)
qed

lemma atoi_dec: "n < 2 ^ 31 \<Longrightarrow> atoi (dec n) = Some (int n)"
proof -
  assume n: "n < 2 ^ 31"
  obtain c t where d: "dec n = c # t" by (cases "dec n") (auto simp: dec_simps [of n] split: if_splits)
  have "is_digit c" using dec_digits [of n] by (simp add: d)
  moreover have "\<not> is_digit x" if "isspace x \<or> x = 0x2D \<or> x = 0x2B" for x
    using that by (auto simp: isspace_def is_digit_def word_le_nat_alt)
  ultimately have "signed_text (dec n) = (False, dec n)" by (auto simp: signed_text_def d)
  then show ?thesis using n by (simp add: atoi_def dec_value_dec)
qed

section \<open>A form is saved\<close>

text \<open>What is filled in, the form that is sent, and the configuration that should result.\<close>

record settings =
  f_ssid :: cstring
  f_pwd :: cstring
  f_host :: cstring
  f_port :: nat
  f_user :: cstring
  f_pass :: cstring
  f_keepalive :: nat
  f_root :: cstring
  f_topic0 :: cstring
  f_mul0 :: cstring
  f_topic1 :: cstring
  f_mul1 :: cstring
  f_topic2 :: cstring
  f_mul2 :: cstring
  f_topic3 :: cstring
  f_mul3 :: cstring

definition form_of :: "settings \<Rightarrow> (cstring \<times> cstring) list" where
  "form_of f =
     [(lit ''sta_ssid'', f_ssid f), (lit ''sta_pwd'', f_pwd f), (lit ''mqtt_host'', f_host f),
      (lit ''mqtt_port'', dec (f_port f)), (lit ''mqtt_user'', f_user f), (lit ''mqtt_pass'', f_pass f),
      (lit ''mqtt_keepalive'', dec (f_keepalive f)), (lit ''mqtt_topicroot'', f_root f),
      (lit ''mqtt_topicadc0'', f_topic0 f), (lit ''mqtt_muladc0'', f_mul0 f),
      (lit ''mqtt_topicadc1'', f_topic1 f), (lit ''mqtt_muladc1'', f_mul1 f),
      (lit ''mqtt_topicadc2'', f_topic2 f), (lit ''mqtt_muladc2'', f_mul2 f),
      (lit ''mqtt_topicadc3'', f_topic3 f), (lit ''mqtt_muladc3'', f_mul3 f)]"

definition settings_in :: "('d, 'f) http_env \<Rightarrow> settings \<Rightarrow> SYSCFG \<Rightarrow> bool" where
  "settings_in e f c \<longleftrightarrow>
     c_string (sta_ssid c) = Some (f_ssid f) \<and> c_string (sta_pwd c) = Some (f_pwd f) \<and>
     c_string (mqtt_host c) = Some (f_host f) \<and> mqtt_port c = of_nat (f_port f) \<and>
     c_string (mqtt_user c) = Some (f_user f) \<and> c_string (mqtt_pass c) = Some (f_pass f) \<and>
     mqtt_keepalive c = of_nat (f_keepalive f) \<and> c_string (mqtt_topicroot c) = Some (f_root f) \<and>
     c_string (mqtt_topicadc0 c) = Some (f_topic0 f) \<and> mqtt_muladc0 c = d_to_bytes e (os_atof e (f_mul0 f)) \<and>
     c_string (mqtt_topicadc1 c) = Some (f_topic1 f) \<and> mqtt_muladc1 c = d_to_bytes e (os_atof e (f_mul1 f)) \<and>
     c_string (mqtt_topicadc2 c) = Some (f_topic2 f) \<and> mqtt_muladc2 c = d_to_bytes e (os_atof e (f_mul2 f)) \<and>
     c_string (mqtt_topicadc3 c) = Some (f_topic3 f) \<and> mqtt_muladc3 c = d_to_bytes e (os_atof e (f_mul3 f))"

text \<open>The values fit the form's buffers when encoded and the fields of the configuration.\<close>

definition settings_fit :: "settings \<Rightarrow> bool" where
  "settings_fit f \<longleftrightarrow>
     (\<forall>(k, v) \<in> set (form_of f). length (encode v) < 64 \<and> 0 \<notin> set v) \<and>
     length (f_user f) < 32 \<and> length (f_pass f) < 32 \<and> length (f_topic0 f) < 32 \<and>
     length (f_topic1 f) < 32 \<and> length (f_topic2 f) < 32 \<and> length (f_topic3 f) < 32 \<and>
     f_port f < 2 ^ 31 \<and> f_keepalive f < 2 ^ 31"

lemma form_entries: "settings_fit f \<Longrightarrow> \<forall>kv \<in> set (form_of f). entry_ok kv"
proof -
  assume "settings_fit f"
  then have v: "\<forall>(k, v) \<in> set (form_of f). length (encode v) < 64 \<and> 0 \<notin> set v"
    by (simp add: settings_fit_def)
  have "list_all (\<lambda>k. length k < 64 \<and> 0 \<notin> set k \<and> 0x3D \<notin> set k) (map fst (form_of f))"
    unfolding form_of_def list.map fst_conv by code_simp
  then have "\<forall>kv \<in> set (form_of f). length (fst kv) < 64 \<and> 0 \<notin> set (fst kv) \<and> 0x3D \<notin> set (fst kv)"
    by (simp add: list_all_iff)
  with v show ?thesis unfolding entry_ok_def by fastforce
qed

lemma form_body_no_zero: "\<forall>kv \<in> set fs. entry_ok kv \<Longrightarrow> 0 \<notin> set (form_body fs)"
proof (induction fs rule: form_body.induct)
  case (2 k v)
  then show ?case using encode_safe [of v] by (auto simp: entry_ok_def)
next
  case (3 k v kv fs)
  then show ?case using encode_safe [of v] by (auto simp: entry_ok_def)
qed simp

lemma cfg_wf_read: "length b = sizeof_SYSCFG \<Longrightarrow> cfg_wf (of_cfg_image b)"
  by (simp add: cfg_wf_def cfg_fields_def of_cfg_image_def Let_def cfg_sizes_def sizeof_SYSCFG_def)

lemma cfg_wf_stored: "flash_laws d \<Longrightarrow> cfg_wf (stored d f)"
  by (simp add: stored_def stored_slot_def cfg_wf_read flash_laws_def)

lemma apply_form_settings:
  assumes fit: "settings_fit f" and wf: "cfg_wf c" and bytes: "\<forall>x. length (d_to_bytes e x) = 8"
  shows "\<exists>c'. apply_form e (form_of f) c = Some c' \<and> settings_in e f c' \<and> cfg_wf c' \<and>
           cfg_holder c' = cfg_holder c"
proof -
  have enc: "length (encode (f_ssid f)) < 64" "length (encode (f_pwd f)) < 64"
      "length (encode (f_host f)) < 64" "length (encode (f_root f)) < 64"
    and nz: "0 \<notin> set (f_ssid f)" "0 \<notin> set (f_pwd f)" "0 \<notin> set (f_host f)" "0 \<notin> set (f_root f)"
    "0 \<notin> set (f_user f)" "0 \<notin> set (f_pass f)" "0 \<notin> set (f_topic0 f)" "0 \<notin> set (f_topic1 f)"
    "0 \<notin> set (f_topic2 f)" "0 \<notin> set (f_topic3 f)"
    using fit by (simp_all add: settings_fit_def form_of_def)
  have len: "length (f_ssid f) < 64" "length (f_pwd f) < 64" "length (f_host f) < 64" "length (f_root f) < 64"
    by (rule le_less_trans [OF length_encode], rule enc)+
  have short: "length (f_user f) < 32" "length (f_pass f) < 32" "length (f_topic0 f) < 32"
    "length (f_topic1 f) < 32" "length (f_topic2 f) < 32" "length (f_topic3 f) < 32"
    and num: "f_port f < 2 ^ 31" "f_keepalive f < 2 ^ 31"
    using fit by (simp_all add: settings_fit_def)
  have size: "length (sta_ssid c) = 64" "length (sta_pwd c) = 64" "length (mqtt_host c) = 64"
    "length (mqtt_user c) = 32" "length (mqtt_pass c) = 32" "length (mqtt_topicroot c) = 64"
    "length (mqtt_topicadc0 c) = 32" "length (mqtt_topicadc1 c) = 32" "length (mqtt_topicadc2 c) = 32"
    "length (mqtt_topicadc3 c) = 32" "length (device_id c) = 32" "length (cfg_pad c) = 7" "length (cfg_pad2 c) = 7"
    using wf by (simp_all add: cfg_wf_def cfg_fields_def cfg_sizes_def)
  show ?thesis
    using len nz short num size bytes
    by (simp add: form_of_def set_field_simps c_strcpy_fits atoi_dec settings_in_def cfg_wf_def
        cfg_fields_def cfg_sizes_def)
qed

text \<open>
  C28. A submitted form is saved as it was filled in: when the request in the buffer ends with the
  encoded form of some settings that fit - in any characters, encoded as browsers do - the
  configuration afterwards has exactly these settings and is the one stored in flash.
\<close>

theorem form_saved:
  assumes "alloc_ok e" and "flash_laws (chip e)" and "\<forall>x. length (d_to_bytes e x) = 8"
    and "cfg_holder (stored (chip e) (flash (cfgs h))) = CFG_HOLDER"
    and "settings_fit f"
    and "c_string (recieveBuffer h) = Some (headers @ CRLF @ CRLF @ form_body (form_of f))"
    and "strstr (CRLF @ CRLF) (headers @ CRLF @ CRLF @ form_body (form_of f)) = Some (length headers)"
  shows "\<exists>h'. HTTPConfig_SetData e h = Some h' \<and> settings_in e f (sysCfg (cfgs h')) \<and>
           stored (chip e) (flash (cfgs h')) = sysCfg (cfgs h')"
proof -
  obtain cs where cs: "CFG_Load (chip e) (client_name e) (cfgs h) = Some cs"
      "sysCfg cs = stored (chip e) (flash (cfgs h))"
    using CFG_Load_stored [OF assms(4)] by blast
  have "cfg_wf (sysCfg cs)" using cfg_wf_stored [OF assms(2)] by (simp add: cs(2))
  from apply_form_settings [OF assms(5) this assms(3)] obtain c where
    c: "apply_form e (form_of f) (sysCfg cs) = Some c" "settings_in e f c" "cfg_wf c" by blast
  have "form_of f \<noteq> []" by (simp add: form_of_def)
  note body = SetData_form [OF assms(1) this form_entries [OF assms(5)], of "sysCfg cs"]
  have drop: "drop (length headers + 4) (headers @ CRLF @ CRLF @ form_body (form_of f)) = form_body (form_of f)"
    by (simp add: CRLF_def)
  define s1 where "s1 = cs\<lparr>sysCfg := c\<rparr>"
  have "HTTPConfig_SetData e h = Some (h\<lparr>cfgs := CFG_Save (chip e) s1\<rparr>)"
    unfolding HTTPConfig_SetData_def s1_def
    using assms(6,7) cs(1) body c(1) by (simp only: drop option.simps bind.bind_lunit Let_def)
  moreover have "stored (chip e) (flash (CFG_Save (chip e) s1)) = c"
    using flash_chip.CFG_Save_stored [OF flash_chipI [OF assms(2)], of s1] c(3) by (simp add: s1_def)
  moreover have "sysCfg (CFG_Save (chip e) s1) = c" by (simp add: CFG_Save_def Let_def s1_def)
  ultimately show ?thesis using c(2) by simp
qed

text \<open>A board with an allocator that rounds up, and a request in its buffer.\<close>

definition web :: "(int, nat \<Rightarrow> u8) http_env" where
  "web =
     \<lparr>os_malloc = (\<lambda>n. Some (replicate (n + 8) 0xA5)), chip = nor_flash, client_name = [0x63],
      d_of_int = id, d_add = (+), d_mul = (*), d_div = (div), d_to_int = Some,
      d_to_bytes = (\<lambda>x. le32 (word_of_int x) @ [0, 0, 0, 0]), d_of_bytes = (\<lambda>b. sint (of_le32 b)),
      f_of_int = id, f_sub = (-), f_mul = (*)\<rparr>"

definition filled :: settings where
  "filled =
     \<lparr>f_ssid = lit ''My & net'', f_pwd = lit ''a=b+c%'', f_host = lit ''10.0.0.2'', f_port = 1883,
      f_user = lit ''u'', f_pass = lit ''p w'', f_keepalive = 60, f_root = lit ''/home'',
      f_topic0 = lit ''/a'', f_mul0 = lit ''10'', f_topic1 = lit ''/b'', f_mul1 = lit ''-2'',
      f_topic2 = lit ''/c'', f_mul2 = lit ''3'', f_topic3 = lit ''/d'', f_mul3 = lit ''4''\<rparr>"

definition posted :: "(nat \<Rightarrow> u8) http" where
  "posted =
     \<lparr>cfgs = board0,
      recieveBuffer = lit ''POST / HTTP/1.1'' @ CRLF @ CRLF @ form_body (form_of filled) @ [0],
      http_trace = []\<rparr>"

lemma web_alloc: "alloc_ok web"
  by (simp add: alloc_ok_def web_def)

theorem form_saved_witness:
  "\<exists>h'. HTTPConfig_SetData web posted = Some h' \<and> settings_in web filled (sysCfg (cfgs h')) \<and>
     stored (chip web) (flash (cfgs h')) = sysCfg (cfgs h')"
proof (rule form_saved)
  show "alloc_ok web" by (rule web_alloc)
  show "flash_laws (chip web)" by (simp add: web_def nor_flash_laws)
  show "\<forall>x. length (d_to_bytes web x) = 8" by (simp add: web_def)
  show "cfg_holder (stored (chip web) (flash (cfgs posted))) = CFG_HOLDER"
    by (simp add: web_def posted_def board0 cfg0)
  have "list_all (\<lambda>(k, v). length (encode v) < 64 \<and> list_all (\<lambda>b. b \<noteq> 0) v) (form_of filled)"
    by code_simp
  then have "\<forall>(k, v) \<in> set (form_of filled). length (encode v) < 64 \<and> 0 \<notin> set v"
    by (auto simp: list_all_iff)
  then show fit: "settings_fit filled" by (simp add: settings_fit_def) (simp add: filled_def lit_def)
  have "0 \<notin> set (form_body (form_of filled))"
    by (rule form_body_no_zero) (rule form_entries [OF fit])
  then show "c_string (recieveBuffer posted) =
      Some (lit ''POST / HTTP/1.1'' @ CRLF @ CRLF @ form_body (form_of filled))"
    using c_string_terminated [of "lit ''POST / HTTP/1.1'' @ CRLF @ CRLF @ form_body (form_of filled)" "[]"]
    by (simp add: posted_def CRLF_def)
  have "13 \<notin> set (lit ''POST / HTTP/1.1'')" by (simp add: lit_def)
  then show "strstr (CRLF @ CRLF) (lit ''POST / HTTP/1.1'' @ CRLF @ CRLF @ form_body (form_of filled)) =
      Some (length (lit ''POST / HTTP/1.1''))"
    using strstr_first [of 13 "lit ''POST / HTTP/1.1''" "[10, 13, 10]"] by (simp add: CRLF_def)
qed

section \<open>What does not fit\<close>

lemma c_strcat_string:
  assumes "c_strcat m s = Some m'" and "0 \<notin> set s" and "c_string m = Some a"
  shows "c_string m' = Some (a @ s)"
proof -
  have w: "wr_block m (length a) (s @ [0]) = Some m'" using assms(1,3) by (simp add: c_strcat_def)
  have a: "0 \<notin> set a" by (rule c_string_no_zero [OF assms(3)])
  have "a = takeWhile (\<lambda>b. b \<noteq> 0) m" using assms(3) by (simp add: c_string_def split: if_splits)
  then have "take (length a) m = a" by (metis takeWhile_eq_take)
  with wr_block_SomeD [OF w] have "m' = (a @ s) @ 0 # drop (length a + Suc (length s)) m" by simp
  then show ?thesis using a assms(2) c_string_terminated [of "a @ s"] by (metis Un_iff set_append)
qed

lemma strncat_all:
  "0 \<notin> set s \<Longrightarrow> strncat m s (length s) = c_strcat m s"
proof -
  assume "0 \<notin> set s"
  then have s: "takeWhile (\<lambda>b. b \<noteq> 0) s = s" by (auto simp: takeWhile_eq_all_conv)
  show ?thesis unfolding strncat_def Let_def take_all [OF order_refl] s by simp
qed

lemma realloc_empty:
  assumes "c_string b = Some []" and "malloc_block e n \<noteq> []"
  shows "c_string (realloc_block e b n) = Some []"
proof -
  obtain t where "b = 0 # t"
    using assms(1) by (cases b) (auto simp: c_string_def split: if_splits)
  then show ?thesis using assms(2)
    by (cases "malloc_block e n") (simp_all add: realloc_block_def c_string_def)
qed



end
