(* ===== verification/Http_Types.thy ===== *)
theory Http_Types
  imports Http_Props
begin

text \<open>
  The configuration keeps its type: every array at its size, the image in flash at the size of the
  structure, whatever bytes the configuration page receives in whatever pieces. The writes of
  \<open>src/modules/http_config.c\<close> into the configuration either stay inside a field or are undefined
  in the model (\<open>None\<close>); here every defined run is shown to end in a configuration of the type, in
  memory and in flash alike.
\<close>

section \<open>Loading and saving\<close>

text \<open>What the configuration at run time and in flash satisfy between two operations.\<close>

definition cfg_typed :: "'f flash_dev \<Rightarrow> 'f cfg_state \<Rightarrow> bool" where
  "cfg_typed d s \<longleftrightarrow> cfg_wf (sysCfg s) \<and> stored d (flash s) = sysCfg s"

lemma length_wr: "wr m i x = Some m' \<Longrightarrow> length m' = length m"
  by (auto simp: wr_def split: if_splits)

lemma length_c_strcpy: "c_strcpy m s = Some m' \<Longrightarrow> length m' = length m"
  by (auto simp: c_strcpy_def dest: length_wr_block)

context flash_chip
begin

lemma save_typed: "cfg_wf (sysCfg s) \<Longrightarrow> cfg_typed d (CFG_Save d s)"
  using CFG_Save_stored [of s] by (simp add: cfg_typed_def CFG_Save_def Let_def)

lemma load_typed:
  assumes "CFG_Load d name s = Some s'"
  shows "cfg_typed d s'"
proof (cases "cfg_holder (stored d (flash s)) = CFG_HOLDER")
  case True
  have "cfg_wf (stored d (flash s))" by (simp add: stored_def stored_slot_def cfg_wf_read)
  then show ?thesis using CFG_Load_stored [OF True, of name] assms by (auto simp: cfg_typed_def)
next
  case False
  let ?zero = "of_cfg_image (replicate sizeof_SYSCFG 0)"
  have dev: "length (device_id ?zero) = 32"
    by (simp add: of_cfg_image_def Let_def cfg_sizes_def sizeof_SYSCFG_def)
  have "cfg_holder (of_cfg_image (spi_flash_read d (flash s)
      (if flag (of_flag_image (spi_flash_read d (flash s) (sector 3) sizeof_SAVE_FLAG)) = 0 then sector 0 else sector 1)
      sizeof_SYSCFG)) \<noteq> CFG_HOLDER"
    using False by (simp add: stored_def stored_slot_def stored_flag_def split: if_splits)
  then obtain n1 n2 where n: "sprintf_into (device_id ?zero) name = Some n1" "wr n1 (32 - 1) 0 = Some n2"
    and s': "s' = CFG_Save d (s\<lparr>saveFlag := of_flag_image (spi_flash_read d (flash s) (sector 3) sizeof_SAVE_FLAG),
      sysCfg := ?zero\<lparr>cfg_holder := CFG_HOLDER, device_id := n2, sta_type := STA_TYPE, cfg_security := DEFAULT_SECURITY\<rparr>\<rparr>)"
    using assms by (auto simp: CFG_Load_def Let_def bind_eq_Some_conv split: if_splits)
  have "length n2 = 32"
    using n dev length_wr_block length_wr by (metis sprintf_into_def)
  then show ?thesis unfolding s' by (intro save_typed) (simp add: cfg_wf_default)
qed

end

section \<open>A form sent back\<close>

text \<open>A string copied into a field keeps the size of the field.\<close>

lemma field_typed:
  assumes "cfg_wf c"
  shows "c_strcpy (sta_ssid c) v = Some a \<Longrightarrow> cfg_wf (c\<lparr>sta_ssid := a\<rparr>)" "c_strcpy (sta_pwd c) v = Some a \<Longrightarrow> cfg_wf (c\<lparr>sta_pwd := a\<rparr>)"
    "c_strcpy (mqtt_host c) v = Some a \<Longrightarrow> cfg_wf (c\<lparr>mqtt_host := a\<rparr>)" "c_strcpy (mqtt_user c) v = Some a \<Longrightarrow> cfg_wf (c\<lparr>mqtt_user := a\<rparr>)"
    "c_strcpy (mqtt_pass c) v = Some a \<Longrightarrow> cfg_wf (c\<lparr>mqtt_pass := a\<rparr>)"
    "c_strcpy (mqtt_topicroot c) v = Some a \<Longrightarrow> cfg_wf (c\<lparr>mqtt_topicroot := a\<rparr>)"
    "c_strcpy (mqtt_topicadc0 c) v = Some a \<Longrightarrow> cfg_wf (c\<lparr>mqtt_topicadc0 := a\<rparr>)"
    "c_strcpy (mqtt_topicadc1 c) v = Some a \<Longrightarrow> cfg_wf (c\<lparr>mqtt_topicadc1 := a\<rparr>)"
    "c_strcpy (mqtt_topicadc2 c) v = Some a \<Longrightarrow> cfg_wf (c\<lparr>mqtt_topicadc2 := a\<rparr>)"
    "c_strcpy (mqtt_topicadc3 c) v = Some a \<Longrightarrow> cfg_wf (c\<lparr>mqtt_topicadc3 := a\<rparr>)"
    "length b = 8 \<Longrightarrow> cfg_wf (c\<lparr>mqtt_muladc0 := b\<rparr>)" "length b = 8 \<Longrightarrow> cfg_wf (c\<lparr>mqtt_muladc1 := b\<rparr>)"
    "length b = 8 \<Longrightarrow> cfg_wf (c\<lparr>mqtt_muladc2 := b\<rparr>)" "length b = 8 \<Longrightarrow> cfg_wf (c\<lparr>mqtt_muladc3 := b\<rparr>)"
    "cfg_wf (c\<lparr>mqtt_port := n\<rparr>)" "cfg_wf (c\<lparr>mqtt_keepalive := n\<rparr>)"
  using assms by (auto simp: cfg_wf_def cfg_fields_def cfg_sizes_def dest: length_c_strcpy)

text \<open>Every result of a computation has the type: one rule for each way to compute.\<close>

definition results_typed :: "SYSCFG option \<Rightarrow> bool" where
  "results_typed x \<longleftrightarrow> (\<forall>c. x = Some c \<longrightarrow> cfg_wf c)"

lemma results_typedI [intro]:
  "(\<And>a. x = Some a \<Longrightarrow> results_typed (f a)) \<Longrightarrow> results_typed (Option.bind x f)"
  "results_typed r \<Longrightarrow> results_typed s \<Longrightarrow> results_typed (if b then r else s)"
  "(\<And>a. y = Some a \<Longrightarrow> cfg_wf (g a)) \<Longrightarrow> results_typed (map_option g y)"
  "cfg_wf c \<Longrightarrow> results_typed (Some c)"
  by (auto simp: results_typed_def bind_eq_Some_conv)

lemma set_field_typed:
  assumes "cfg_wf c" "\<forall>x. length (d_to_bytes e x) = 8"
  shows "results_typed (set_field e key val c)"
  unfolding set_field_def
  by (intro results_typedI field_typed [OF assms(1)] assms(1) assms(2) [rule_format]; assumption)

lemma SetData_typed:
  assumes "\<forall>x. length (d_to_bytes e x) = 8"
  shows "cfg_wf c \<Longrightarrow> results_typed (SetData_loop e s c)"
proof (induction "length s" arbitrary: s c rule: less_induct)
  case less
  note set = set_field_typed [OF less.prems assms]
  have rest: "results_typed (SetData_loop e (drop (Suc k) s) c')"
    if "strstr [0x3D] s = Some n" "set_field e key v c = Some c'" for n k key v c'
    using less.hyps [of "drop (Suc k) s" c'] set [of key v] that strstr_less [of "[0x3D]" s n]
    by (auto simp: results_typed_def)
  show ?case
    by (subst SetData_loop.simps)
      (auto split: option.split simp: Let_def intro!: results_typedI(1,4) less.prems set rest)
qed

section \<open>Requests\<close>

lemma GetForm_loads: "HTTPConfig_GetForm e s = Some (b, s') \<Longrightarrow> CFG_Load (chip e) (client_name e) s = Some s'"
  by (auto simp: HTTPConfig_GetForm_def Let_def bind_eq_Some_conv)

lemma SendResponse_keeps: "HTTPConfig_TCPServerSendResponse e err t h = Some h' \<Longrightarrow> cfgs h' = cfgs h"
  by (auto simp: HTTPConfig_TCPServerSendResponse_def http_do_def bind_eq_Some_conv split: option.splits)

lemma SetData_saves:
  assumes "flash_laws (chip e)" "\<forall>x. length (d_to_bytes e x) = 8" "HTTPConfig_SetData e h = Some h'"
  shows "cfg_typed (chip e) (cfgs h')"
proof -
  note chip = flash_chipI [OF assms(1)]
  obtain cs s c where cs: "CFG_Load (chip e) (client_name e) (cfgs h) = Some cs"
    and c: "SetData_loop e s (sysCfg cs) = Some c"
    and h': "h' = h\<lparr>cfgs := CFG_Save (chip e) (cs\<lparr>sysCfg := c\<rparr>)\<rparr>"
    using assms(3) by (auto simp: HTTPConfig_SetData_def bind_eq_Some_conv)
  have "cfg_wf (sysCfg cs)" using flash_chip.load_typed [OF chip cs] by (simp add: cfg_typed_def)
  then have "cfg_wf c" using SetData_typed [OF assms(2)] c by (auto simp: results_typed_def)
  then show ?thesis using flash_chip.save_typed [OF chip, of "cs\<lparr>sysCfg := c\<rparr>"] by (simp add: h')
qed

text \<open>As before, for what a request leaves.\<close>

definition leaves_typed :: "('d, 'f) http_env \<Rightarrow> 'f http option \<Rightarrow> bool" where
  "leaves_typed e x \<longleftrightarrow> (\<forall>h. x = Some h \<longrightarrow> cfg_typed (chip e) (cfgs h))"

lemma leaves_typedI [intro]:
  "(\<And>a. x = Some a \<Longrightarrow> leaves_typed e (f a)) \<Longrightarrow> leaves_typed e (Option.bind x f)"
  "leaves_typed e r \<Longrightarrow> leaves_typed e s \<Longrightarrow> leaves_typed e (if b then r else s)"
  "(\<And>b s. p = (b, s) \<Longrightarrow> leaves_typed e (g b s)) \<Longrightarrow> leaves_typed e (case p of (b, s) \<Rightarrow> g b s)"
  "cfg_typed (chip e) (cfgs h) \<Longrightarrow> leaves_typed e (Some h)"
  "cfg_typed (chip e) (cfgs h) \<Longrightarrow> leaves_typed e (HTTPConfig_TCPServerSendResponse e err t h)"
  by (auto simp: leaves_typed_def bind_eq_Some_conv dest: SendResponse_keeps split: prod.splits)

lemma receive_typed:
  assumes "flash_laws (chip e)" "cfg_typed (chip e) (cfgs h)"
  shows "leaves_typed e (HTTPConfig_TCPServerRecieveCallback e d n h)"
  unfolding HTTPConfig_TCPServerRecieveCallback_def Let_def http_do_def
  by (intro leaves_typedI)
    (auto simp: assms(2) dest: flash_chip.load_typed [OF flash_chipI [OF assms(1)] GetForm_loads])

text \<open>Segments received one after the other, and a server that starts with what is in flash.\<close>

fun receive_all :: "('d, 'f) http_env \<Rightarrow> (u8 list \<times> u16) list \<Rightarrow> 'f http \<Rightarrow> 'f http option" where
  "receive_all e [] h = Some h"
| "receive_all e ((d, n) # ds) h = do { h \<leftarrow> HTTPConfig_TCPServerRecieveCallback e d n h; receive_all e ds h }"

lemma receive_all_typed:
  assumes "flash_laws (chip e)" "\<forall>x. length (d_to_bytes e x) = 8"
  shows "receive_all e ds h = Some h' \<Longrightarrow> cfg_typed (chip e) (cfgs h) \<Longrightarrow> cfg_typed (chip e) (cfgs h')"
proof (induction ds arbitrary: h)
  case (Cons x ds)
  obtain d n where x: "x = (d, n)" by (cases x)
  obtain h1 where "HTTPConfig_TCPServerRecieveCallback e d n h = Some h1" "receive_all e ds h1 = Some h'"
    using Cons.prems(1) by (auto simp: x bind_eq_Some_conv)
  then show ?case using Cons.IH receive_typed [OF assms(1) Cons.prems(2)] unfolding leaves_typed_def by blast
qed simp


text \<open>A request that the page does not know, answered with 404.\<close>

definition unknown :: "u8 list" where
  "unknown = lit ''HEAD'' @ CRLF"

definition not_found :: cstring where
  "not_found = lit ''HTTP/1.1 '' @ dec_int 404 @ lit '' OK'' @ CRLF @
     lit ''Content-Length: '' @ dec 0 @ CRLF @
     lit ''Content-Type: text/html'' @ CRLF @ lit ''Connection: Closed'' @ CRLF @ CRLF"

lemma not_found_answer:
  "HTTPConfig_TCPServerSendResponse web 404 [] h = Some (http_do (Espconn_sent not_found) h)"
proof -
  have "do { b \<leftarrow> c_strcpy (replicate 136 0xA5) not_found; c_string b } = Some not_found" by code_simp
  then show ?thesis
    by (auto simp: HTTPConfig_TCPServerSendResponse_def web_def bind_eq_Some_conv simp flip: not_found_def)
qed

lemma unknown_answered:
  assumes "recieveBuffer h = 0 # replicate 8 0xA5"
  shows "\<exists>h'. HTTPConfig_TCPServerRecieveCallback web unknown 6 h = Some h'"
proof -
  define b where "b = (0 :: u8) # replicate 13 0xA5"
  have buf: "realloc_block web (recieveBuffer h) 6 = b" "c_string (recieveBuffer h) = Some []"
    unfolding assms b_def by code_simp+
  have parts: "strncat b unknown 6 = Some (unknown @ 0 # replicate 7 0xA5)"
    "HTTPConfig_AllInBuffer (unknown @ 0 # replicate 7 0xA5) = Some 1"
    "c_string (unknown @ 0 # replicate 7 0xA5) = Some unknown" "strstr CRLF unknown = Some 4"
    "strncpy (replicate 16 0) unknown 4 = Some (lit ''HEAD'' @ replicate 12 0)"
    "c_streq (lit ''HEAD'' @ replicate 12 0) (lit ''GET / HTTP/1.1'') = Some False"
    "c_streq (lit ''HEAD'' @ replicate 12 0) (lit ''POST / HTTP/1.1'') = Some False"
    unfolding b_def by code_simp+
  show ?thesis
    unfolding HTTPConfig_TCPServerRecieveCallback_def Let_def
    by (simp only: buf parts bind.bind_lunit list.size add_0 not_found_answer)
      (simp add: buf parts not_found_answer)
qed


end
