(* ===== verification/I2c_Master.thy ===== *)
theory I2c_Master
  imports Prelude
begin

text \<open>
  The bit-banged I2C master of \<open>driver_lib/driver/i2c_master.c\<close>: every operation as the sequence
  of pin settings and waits that it performs. A second part reads such a sequence as a
  receiver on the bus does, as start and stop conditions and data bits, and proves what the
  operations say on the bus. The level of the SDA pin is a parameter: a function of what
  the master has done so far.
\<close>

section \<open>State\<close>

datatype gpio_reg = SDA_MUX | SCL_MUX | GPIO_PIN nat | GPIO_ENABLE

datatype i2c_op =
    Gpio_output u32 u32 u32 u32
  | Wait nat
  | Gpio_intr_disable
  | Gpio_intr_enable

record i2c =
  m_nLastSDA :: u8
  m_nLastSCL :: u8
  gpio_regs :: "gpio_reg \<Rightarrow> u32"
  ops :: "i2c_op list"

definition i2c_do :: "i2c_op \<Rightarrow> i2c \<Rightarrow> i2c" where
  "i2c_do op s = s\<lparr>ops := ops s @ [op]\<rparr>"

definition I2C_MASTER_SDA_GPIO :: nat where "I2C_MASTER_SDA_GPIO = 2"

definition I2C_MASTER_SCL_GPIO :: nat where "I2C_MASTER_SCL_GPIO = 14"

definition sda_bit :: u32 where "sda_bit = push_bit I2C_MASTER_SDA_GPIO 1"

definition scl_bit :: u32 where "scl_bit = push_bit I2C_MASTER_SCL_GPIO 1"

section \<open>Operations\<close>

definition I2C_MASTER_SDA_LOW_SCL_LOW :: "i2c \<Rightarrow> i2c" where
  "I2C_MASTER_SDA_LOW_SCL_LOW = i2c_do (Gpio_output 0 (sda_bit OR scl_bit) (sda_bit OR scl_bit) 0)"

definition I2C_MASTER_SDA_LOW_SCL_HIGH :: "i2c \<Rightarrow> i2c" where
  "I2C_MASTER_SDA_LOW_SCL_HIGH = i2c_do (Gpio_output scl_bit sda_bit (sda_bit OR scl_bit) 0)"

definition I2C_MASTER_SDA_HIGH_SCL_LOW :: "i2c \<Rightarrow> i2c" where
  "I2C_MASTER_SDA_HIGH_SCL_LOW = i2c_do (Gpio_output sda_bit scl_bit (sda_bit OR scl_bit) 0)"

definition I2C_MASTER_SDA_HIGH_SCL_HIGH :: "i2c \<Rightarrow> i2c" where
  "I2C_MASTER_SDA_HIGH_SCL_HIGH = i2c_do (Gpio_output (sda_bit OR scl_bit) 0 (sda_bit OR scl_bit) 0)"

definition i2c_master_wait :: "nat \<Rightarrow> i2c \<Rightarrow> i2c" where
  "i2c_master_wait n = i2c_do (Wait n)"

definition i2c_master_setDC :: "u8 \<Rightarrow> u8 \<Rightarrow> i2c \<Rightarrow> i2c" where
  "i2c_master_setDC SDA SCL s =
     (let SDA = SDA AND 1;
          SCL = SCL AND 1;
          s = s\<lparr>m_nLastSDA := SDA, m_nLastSCL := SCL\<rparr>
      in if SDA = 0 \<and> SCL = 0 then I2C_MASTER_SDA_LOW_SCL_LOW s
         else if SDA = 0 \<and> SCL = 1 then I2C_MASTER_SDA_LOW_SCL_HIGH s
         else if SDA = 1 \<and> SCL = 0 then I2C_MASTER_SDA_HIGH_SCL_LOW s
         else I2C_MASTER_SDA_HIGH_SCL_HIGH s)"

text \<open>\<open>pins\<close> is \<open>gpio_input_get\<close> after the given operations.\<close>

definition i2c_master_getDC :: "(i2c_op list \<Rightarrow> u32) \<Rightarrow> i2c \<Rightarrow> u8" where
  "i2c_master_getDC pins s = ucast (drop_bit I2C_MASTER_SDA_GPIO (pins (ops s)) AND 1)"

definition i2c_master_stop :: "i2c \<Rightarrow> i2c" where
  "i2c_master_stop s =
     (let s = i2c_master_wait 5 s;
          s = i2c_master_wait 5 (i2c_master_setDC 0 (m_nLastSCL s) s);
          s = i2c_master_wait 5 (i2c_master_setDC 0 1 s)
      in i2c_master_wait 5 (i2c_master_setDC 1 1 s))"

definition i2c_master_start :: "i2c \<Rightarrow> i2c" where
  "i2c_master_start s =
     (let s = i2c_master_wait 5 (i2c_master_setDC 1 (m_nLastSCL s) s);
          s = i2c_master_wait 5 (i2c_master_setDC 1 1 s)
      in i2c_master_wait 5 (i2c_master_setDC 0 1 s))"

text \<open>One pass of the loop of \<open>i2c_master_init\<close>.\<close>

definition init_clock :: "i2c \<Rightarrow> i2c" where
  "init_clock s =
     (let s = i2c_master_wait 5 (i2c_master_setDC 1 0 s)
      in i2c_master_wait 5 (i2c_master_setDC 1 1 s))"

definition i2c_master_init :: "i2c \<Rightarrow> i2c" where
  "i2c_master_init s =
     (let s = i2c_master_wait 5 (i2c_master_setDC 1 0 s);
          s = i2c_master_wait 5 (i2c_master_setDC 0 0 s);
          s = i2c_master_wait 5 (i2c_master_setDC 1 0 s);
          s = (init_clock ^^ 28) s
      in i2c_master_stop s)"

definition PIN_FUNC_SELECT :: "gpio_reg \<Rightarrow> u32 \<Rightarrow> i2c \<Rightarrow> i2c" where
  "PIN_FUNC_SELECT r FUNC s =
     s\<lparr>gpio_regs := (gpio_regs s)
        (r := (gpio_regs s r AND NOT (push_bit 4 0x13))
                OR push_bit 4 (push_bit 2 (FUNC AND 4) OR (FUNC AND 3)))\<rparr>"

definition or_reg :: "gpio_reg \<Rightarrow> u32 \<Rightarrow> i2c \<Rightarrow> i2c" where
  "or_reg r w s = s\<lparr>gpio_regs := (gpio_regs s)(r := gpio_regs s r OR w)\<rparr>"

definition i2c_master_gpio_init :: "i2c \<Rightarrow> i2c" where
  "i2c_master_gpio_init s =
     (let s = i2c_do Gpio_intr_disable s;
          s = PIN_FUNC_SELECT SDA_MUX 0 s;
          s = PIN_FUNC_SELECT SCL_MUX 3 s;
          s = or_reg (GPIO_PIN I2C_MASTER_SDA_GPIO) (push_bit 2 1 AND 4) s;
          s = or_reg GPIO_ENABLE sda_bit s;
          s = or_reg (GPIO_PIN I2C_MASTER_SCL_GPIO) (push_bit 2 1 AND 4) s;
          s = or_reg GPIO_ENABLE scl_bit s;
          s = I2C_MASTER_SDA_HIGH_SCL_HIGH s;
          s = i2c_do Gpio_intr_enable s
      in i2c_master_init s)"

definition i2c_master_setAck :: "u8 \<Rightarrow> i2c \<Rightarrow> i2c" where
  "i2c_master_setAck level s =
     (let s = i2c_master_wait 5 (i2c_master_setDC (m_nLastSDA s) 0 s);
          s = i2c_master_wait 5 (i2c_master_setDC level 0 s);
          s = i2c_master_wait 8 (i2c_master_setDC level 1 s);
          s = i2c_master_wait 5 (i2c_master_setDC level 0 s)
      in i2c_master_wait 5 (i2c_master_setDC 1 0 s))"

definition i2c_master_getAck :: "(i2c_op list \<Rightarrow> u32) \<Rightarrow> i2c \<Rightarrow> u8 \<times> i2c" where
  "i2c_master_getAck pins s =
     (let s = i2c_master_wait 5 (i2c_master_setDC (m_nLastSDA s) 0 s);
          s = i2c_master_wait 5 (i2c_master_setDC 1 0 s);
          s = i2c_master_wait 5 (i2c_master_setDC 1 1 s);
          retVal = i2c_master_getDC pins s;
          s = i2c_master_wait 5 s;
          s = i2c_master_wait 5 (i2c_master_setDC 1 0 s)
      in (retVal, s))"

definition i2c_master_checkAck :: "(i2c_op list \<Rightarrow> u32) \<Rightarrow> i2c \<Rightarrow> bool \<times> i2c" where
  "i2c_master_checkAck pins s =
     (let (a, s) = i2c_master_getAck pins s in (if a \<noteq> 0 then False else True, s))"

definition i2c_master_send_ack :: "i2c \<Rightarrow> i2c" where
  "i2c_master_send_ack = i2c_master_setAck 0"

definition i2c_master_send_nack :: "i2c \<Rightarrow> i2c" where
  "i2c_master_send_nack = i2c_master_setAck 1"

text \<open>One pass of the loop of \<open>i2c_master_readByte\<close>: bit i, counted from the most significant.\<close>

definition read_bit :: "(i2c_op list \<Rightarrow> u32) \<Rightarrow> nat \<Rightarrow> u8 \<times> i2c \<Rightarrow> u8 \<times> i2c" where
  "read_bit pins i = (\<lambda>(retVal, s).
     (let s = i2c_master_wait 5 s;
          s = i2c_master_wait 5 (i2c_master_setDC 1 0 s);
          s = i2c_master_wait 5 (i2c_master_setDC 1 1 s);
          k = i2c_master_getDC pins s;
          s = i2c_master_wait 5 s;
          s = (if i = 7 then i2c_master_wait 3 s else s)
      in (retVal OR push_bit (7 - i) k, s)))"

definition i2c_master_readByte :: "(i2c_op list \<Rightarrow> u32) \<Rightarrow> i2c \<Rightarrow> u8 \<times> i2c" where
  "i2c_master_readByte pins s =
     (let s = i2c_master_wait 5 s;
          s = i2c_master_wait 5 (i2c_master_setDC (m_nLastSDA s) 0 s);
          (retVal, s) = fold (read_bit pins) [0..<8] (0, s)
      in (retVal, i2c_master_wait 5 (i2c_master_setDC 1 0 s)))"

text \<open>One pass of the loop of \<open>i2c_master_writeByte\<close>.\<close>

definition write_bit :: "u8 \<Rightarrow> nat \<Rightarrow> i2c \<Rightarrow> i2c" where
  "write_bit wrdata i s =
     (let dat = drop_bit i wrdata;
          s = i2c_master_wait 5 (i2c_master_setDC dat 0 s);
          s = i2c_master_wait 5 (i2c_master_setDC dat 1 s);
          s = (if i = 0 then i2c_master_wait 3 s else s)
      in i2c_master_wait 5 (i2c_master_setDC dat 0 s))"

definition i2c_master_writeByte :: "u8 \<Rightarrow> i2c \<Rightarrow> i2c" where
  "i2c_master_writeByte wrdata s =
     (let s = i2c_master_wait 5 s;
          s = i2c_master_wait 5 (i2c_master_setDC (m_nLastSDA s) 0 s)
      in fold (write_bit wrdata) (rev [0..<8]) s)"

section \<open>The bus\<close>

text \<open>
  What a receiver makes of the pins: the level of SDA is a data bit when it stays the same as
  long as SCL is high; a falling or rising SDA while SCL is high is a start or stop condition.
  The state is the level of SDA and of SCL, and whether SDA has been stable since SCL rose.
\<close>

datatype symbol = START | STOP | Data bool

type_synonym bus = "bool \<times> bool \<times> bool"

fun bus_step :: "bus \<Rightarrow> bool \<times> bool \<Rightarrow> symbol list \<times> bus" where
  "bus_step (d, c, steady) (d', c') =
     (if \<not> c \<and> c' then ([], d', c', True)
      else if c \<and> \<not> c' then (if steady then [Data d] else [], d', c', False)
      else if c \<and> d \<noteq> d' then ([if d' then STOP else START], d', c', False)
      else ([], d', c', steady))"

fun decode :: "bus \<Rightarrow> i2c_op list \<Rightarrow> symbol list \<times> bus" where
  "decode b [] = ([], b)"
| "decode (d, c, st) (Gpio_output s r e i # rest) =
     (let (x, b) = bus_step (d, c, st)
            (if bit s I2C_MASTER_SDA_GPIO then True else if bit r I2C_MASTER_SDA_GPIO then False else d,
             if bit s I2C_MASTER_SCL_GPIO then True else if bit r I2C_MASTER_SCL_GPIO then False else c);
          (y, b) = decode b rest
      in (x @ y, b))"
| "decode b (Wait n # rest) = decode b rest"
| "decode b (Gpio_intr_disable # rest) = decode b rest"
| "decode b (Gpio_intr_enable # rest) = decode b rest"

lemma decode_append:
  "decode b (xs @ ys) = (let (x, b) = decode b xs; (y, b) = decode b ys in (x @ y, b))"
  by (induction b xs rule: decode.induct) (auto simp: Let_def split: prod.splits)

text \<open>What has been heard of all that the master has done, and the state of the bus after it.\<close>

definition heard :: "bus \<Rightarrow> i2c \<Rightarrow> symbol list" where
  "heard b s = fst (decode b (ops s))"

definition bus :: "bus \<Rightarrow> i2c \<Rightarrow> bus" where
  "bus b s = snd (decode b (ops s))"

lemma bit_line: "k < 32 \<Longrightarrow> bit (push_bit k 1 :: u32) n \<longleftrightarrow> n = k"
  by (subst bit_push_bit_iff) (auto simp: bit_1_iff)

lemma bit_lines [simp]:
  "bit sda_bit n \<longleftrightarrow> n = I2C_MASTER_SDA_GPIO" "bit scl_bit n \<longleftrightarrow> n = I2C_MASTER_SCL_GPIO"
  unfolding sda_bit_def scl_bit_def by (rule bit_line; simp add: I2C_MASTER_SDA_GPIO_def I2C_MASTER_SCL_GPIO_def)+

lemma lines_differ [simp]:
  "I2C_MASTER_SDA_GPIO \<noteq> I2C_MASTER_SCL_GPIO" "I2C_MASTER_SCL_GPIO \<noteq> I2C_MASTER_SDA_GPIO"
  by (simp_all add: I2C_MASTER_SDA_GPIO_def I2C_MASTER_SCL_GPIO_def)

lemma and_1_u8: "w AND 1 = (if odd w then 1 else 0)" for w :: u8
  by (simp add: and_one_eq odd_iff_mod_2_eq_one)

lemma wait_simps [simp]:
  "heard b (i2c_master_wait n s) = heard b s" "bus b (i2c_master_wait n s) = bus b s"
  "m_nLastSDA (i2c_master_wait n s) = m_nLastSDA s" "m_nLastSCL (i2c_master_wait n s) = m_nLastSCL s"
  by (simp_all add: heard_def bus_def i2c_master_wait_def i2c_do_def decode_append Let_def split: prod.splits)

lemma decode_do: "decode b (ops s @ [op]) =
    (heard b s @ fst (decode (bus b s) [op]), snd (decode (bus b s) [op]))"
  by (simp add: decode_append heard_def bus_def Let_def split: prod.splits)

lemma setDC_simps [simp]:
  "heard b (i2c_master_setDC x y s) = heard b s @ fst (bus_step (bus b s) (odd x, odd y))"
  "bus b (i2c_master_setDC x y s) = snd (bus_step (bus b s) (odd x, odd y))"
  "m_nLastSDA (i2c_master_setDC x y s) = of_bool (odd x)"
  "m_nLastSCL (i2c_master_setDC x y s) = of_bool (odd y)"
proof -
  obtain d c st where b: "bus b s = (d, c, st)" by (cases "bus b s") auto
  have "decode b (ops (i2c_master_setDC x y s)) =
      (heard b s @ fst (bus_step (bus b s) (odd x, odd y)), snd (bus_step (bus b s) (odd x, odd y)))"
    by (simp add: i2c_master_setDC_def Let_def and_1_u8 i2c_do_def decode_do b bit_or_iff
        I2C_MASTER_SDA_LOW_SCL_LOW_def I2C_MASTER_SDA_LOW_SCL_HIGH_def I2C_MASTER_SDA_HIGH_SCL_LOW_def
        I2C_MASTER_SDA_HIGH_SCL_HIGH_def del: bus_step.simps split: prod.splits)
  then show "heard b (i2c_master_setDC x y s) = heard b s @ fst (bus_step (bus b s) (odd x, odd y))"
    and "bus b (i2c_master_setDC x y s) = snd (bus_step (bus b s) (odd x, odd y))"
    by (simp_all add: heard_def bus_def)
qed (simp_all add: i2c_master_setDC_def Let_def and_1_u8 i2c_do_def
        I2C_MASTER_SDA_LOW_SCL_LOW_def I2C_MASTER_SDA_LOW_SCL_HIGH_def I2C_MASTER_SDA_HIGH_SCL_LOW_def
        I2C_MASTER_SDA_HIGH_SCL_HIGH_def)

text \<open>Between two symbols: the level of SDA is the remembered one, and no bit is under way.\<close>

definition ready :: "bus \<Rightarrow> i2c \<Rightarrow> bool" where
  "ready b s \<longleftrightarrow> (\<exists>d c. bus b s = (d, c, False) \<and> m_nLastSDA s = of_bool d \<and> m_nLastSCL s = of_bool c)"

lemma readyE:
  assumes "ready b s"
  obtains d c where "bus b s = (d, c, False)" and "m_nLastSDA s = of_bool d" and "m_nLastSCL s = of_bool c"
  using assms by (auto simp: ready_def)

lemma start_heard:
  assumes "ready b s"
  shows "heard b (i2c_master_start s) = heard b s @ (if bus b s = (False, True, False) then [STOP, START] else [START])"
    and "ready b (i2c_master_start s)" and "bus b (i2c_master_start s) = (False, True, False)"
  using assms by (elim readyE, auto simp: i2c_master_start_def Let_def ready_def)+

lemma stop_heard:
  assumes "ready b s" and "bus b s \<noteq> (True, True, False)"
  shows "heard b (i2c_master_stop s) = heard b s @ [STOP]"
    and "ready b (i2c_master_stop s)" and "bus b (i2c_master_stop s) = (True, True, False)"
  using assms by (elim readyE, auto simp: i2c_master_stop_def Let_def ready_def)+

lemma write_bit_heard:
  assumes "bus b s = (d, False, False)"
  shows "heard b (write_bit w i s) = heard b s @ [Data (bit w i)]"
    and "bus b (write_bit w i s) = (bit w i, False, False)"
    and "m_nLastSDA (write_bit w i s) = of_bool (bit w i)"
    and "m_nLastSCL (write_bit w i s) = 0"
  using assms by (auto simp: write_bit_def Let_def bit_iff_odd_drop_bit [symmetric] bit_0)

lemma write_bits_heard:
  assumes "bus b s = (d, False, False)" and "m_nLastSDA s = of_bool d" and "m_nLastSCL s = 0"
  shows "heard b (fold (write_bit w) is s) = heard b s @ map (\<lambda>i. Data (bit w i)) is \<and>
         (\<exists>d. bus b (fold (write_bit w) is s) = (d, False, False) \<and>
              m_nLastSDA (fold (write_bit w) is s) = of_bool d \<and> m_nLastSCL (fold (write_bit w) is s) = 0)"
  using assms
proof (induction "is" arbitrary: s d)
  case Nil
  then show ?case by simp
next
  case (Cons i "is")
  show ?case
    using Cons.IH [OF write_bit_heard(2) [OF Cons.prems(1)] write_bit_heard(3,4) [OF Cons.prems(1)]]
    by (simp add: write_bit_heard(1) [OF Cons.prems(1)])
qed

text \<open>The bits of a byte in the order of transmission.\<close>

definition byte_bits :: "u8 \<Rightarrow> symbol list" where
  "byte_bits w = map (\<lambda>i. Data (bit w i)) [7, 6, 5, 4, 3, 2, 1, 0]"

lemma byte_bits_fold: "map (\<lambda>i. Data (bit w i)) (rev [0..<8]) = byte_bits w"
  by (simp add: byte_bits_def upt_rec eval_nat_numeral)

lemma write_byte_heard:
  assumes "ready b s"
  shows "heard b (i2c_master_writeByte w s) = heard b s @ byte_bits w"
    and "ready b (i2c_master_writeByte w s)"
    and "\<exists>d. bus b (i2c_master_writeByte w s) = (d, False, False)"
proof -
  obtain d c where b: "bus b s = (d, c, False)" "m_nLastSDA s = of_bool d" "m_nLastSCL s = of_bool c"
    using assms by (rule readyE)
  define s1 where "s1 = i2c_master_wait 5 (i2c_master_setDC (m_nLastSDA s) 0 (i2c_master_wait 5 s))"
  have eq: "i2c_master_writeByte w s = fold (write_bit w) (rev [0..<8]) s1"
    by (simp add: i2c_master_writeByte_def s1_def Let_def)
  have s1: "bus b s1 = (d, False, False)" "m_nLastSDA s1 = of_bool d" "m_nLastSCL s1 = 0" "heard b s1 = heard b s"
    using b by (auto simp: s1_def)
  note w = write_bits_heard [OF s1(1-3), of w "rev [0..<8]"]
  show "heard b (i2c_master_writeByte w s) = heard b s @ byte_bits w"
    using w unfolding eq byte_bits_fold s1(4) by blast
  show "ready b (i2c_master_writeByte w s)" "\<exists>d. bus b (i2c_master_writeByte w s) = (d, False, False)"
    using w unfolding eq ready_def by fastforce+
qed

lemma get_ack_heard:
  assumes "ready b s"
  shows "heard b (snd (i2c_master_getAck pins s)) = heard b s @ [Data True]"
    and "ready b (snd (i2c_master_getAck pins s))"
    and "bus b (snd (i2c_master_getAck pins s)) = (True, False, False)"
  using assms by (elim readyE, auto simp: i2c_master_getAck_def Let_def ready_def)+

lemma set_ack_heard:
  assumes "ready b s"
  shows "heard b (i2c_master_setAck l s) = heard b s @ [Data (odd l)]"
    and "ready b (i2c_master_setAck l s)"
    and "bus b (i2c_master_setAck l s) = (True, False, False)"
  using assms by (elim readyE, auto simp: i2c_master_setAck_def Let_def ready_def)+

section \<open>Initialisation\<close>

lemma reg_simps [simp]:
  "ops (PIN_FUNC_SELECT r f s) = ops s" "ops (or_reg r w s) = ops s"
  by (simp_all add: PIN_FUNC_SELECT_def or_reg_def)

lemma init_clock_bus:
  "bus b (init_clock s) = (True, True, True)" "m_nLastSDA (init_clock s) = 1" "m_nLastSCL (init_clock s) = 1"
  by (cases "bus b s"; simp add: init_clock_def Let_def)+

lemma init_clock_last: "(init_clock ^^ 28) s = init_clock ((init_clock ^^ 27) s)"
proof -
  have "(28 :: nat) = Suc 27" by simp
  then show ?thesis by (simp only: funpow.simps o_apply)
qed

text \<open>Whatever the pins were, after the initialisation the bus is free.\<close>

lemma gpio_init_idle:
  "ready b (i2c_master_gpio_init s) \<and> bus b (i2c_master_gpio_init s) = (True, True, False)"
proof -
  have "ready b (i2c_master_init s) \<and> bus b (i2c_master_init s) = (True, True, False)" for s
  proof -
    define t where
      "t = (init_clock ^^ 27)
             (i2c_master_wait 5 (i2c_master_setDC 1 0 (i2c_master_wait 5 (i2c_master_setDC 0 0
               (i2c_master_wait 5 (i2c_master_setDC 1 0 s))))))"
    have "i2c_master_init s = i2c_master_stop (init_clock t)"
      unfolding i2c_master_init_def t_def Let_def init_clock_last by (rule refl)
    then show ?thesis
      by (auto simp: i2c_master_stop_def Let_def init_clock_bus ready_def intro: exI [of _ True])
  qed
  then show ?thesis by (simp add: i2c_master_gpio_init_def Let_def)
qed

section \<open>Reading a byte\<close>

text \<open>
  The device that sends w from state s on: whenever SCL is high after k further bits, the SDA
  pin has the bit of w that is next, the most significant first. (The master leaves SDA high
  meanwhile, so it hears itself say 1.)
\<close>

definition slave_sends :: "bus \<Rightarrow> i2c \<Rightarrow> (i2c_op list \<Rightarrow> u32) \<Rightarrow> u8 \<Rightarrow> bool" where
  "slave_sends b s pins w \<longleftrightarrow>
     (\<forall>tr k. k < 8 \<and> decode b tr = (heard b s @ replicate k (Data True), True, True, True) \<longrightarrow>
        bit (pins tr) I2C_MASTER_SDA_GPIO = bit w (7 - k))"

lemma getDC_bit: "i2c_master_getDC pins s = of_bool (bit (pins (ops s)) I2C_MASTER_SDA_GPIO)"
  by (auto simp: i2c_master_getDC_def and_one_eq bit_iff_odd_drop_bit odd_iff_mod_2_eq_one)

lemma decode_ops: "decode b (ops s) = (heard b s, bus b s)"
  by (simp add: heard_def bus_def)

text \<open>The state of the loop of \<open>i2c_master_readByte\<close> before pass i.\<close>

definition read_inv :: "bus \<Rightarrow> i2c \<Rightarrow> u8 \<Rightarrow> nat \<Rightarrow> u8 \<times> i2c \<Rightarrow> bool" where
  "read_inv b s w i = (\<lambda>(r, s').
     (\<forall>n. bit r n \<longleftrightarrow> 8 - i \<le> n \<and> bit w n) \<and>
     (if i = 0 then heard b s' = heard b s \<and> (\<exists>d. bus b s' = (d, False, False))
      else heard b s' = heard b s @ replicate (i - 1) (Data True) \<and> bus b s' = (True, True, True)))"

lemma bit_placed: "k < 8 \<Longrightarrow> bit (r OR push_bit k (of_bool v)) n \<longleftrightarrow> bit r n \<or> n = k \<and> v" for r :: u8
  by (cases v) (auto simp: bit_or_iff bit_push_bit_iff bit_1_iff simp del: push_bit_of_1)

lemma read_bit_inv:
  assumes "slave_sends b s pins w" and "i < 8" and "read_inv b s w i (r, s')"
  shows "read_inv b s w (Suc i) (read_bit pins i (r, s'))"
proof -
  define t where "t = i2c_master_wait 5 (i2c_master_setDC 1 1 (i2c_master_wait 5 (i2c_master_setDC 1 0 (i2c_master_wait 5 s'))))"
  have t: "heard b t = heard b s @ replicate i (Data True) \<and> bus b t = (True, True, True)"
  proof (cases i)
    case 0
    then show ?thesis using assms(3) by (auto simp: t_def read_inv_def)
  next
    case (Suc j)
    then show ?thesis using assms(3) by (simp add: t_def read_inv_def replicate_append_same)
  qed
  then have k: "i2c_master_getDC pins t = of_bool (bit w (7 - i))"
    using assms(1,2) by (simp add: slave_sends_def getDC_bit decode_ops)
  have r: "bit r n \<longleftrightarrow> 8 - i \<le> n \<and> bit w n" for n using assms(3) by (simp add: read_inv_def)
  have "bit (r OR push_bit (7 - i) (of_bool (bit w (7 - i)))) n \<longleftrightarrow> 8 - Suc i \<le> n \<and> bit w n" for n
  proof (cases "n = 7 - i")
    case True
    then show ?thesis using assms(2) by (auto simp: bit_placed r)
  next
    case False
    then have "8 - Suc i \<le> n \<longleftrightarrow> 8 - i \<le> n" using assms(2) by linarith
    then show ?thesis using False assms(2) by (simp add: bit_placed r)
  qed
  moreover have "read_bit pins i (r, s') =
      (r OR push_bit (7 - i) (i2c_master_getDC pins t),
       if i = 7 then i2c_master_wait 3 (i2c_master_wait 5 t) else i2c_master_wait 5 t)"
    by (simp add: read_bit_def Let_def t_def)
  ultimately show ?thesis using t by (simp add: read_inv_def k)
qed

lemma read_byte_heard:
  assumes "ready b s" and "slave_sends b s pins w"
  shows "fst (i2c_master_readByte pins s) = w"
    and "heard b (snd (i2c_master_readByte pins s)) = heard b s @ replicate 8 (Data True)"
    and "ready b (snd (i2c_master_readByte pins s))"
    and "bus b (snd (i2c_master_readByte pins s)) = (True, False, False)"
proof -
  define s1 where
    "s1 = i2c_master_wait 5 (i2c_master_setDC (m_nLastSDA (i2c_master_wait 5 s)) 0 (i2c_master_wait 5 s))"
  have start: "read_inv b s w 0 (0, s1)"
    using assms(1) by (elim readyE) (auto simp: read_inv_def s1_def dest: bit_imp_le_length)
  have inv: "i \<le> 8 \<Longrightarrow> read_inv b s w i (fold (read_bit pins) [0..<i] (0, s1))" for i
  proof (induction i)
    case 0
    then show ?case using start by simp
  next
    case (Suc i)
    then show ?case using read_bit_inv [OF assms(2), of i] by (cases "fold (read_bit pins) [0..<i] (0, s1)") simp
  qed
  obtain r s' where f: "fold (read_bit pins) [0..<8] (0, s1) = (r, s')"
    by (cases "fold (read_bit pins) [0..<8] (0, s1)")
  have r: "r = w" and s': "heard b s' = heard b s @ replicate 7 (Data True)" "bus b s' = (True, True, True)"
    using inv [of 8] by (auto simp: f read_inv_def intro: bit_word_eqI)
  have eq: "i2c_master_readByte pins s = (r, i2c_master_wait 5 (i2c_master_setDC 1 0 s'))"
    by (simp only: i2c_master_readByte_def Let_def s1_def [symmetric] f prod.case)
  show "fst (i2c_master_readByte pins s) = w" by (simp add: eq r)
  show "heard b (snd (i2c_master_readByte pins s)) = heard b s @ replicate 8 (Data True)"
    by (simp add: eq s' replicate_append_same eval_nat_numeral)
  show "ready b (snd (i2c_master_readByte pins s))" "bus b (snd (i2c_master_readByte pins s)) = (True, False, False)"
    by (auto simp: eq s' ready_def intro: exI [of _ True] exI [of _ False])
qed

section \<open>A transfer\<close>

text \<open>What a driver does with these operations: send some bytes, read one, and stop.\<close>

definition write_acked :: "(i2c_op list \<Rightarrow> u32) \<Rightarrow> u8 list \<Rightarrow> i2c \<Rightarrow> i2c" where
  "write_acked pins = fold (\<lambda>w s. snd (i2c_master_checkAck pins (i2c_master_writeByte w s)))"

definition transfer :: "(i2c_op list \<Rightarrow> u32) \<Rightarrow> u8 list \<Rightarrow> i2c \<Rightarrow> u8 \<times> i2c" where
  "transfer pins bs s =
     (let s = write_acked pins bs (i2c_master_start s);
          (r, s) = i2c_master_readByte pins s
      in (r, i2c_master_stop (i2c_master_send_nack s)))"

lemma check_ack_state: "snd (i2c_master_checkAck pins s) = snd (i2c_master_getAck pins s)"
  by (simp add: i2c_master_checkAck_def split: prod.splits)

lemma write_acked_heard:
  assumes "ready b s"
  shows "heard b (write_acked pins bs s) = heard b s @ concat (map (\<lambda>w. byte_bits w @ [Data True]) bs) \<and>
         ready b (write_acked pins bs s)"
  using assms unfolding write_acked_def
proof (induction bs arbitrary: s)
  case Nil
  then show ?case by simp
next
  case (Cons w bs)
  define t where "t = snd (i2c_master_getAck pins (i2c_master_writeByte w s))"
  have t: "heard b t = heard b s @ byte_bits w @ [Data True]" "ready b t"
    using write_byte_heard [OF Cons.prems, of w] get_ack_heard [of b "i2c_master_writeByte w s" pins]
    by (simp_all add: t_def)
  show ?case using Cons.IH [OF t(2)] by (simp add: check_ack_state t_def [symmetric] t(1))
qed

text \<open>
  C38. A transfer over the I2C pins: after the initialisation, whatever the pins were before, the
  operations put on the bus exactly a start condition, the bits of the bytes written, each byte
  with the most significant bit first and followed by a released bit for the acknowledgement,
  eight released bits during which the byte that the device sends is read, a refused acknowledgement
  and a stop condition; then the bus is free again, and the byte read is the one sent.
\<close>

theorem i2c_transfer:
  assumes "slave_sends b (write_acked pins bs (i2c_master_start (i2c_master_gpio_init s))) pins w"
  shows "\<exists>s'. transfer pins bs (i2c_master_gpio_init s) = (w, s') \<and>
           heard b s' = heard b (i2c_master_gpio_init s) @ [START] @
             concat (map (\<lambda>x. byte_bits x @ [Data True]) bs) @
             replicate 8 (Data True) @ [Data True, STOP] \<and>
           bus b s' = (True, True, False)"
proof -
  define s0 where "s0 = i2c_master_gpio_init s"
  define s1 where "s1 = write_acked pins bs (i2c_master_start s0)"
  define s2 where "s2 = snd (i2c_master_readByte pins s1)"
  define s3 where "s3 = i2c_master_send_nack s2"
  have s0: "ready b s0" "bus b s0 = (True, True, False)" using gpio_init_idle by (simp_all add: s0_def)
  have s1: "ready b s1" "heard b s1 = heard b s0 @ [START] @ concat (map (\<lambda>x. byte_bits x @ [Data True]) bs)"
    using start_heard [OF s0(1)] s0(2) write_acked_heard [of b "i2c_master_start s0" pins bs]
    by (simp_all add: s1_def)
  have slave: "slave_sends b s1 pins w" using assms by (simp add: s1_def s0_def)
  note rd = read_byte_heard [OF s1(1) slave, folded s2_def]
  note s3 = set_ack_heard [OF rd(3), of 1, folded i2c_master_send_nack_def s3_def]
  have "transfer pins bs s0 = (w, i2c_master_stop s3)"
    using rd(1) by (cases "i2c_master_readByte pins s1")
      (simp add: transfer_def Let_def s1_def [symmetric] s2_def s3_def)
  with s3 stop_heard [OF s3(2)] rd(2) s1(2) show ?thesis unfolding s0_def [symmetric] by simp
qed

text \<open>A device that sends 0xA5 after 26 symbols.\<close>

definition free_master :: i2c where
  "free_master = \<lparr>m_nLastSDA = 0, m_nLastSCL = 0, gpio_regs = (\<lambda>r. 0), ops = []\<rparr>"

definition device :: "nat \<Rightarrow> u8 \<Rightarrow> i2c_op list \<Rightarrow> u32" where
  "device n w tr = (if bit w (7 - (length (fst (decode (True, True, False) tr)) - n)) then 4 else 0)"

lemma device_sends: "length (heard (True, True, False) s) = n \<Longrightarrow> slave_sends (True, True, False) s (device n w) w"
  by (auto simp: slave_sends_def device_def I2C_MASTER_SDA_GPIO_def)

lemma init_clocks_heard:
  "bus b s = (d, False, False) \<Longrightarrow>
     heard b ((init_clock ^^ Suc n) s) = heard b s @ replicate n (Data True) \<and>
     bus b ((init_clock ^^ Suc n) s) = (True, True, True)"
proof (induction n)
  case 0
  then show ?case by (simp add: init_clock_def Let_def)
next
  case (Suc n)
  then show ?case by (simp add: init_clock_def Let_def replicate_append_same)
qed

text \<open>On a free bus the initialisation clocks 27 idle bits and then starts and stops.\<close>

lemma init_heard:
  assumes "bus b s = (True, True, False)"
  shows "heard b (i2c_master_gpio_init s) = heard b s @ replicate 27 (Data True) @ [START, STOP]"
proof -
  have "heard b (i2c_master_init s) = heard b s @ replicate 27 (Data True) @ [START, STOP]"
    if "bus b s = (True, True, False)" for s
  proof -
    define t where
      "t = i2c_master_wait 5 (i2c_master_setDC 1 0 (i2c_master_wait 5 (i2c_master_setDC 0 0
               (i2c_master_wait 5 (i2c_master_setDC 1 0 s)))))"
    define u where "u = (init_clock ^^ 28) t"
    have "bus b t = (True, False, False)" "heard b t = heard b s" using that by (simp_all add: t_def)
    with init_clocks_heard [of b t True 27] have u: "heard b u = heard b s @ replicate 27 (Data True)" "bus b u = (True, True, True)"
      by (simp_all add: u_def)
    have "u = init_clock ((init_clock ^^ 27) t)" unfolding u_def init_clock_last by (rule refl)
    then have "m_nLastSCL u = 1" by (simp add: init_clock_bus)
    moreover have "i2c_master_init s = i2c_master_stop u"
      by (simp add: i2c_master_init_def Let_def t_def u_def)
    ultimately show ?thesis using u by (simp add: i2c_master_stop_def Let_def)
  qed
  moreover have "bus b (I2C_MASTER_SDA_HIGH_SCL_HIGH s) = bus b s \<and>
      heard b (I2C_MASTER_SDA_HIGH_SCL_HIGH s) = heard b s" if "bus b s = (True, True, False)" for s
    using that by (simp add: bus_def heard_def I2C_MASTER_SDA_HIGH_SCL_HIGH_def i2c_do_def decode_do bit_or_iff)
  moreover have "bus b (i2c_do Gpio_intr_enable s) = bus b s" "heard b (i2c_do Gpio_intr_enable s) = heard b s"
    "bus b (i2c_do Gpio_intr_disable s) = bus b s" "heard b (i2c_do Gpio_intr_disable s) = heard b s" for s
    by (simp_all add: bus_def heard_def i2c_do_def decode_append Let_def split: prod.splits)
  moreover have "bus b (PIN_FUNC_SELECT r f s) = bus b s" "heard b (PIN_FUNC_SELECT r f s) = heard b s"
    "bus b (or_reg r f s) = bus b s" "heard b (or_reg r f s) = heard b s" for r f s
    by (simp_all add: bus_def heard_def)
  ultimately show ?thesis using assms by (simp add: i2c_master_gpio_init_def Let_def)
qed

lemma free_master_waits:
  "length (heard (True, True, False)
     (write_acked pins [0x40] (i2c_master_start (i2c_master_gpio_init free_master)))) = 39"
proof -
  have "bus (True, True, False) free_master = (True, True, False)" "heard (True, True, False) free_master = []"
    by (simp_all add: bus_def heard_def free_master_def)
  note i = init_heard [OF this(1), unfolded this(2)]
  have g: "ready (True, True, False) (i2c_master_gpio_init free_master)"
    "bus (True, True, False) (i2c_master_gpio_init free_master) = (True, True, False)"
    using gpio_init_idle by blast+
  show ?thesis
    using write_acked_heard [OF start_heard(2) [OF g(1)], of pins "[0x40]"] start_heard(1) [OF g(1)] i g(2)
    by (simp add: byte_bits_def)
qed

theorem i2c_transfer_witness:
  "\<exists>s'. transfer (device 39 0xA5) [0x40] (i2c_master_gpio_init free_master) = (0xA5, s') \<and>
     heard (True, True, False) s' = heard (True, True, False) (i2c_master_gpio_init free_master) @ [START] @
       concat (map (\<lambda>x. byte_bits x @ [Data True]) [0x40]) @ replicate 8 (Data True) @ [Data True, STOP] \<and>
     bus (True, True, False) s' = (True, True, False)"
  by (rule i2c_transfer) (rule device_sends [OF free_master_waits])

end
