(* ===== verification/Key.thy ===== *)
theory Key
  imports Prelude
begin

text \<open>
  Push buttons, \<open>driver_lib/driver/key.c\<close>: the interrupt handler and the two timer callbacks that
  debounce a key and tell short from long presses. Interrupts and timers make a step relation
  with reachable states; the invariant says that a key is never stuck and that presses and
  callbacks match.
\<close>

section \<open>State (key.h)\<close>

text \<open>
  An \<open>os_timer_t\<close> is \<open>None\<close> when it is not armed, else its period and whether it repeats. A
  callback \<open>key_function\<close> is NULL or a name.
\<close>

type_synonym os_timer_t = "(nat \<times> bool) option"

record single_key_param =
  key_level :: u8
  gpio_id :: u8
  gpio_func :: u8
  gpio_name :: u32
  key_5s :: os_timer_t
  key_50ms :: os_timer_t
  short_press :: "nat option"
  long_press :: "nat option"

datatype gpio_int_type = GPIO_PIN_INTR_DISABLE | GPIO_PIN_INTR_POSEDGE | GPIO_PIN_INTR_NEGEDGE

datatype key_op =
    Isr_attached
  | Intr_off
  | Intr_on
  | Func_select u32 u8
  | Output_set u32 u32 u32 u32
  | Register_set u8 u32
  | Status_clear u32
  | Pressed nat
  | Short_called nat nat
  | Long_called nat nat

text \<open>
  The keys, the interrupt mode of every pin, and what has been done. \<open>Pressed i\<close> is a ghost
  record of the start of a press of key i; \<open>Short_called i f\<close> and \<open>Long_called i f\<close> are the
  calls of its functions.
\<close>

record keys_param =
  key_num :: u8
  single_key :: "single_key_param list"
  pin_intr :: "u8 \<Rightarrow> gpio_int_type"
  key_ops :: "key_op list"

definition key_do :: "key_op \<Rightarrow> keys_param \<Rightarrow> keys_param" where
  "key_do op k = k\<lparr>key_ops := key_ops k @ [op]\<rparr>"

definition gpio_pin_intr_state_set :: "u8 \<Rightarrow> gpio_int_type \<Rightarrow> keys_param \<Rightarrow> keys_param" where
  "gpio_pin_intr_state_set i t k = k\<lparr>pin_intr := (pin_intr k)(i := t)\<rparr>"

definition set_key :: "nat \<Rightarrow> single_key_param \<Rightarrow> keys_param \<Rightarrow> keys_param" where
  "set_key i s k = k\<lparr>single_key := (single_key k)[i := s]\<rparr>"

text \<open>\<open>BIT\<close> is undefined beyond 31; \<open>GPIO_INPUT_GET\<close> of the level register.\<close>

definition BIT_of :: "u8 \<Rightarrow> u32 option" where
  "BIT_of i = (if unat i < 32 then Some (push_bit (unat i) 1) else None)"

definition GPIO_INPUT_GET :: "u32 \<Rightarrow> u8 \<Rightarrow> u32" where
  "GPIO_INPUT_GET input i = drop_bit (unat i) input AND 1"

section \<open>Operations\<close>

text \<open>\<open>allocated\<close>: whether \<open>os_zalloc\<close> succeeds; its result is not checked.\<close>

definition key_init_single ::
  "bool \<Rightarrow> u8 \<Rightarrow> u32 \<Rightarrow> u8 \<Rightarrow> nat option \<Rightarrow> nat option \<Rightarrow> single_key_param option" where
  "key_init_single allocated i name func long short =
     (if allocated
      then Some \<lparr>key_level = 0, gpio_id = i, gpio_func = func, gpio_name = name, key_5s = None,
                 key_50ms = None, short_press = short, long_press = long\<rparr>
      else None)"

fun key_init_loop :: "nat \<Rightarrow> nat \<Rightarrow> keys_param \<Rightarrow> keys_param option" where
  "key_init_loop 0 i k = Some k"
| "key_init_loop (Suc n) i k =
     do {
       s \<leftarrow> rd (single_key k) i;
       let k = set_key i (s\<lparr>key_level := 1\<rparr>) k;
       let k = key_do (Func_select (gpio_name s) (gpio_func s)) k;
       let k = key_do (Output_set 0 0 0 (ucast (gpio_id s))) k;
       let k = key_do (Register_set (gpio_id s)
                 ((push_bit 7 0 AND 0x380) OR (push_bit 2 (NOT 1) AND 4) OR (push_bit 0 0 AND 1))) k;
       b \<leftarrow> BIT_of (gpio_id s);
       let k = key_do (Status_clear b) k;
       let k = gpio_pin_intr_state_set (gpio_id s) GPIO_PIN_INTR_NEGEDGE k;
       key_init_loop n (Suc i) k
     }"

definition key_init :: "keys_param \<Rightarrow> keys_param option" where
  "key_init k =
     do {
       let k = key_do Isr_attached k;
       let k = key_do Intr_off k;
       k \<leftarrow> key_init_loop (unat (key_num k)) 0 k;
       Some (key_do Intr_on k)
     }"

text \<open>The argument of a timer's callback is the key it was set for: here its index.\<close>

definition key_5s_cb :: "u32 \<Rightarrow> nat \<Rightarrow> keys_param \<Rightarrow> keys_param option" where
  "key_5s_cb input i k =
     do {
       s \<leftarrow> rd (single_key k) i;
       let k = set_key i (s\<lparr>key_5s := None\<rparr>) k;
       Some (if GPIO_INPUT_GET input (gpio_id s) = 0
             then (case long_press s of None \<Rightarrow> k | Some f \<Rightarrow> key_do (Long_called i f) k)
             else k)
     }"

definition key_50ms_cb :: "u32 \<Rightarrow> nat \<Rightarrow> keys_param \<Rightarrow> keys_param option" where
  "key_50ms_cb input i k =
     do {
       s \<leftarrow> rd (single_key k) i;
       let s = s\<lparr>key_50ms := None\<rparr>;
       Some (if GPIO_INPUT_GET input (gpio_id s) = 1
             then let k = set_key i (s\<lparr>key_5s := None, key_level := 1\<rparr>) k;
                      k = gpio_pin_intr_state_set (gpio_id s) GPIO_PIN_INTR_NEGEDGE k
                  in (case short_press s of None \<Rightarrow> k | Some f \<Rightarrow> key_do (Short_called i f) k)
             else gpio_pin_intr_state_set (gpio_id s) GPIO_PIN_INTR_POSEDGE (set_key i s k))
     }"

text \<open>The body of the handler's loop for key i, and the loop.\<close>

definition key_intr :: "u32 \<Rightarrow> nat \<Rightarrow> keys_param \<Rightarrow> keys_param option" where
  "key_intr gpio_status i k =
     do {
       s \<leftarrow> rd (single_key k) i;
       b \<leftarrow> BIT_of (gpio_id s);
       Some
         (if gpio_status AND b \<noteq> 0 then
            let k = gpio_pin_intr_state_set (gpio_id s) GPIO_PIN_INTR_DISABLE k;
                k = key_do (Status_clear (gpio_status AND b)) k
            in if key_level s = 1 then
                 let k = set_key i (s\<lparr>key_5s := Some (5000, False), key_level := 0\<rparr>) k;
                     k = key_do (Pressed i) k
                 in gpio_pin_intr_state_set (gpio_id s) GPIO_PIN_INTR_POSEDGE k
               else set_key i (s\<lparr>key_50ms := Some (50, False)\<rparr>) k
          else k)
     }"

fun key_intr_loop :: "u32 \<Rightarrow> nat \<Rightarrow> nat \<Rightarrow> keys_param \<Rightarrow> keys_param option" where
  "key_intr_loop gpio_status 0 i k = Some k"
| "key_intr_loop gpio_status (Suc n) i k =
     do { k \<leftarrow> key_intr gpio_status i k; key_intr_loop gpio_status n (Suc i) k }"

definition key_intr_handler :: "u32 \<Rightarrow> keys_param \<Rightarrow> keys_param option" where
  "key_intr_handler gpio_status k = key_intr_loop gpio_status (unat (key_num k)) 0 k"

section \<open>Steps\<close>

text \<open>An interrupt with any status, or the end of an armed timer with any level of the pins.\<close>

inductive key_step :: "keys_param \<Rightarrow> keys_param \<Rightarrow> bool" where
  intr: "key_intr_handler gpio_status k = Some k' \<Longrightarrow> key_step k k'"
| long: "i < length (single_key k) \<Longrightarrow> key_5s (single_key k ! i) \<noteq> None \<Longrightarrow>
           key_5s_cb input i k = Some k' \<Longrightarrow> key_step k k'"
| up: "i < length (single_key k) \<Longrightarrow> key_50ms (single_key k ! i) \<noteq> None \<Longrightarrow>
           key_50ms_cb input i k = Some k' \<Longrightarrow> key_step k k'"

definition keys_reachable :: "keys_param \<Rightarrow> keys_param \<Rightarrow> bool" where
  "keys_reachable k0 k \<longleftrightarrow> (\<exists>k1. key_init k0 = Some k1 \<and> key_step\<^sup>*\<^sup>* k1 k)"

section \<open>The invariant of a key\<close>

definition presses :: "nat \<Rightarrow> keys_param \<Rightarrow> nat" where
  "presses i k = count_list (key_ops k) (Pressed i)"

definition shorts :: "nat \<Rightarrow> nat \<Rightarrow> keys_param \<Rightarrow> nat" where
  "shorts i f k = count_list (key_ops k) (Short_called i f)"

definition longs :: "nat \<Rightarrow> nat \<Rightarrow> keys_param \<Rightarrow> nat" where
  "longs i f k = count_list (key_ops k) (Long_called i f)"

text \<open>
  A key at rest waits for the falling edge with no timer armed; a pressed key waits for the
  rising edge or for its 50 ms timer, never for both and never for nothing. Every press but the
  one under way has had its short press, and a long press at most once.
\<close>

definition key_ok :: "nat \<Rightarrow> keys_param \<Rightarrow> bool" where
  "key_ok i k \<longleftrightarrow>
     (let s = single_key k ! i; m = pin_intr k (gpio_id s)
      in unat (gpio_id s) < 32 \<and>
         (key_level s = 1 \<and> m = GPIO_PIN_INTR_NEGEDGE \<and> key_5s s = None \<and> key_50ms s = None \<or>
          key_level s = 0 \<and> (m = GPIO_PIN_INTR_POSEDGE \<and> key_50ms s = None \<or>
                            m = GPIO_PIN_INTR_DISABLE \<and> key_50ms s = Some (50, False))) \<and>
         (\<forall>f. short_press s = Some f \<longrightarrow> shorts i f k + (if key_level s = 0 then 1 else 0) = presses i k) \<and>
         (\<forall>f. long_press s = Some f \<longrightarrow> longs i f k + (if key_5s s = None then 0 else 1) \<le> presses i k))"

definition distinct_pins :: "keys_param \<Rightarrow> bool" where
  "distinct_pins k \<longleftrightarrow> distinct (map gpio_id (single_key k)) \<and> unat (key_num k) = length (single_key k)"

definition keys_ok :: "keys_param \<Rightarrow> bool" where
  "keys_ok k \<longleftrightarrow> distinct_pins k \<and> (\<forall>i < length (single_key k). key_ok i k)"

text \<open>What a step of one key does to the others: nothing.\<close>

definition frame_key :: "nat \<Rightarrow> keys_param \<Rightarrow> keys_param \<Rightarrow> bool" where
  "frame_key j k k' \<longleftrightarrow>
     key_num k' = key_num k \<and> map gpio_id (single_key k') = map gpio_id (single_key k) \<and>
     (\<forall>i < length (single_key k). i \<noteq> j \<longrightarrow> single_key k' ! i = single_key k ! i) \<and>
     (\<forall>p. p \<noteq> gpio_id (single_key k ! j) \<longrightarrow> pin_intr k' p = pin_intr k p) \<and>
     (\<forall>i f. i \<noteq> j \<longrightarrow> presses i k' = presses i k \<and> shorts i f k' = shorts i f k \<and> longs i f k' = longs i f k)"

lemmas key_defs = key_do_def gpio_pin_intr_state_set_def set_key_def presses_def shorts_def longs_def Let_def

lemma frame_length: "frame_key j k k' \<Longrightarrow> length (single_key k') = length (single_key k)"
  unfolding frame_key_def by (metis length_map)

lemma keys_ok_frame:
  assumes "keys_ok k" and "j < length (single_key k)" and "frame_key j k k'" and "key_ok j k'"
  shows "keys_ok k'"
proof -
  have len: "length (single_key k') = length (single_key k)" by (rule frame_length [OF assms(3)])
  have "key_ok i k'" if i: "i < length (single_key k)" for i
  proof (cases "i = j")
    case True
    then show ?thesis using assms(4) by simp
  next
    case False
    have same: "single_key k' ! i = single_key k ! i" using assms(3) i False by (simp add: frame_key_def)
    have "gpio_id (single_key k ! i) \<noteq> gpio_id (single_key k ! j)"
      using assms(1,2) i False by (simp add: keys_ok_def distinct_pins_def distinct_conv_nth)
    then have "pin_intr k' (gpio_id (single_key k ! i)) = pin_intr k (gpio_id (single_key k ! i))"
      using assms(3) by (simp add: frame_key_def)
    moreover have "presses i k' = presses i k" "\<And>f. shorts i f k' = shorts i f k" "\<And>f. longs i f k' = longs i f k"
      using assms(3) False by (simp_all add: frame_key_def)
    moreover have "key_ok i k" using assms(1) i by (simp add: keys_ok_def)
    ultimately show ?thesis by (simp add: key_ok_def same)
  qed
  moreover have "distinct_pins k'"
    using assms(1,3) len by (simp add: keys_ok_def distinct_pins_def frame_key_def)
  ultimately show ?thesis by (simp add: keys_ok_def len)
qed

lemma map_gpio_id_update:
  "j < length ks \<Longrightarrow> gpio_id s = gpio_id (ks ! j) \<Longrightarrow> map gpio_id (ks[j := s]) = map gpio_id ks"
  by (metis list_update_id map_update)

lemma key_intr_ok:
  assumes "keys_ok k" and "j < length (single_key k)"
  shows "\<exists>k'. key_intr st j k = Some k' \<and> keys_ok k' \<and> frame_key j k k'"
proof -
  have ok: "key_ok j k" using assms by (simp add: keys_ok_def)
  then have "unat (gpio_id (single_key k ! j)) < 32" by (simp add: key_ok_def Let_def)
  then obtain k' where k': "key_intr st j k = Some k'"
    using assms(2) by (simp add: key_intr_def BIT_of_def mem_simps)
  have fr: "frame_key j k k'" and "key_ok j k'"
    using k' ok assms(2)
    by (auto simp: key_intr_def rd_def BIT_of_def key_ok_def frame_key_def key_defs map_gpio_id_update
        split: if_splits)
  with keys_ok_frame [OF assms] k' show ?thesis by blast
qed

lemma key_intr_loop_ok:
  assumes "keys_ok k" and "i + n \<le> length (single_key k)"
  shows "\<exists>k'. key_intr_loop st n i k = Some k' \<and> keys_ok k' \<and> length (single_key k') = length (single_key k)"
  using assms
proof (induction n arbitrary: i k)
  case 0
  then show ?case by simp
next
  case (Suc n)
  then obtain k1 where k1: "key_intr st i k = Some k1" "keys_ok k1" "frame_key i k k1"
    using key_intr_ok [of k i st] by auto
  with Suc.IH [of k1 "Suc i"] Suc.prems(2) show ?case by (auto dest: frame_length)
qed

lemma key_intr_handler_ok:
  "keys_ok k \<Longrightarrow> \<exists>k'. key_intr_handler st k = Some k' \<and> keys_ok k' \<and> length (single_key k') = length (single_key k)"
  unfolding key_intr_handler_def by (rule key_intr_loop_ok) (simp_all add: keys_ok_def distinct_pins_def)

lemma key_5s_cb_ok:
  assumes "keys_ok k" and "j < length (single_key k)" and "key_5s (single_key k ! j) \<noteq> None"
  shows "\<exists>k'. key_5s_cb input j k = Some k' \<and> keys_ok k' \<and> length (single_key k') = length (single_key k)"
proof -
  have ok: "key_ok j k" using assms by (simp add: keys_ok_def)
  obtain k' where k': "key_5s_cb input j k = Some k'"
    using assms(2) by (simp add: key_5s_cb_def mem_simps Let_def)
  have "frame_key j k k'" and "key_ok j k'"
    using k' ok assms(2,3)
    by (auto simp: key_5s_cb_def rd_def key_ok_def frame_key_def key_defs map_gpio_id_update
        split: if_splits option.splits)
  with keys_ok_frame [OF assms(1,2)] frame_length k' show ?thesis by blast
qed

lemma key_50ms_cb_ok:
  assumes "keys_ok k" and "j < length (single_key k)" and "key_50ms (single_key k ! j) \<noteq> None"
  shows "\<exists>k'. key_50ms_cb input j k = Some k' \<and> keys_ok k' \<and> length (single_key k') = length (single_key k)"
proof -
  have ok: "key_ok j k" using assms by (simp add: keys_ok_def)
  obtain k' where k': "key_50ms_cb input j k = Some k'"
    using assms(2) by (simp add: key_50ms_cb_def mem_simps Let_def)
  have "frame_key j k k'" and "key_ok j k'"
    using k' ok assms(2,3)
    by (auto simp: key_50ms_cb_def rd_def key_ok_def frame_key_def key_defs map_gpio_id_update
        split: if_splits option.splits)
  with keys_ok_frame [OF assms(1,2)] frame_length k' show ?thesis by blast
qed

section \<open>Initialisation\<close>

text \<open>Keys as \<open>key_init_single\<close> makes them, on different pins that exist.\<close>

definition keys_fresh :: "keys_param \<Rightarrow> bool" where
  "keys_fresh k \<longleftrightarrow> distinct_pins k \<and> key_ops k = [] \<and>
     (\<forall>s \<in> set (single_key k). unat (gpio_id s) < 32 \<and> key_5s s = None \<and> key_50ms s = None)"

definition uncounted :: "keys_param \<Rightarrow> bool" where
  "uncounted k \<longleftrightarrow> (\<forall>i f. presses i k = 0 \<and> shorts i f k = 0 \<and> longs i f k = 0)"

text \<open>The keys before n are ready, the others are still as they were.\<close>

definition init_inv :: "nat \<Rightarrow> keys_param \<Rightarrow> bool" where
  "init_inv n k \<longleftrightarrow> distinct_pins k \<and> uncounted k \<and>
     (\<forall>s \<in> set (single_key k). unat (gpio_id s) < 32 \<and> key_5s s = None \<and> key_50ms s = None) \<and>
     (\<forall>i < n. key_level (single_key k ! i) = 1 \<and> pin_intr k (gpio_id (single_key k ! i)) = GPIO_PIN_INTR_NEGEDGE)"

lemma key_init_loop_ok:
  assumes "init_inv i k" and "i + n = length (single_key k)"
  shows "\<exists>k'. key_init_loop n i k = Some k' \<and> init_inv (length (single_key k)) k' \<and>
           length (single_key k') = length (single_key k)"
  using assms
proof (induction n arbitrary: i k)
  case 0
  then show ?case by simp
next
  case (Suc n)
  define s where "s = single_key k ! i"
  have i: "i < length (single_key k)" using Suc.prems(2) by simp
  then have s: "s \<in> set (single_key k)" "unat (gpio_id s) < 32"
    using Suc.prems(1) by (auto simp: s_def init_inv_def)
  have upd: "set ((single_key k)[i := s\<lparr>key_level := 1\<rparr>]) \<subseteq> insert (s\<lparr>key_level := 1\<rparr>) (set (single_key k))"
    by (rule set_update_subset_insert)
  obtain k1 where k1: "key_init_loop (Suc n) i k = key_init_loop n (Suc i) k1"
    and k1_keys: "single_key k1 = (single_key k)[i := s\<lparr>key_level := 1\<rparr>]" "key_num k1 = key_num k"
    and k1_intr: "pin_intr k1 = (pin_intr k)(gpio_id s := GPIO_PIN_INTR_NEGEDGE)"
    and k1_ops: "uncounted k \<Longrightarrow> uncounted k1"
    using i s by (simp add: mem_simps s_def [symmetric] BIT_of_def uncounted_def key_defs)
  have "init_inv (Suc i) k1"
    using Suc.prems(1) k1_ops i s upd
    by (auto simp: init_inv_def distinct_pins_def k1_keys k1_intr s_def map_gpio_id_update nth_list_update
        less_Suc_eq dest!: subsetD)
  with Suc.IH [of "Suc i" k1] Suc.prems(2) show ?case unfolding k1 by (simp add: k1_keys)
qed

lemma key_init_ok:
  assumes "keys_fresh k"
  shows "\<exists>k'. key_init k = Some k' \<and> keys_ok k' \<and> length (single_key k') = length (single_key k)"
proof -
  define k0 where "k0 = key_do Intr_off (key_do Isr_attached k)"
  have "init_inv 0 k0" "length (single_key k0) = length (single_key k)" "key_num k0 = key_num k"
    "unat (key_num k) = length (single_key k)"
    using assms by (simp_all add: init_inv_def keys_fresh_def uncounted_def distinct_pins_def k0_def key_defs)
  with key_init_loop_ok [of 0 k0 "unat (key_num k)"] obtain k1 where
    k1: "key_init_loop (unat (key_num k)) 0 k0 = Some k1" "init_inv (length (single_key k)) k1"
      "length (single_key k1) = length (single_key k)" by auto
  have "keys_ok (key_do Intr_on k1)"
    using k1(2,3) by (auto simp: keys_ok_def init_inv_def distinct_pins_def key_ok_def uncounted_def key_defs)
  with k1 show ?thesis by (simp add: key_init_def k0_def key_do_def)
qed

lemma key_step_ok:
  assumes "key_step k k'" and "keys_ok k"
  shows "keys_ok k' \<and> length (single_key k') = length (single_key k)"
  using assms(1)
proof cases
  case (intr st)
  then show ?thesis using key_intr_handler_ok [OF assms(2), of st] by simp
next
  case (long i input)
  then show ?thesis using key_5s_cb_ok [OF assms(2), of i input] by simp
next
  case (up i input)
  then show ?thesis using key_50ms_cb_ok [OF assms(2), of i input] by simp
qed

interpretation keys: step_invariant key_step "\<lambda>k. keys_ok k \<and> length (single_key k) = n" for n
  by unfold_locales (simp add: key_step_ok)

lemma keys_reachable_ok:
  assumes "keys_reachable k0 k" and "keys_fresh k0"
  shows "keys_ok k \<and> length (single_key k) = length (single_key k0)"
proof -
  obtain k1 where "key_init k0 = Some k1" and steps: "key_step\<^sup>*\<^sup>* k1 k"
    using assms(1) by (auto simp: keys_reachable_def)
  then have "keys_ok k1 \<and> length (single_key k1) = length (single_key k0)"
    using key_init_ok [OF assms(2)] by auto
  then show ?thesis by (rule keys.reachable_inv [OF steps])
qed


definition one_key :: keys_param where
  "one_key =
     \<lparr>key_num = 1, single_key = [\<lparr>key_level = 0, gpio_id = 13, gpio_func = 3, gpio_name = 0,
        key_5s = None, key_50ms = None, short_press = Some 1, long_press = Some 2\<rparr>],
      pin_intr = (\<lambda>i. GPIO_PIN_INTR_DISABLE), key_ops = []\<rparr>"


end
