(* ===== verification/Hw_Timer.thy ===== *)
theory Hw_Timer
  imports Prelude
begin

text \<open>
  The hardware timer FRC1, \<open>driver_lib/driver/hw_timer.c\<close>: its registers, the conversion of
  microseconds to ticks in 32-bit arithmetic, and the interrupt that calls the user's function.
\<close>

section \<open>State\<close>

datatype TIMER_PREDIVED_MODE = DIVDED_BY_1 | DIVDED_BY_16 | DIVDED_BY_256

fun predived_mode :: "TIMER_PREDIVED_MODE \<Rightarrow> u32" where
  "predived_mode DIVDED_BY_1 = 0"
| "predived_mode DIVDED_BY_16 = 4"
| "predived_mode DIVDED_BY_256 = 8"

datatype TIMER_INT_MODE = TM_LEVEL_INT | TM_EDGE_INT

fun int_mode :: "TIMER_INT_MODE \<Rightarrow> u32" where
  "int_mode TM_LEVEL_INT = 1"
| "int_mode TM_EDGE_INT = 0"

datatype FRC1_TIMER_SOURCE_TYPE = FRC1_SOURCE | NMI_SOURCE

text \<open>\<open>isr\<close> is the attached handler, \<open>calls\<close> the calls of the user's function so far.\<close>

record 'f hw_timer =
  FRC1_LOAD :: u32
  FRC1_CTRL :: u32
  EDGE_INT_ENABLE :: u32
  user_hw_timer_cb :: "'f option"
  isr :: "FRC1_TIMER_SOURCE_TYPE option"
  intr_enabled :: bool
  calls :: "'f list"

definition FRC1_ENABLE_TIMER :: u32 where "FRC1_ENABLE_TIMER = 0x80"

definition FRC1_AUTO_LOAD :: u32 where "FRC1_AUTO_LOAD = 0x40"

section \<open>Operations\<close>

text \<open>Four microseconds are 20 ticks of 5 MHz; all is computed in \<open>uint32\<close>.\<close>

definition US_TO_RTC_TIMER_TICKS :: "u32 \<Rightarrow> u32" where
  "US_TO_RTC_TIMER_TICKS t =
     (let f = drop_bit 4 80000000
      in if t \<noteq> 0 then
           (if t > 0x35A then drop_bit 2 t * (f div 250000) + (t AND 3) * (f div 1000000)
            else (t * f) div 1000000)
         else 0)"

definition hw_timer_arm :: "u32 \<Rightarrow> 'f hw_timer \<Rightarrow> 'f hw_timer" where
  "hw_timer_arm val h = h\<lparr>FRC1_LOAD := US_TO_RTC_TIMER_TICKS val\<rparr>"

definition hw_timer_set_func :: "'f option \<Rightarrow> 'f hw_timer \<Rightarrow> 'f hw_timer" where
  "hw_timer_set_func f h = h\<lparr>user_hw_timer_cb := f\<rparr>"

definition hw_timer_isr_cb :: "'f hw_timer \<Rightarrow> 'f hw_timer" where
  "hw_timer_isr_cb h =
     (case user_hw_timer_cb h of None \<Rightarrow> h | Some f \<Rightarrow> h\<lparr>calls := calls h @ [f]\<rparr>)"

definition hw_timer_nmi_cb :: "'f hw_timer \<Rightarrow> 'f hw_timer" where
  "hw_timer_nmi_cb h =
     (case user_hw_timer_cb h of None \<Rightarrow> h | Some f \<Rightarrow> h\<lparr>calls := calls h @ [f]\<rparr>)"

definition hw_timer_init :: "FRC1_TIMER_SOURCE_TYPE \<Rightarrow> u8 \<Rightarrow> 'f hw_timer \<Rightarrow> 'f hw_timer" where
  "hw_timer_init source_type req h =
     (let h = (if req = 1
               then h\<lparr>FRC1_CTRL := FRC1_AUTO_LOAD OR predived_mode DIVDED_BY_16 OR FRC1_ENABLE_TIMER
                        OR int_mode TM_EDGE_INT\<rparr>
               else h\<lparr>FRC1_CTRL := predived_mode DIVDED_BY_16 OR FRC1_ENABLE_TIMER OR int_mode TM_EDGE_INT\<rparr>);
          h = (if source_type = NMI_SOURCE then h\<lparr>isr := Some NMI_SOURCE\<rparr> else h\<lparr>isr := Some FRC1_SOURCE\<rparr>);
          h = h\<lparr>EDGE_INT_ENABLE := EDGE_INT_ENABLE h OR 2\<rparr>
      in h\<lparr>intr_enabled := True\<rparr>)"

section \<open>Ticks\<close>

text \<open>The conversion is exact, five ticks per microsecond, as long as the result fits 32 bits.\<close>

lemma unat_quarter: "unat (drop_bit 2 t) = unat t div 4" "unat (t AND 3) = unat t mod 4" for t :: u32
proof -
  show "unat (drop_bit 2 t) = unat t div 4" by (simp add: drop_bit_eq_div unat_div)
  have "t AND 3 = take_bit 2 t" by (simp add: take_bit_eq_mask mask_numeral)
  then show "unat (t AND 3) = unat t mod 4" by (simp add: unsigned_take_bit_eq take_bit_eq_mod unat_mod)
qed

lemma ticks_exact:
  assumes "5 * unat t < 2 ^ 32"
  shows "unat (US_TO_RTC_TIMER_TICKS t) = 5 * unat t"
proof -
  have f: "(drop_bit 4 80000000 :: u32) = 5000000" "(5000000 :: u32) div 250000 = 20" "(5000000 :: u32) div 1000000 = 5"
    by code_simp+
  consider "t = 0" | "t \<noteq> 0" "t > 0x35A" | "t \<noteq> 0" "t \<le> 0x35A" by fastforce
  then show ?thesis
  proof cases
    case 1
    then show ?thesis by (simp add: US_TO_RTC_TIMER_TICKS_def)
  next
    case 2
    have sum: "unat t div 4 * 20 + unat t mod 4 * 5 = 5 * unat t" by presburger
    then have "unat t div 4 * 20 < 2 ^ 32" "unat t mod 4 * 5 < 2 ^ 32" using assms by linarith+
    then have "unat (drop_bit 2 t * 20) = unat t div 4 * 20" "unat ((t AND 3) * 5) = unat t mod 4 * 5"
      by (simp_all add: unat_word_ariths unat_quarter)
    then have "unat (drop_bit 2 t * 20 + (t AND 3) * 5) = 5 * unat t"
      using assms sum by (simp add: unat_word_ariths)
    then show ?thesis using 2 by (simp add: US_TO_RTC_TIMER_TICKS_def f Let_def)
  next
    case 3
    then have "unat t \<le> 858" by (simp add: word_le_nat_alt)
    then have "unat (t * 5000000) = unat t * 5000000" by (simp add: unat_word_ariths)
    then have "unat (t * 5000000 div 1000000) = 5 * unat t" by (simp add: unat_div)
    then show ?thesis using 3 by (simp add: US_TO_RTC_TIMER_TICKS_def f Let_def leD)
  qed
qed

text \<open>The control register after \<open>hw_timer_init\<close>, and what an interrupt does.\<close>

lemma hw_timer_init_ctrl:
  "FRC1_CTRL (hw_timer_init src req h) = (if req = 1 then 0xC4 else 0x84)"
  "isr (hw_timer_init src req h) = Some src" "intr_enabled (hw_timer_init src req h)"
  "calls (hw_timer_init src req h) = calls h"
  by (cases src; simp add: hw_timer_init_def Let_def FRC1_AUTO_LOAD_def FRC1_ENABLE_TIMER_def)+

text \<open>A timer set up and armed calls the function once per interrupt, of either kind.\<close>

lemma hw_timer_calls:
  assumes "5 * unat us < 2 ^ 32"
    and "h' = hw_timer_arm us (hw_timer_set_func (Some f) (hw_timer_init src req h))"
  shows "unat (FRC1_LOAD h') = 5 * unat us"
    and "calls ((hw_timer_isr_cb ^^ n) h') = calls h @ replicate n f"
    and "calls ((hw_timer_nmi_cb ^^ n) h') = calls h @ replicate n f"
proof -
  show "unat (FRC1_LOAD h') = 5 * unat us" using assms by (simp add: hw_timer_arm_def ticks_exact)
  have cb: "user_hw_timer_cb h' = Some f" "calls h' = calls h"
    using assms(2) hw_timer_init_ctrl(4) [of src req h] by (simp_all add: hw_timer_arm_def hw_timer_set_func_def)
  have "(hw_timer_isr_cb ^^ n) h' = h'\<lparr>calls := calls h @ replicate n f\<rparr>"
    by (induction n) (simp_all add: cb hw_timer_isr_cb_def replicate_append_same)
  then show "calls ((hw_timer_isr_cb ^^ n) h') = calls h @ replicate n f" by simp
  have "(hw_timer_nmi_cb ^^ n) h' = h'\<lparr>calls := calls h @ replicate n f\<rparr>"
    by (induction n) (simp_all add: cb hw_timer_nmi_cb_def replicate_append_same)
  then show "calls ((hw_timer_nmi_cb ^^ n) h') = calls h @ replicate n f" by simp
qed

end
