(* ===== verification/Uart.thy ===== *)
theory Uart
  imports Prelude
begin

text \<open>
  The serial ports, \<open>driver_lib/driver/uart.c\<close>, as configured by \<open>uart.h\<close> (no hardware flow
  control, \<open>UART_BUFF_EN\<close> 0; the software buffers that \<open>UART_BUFF_EN\<close> adds are in
  \<open>Uart_Buffer\<close>). Registers that only the driver changes are state; what the hardware
  answers - the status, the received bytes, the interrupt status, the time - are parameters, one
  sequence of answers each. A busy wait is a \<open>partial_function\<close>: it returns when an answer
  lets it.
\<close>

section \<open>Registers (uart\_register.h)\<close>

datatype uart_reg = UART_CONF0 | UART_CONF1 | UART_INT_ENA | UART_INT_CLR

definition UART_RXFIFO_TOUT :: nat where "UART_RXFIFO_TOUT = 8"

definition UART_RXFIFO_OVF :: nat where "UART_RXFIFO_OVF = 4"

definition UART_FRM_ERR :: nat where "UART_FRM_ERR = 3"

definition UART_TXFIFO_EMPTY :: nat where "UART_TXFIFO_EMPTY = 1"

definition UART_RXFIFO_FULL :: nat where "UART_RXFIFO_FULL = 0"

section \<open>State\<close>

text \<open>The part of \<open>UartDevice\<close> that the driver uses.\<close>

record UartDevice =
  baut_rate :: u32
  data_bits :: u32
  exist_parity :: u32
  parity :: u32
  stop_bits :: u32
  TrigLvl :: u8

datatype putc = Uart1_write_char | Uart0_write_char_no_wait | Uart0_write_char

datatype uart_op =
    Pin_func string nat
  | Pin_pullup_dis string
  | Attach_rx_handler
  | Uart_div_modify u8 u32
  | Os_task nat nat
  | Os_post nat
  | Uart_intr_enable
  | Install_putc putc
  | Feed_watchdog
  | Os_printf cstring
  | Os_free nat
  | Timer_disarm
  | Timer_setfn
  | Timer_arm u32 bool

text \<open>
  A software buffer (\<open>struct UartBuffer\<close>): its block, the positions as offsets into the block.
  The fields that are set once and never read are left out.
\<close>

record UartBuffer =
  UartBuffSize :: u32
  pUartBuff :: "u8 list"
  pInPos :: nat
  pOutPos :: nat
  Space :: u16

text \<open>\<open>sent\<close> is the bytes written into the FIFOs, with their port; the counters say how many answers were read.\<close>

record uart =
  uregs :: "uart_reg \<Rightarrow> u8 \<Rightarrow> u32"
  UartDev :: UartDevice
  pTxBuffer :: "UartBuffer option"
  pRxBuffer :: "UartBuffer option"
  sent :: "(u8 \<times> u8) list"
  polls :: nat
  rx_reads :: nat
  time_reads :: nat
  uart_ops :: "uart_op list"

record uart_hw =
  status :: "u8 \<Rightarrow> nat \<Rightarrow> u32"
  rx_fifo :: "nat \<Rightarrow> u32"
  int_st :: "nat \<Rightarrow> u32"
  system_time :: "nat \<Rightarrow> u32"

definition UART0 :: u8 where "UART0 = 0"

definition UART1 :: u8 where "UART1 = 1"

definition uart_do :: "uart_op \<Rightarrow> uart \<Rightarrow> uart" where
  "uart_do op u = u\<lparr>uart_ops := uart_ops u @ [op]\<rparr>"

definition WRITE_REG :: "uart_reg \<Rightarrow> u8 \<Rightarrow> u32 \<Rightarrow> uart \<Rightarrow> uart" where
  "WRITE_REG r i w u = u\<lparr>uregs := (uregs u)(r := (uregs u r)(i := w))\<rparr>"

definition SET_MASK :: "uart_reg \<Rightarrow> u8 \<Rightarrow> u32 \<Rightarrow> uart \<Rightarrow> uart" where
  "SET_MASK r i m u = WRITE_REG r i (uregs u r i OR m) u"

definition CLEAR_MASK :: "uart_reg \<Rightarrow> u8 \<Rightarrow> u32 \<Rightarrow> uart \<Rightarrow> uart" where
  "CLEAR_MASK r i m u = WRITE_REG r i (uregs u r i AND NOT m) u"

definition SET_BITS :: "uart_reg \<Rightarrow> u8 \<Rightarrow> u32 \<Rightarrow> u32 \<Rightarrow> nat \<Rightarrow> uart \<Rightarrow> uart" where
  "SET_BITS r i bit_map v shift u =
     WRITE_REG r i ((uregs u r i AND NOT (push_bit shift bit_map)) OR push_bit shift v) u"

definition read_status :: "uart_hw \<Rightarrow> u8 \<Rightarrow> uart \<Rightarrow> u32 \<times> uart" where
  "read_status h i u = (status h i (polls u), u\<lparr>polls := Suc (polls u)\<rparr>)"

definition write_fifo :: "u8 \<Rightarrow> u8 \<Rightarrow> uart \<Rightarrow> uart" where
  "write_fifo i b u = u\<lparr>sent := sent u @ [(i, b)]\<rparr>"

definition read_fifo :: "uart_hw \<Rightarrow> uart \<Rightarrow> u32 \<times> uart" where
  "read_fifo h u = (rx_fifo h (rx_reads u), u\<lparr>rx_reads := Suc (rx_reads u)\<rparr>)"

definition get_time :: "uart_hw \<Rightarrow> uart \<Rightarrow> u32 \<times> uart" where
  "get_time h u = (system_time h (time_reads u), u\<lparr>time_reads := Suc (time_reads u)\<rparr>)"

definition tx_count :: "u32 \<Rightarrow> u32" where "tx_count w = drop_bit 16 w AND 0xFF"

definition rx_count :: "u32 \<Rightarrow> u32" where "rx_count w = drop_bit 0 w AND 0xFF"

section \<open>Sending\<close>

text \<open>The busy wait of \<open>uart_tx_one_char\<close>; the mask is applied before and after the shift.\<close>

partial_function (option) wait_for_room :: "uart_hw \<Rightarrow> u8 \<Rightarrow> uart \<Rightarrow> uart option" where
  "wait_for_room h i u =
     (let (st, u) = read_status h i u;
          fifo_cnt = st AND push_bit 16 0xFF
      in if drop_bit 16 fifo_cnt AND 0xFF < 126 then Some u else wait_for_room h i u)"

definition uart_tx_one_char :: "uart_hw \<Rightarrow> u8 \<Rightarrow> u8 \<Rightarrow> uart \<Rightarrow> uart option" where
  "uart_tx_one_char h i TxChar u = map_option (write_fifo i TxChar) (wait_for_room h i u)"

definition uart_tx_one_char_no_wait :: "uart_hw \<Rightarrow> u8 \<Rightarrow> u8 \<Rightarrow> uart \<Rightarrow> uart" where
  "uart_tx_one_char_no_wait h i TxChar u =
     (let (st, u) = read_status h i u;
          fifo_cnt = (ucast (tx_count st) :: u8)
      in if fifo_cnt < 126 then write_fifo i TxChar u else u)"

definition uart0_tx_one_char_no_wait :: "uart_hw \<Rightarrow> u8 \<Rightarrow> uart \<Rightarrow> uart" where
  "uart0_tx_one_char_no_wait h TxChar u =
     (let (st, u) = read_status h UART0 u;
          fifo_cnt = (ucast (tx_count st) :: u8)
      in if fifo_cnt < 126 then write_fifo UART0 TxChar u else u)"

definition uart1_write_char :: "uart_hw \<Rightarrow> u8 \<Rightarrow> uart \<Rightarrow> uart option" where
  "uart1_write_char h c u =
     (if c = 10 then do { u \<leftarrow> uart_tx_one_char h UART1 13 u; uart_tx_one_char h UART1 10 u }
      else if c = 13 then Some u
      else uart_tx_one_char h UART1 c u)"

definition uart0_write_char :: "uart_hw \<Rightarrow> u8 \<Rightarrow> uart \<Rightarrow> uart option" where
  "uart0_write_char h c u =
     (if c = 10 then do { u \<leftarrow> uart_tx_one_char h UART0 13 u; uart_tx_one_char h UART0 10 u }
      else if c = 13 then Some u
      else uart_tx_one_char h UART0 c u)"

definition uart0_write_char_no_wait :: "uart_hw \<Rightarrow> u8 \<Rightarrow> uart \<Rightarrow> uart" where
  "uart0_write_char_no_wait h c u =
     (if c = 10 then uart_tx_one_char_no_wait h UART0 10 (uart_tx_one_char_no_wait h UART0 13 u)
      else if c = 13 then u
      else uart_tx_one_char_no_wait h UART0 c u)"

text \<open>\<open>buf\<close> has at least \<open>len\<close> bytes, or reading it is undefined.\<close>

fun tx_buffer_loop :: "uart_hw \<Rightarrow> u8 list \<Rightarrow> nat \<Rightarrow> uart \<Rightarrow> uart option" where
  "tx_buffer_loop h buf 0 u = Some u"
| "tx_buffer_loop h [] (Suc n) u = None"
| "tx_buffer_loop h (b # buf) (Suc n) u = do { u \<leftarrow> uart_tx_one_char h UART0 b u; tx_buffer_loop h buf n u }"

definition uart0_tx_buffer :: "uart_hw \<Rightarrow> u8 list \<Rightarrow> u16 \<Rightarrow> uart \<Rightarrow> uart option" where
  "uart0_tx_buffer h buf len u = tx_buffer_loop h buf (unat len) u"

fun uart0_sendStr :: "uart_hw \<Rightarrow> cstring \<Rightarrow> uart \<Rightarrow> uart option" where
  "uart0_sendStr h [] u = Some u"
| "uart0_sendStr h (c # s) u = do { u \<leftarrow> uart_tx_one_char h UART0 c u; uart0_sendStr h s u }"

definition uart1_sendStr_no_wait :: "uart_hw \<Rightarrow> cstring \<Rightarrow> uart \<Rightarrow> uart" where
  "uart1_sendStr_no_wait h s u = fold (uart_tx_one_char_no_wait h UART1) s u"

section \<open>Receiving\<close>

definition uart_rx_intr_disable :: "u8 \<Rightarrow> uart \<Rightarrow> uart" where
  "uart_rx_intr_disable i u = CLEAR_MASK UART_INT_ENA i (bits [UART_RXFIFO_FULL, UART_RXFIFO_TOUT]) u"

definition uart_rx_intr_enable :: "u8 \<Rightarrow> uart \<Rightarrow> uart" where
  "uart_rx_intr_enable i u = SET_MASK UART_INT_ENA i (bits [UART_RXFIFO_FULL, UART_RXFIFO_TOUT]) u"

text \<open>
  The handler reads the interrupt status anew for each of its five tests: \<open>int_st k\<close> is the
  answer to the k-th.
\<close>

definition uart0_rx_intr_handler :: "uart_hw \<Rightarrow> uart \<Rightarrow> uart" where
  "uart0_rx_intr_handler h u =
     (let is_set = (\<lambda>k n. int_st h k AND bits [n] = bits [n]);
          uart_no = UART0
      in if is_set 0 UART_FRM_ERR then
           let u = uart1_sendStr_no_wait h (lit ''FRM_ERR'' @ [13, 10]) u
           in WRITE_REG UART_INT_CLR uart_no (bits [UART_FRM_ERR]) u
         else if is_set 1 UART_RXFIFO_FULL then
           let u = uart_rx_intr_disable UART0 u;
               u = WRITE_REG UART_INT_CLR UART0 (bits [UART_RXFIFO_FULL]) u
           in uart_do (Os_post 0) u
         else if is_set 2 UART_RXFIFO_TOUT then
           let u = uart_rx_intr_disable UART0 u;
               u = WRITE_REG UART_INT_CLR UART0 (bits [UART_RXFIFO_TOUT]) u
           in uart_do (Os_post 0) u
         else if is_set 3 UART_TXFIFO_EMPTY then
           let u = CLEAR_MASK UART_INT_ENA UART0 (bits [UART_TXFIFO_EMPTY]) u
           in WRITE_REG UART_INT_CLR uart_no (bits [UART_TXFIFO_EMPTY]) u
         else if is_set 4 UART_RXFIFO_OVF then
           let u = WRITE_REG UART_INT_CLR uart_no (bits [UART_RXFIFO_OVF]) u
           in uart1_sendStr_no_wait h (lit ''RX OVF!!'' @ [13, 10]) u
         else u)"

text \<open>The loop of the task: every byte received is sent back.\<close>

fun echo_loop :: "uart_hw \<Rightarrow> nat \<Rightarrow> uart \<Rightarrow> uart option" where
  "echo_loop h 0 u = Some u"
| "echo_loop h (Suc n) u =
     do {
       let (w, u) = read_fifo h u;
       u \<leftarrow> uart_tx_one_char h UART0 (ucast (w AND 0xFF)) u;
       echo_loop h n u
     }"

definition uart_recvTask :: "uart_hw \<Rightarrow> nat \<Rightarrow> uart \<Rightarrow> uart option" where
  "uart_recvTask h sig u =
     (if sig = 0 then do {
        let (st, u) = read_status h UART0 u;
        let fifo_len = (ucast (rx_count st) :: u8);
        u \<leftarrow> echo_loop h (unat fifo_len) u;
        let u = WRITE_REG UART_INT_CLR UART0 (bits [UART_RXFIFO_FULL, UART_RXFIFO_TOUT]) u;
        Some (uart_rx_intr_enable UART0 u)
      } else Some u)"

section \<open>Configuration\<close>

text \<open>The clock divider; a rate of 0 divides by zero.\<close>

definition baud_divider :: "u32 \<Rightarrow> u32 option" where
  "baud_divider rate = (if rate = 0 then None else Some (80000000 div rate))"

text \<open>Bits and parity of a frame.\<close>

definition conf0_format :: "UartDevice \<Rightarrow> u32" where
  "conf0_format d =
     push_bit 1 (exist_parity d AND 1) OR push_bit 0 (parity d AND 1)
     OR push_bit 4 (stop_bits d AND 3) OR push_bit 2 (data_bits d AND 3)"

definition uart_config :: "u8 \<Rightarrow> uart \<Rightarrow> uart option" where
  "uart_config uart_no u =
     do {
       let u = (if uart_no = UART1 then uart_do (Pin_func ''GPIO2_U'' 2) u
                else let u = uart_do Attach_rx_handler u;
                         u = uart_do (Pin_pullup_dis ''U0TXD_U'') u
                     in uart_do (Pin_func ''U0TXD_U'' 0) u);
       d \<leftarrow> baud_divider (baut_rate (UartDev u));
       let u = uart_do (Uart_div_modify uart_no d) u;
       let u = WRITE_REG UART_CONF0 uart_no
                 (conf0_format (UartDev u)) u;
       let u = SET_MASK UART_CONF0 uart_no (bits [17, 18]) u;
       let u = CLEAR_MASK UART_CONF0 uart_no (bits [17, 18]) u;
       let u = (if uart_no = UART0 then
                  let u = WRITE_REG UART_CONF1 uart_no
                            (push_bit 0 (100 AND 0x7F) OR push_bit 24 (2 AND 0x7F) OR bits [31]
                             OR push_bit 8 (0x10 AND 0x7F)) u
                  in SET_MASK UART_INT_ENA uart_no (bits [UART_RXFIFO_TOUT, UART_FRM_ERR]) u
                else WRITE_REG UART_CONF1 uart_no (push_bit 0 (ucast (TrigLvl (UartDev u)) AND 0x7F)) u);
       let u = WRITE_REG UART_INT_CLR uart_no 0xffff u;
       Some (SET_MASK UART_INT_ENA uart_no (bits [UART_RXFIFO_FULL, UART_RXFIFO_OVF]) u)
     }"

definition set_baut_rate :: "u32 \<Rightarrow> uart \<Rightarrow> uart" where
  "set_baut_rate r u = u\<lparr>UartDev := (UartDev u)\<lparr>baut_rate := r\<rparr>\<rparr>"

definition uart_init :: "u32 \<Rightarrow> u32 \<Rightarrow> uart \<Rightarrow> uart option" where
  "uart_init uart0_br uart1_br u =
     do {
       let u = uart_do (Os_task 0 10) u;
       u \<leftarrow> uart_config UART0 (set_baut_rate uart0_br u);
       u \<leftarrow> uart_config UART1 (set_baut_rate uart1_br u);
       Some (uart_do Uart_intr_enable u)
     }"

definition uart_reattach :: "uart \<Rightarrow> uart option" where
  "uart_reattach u = uart_init 115200 115200 u"

text \<open>Parity enabled and even (0), one stop bit, eight data bits (3).\<close>

definition uart_init_2 :: "u32 \<Rightarrow> u32 \<Rightarrow> uart \<Rightarrow> uart option" where
  "uart_init_2 uart0_br uart1_br u =
     do {
       let u = u\<lparr>UartDev := (UartDev u)\<lparr>baut_rate := uart0_br, exist_parity := 1, parity := 0,
                   stop_bits := 1, data_bits := 3\<rparr>\<rparr>;
       u \<leftarrow> uart_config UART0 u;
       u \<leftarrow> uart_config UART1 (set_baut_rate uart1_br u);
       let u = uart_do Uart_intr_enable u;
       Some (uart_do (Install_putc Uart1_write_char) u)
     }"

definition UART_SetWordLength :: "u8 \<Rightarrow> u32 \<Rightarrow> uart \<Rightarrow> uart" where
  "UART_SetWordLength i len u = SET_BITS UART_CONF0 i 3 len 2 u"

definition UART_SetStopBits :: "u8 \<Rightarrow> u32 \<Rightarrow> uart \<Rightarrow> uart" where
  "UART_SetStopBits i bit_num u = SET_BITS UART_CONF0 i 3 bit_num 4 u"

definition UART_SetLineInverse :: "u8 \<Rightarrow> u32 \<Rightarrow> uart \<Rightarrow> uart" where
  "UART_SetLineInverse i inverse_mask u =
     SET_MASK UART_CONF0 i inverse_mask (CLEAR_MASK UART_CONF0 i (push_bit 19 0x3f) u)"

definition UART_SetParity :: "u8 \<Rightarrow> u32 \<Rightarrow> uart \<Rightarrow> uart" where
  "UART_SetParity i Parity_mode u =
     (let u = CLEAR_MASK UART_CONF0 i (bits [0, 1]) u
      in if Parity_mode = 2 then u else SET_MASK UART_CONF0 i (Parity_mode OR bits [1]) u)"

definition UART_SetBaudrate :: "u8 \<Rightarrow> u32 \<Rightarrow> uart \<Rightarrow> uart option" where
  "UART_SetBaudrate i baud_rate u =
     map_option (\<lambda>d. uart_do (Uart_div_modify i d) u) (baud_divider baud_rate)"

definition UART_SetFlowCtrl :: "u8 \<Rightarrow> u32 \<Rightarrow> u8 \<Rightarrow> uart \<Rightarrow> uart" where
  "UART_SetFlowCtrl i flow_ctrl rx_thresh u =
     (let u = (if flow_ctrl AND 1 \<noteq> 0 then
                 let u = uart_do (Pin_func ''MTDO_U'' 4) u;
                     u = SET_BITS UART_CONF1 i 0x7F (ucast rx_thresh) 16 u
                 in SET_MASK UART_CONF1 i (bits [23]) u
               else CLEAR_MASK UART_CONF1 i (bits [23]) u)
      in if flow_ctrl AND 2 \<noteq> 0 then
           let u = uart_do (Pin_func ''MTCK_U'' 4) u in SET_MASK UART_CONF0 i (bits [15]) u
         else CLEAR_MASK UART_CONF0 i (bits [15]) u)"

definition UART_ResetFifo :: "u8 \<Rightarrow> uart \<Rightarrow> uart" where
  "UART_ResetFifo i u = CLEAR_MASK UART_CONF0 i (bits [17, 18]) (SET_MASK UART_CONF0 i (bits [17, 18]) u)"

definition UART_ClearIntrStatus :: "u8 \<Rightarrow> u32 \<Rightarrow> uart \<Rightarrow> uart" where
  "UART_ClearIntrStatus i clr_mask u = WRITE_REG UART_INT_CLR i clr_mask u"

definition UART_SetIntrEna :: "u8 \<Rightarrow> u32 \<Rightarrow> uart \<Rightarrow> uart" where
  "UART_SetIntrEna i ena_mask u = SET_MASK UART_INT_ENA i ena_mask u"

text \<open>The second installation for port 0 replaces the first.\<close>

definition UART_SetPrintPort :: "u8 \<Rightarrow> uart \<Rightarrow> uart" where
  "UART_SetPrintPort i u =
     (if i = 1 then uart_do (Install_putc Uart1_write_char) u
      else uart_do (Install_putc Uart0_write_char) (uart_do (Install_putc Uart0_write_char_no_wait) u))"

section \<open>Waiting with a time limit\<close>

partial_function (option) wait_empty :: "uart_hw \<Rightarrow> u8 \<Rightarrow> u32 \<Rightarrow> u32 \<Rightarrow> uart \<Rightarrow> uart option" where
  "wait_empty h i t_s time_out_us u =
     (let (st, u) = read_status h i u
      in if st AND push_bit 16 0xFF = 0 then Some u
         else let (now, u) = get_time h u
              in if now - t_s > time_out_us then Some u
                 else wait_empty h i t_s time_out_us (uart_do Feed_watchdog u))"

definition UART_WaitTxFifoEmpty :: "uart_hw \<Rightarrow> u8 \<Rightarrow> u32 \<Rightarrow> uart \<Rightarrow> uart option" where
  "UART_WaitTxFifoEmpty h i time_out_us u =
     (let (t_s, u) = get_time h u in wait_empty h i t_s time_out_us u)"

partial_function (option) check_finished :: "uart_hw \<Rightarrow> u8 \<Rightarrow> u32 \<Rightarrow> u32 \<Rightarrow> uart \<Rightarrow> (bool \<times> uart) option" where
  "check_finished h i t_start time_out_us u =
     (let (st, u) = read_status h i u;
          tx_fifo_len = (ucast (tx_count st) :: u8);
          tx_buff_len = (case pTxBuffer u of None \<Rightarrow> 0 | Some b \<Rightarrow> UartBuffSize b - ucast (Space b))
      in if tx_fifo_len = 0 \<and> tx_buff_len = 0 then Some (True, u)
         else let (now, u) = get_time h u
              in if now - t_start > time_out_us then Some (False, u)
                 else check_finished h i t_start time_out_us (uart_do Feed_watchdog u))"

definition UART_CheckOutputFinished :: "uart_hw \<Rightarrow> u8 \<Rightarrow> u32 \<Rightarrow> uart \<Rightarrow> (bool \<times> uart) option" where
  "UART_CheckOutputFinished h i time_out_us u =
     (let (t_start, u) = get_time h u in check_finished h i t_start time_out_us u)"

section \<open>Sending waits for room\<close>

text \<open>There is always room again: among the answers to come, one counts less than 126 bytes.\<close>

definition drains :: "uart_hw \<Rightarrow> u8 \<Rightarrow> bool" where
  "drains h i \<longleftrightarrow> (\<forall>n. \<exists>m \<ge> n. tx_count (status h i m) < 126)"

lemma wait_for_room_step:
  "wait_for_room h i u =
     (if tx_count (status h i (polls u)) < 126 then Some (u\<lparr>polls := Suc (polls u)\<rparr>)
      else wait_for_room h i (u\<lparr>polls := Suc (polls u)\<rparr>))"
  by (subst wait_for_room.simps) (simp add: read_status_def tx_count_def)

lemma wait_for_room_after:
  "tx_count (status h i (polls u + k)) < 126 \<Longrightarrow>
     \<exists>n. wait_for_room h i u = Some (u\<lparr>polls := Suc (polls u + n)\<rparr>) \<and> tx_count (status h i (polls u + n)) < 126"
proof (induction k arbitrary: u)
  case 0
  then show ?case by (subst wait_for_room_step) (auto intro: exI [of _ 0])
next
  case (Suc k)
  show ?case
  proof (cases "tx_count (status h i (polls u)) < 126")
    case True
    then show ?thesis by (subst wait_for_room_step) (auto intro: exI [of _ 0])
  next
    case False
    with Suc.IH [of "u\<lparr>polls := Suc (polls u)\<rparr>"] Suc.prems obtain n where
      "wait_for_room h i (u\<lparr>polls := Suc (polls u)\<rparr>) = Some (u\<lparr>polls := Suc (Suc (polls u) + n)\<rparr>)"
      "tx_count (status h i (Suc (polls u) + n)) < 126" by auto
    then show ?thesis using False by (subst wait_for_room_step) (auto intro: exI [of _ "Suc n"])
  qed
qed

text \<open>A byte is written exactly once, after an answer that says there is room.\<close>

lemma tx_one_char:
  assumes "drains h i"
  shows "\<exists>n. uart_tx_one_char h i c u = Some (write_fifo i c (u\<lparr>polls := Suc n\<rparr>)) \<and>
           polls u \<le> n \<and> tx_count (status h i n) < 126"
proof -
  obtain m where "polls u \<le> m" "tx_count (status h i m) < 126" using assms by (auto simp: drains_def)
  then have "tx_count (status h i (polls u + (m - polls u))) < 126" by simp
  from wait_for_room_after [OF this] show ?thesis by (auto simp: uart_tx_one_char_def)
qed

text \<open>What differs between two states is the bytes sent and the answers read.\<close>

definition sends :: "uart \<Rightarrow> (u8 \<times> u8) list \<Rightarrow> nat \<Rightarrow> uart \<Rightarrow> bool" where
  "sends u bs r u' \<longleftrightarrow>
     sent u' = sent u @ bs \<and> rx_reads u' = rx_reads u + r \<and> uregs u' = uregs u \<and>
     UartDev u' = UartDev u \<and> pTxBuffer u' = pTxBuffer u \<and> pRxBuffer u' = pRxBuffer u \<and> time_reads u' = time_reads u \<and>
     uart_ops u' = uart_ops u"

lemma sends_tx: "drains h i \<Longrightarrow> \<exists>u'. uart_tx_one_char h i c u = Some u' \<and> sends u [(i, c)] 0 u'"
  using tx_one_char [of h i c u] by (auto simp: sends_def write_fifo_def)

lemma sends_trans: "sends u a r u1 \<Longrightarrow> sends u1 b q u2 \<Longrightarrow> sends u (a @ b) (r + q) u2"
  by (auto simp: sends_def)

lemma sendStr_sends:
  "drains h UART0 \<Longrightarrow> \<exists>u'. uart0_sendStr h s u = Some u' \<and> sends u (map (Pair UART0) s) 0 u'"
proof (induction s arbitrary: u)
  case Nil
  then show ?case by (simp add: sends_def)
next
  case (Cons c s)
  obtain u1 where u1: "uart_tx_one_char h UART0 c u = Some u1" "sends u [(UART0, c)] 0 u1"
    using sends_tx [OF Cons.prems] by blast
  obtain u2 where u2: "uart0_sendStr h s u1 = Some u2" "sends u1 (map (Pair UART0) s) 0 u2"
    using Cons.IH [OF Cons.prems] by blast
  show ?case using u1 u2 sends_trans [OF u1(2) u2(2)] by simp
qed

text \<open>The bytes that the next n reads of the receive FIFO give.\<close>

definition received :: "uart_hw \<Rightarrow> uart \<Rightarrow> nat \<Rightarrow> u8 list" where
  "received h u n = map (\<lambda>k. ucast (rx_fifo h (rx_reads u + k) AND 0xFF)) [0..<n]"

lemma received_Suc:
  "received h u (Suc n) = ucast (rx_fifo h (rx_reads u) AND 0xFF) # received h (u\<lparr>rx_reads := Suc (rx_reads u)\<rparr>) n"
  by (simp add: received_def upt_conv_Cons map_Suc_upt [symmetric] del: upt_Suc)

lemma echo_loop_sends:
  "drains h UART0 \<Longrightarrow> \<exists>u'. echo_loop h n u = Some u' \<and> sends u (map (Pair UART0) (received h u n)) n u'"
proof (induction n arbitrary: u)
  case 0
  then show ?case by (simp add: sends_def received_def)
next
  case (Suc n)
  let ?b = "ucast (rx_fifo h (rx_reads u) AND 0xFF) :: u8"
  let ?u = "u\<lparr>rx_reads := Suc (rx_reads u)\<rparr>"
  obtain u1 where u1: "uart_tx_one_char h UART0 ?b ?u = Some u1" "sends ?u [(UART0, ?b)] 0 u1"
    using sends_tx [OF Suc.prems] by blast
  have r: "rx_reads u1 = rx_reads ?u" using u1(2) by (auto simp: sends_def)
  obtain u2 where u2: "echo_loop h n u1 = Some u2" "sends u1 (map (Pair UART0) (received h u1 n)) n u2"
    using Suc.IH [OF Suc.prems] by blast
  have "received h u1 n = received h ?u n" by (simp add: received_def r)
  moreover have "sends u [] 1 ?u" by (auto simp: sends_def)
  ultimately have "sends u (map (Pair UART0) (received h u (Suc n))) (Suc n) u2"
    using sends_trans [OF sends_trans [OF _ u1(2)] u2(2), of u "[]" 1] by (simp add: received_Suc)
  then show ?case using u1(1) u2(1) by (simp add: read_fifo_def)
qed

section \<open>The echo\<close>

lemma uart_reg_simps [simp]:
  "uregs (WRITE_REG r i w u) = (uregs u)(r := (uregs u r)(i := w))" "sent (WRITE_REG r i w u) = sent u"
  "polls (WRITE_REG r i w u) = polls u" "rx_reads (WRITE_REG r i w u) = rx_reads u"
  "uart_ops (WRITE_REG r i w u) = uart_ops u" "UartDev (WRITE_REG r i w u) = UartDev u"
  by (simp_all add: WRITE_REG_def)

lemma low_byte: "(ucast (rx_count w) :: u8) = ucast w"
proof -
  have m: "(0xFF :: u32) = mask 8" by code_simp
  show ?thesis unfolding rx_count_def m
    by (rule bit_word_eqI) (auto simp: bit_and_iff bit_ucast_iff bit_drop_bit_eq bit_mask_iff)
qed


text \<open>Three bytes wait on a port whose send FIFO is full at every other answer.\<close>

definition port :: uart_hw where
  "port =
     \<lparr>status = (\<lambda>i n. if even n then 0x7E0003 else 3), rx_fifo = (\<lambda>n. of_nat n + 0x41),
      int_st = (\<lambda>n. 1), system_time = (\<lambda>n. of_nat n)\<rparr>"

definition idle_uart :: uart where
  "idle_uart =
     \<lparr>uregs = (\<lambda>r i. 0x119), UartDev = \<lparr>baut_rate = 115200, data_bits = 3, exist_parity = 0,
        parity = 0, stop_bits = 1, TrigLvl = 1\<rparr>,
      pTxBuffer = None, pRxBuffer = None, sent = [], polls = 0, rx_reads = 0, time_reads = 0, uart_ops = []\<rparr>"

lemma port_drains: "drains port UART0"
proof -
  have "tx_count (status port UART0 (Suc (2 * n))) < 126" for n
    by (simp add: port_def tx_count_def)
  moreover have "n \<le> Suc (2 * n)" for n :: nat by simp
  ultimately show ?thesis unfolding drains_def by blast
qed


text \<open>The frame format after \<open>uart_config\<close> and after changing single fields.\<close>

lemma uart_config_format:
  assumes "uart_config i u = Some u'"
  shows "uregs u' UART_CONF0 i = conf0_format (UartDev u)"
proof -
  have ports: "UART0 \<noteq> UART1" "UART1 \<noteq> UART0" by (simp_all add: UART0_def UART1_def)
  have "uregs u' UART_CONF0 i = (conf0_format (UartDev u) OR bits [17, 18]) AND NOT (bits [17, 18])"
    using assms ports unfolding uart_config_def baud_divider_def
    by (auto simp: SET_MASK_def CLEAR_MASK_def uart_do_def Let_def split: if_splits)
  moreover have "\<not> bit (conf0_format (UartDev u)) 17" "\<not> bit (conf0_format (UartDev u)) 18"
    by (simp_all add: conf0_format_def bit_or_iff bit_push_bit_iff bit_and_iff bit_1_iff)
  ultimately show ?thesis
    by (intro bit_word_eqI) (auto simp: bit_or_iff bit_and_iff bit_not_iff bit_bits)
qed

text \<open>Changing one field keeps the others: \<open>SET_BITS\<close> writes the field and only it.\<close>

lemma set_bits_field:
  assumes "n < 32"
  shows "bit (uregs (SET_BITS r i bit_map v shift u) r i) n \<longleftrightarrow>
     (if bit (push_bit shift v) n then True
      else bit (uregs u r i) n \<and> \<not> bit (push_bit shift bit_map) n)"
  using assms by (auto simp: SET_BITS_def bit_or_iff bit_and_iff bit_not_iff)

end
