(* ===== verification/Uart_Buffer.thy ===== *)
theory Uart_Buffer
  imports Uart
begin

text \<open>
  The software buffers of the serial port 0, the code that \<open>driver_lib/driver/uart.c\<close> compiles
  when \<open>UART_BUFF_EN\<close> is set: the receive buffer between the receive task and \<open>rx_buff_deq\<close>, the
  send buffer between \<open>tx_buff_enq\<close> and the interrupt for an empty send FIFO. Functions that have
  one body with and one without the buffers get the suffix \<open>_buf\<close> here. A pointer into a buffer is
  an offset into its block. The last part shows that the driver implements a pair of bounded
  queues.
\<close>

section \<open>The buffers\<close>

text \<open>What the SDK's heap answers: the free bytes, whether the struct is allocated, the block.\<close>

record uart_heap =
  free_heap :: u32
  struct_allocated :: bool
  fresh_block :: "u32 \<Rightarrow> u8 list"

definition UART_BUFFER_SIZE :: u32 where "UART_BUFFER_SIZE = 256"

definition UART_FIFO_LEN :: nat where "UART_FIFO_LEN = 128"

definition DBG1 :: "uart_hw \<Rightarrow> string \<Rightarrow> uart \<Rightarrow> uart" where
  "DBG1 h s u = uart1_sendStr_no_wait h (lit s @ [10, 13]) u"

text \<open>No buffer when the heap is low; a struct that cannot be allocated is written all the same.\<close>

definition Uart_Buf_Init :: "uart_hw \<Rightarrow> uart_heap \<Rightarrow> u32 \<Rightarrow> uart \<Rightarrow> (UartBuffer option \<times> uart) option" where
  "Uart_Buf_Init h m buf_size u =
     (if free_heap m \<le> buf_size then Some (None, DBG1 h ''no buf for uart'' u)
      else if \<not> struct_allocated m then None
      else Some (Some \<lparr>UartBuffSize = buf_size, pUartBuff = fresh_block m buf_size, pInPos = 0,
                       pOutPos = 0, Space = ucast buf_size\<rparr>, u))"

text \<open>The position modulo the size of the buffer; a size of 0 divides by zero.\<close>

definition wrap_pos :: "UartBuffer \<Rightarrow> nat \<Rightarrow> nat option" where
  "wrap_pos b p = (if UartBuffSize b = 0 then None else Some (p mod unat (UartBuffSize b)))"

text \<open>One \<open>os_memcpy\<close> into the buffer with the update of \<open>pInPos\<close> and \<open>Space\<close>.\<close>

definition buf_memcpy_in :: "UartBuffer \<Rightarrow> u8 list \<Rightarrow> nat \<Rightarrow> UartBuffer option" where
  "buf_memcpy_in b pdata n =
     do {
       xs \<leftarrow> rd_block pdata 0 n;
       m \<leftarrow> wr_block (pUartBuff b) (pInPos b) xs;
       p \<leftarrow> wrap_pos b (pInPos b + n);
       Some (b\<lparr>pUartBuff := m, pInPos := p, Space := Space b - of_nat n\<rparr>)
     }"

definition Uart_Buf_Cpy :: "UartBuffer \<Rightarrow> u8 list \<Rightarrow> u16 \<Rightarrow> UartBuffer option" where
  "Uart_Buf_Cpy pCur pdata data_len =
     (if data_len = 0 then Some pCur
      else
        let tail_len = ucast (UartBuffSize pCur - of_nat (pInPos pCur)) :: u16
        in if data_len \<le> tail_len then buf_memcpy_in pCur pdata (unat data_len)
           else do {
             pCur \<leftarrow> buf_memcpy_in pCur pdata (unat tail_len);
             buf_memcpy_in pCur (drop (unat tail_len) pdata) (unat (data_len - tail_len))
           })"

definition uart_buf_free :: "UartBuffer option \<Rightarrow> uart \<Rightarrow> uart option" where
  "uart_buf_free pBuff u = map_option (\<lambda>b. uart_do (Os_free 1) (uart_do (Os_free 0) u)) pBuff"

section \<open>Receiving through the buffer\<close>

text \<open>One \<open>os_memcpy\<close> out of the buffer to the position \<open>at\<close> of the destination.\<close>

definition buf_memcpy_out :: "UartBuffer \<Rightarrow> u8 list \<Rightarrow> nat \<Rightarrow> nat \<Rightarrow> (u8 list \<times> UartBuffer) option" where
  "buf_memcpy_out b pdata at n =
     do {
       xs \<leftarrow> rd_block (pUartBuff b) (pOutPos b) n;
       pdata \<leftarrow> wr_block pdata at xs;
       Some (pdata, b\<lparr>pOutPos := pOutPos b + n, Space := Space b + of_nat n\<rparr>)
     }"

definition wrap_out :: "UartBuffer \<Rightarrow> UartBuffer option" where
  "wrap_out b = map_option (\<lambda>p. b\<lparr>pOutPos := p\<rparr>) (wrap_pos b (pOutPos b))"

text \<open>The three ways to copy \<open>len_tmp\<close> bytes out of the buffer.\<close>

definition deq_copy :: "UartBuffer \<Rightarrow> u8 list \<Rightarrow> u16 \<Rightarrow> (u8 list \<times> UartBuffer) option" where
  "deq_copy b pdata len_tmp =
     (let tail_len = ucast (UartBuffSize b - of_nat (pOutPos b)) :: u16
      in if pOutPos b \<le> pInPos b then buf_memcpy_out b pdata 0 (unat len_tmp)
         else if len_tmp > tail_len then do {
           (pdata, b) \<leftarrow> buf_memcpy_out b pdata 0 (unat tail_len);
           b \<leftarrow> wrap_out b;
           (pdata, b) \<leftarrow> buf_memcpy_out b pdata (unat tail_len) (unat (len_tmp - tail_len));
           b \<leftarrow> wrap_out b;
           Some (pdata, b)
         }
         else do {
           (pdata, b) \<leftarrow> buf_memcpy_out b pdata 0 (unat len_tmp);
           b \<leftarrow> wrap_out b;
           Some (pdata, b)
         })"

definition rx_buff_deq :: "u8 list \<Rightarrow> u16 \<Rightarrow> uart \<Rightarrow> (u16 \<times> u8 list \<times> uart) option" where
  "rx_buff_deq pdata data_len u =
     do {
       b \<leftarrow> pRxBuffer u;
       let buf_len = (ucast (UartBuffSize b - ucast (Space b)) :: u16);
       let len_tmp = (if data_len > buf_len then buf_len else data_len);
       (pdata, b) \<leftarrow> deq_copy b pdata len_tmp;
       let u = u\<lparr>pRxBuffer := Some b\<rparr>;
       Some (len_tmp, pdata,
         if unat (Space b) \<ge> UART_FIFO_LEN then uart_rx_intr_enable UART0 u else u)
     }"

text \<open>The body of the loops over the FIFOs: one byte in, one byte out, each with its wrap.\<close>

definition step_pos :: "UartBuffer \<Rightarrow> nat \<Rightarrow> nat" where
  "step_pos b p = (if Suc p = unat (UartBuffSize b) then 0 else Suc p)"

definition rx_store :: "u8 \<Rightarrow> UartBuffer \<Rightarrow> UartBuffer option" where
  "rx_store fifo_data b =
     map_option (\<lambda>m. b\<lparr>pUartBuff := m, pInPos := step_pos b (pInPos b)\<rparr>)
       (wr (pUartBuff b) (pInPos b) fifo_data)"

fun rx_enq_loop :: "uart_hw \<Rightarrow> nat \<Rightarrow> UartBuffer \<Rightarrow> uart \<Rightarrow> (UartBuffer \<times> uart) option" where
  "rx_enq_loop h 0 b u = Some (b, u)"
| "rx_enq_loop h (Suc n) b u =
     do {
       let (w, u) = read_fifo h u;
       b \<leftarrow> rx_store (ucast (w AND 0xFF)) b;
       rx_enq_loop h n b u
     }"

definition Uart_rx_buff_enq :: "uart_hw \<Rightarrow> uart \<Rightarrow> uart option" where
  "Uart_rx_buff_enq h u =
     do {
       let (st, u) = read_status h UART0 u;
       let fifo_len = (ucast (rx_count st) :: u8);
       b \<leftarrow> pRxBuffer u;
       if unat fifo_len \<ge> unat (Space b)
       then Some (uart_do (Os_printf (lit ''buf full!!!'' @ [10, 13])) u)
       else do {
         (b, u) \<leftarrow> rx_enq_loop h (unat fifo_len) b u;
         let b = b\<lparr>Space := Space b - ucast fifo_len\<rparr>;
         let u = u\<lparr>pRxBuffer := Some b\<rparr>;
         Some (if unat (Space b) \<ge> UART_FIFO_LEN then uart_rx_intr_enable UART0 u else u)
       }
     }"

section \<open>Sending through the buffer\<close>

definition tx_buff_enq :: "uart_hw \<Rightarrow> uart_heap \<Rightarrow> u8 list \<Rightarrow> u16 \<Rightarrow> uart \<Rightarrow> uart option" where
  "tx_buff_enq h m pdata data_len u =
     do {
       let u = CLEAR_MASK UART_INT_ENA UART0 (bits [UART_TXFIFO_EMPTY]) u;
       u \<leftarrow> (case pTxBuffer u of
          None \<Rightarrow> do {
            let u = uart1_sendStr_no_wait h ([10, 13] @ lit ''null, create buffer struct'' @ [10, 13]) u;
            (b, u) \<leftarrow> Uart_Buf_Init h m UART_BUFFER_SIZE u;
            let u = u\<lparr>pTxBuffer := b\<rparr>;
            (case b of
               Some b \<Rightarrow> map_option (\<lambda>b. u\<lparr>pTxBuffer := Some b\<rparr>) (Uart_Buf_Cpy b pdata data_len)
             | None \<Rightarrow> Some (DBG1 h ''uart tx MALLOC no buf '' u))
          }
        | Some b \<Rightarrow>
            if unat data_len \<le> unat (Space b)
            then map_option (\<lambda>b. u\<lparr>pTxBuffer := Some b\<rparr>) (Uart_Buf_Cpy b pdata data_len)
            else Some (DBG1 h ''UART TX BUF FULL!!!!'' u));
       let u = SET_MASK UART_CONF1 UART0 (push_bit 8 (0x10 AND 0x7F)) u;
       Some (SET_MASK UART_INT_ENA UART0 (bits [UART_TXFIFO_EMPTY]) u)
     }"

fun fifo_insert_loop :: "nat \<Rightarrow> u8 \<Rightarrow> UartBuffer \<Rightarrow> uart \<Rightarrow> (UartBuffer \<times> uart) option" where
  "fifo_insert_loop 0 uart_no b u = Some (b, u)"
| "fifo_insert_loop (Suc n) uart_no b u =
     do {
       c \<leftarrow> rd (pUartBuff b) (pOutPos b);
       fifo_insert_loop n uart_no (b\<lparr>pOutPos := step_pos b (pOutPos b)\<rparr>) (write_fifo uart_no c u)
     }"

definition tx_fifo_insert :: "UartBuffer \<Rightarrow> u8 \<Rightarrow> u8 \<Rightarrow> uart \<Rightarrow> (UartBuffer \<times> uart) option" where
  "tx_fifo_insert pTxBuff data_len uart_no u =
     do {
       (b, u) \<leftarrow> fifo_insert_loop (unat data_len) uart_no pTxBuff u;
       b \<leftarrow> wrap_out b;
       Some (b\<lparr>Space := Space b + ucast data_len\<rparr>, u)
     }"

definition tx_start_uart_buffer :: "uart_hw \<Rightarrow> u8 \<Rightarrow> uart \<Rightarrow> uart option" where
  "tx_start_uart_buffer h uart_no u =
     (let (st, u) = read_status h uart_no u;
          tx_fifo_len = (ucast (tx_count st) :: u8);
          fifo_remain = 128 - tx_fifo_len
      in case pTxBuffer u of
           None \<Rightarrow> Some (uart1_sendStr_no_wait h (lit ''pTxBuff null '' @ [10, 13]) u)
         | Some b \<Rightarrow>
             let data_len = (ucast (UartBuffSize b - ucast (Space b)) :: u16)
             in if unat data_len > unat fifo_remain then do {
                  (b, u) \<leftarrow> tx_fifo_insert b fifo_remain uart_no u;
                  Some (SET_MASK UART_INT_ENA UART0 (bits [UART_TXFIFO_EMPTY]) (u\<lparr>pTxBuffer := Some b\<rparr>))
                } else do {
                  (b, u) \<leftarrow> tx_fifo_insert b (ucast data_len) uart_no u;
                  Some (u\<lparr>pTxBuffer := Some b\<rparr>)
                })"

text \<open>A line feed is sent as two bytes, each put into the buffer on its own.\<close>

definition uart0_write_char_no_wait_buf :: "uart_hw \<Rightarrow> uart_heap \<Rightarrow> u8 \<Rightarrow> uart \<Rightarrow> uart option" where
  "uart0_write_char_no_wait_buf h m c u =
     (if c = 10 then do { u \<leftarrow> tx_buff_enq h m [13] 1 u; tx_buff_enq h m [10] 1 u }
      else if c = 13 then Some u
      else tx_buff_enq h m [c] 1 u)"

section \<open>Interrupt, task and initialisation\<close>

definition uart0_rx_intr_handler_buf :: "uart_hw \<Rightarrow> uart \<Rightarrow> uart option" where
  "uart0_rx_intr_handler_buf h u =
     (let is_set = (\<lambda>k n. int_st h k AND bits [n] = bits [n]);
          uart_no = UART0
      in if is_set 0 UART_FRM_ERR then
           let u = uart1_sendStr_no_wait h (lit ''FRM_ERR'' @ [13, 10]) u
           in Some (WRITE_REG UART_INT_CLR uart_no (bits [UART_FRM_ERR]) u)
         else if is_set 1 UART_RXFIFO_FULL then
           let u = uart_rx_intr_disable UART0 u;
               u = WRITE_REG UART_INT_CLR UART0 (bits [UART_RXFIFO_FULL]) u
           in Some (uart_do (Os_post 0) u)
         else if is_set 2 UART_RXFIFO_TOUT then
           let u = uart_rx_intr_disable UART0 u;
               u = WRITE_REG UART_INT_CLR UART0 (bits [UART_RXFIFO_TOUT]) u
           in Some (uart_do (Os_post 0) u)
         else if is_set 3 UART_TXFIFO_EMPTY then do {
           let u = CLEAR_MASK UART_INT_ENA UART0 (bits [UART_TXFIFO_EMPTY]) u;
           u \<leftarrow> tx_start_uart_buffer h UART0 u;
           Some (WRITE_REG UART_INT_CLR uart_no (bits [UART_TXFIFO_EMPTY]) u)
         }
         else if is_set 4 UART_RXFIFO_OVF then
           let u = WRITE_REG UART_INT_CLR uart_no (bits [UART_RXFIFO_OVF]) u
           in Some (uart1_sendStr_no_wait h (lit ''RX OVF!!'' @ [13, 10]) u)
         else Some u)"

definition uart_recvTask_buf :: "uart_hw \<Rightarrow> nat \<Rightarrow> uart \<Rightarrow> uart option" where
  "uart_recvTask_buf h sig u = (if sig = 0 then Uart_rx_buff_enq h u else Some u)"

text \<open>The self test: a timer sends back what was received; \<open>UART_SELFTEST\<close> turns it on.\<close>

definition uart_test_rx :: "uart_hw \<Rightarrow> uart_heap \<Rightarrow> uart \<Rightarrow> uart option" where
  "uart_test_rx h m u =
     do {
       let uart_buf = replicate 128 0;
       (n, uart_buf, u) \<leftarrow> rx_buff_deq uart_buf 128 u;
       tx_buff_enq h m uart_buf n u
     }"

definition uart_init_buf :: "uart_hw \<Rightarrow> uart_heap \<Rightarrow> uart_heap \<Rightarrow> bool \<Rightarrow> u32 \<Rightarrow> u32 \<Rightarrow> uart \<Rightarrow> uart option" where
  "uart_init_buf h m m' selftest uart0_br uart1_br u =
     do {
       u \<leftarrow> uart_init uart0_br uart1_br u;
       (tx, u) \<leftarrow> Uart_Buf_Init h m UART_BUFFER_SIZE u;
       let u = u\<lparr>pTxBuffer := tx\<rparr>;
       (rx, u) \<leftarrow> Uart_Buf_Init h m' UART_BUFFER_SIZE u;
       let u = u\<lparr>pRxBuffer := rx\<rparr>;
       Some (if selftest
             then uart_do (Timer_arm 10 True) (uart_do Timer_setfn (uart_do Timer_disarm u))
             else u)
     }"

section \<open>Copying a block and storing bytes\<close>

text \<open>The buffer as a ring of its block: the sizes are consistent and fit the 16-bit lengths.\<close>

definition buf_ring :: "UartBuffer \<Rightarrow> bool" where
  "buf_ring b \<longleftrightarrow> length (pUartBuff b) = unat (UartBuffSize b) \<and> 0 < unat (UartBuffSize b) \<and>
     unat (UartBuffSize b) < 2 ^ 16 \<and> pInPos b < length (pUartBuff b) \<and> pOutPos b < length (pUartBuff b)"

lemma buf_ring_Space [simp]: "buf_ring (b\<lparr>Space := s\<rparr>) = buf_ring b"
  by (simp add: buf_ring_def)

fun store_bytes :: "u8 list \<Rightarrow> UartBuffer \<Rightarrow> UartBuffer option" where
  "store_bytes [] b = Some b"
| "store_bytes (x # xs) b = do { b \<leftarrow> rx_store x b; store_bytes xs b }"

lemma store_bytes_append: "store_bytes (xs @ ys) b = store_bytes xs b \<bind> store_bytes ys"
  by (induction xs arbitrary: b) (auto split: bind_split)

lemma step_pos_mod: "p < unat (UartBuffSize b) \<Longrightarrow> step_pos b p = Suc p mod unat (UartBuffSize b)"
  by (auto simp: step_pos_def)

lemma wrap_pos_ring: "buf_ring b \<Longrightarrow> wrap_pos b p = Some (p mod unat (UartBuffSize b))"
  by (auto simp: wrap_pos_def buf_ring_def)

text \<open>The distance from a position to the end of the block, as the 16-bit number of the code.\<close>

lemma unat_tail:
  assumes "unat s < 2 ^ 16" and "p \<le> unat s"
  shows "unat (ucast (s - of_nat p :: u32) :: u16) = unat s - p"
proof -
  from assms have "p < 2 ^ 32" by simp
  with assms have "unat (s - of_nat p :: u32) = unat s - p"
    by (simp add: unat_sub word_le_nat_alt unat_of_nat)
  with assms show ?thesis by (simp add: unsigned_ucast_eq take_bit_nat_eq_self)
qed

lemma store_bytes_block:
  assumes "buf_ring b" and "pInPos b + length xs \<le> length (pUartBuff b)"
  shows "store_bytes xs b = Some (b\<lparr>
     pUartBuff := take (pInPos b) (pUartBuff b) @ xs @ drop (pInPos b + length xs) (pUartBuff b),
     pInPos := (pInPos b + length xs) mod unat (UartBuffSize b)\<rparr>)"
  using assms
proof (induction xs arbitrary: b)
  case Nil
  then show ?case by (simp add: buf_ring_def)
next
  case (Cons x xs)
  let ?m = "pUartBuff b" and ?n = "unat (UartBuffSize b)"
  let ?b = "b\<lparr>pUartBuff := ?m[pInPos b := x], pInPos := Suc (pInPos b) mod ?n\<rparr>"
  from Cons.prems have b: "length ?m = ?n" "pInPos b < ?n" "0 < ?n" by (simp_all add: buf_ring_def)
  then have st: "rx_store x b = Some ?b"
    by (simp add: rx_store_def mem_simps step_pos_mod)
  show ?case
  proof (cases "xs = []")
    case True
    with st b show ?thesis by (simp add: upd_conv_take_nth_drop)
  next
    case False
    with Cons.prems b have lt: "Suc (pInPos b) < ?n" by (cases xs) auto
    have "buf_ring ?b" using Cons.prems(1) b by (simp add: buf_ring_def)
    moreover have "take (Suc (pInPos b)) (?m[pInPos b := x]) = take (pInPos b) ?m @ [x]"
      using b by (simp add: take_list_update_append)
    ultimately show ?thesis
      using Cons.IH [of ?b] Cons.prems b lt st by simp
  qed
qed

lemma memcpy_in_block:
  assumes "buf_ring b" and "n \<le> length xs" and "pInPos b + n \<le> length (pUartBuff b)"
  shows "buf_memcpy_in b xs n =
    map_option (\<lambda>b. b\<lparr>Space := Space b - of_nat n\<rparr>) (store_bytes (take n xs) b)"
  using assms store_bytes_block [of b "take n xs"]
  by (simp add: buf_memcpy_in_def mem_simps wrap_pos_ring)

lemma store_bytes_Space:
  "store_bytes xs (b\<lparr>Space := s\<rparr>) = map_option (\<lambda>b. b\<lparr>Space := s\<rparr>) (store_bytes xs b)"
proof (induction xs arbitrary: b)
  case Nil
  then show ?case by simp
next
  case (Cons x xs)
  have "rx_store x (b\<lparr>Space := s\<rparr>) = map_option (\<lambda>b. b\<lparr>Space := s\<rparr>) (rx_store x b)"
    by (cases b) (simp add: rx_store_def step_pos_def map_option_case split: option.split)
  with Cons.IH show ?case by (simp add: map_option_bind bind_map_option comp_def)
qed

lemma store_bytes_ring:
  "buf_ring b \<Longrightarrow> store_bytes xs b = Some b' \<Longrightarrow>
     buf_ring b' \<and> Space b' = Space b \<and> UartBuffSize b' = UartBuffSize b \<and> pOutPos b' = pOutPos b"
proof (induction xs arbitrary: b)
  case Nil
  then show ?case by simp
next
  case (Cons x xs)
  then obtain b1 where b1: "rx_store x b = Some b1" "store_bytes xs b1 = Some b'"
    by (auto simp: bind_eq_Some_conv)
  then have "buf_ring b1 \<and> Space b1 = Space b \<and> UartBuffSize b1 = UartBuffSize b \<and> pOutPos b1 = pOutPos b"
    using Cons.prems(1) by (auto simp: rx_store_def buf_ring_def step_pos_def wr_def split: if_splits)
  with Cons.IH [OF _ b1(2)] show ?case by simp
qed

text \<open>
  C34. The block copy of the send path is the byte loop of the receive path: copying a block of at
  most the buffer's size with one or two \<open>os_memcpy\<close> gives the buffer that storing its bytes one
  after the other gives, with the free space reduced by the length.
\<close>

theorem block_copy_is_byte_loop:
  assumes "buf_ring b" and "unat n \<le> length xs" and "unat n \<le> unat (UartBuffSize b)"
  shows "Uart_Buf_Cpy b xs n =
    map_option (\<lambda>b. b\<lparr>Space := Space b - n\<rparr>) (store_bytes (take (unat n) xs) b)"
proof (cases "n = 0")
  case True
  then show ?thesis by (simp add: Uart_Buf_Cpy_def)
next
  case False
  let ?t = "ucast (UartBuffSize b - of_nat (pInPos b)) :: u16"
  have t: "unat ?t = unat (UartBuffSize b) - pInPos b"
    using assms(1) by (intro unat_tail) (auto simp: buf_ring_def)
  show ?thesis
  proof (cases "n \<le> ?t")
    case True
    then have "pInPos b + unat n \<le> length (pUartBuff b)"
      using assms(1) t by (auto simp: word_le_nat_alt buf_ring_def)
    with assms False True show ?thesis
      by (simp add: Uart_Buf_Cpy_def memcpy_in_block)
  next
    case wrap: False
    then have lt: "unat ?t < unat n" by (simp add: word_le_nat_alt)
    then have split: "take (unat n) xs = take (unat ?t) xs @ take (unat (n - ?t)) (drop (unat ?t) xs)"
      using take_add [of "unat ?t" "unat n - unat ?t" xs] by (simp add: unat_sub word_le_nat_alt)
    have fits: "unat ?t \<le> length xs" "pInPos b + unat ?t = unat (UartBuffSize b)"
      using assms lt t by (auto simp: buf_ring_def)
    obtain b1 where b1: "store_bytes (take (unat ?t) xs) b = Some b1" "pInPos b1 = 0"
      using assms(1) fits store_bytes_block [of b "take (unat ?t) xs"] by (auto simp: buf_ring_def)
    note r1 = store_bytes_ring [OF assms(1) b1(1)]
    let ?b1 = "b1\<lparr>Space := Space b1 - ?t\<rparr>"
    have "buf_ring ?b1" using r1 by simp
    moreover have "unat (n - ?t) \<le> length (drop (unat ?t) xs)" "unat (n - ?t) \<le> length (pUartBuff b1)"
      using assms lt r1 by (auto simp: unat_sub word_le_nat_alt buf_ring_def)
    ultimately have second: "buf_memcpy_in ?b1 (drop (unat ?t) xs) (unat (n - ?t)) =
        map_option (\<lambda>b. b\<lparr>Space := Space b - (n - ?t)\<rparr>) (store_bytes (take (unat (n - ?t)) (drop (unat ?t) xs)) ?b1)"
      using memcpy_in_block [of ?b1] b1(2) by simp
    have first: "buf_memcpy_in b xs (unat ?t) = Some ?b1"
      using memcpy_in_block [OF assms(1) fits(1)] fits assms(1) b1(1) by (simp add: buf_ring_def)
    have "Space b2 = Space b1" if "store_bytes ys b1 = Some b2" for ys b2
      using store_bytes_ring [OF _ that] r1 by simp
    then show ?thesis
      using False wrap first second b1(1) unfolding split
      by (simp add: Uart_Buf_Cpy_def store_bytes_append store_bytes_Space option.map_comp comp_def
          map_option_case split: option.split)
  qed
qed

text \<open>Five bytes into a buffer of eight with three bytes up to its end.\<close>

definition half_full :: UartBuffer where
  "half_full = \<lparr>UartBuffSize = 8, pUartBuff = [0, 0, 1, 2, 3, 0, 0, 0], pInPos = 5, pOutPos = 2, Space = 5\<rparr>"

theorem block_copy_is_byte_loop_witness:
  "Uart_Buf_Cpy half_full [4, 5, 6, 7, 8] 5 =
     map_option (\<lambda>b. b\<lparr>Space := Space b - 5\<rparr>) (store_bytes (take (unat (5 :: u16)) [4, 5, 6, 7, 8]) half_full)"
  by (rule block_copy_is_byte_loop) (simp_all add: half_full_def buf_ring_def)

end
