(* ===== verification/Serial_Spec.thy ===== *)
theory Serial_Spec
  imports Uart_Buffer
begin

text \<open>
  What the buffered serial port promises: two bounded byte queues, one filled by the receive task
  and emptied by the application, one filled by the application and emptied into the send FIFO by
  the interrupt. \<open>serial_spec\<close> is that promise on lists; the driver of \<open>Uart_Buffer\<close> implements it,
  the interrupt handler, the task and the application's calls in any order.
\<close>

section \<open>The contents of a buffer\<close>

definition buf_holds :: "UartBuffer \<Rightarrow> u8 list \<Rightarrow> bool" where
  "buf_holds b xs \<longleftrightarrow> buf_ring b \<and> length xs \<le> length (pUartBuff b) \<and>
     pInPos b = (pOutPos b + length xs) mod length (pUartBuff b) \<and>
     (\<forall>k < length xs. pUartBuff b ! ((pOutPos b + k) mod length (pUartBuff b)) = xs ! k)"

definition buf_queue :: "UartBuffer \<Rightarrow> u8 list" where
  "buf_queue b = map (\<lambda>k. pUartBuff b ! ((pOutPos b + k) mod length (pUartBuff b)))
     [0..<length (pUartBuff b) - unat (Space b)]"

definition buf_wf :: "UartBuffer \<Rightarrow> bool" where
  "buf_wf b \<longleftrightarrow> buf_ring b \<and> unat (Space b) \<le> length (pUartBuff b) \<and>
     pInPos b = (pOutPos b + (length (pUartBuff b) - unat (Space b))) mod length (pUartBuff b)"

lemma buf_wf_holds: "buf_wf b \<Longrightarrow> buf_holds b (buf_queue b)"
  by (auto simp: buf_wf_def buf_holds_def buf_queue_def)

lemma length_buf_queue: "length (buf_queue b) = length (pUartBuff b) - unat (Space b)"
  by (simp add: buf_queue_def)

lemma buf_holds_wf:
  assumes "buf_holds b xs" and "unat (Space b) = length (pUartBuff b) - length xs"
  shows "buf_wf b \<and> buf_queue b = xs"
  using assms by (auto simp: buf_wf_def buf_holds_def buf_queue_def intro!: nth_equalityI)

lemma buf_holds_Space [simp]: "buf_holds (b\<lparr>Space := s\<rparr>) xs = buf_holds b xs"
  by (simp add: buf_holds_def)

lemma holds_store:
  assumes h: "buf_holds b xs" and room: "length xs < length (pUartBuff b)"
  shows "\<exists>b'. rx_store x b = Some b' \<and> buf_holds b' (xs @ [x]) \<and> Space b' = Space b \<and>
    UartBuffSize b' = UartBuffSize b"
proof -
  let ?m = "pUartBuff b" and ?n = "length (pUartBuff b)"
  have r: "buf_ring b" and i: "pInPos b = (pOutPos b + length xs) mod ?n"
    using h by (simp_all add: buf_holds_def)
  let ?b = "b\<lparr>pUartBuff := ?m[pInPos b := x], pInPos := Suc (pInPos b) mod ?n\<rparr>"
  have "rx_store x b = Some ?b"
    using r by (simp add: rx_store_def mem_simps step_pos_mod buf_ring_def)
  moreover have "?m[pInPos b := x] ! ((pOutPos b + k) mod ?n) = (xs @ [x]) ! k" if "k < Suc (length xs)" for k
  proof (cases "k = length xs")
    case True
    with r i show ?thesis by (simp add: buf_ring_def)
  next
    case False
    with that have "k < length xs" by simp
    then show ?thesis
      using h i ring_index_distinct [of k "length xs" ?n "pOutPos b"] room
      by (simp add: buf_holds_def nth_append)
  qed
  moreover have "Suc (pInPos b) mod ?n = (pOutPos b + Suc (length xs)) mod ?n"
    by (simp add: i mod_Suc_eq)
  moreover have "buf_ring ?b" using r by (auto simp: buf_ring_def)
  ultimately show ?thesis using room by (auto simp: buf_holds_def)
qed

lemma holds_stores:
  "buf_holds b xs \<Longrightarrow> length xs + length ys \<le> length (pUartBuff b) \<Longrightarrow>
     \<exists>b'. store_bytes ys b = Some b' \<and> buf_holds b' (xs @ ys) \<and> Space b' = Space b \<and>
       UartBuffSize b' = UartBuffSize b"
proof (induction ys arbitrary: b xs)
  case Nil
  then show ?case by simp
next
  case (Cons y ys)
  then obtain b1 where b1: "rx_store y b = Some b1" "buf_holds b1 (xs @ [y])" "Space b1 = Space b"
      "UartBuffSize b1 = UartBuffSize b"
    using holds_store [of b xs y] by auto
  then have "length (pUartBuff b1) = length (pUartBuff b)"
    using Cons.prems(1) by (simp add: buf_holds_def buf_ring_def)
  with Cons.IH [OF b1(2)] Cons.prems(2) b1 show ?case by auto
qed

text \<open>Bytes leave the buffer at \<open>pOutPos\<close>.\<close>

lemma holds_drop:
  assumes "buf_holds b xs" and "n \<le> length xs"
  shows "buf_holds (b\<lparr>pOutPos := (pOutPos b + n) mod length (pUartBuff b)\<rparr>) (drop n xs)"
proof -
  let ?n = "length (pUartBuff b)"
  obtain zs ys where xs: "xs = zs @ ys" "n = length zs"
    using assms(2) by (metis append_take_drop_id length_take min.absorb2)
  have "pUartBuff b ! ((pOutPos b + n + k) mod ?n) = ys ! k" if "k < length ys" for k
    using assms(1) that by (auto simp: buf_holds_def xs nth_append add.assoc dest!: spec [of _ "length zs + k"])
  moreover have "(pOutPos b + n) mod ?n < ?n" "pInPos b < ?n"
    using assms(1) by (auto simp: buf_holds_def buf_ring_def intro: mod_less_divisor)
  ultimately show ?thesis
    using assms(1) by (auto simp: buf_holds_def buf_ring_def xs mod_add_left_eq add.assoc)
qed

lemma holds_block:
  assumes "buf_holds b xs" and "n \<le> length xs" and "pOutPos b + n \<le> length (pUartBuff b)"
  shows "take n (drop (pOutPos b) (pUartBuff b)) = take n xs"
proof (rule nth_equalityI)
  show "length (take n (drop (pOutPos b) (pUartBuff b))) = length (take n xs)"
    using assms by simp
next
  fix k
  assume "k < length (take n (drop (pOutPos b) (pUartBuff b)))"
  then have k: "k < n" "pOutPos b + k < length (pUartBuff b)" using assms(3) by auto
  then show "take n (drop (pOutPos b) (pUartBuff b)) ! k = take n xs ! k"
    using assms by (auto simp: buf_holds_def dest!: spec [of _ k])
qed

lemma memcpy_out_holds:
  assumes "buf_holds b xs" and "n \<le> length xs" and "pOutPos b + n \<le> length (pUartBuff b)"
    and "at + n \<le> length dst"
  shows "buf_memcpy_out b dst at n = Some (take at dst @ take n xs @ drop (at + n) dst,
    b\<lparr>pOutPos := pOutPos b + n, Space := Space b + of_nat n\<rparr>)"
  using assms holds_block [OF assms(1-3)] by (simp add: buf_memcpy_out_def mem_simps)

section \<open>The operations on a buffer\<close>

text \<open>Copying in appends, if there is room for all.\<close>

lemma cpy_queue:
  assumes wf: "buf_wf b" and n: "unat n \<le> unat (Space b)" "unat n \<le> length xs"
  shows "\<exists>b'. Uart_Buf_Cpy b xs n = Some b' \<and> buf_wf b' \<and>
    buf_queue b' = buf_queue b @ take (unat n) xs \<and> UartBuffSize b' = UartBuffSize b"
proof -
  have r: "buf_ring b" and sp: "unat (Space b) \<le> length (pUartBuff b)"
    using wf by (simp_all add: buf_wf_def)
  have size: "length (pUartBuff b) = unat (UartBuffSize b)" using r by (simp add: buf_ring_def)
  have "length (buf_queue b) + length (take (unat n) xs) \<le> length (pUartBuff b)"
    using n sp by (simp add: length_buf_queue)
  from holds_stores [OF buf_wf_holds [OF wf] this]
  obtain b1 where b1: "store_bytes (take (unat n) xs) b = Some b1"
      "buf_holds b1 (buf_queue b @ take (unat n) xs)" "Space b1 = Space b" "UartBuffSize b1 = UartBuffSize b"
    by blast
  have len: "length (pUartBuff b1) = length (pUartBuff b)"
    using b1(2,4) size by (simp add: buf_holds_def buf_ring_def)
  have "Uart_Buf_Cpy b xs n = map_option (\<lambda>b. b\<lparr>Space := Space b - n\<rparr>) (store_bytes (take (unat n) xs) b)"
    using n sp size r by (intro block_copy_is_byte_loop) auto
  then have "Uart_Buf_Cpy b xs n = Some (b1\<lparr>Space := Space b1 - n\<rparr>)" using b1(1) by simp
  moreover have "buf_wf (b1\<lparr>Space := Space b1 - n\<rparr>) \<and>
      buf_queue (b1\<lparr>Space := Space b1 - n\<rparr>) = buf_queue b @ take (unat n) xs"
    using b1(2,3) n sp len
    by (intro buf_holds_wf) (simp_all add: length_buf_queue unat_sub word_le_nat_alt)
  ultimately show ?thesis using b1(4) by simp
qed

text \<open>Copying out takes from the front. In the first case of the code the bytes do not wrap.\<close>

lemma unat_used:
  fixes w :: u16 and s :: u32
  assumes "unat s < 2 ^ 16" and "unat w \<le> unat s"
  shows "unat (ucast (s - ucast w) :: u16) = unat s - unat w"
  using unat_tail [OF assms] by simp

lemma out_before_in:
  assumes "buf_holds b xs" and "length xs < length (pUartBuff b)" and "pOutPos b \<le> pInPos b"
  shows "pOutPos b + length xs < length (pUartBuff b)"
proof (rule ccontr)
  let ?n = "length (pUartBuff b)"
  assume no: "\<not> pOutPos b + length xs < ?n"
  have "pInPos b = (pOutPos b + length xs) mod ?n" "pOutPos b < ?n"
    using assms(1) by (simp_all add: buf_holds_def buf_ring_def)
  with no assms(2) have "pInPos b = pOutPos b + length xs - ?n"
    by (simp add: mod_if)
  with no assms(2,3) show False by simp
qed

lemma wrap_out_ring: "buf_ring b \<Longrightarrow> wrap_out (b\<lparr>pOutPos := p, Space := s\<rparr>) =
    Some (b\<lparr>pOutPos := p mod length (pUartBuff b), Space := s\<rparr>)"
  by (auto simp: wrap_out_def wrap_pos_def buf_ring_def)

text \<open>The result of every way: \<open>k\<close> bytes are gone.\<close>

definition taken :: "UartBuffer \<Rightarrow> u16 \<Rightarrow> UartBuffer" where
  "taken b k = b\<lparr>pOutPos := (pOutPos b + unat k) mod length (pUartBuff b), Space := Space b + k\<rparr>"

lemma deq_copy_wraps:
  assumes h: "buf_holds b xs" and k: "unat k \<le> length xs" "unat k \<le> length dst"
    and t: "unat t = length (pUartBuff b) - pOutPos b" "t < k"
  shows "do {
      (pdata, b) \<leftarrow> buf_memcpy_out b dst 0 (unat t);
      b \<leftarrow> wrap_out b;
      (pdata, b) \<leftarrow> buf_memcpy_out b pdata (unat t) (unat (k - t));
      b \<leftarrow> wrap_out b;
      Some (pdata, b)
    } = Some (take (unat k) xs @ drop (unat k) dst, taken b k)"
proof -
  let ?n = "length (pUartBuff b)" and ?b1 = "b\<lparr>pOutPos := 0, Space := Space b + t\<rparr>"
  have r: "buf_ring b" and lt: "unat t < unat k" and n: "length xs \<le> ?n" "pOutPos b < ?n"
    using h t(2) by (simp_all add: buf_holds_def buf_ring_def word_less_nat_alt)
  have out: "pOutPos b + unat t = ?n" using t(1) n by simp
  have d: "unat (k - t) = unat k - unat t" using t(2) by (simp add: unat_sub)
  have "buf_memcpy_out b dst 0 (unat t) =
      Some (take (unat t) xs @ drop (unat t) dst, b\<lparr>pOutPos := ?n, Space := Space b + t\<rparr>)"
    using memcpy_out_holds [OF h, of "unat t" 0 dst] lt k out by simp
  moreover have h1: "buf_holds ?b1 (drop (unat t) xs)"
    using holds_drop [OF h, of "unat t"] lt k(1) out by simp
  have "buf_memcpy_out ?b1 (take (unat t) xs @ drop (unat t) dst) (unat t) (unat (k - t)) =
      Some (take (unat k) xs @ drop (unat k) dst, b\<lparr>pOutPos := unat (k - t), Space := Space b + k\<rparr>)"
    using memcpy_out_holds [OF h1, of "unat (k - t)" "unat t" "take (unat t) xs @ drop (unat t) dst"]
      lt k d n take_add [of "unat t" "unat k - unat t" xs] by (simp add: min_def)
  moreover have "unat (k - t) mod ?n = (pOutPos b + unat k) mod ?n"
  proof -
    have "pOutPos b + unat k = ?n + unat (k - t)" using out lt d by simp
    then show ?thesis by simp
  qed
  ultimately show ?thesis using r by (simp add: wrap_out_ring taken_def)
qed

lemma taken_queue:
  assumes wf: "buf_wf b" and k: "unat k \<le> length (buf_queue b)"
  shows "buf_wf (taken b k)" and "buf_queue (taken b k) = drop (unat k) (buf_queue b)"
    and "unat (Space (taken b k)) = unat (Space b) + unat k"
    and "UartBuffSize (taken b k) = UartBuffSize b"
proof -
  note h = buf_wf_holds [OF wf]
  have q: "length (buf_queue b) = length (pUartBuff b) - unat (Space b)"
      "unat (Space b) \<le> length (pUartBuff b)" "length (pUartBuff b) < 2 ^ 16"
    using wf by (auto simp: length_buf_queue buf_wf_def buf_ring_def)
  have sp: "unat (Space b + k) = unat (Space b) + unat k"
    using k q by (subst unat_add_lem [THEN iffD1]) auto
  have "buf_holds (taken b k) (drop (unat k) (buf_queue b))"
    using holds_drop [OF h k] by (simp add: taken_def)
  then have "buf_wf (taken b k) \<and> buf_queue (taken b k) = drop (unat k) (buf_queue b)"
    by (rule buf_holds_wf) (use sp q k in \<open>simp add: taken_def\<close>)
  then show "buf_wf (taken b k)" "buf_queue (taken b k) = drop (unat k) (buf_queue b)" by simp_all
  show "unat (Space (taken b k)) = unat (Space b) + unat k" using sp by (simp add: taken_def)
  show "UartBuffSize (taken b k) = UartBuffSize b" by (simp add: taken_def)
qed

lemma deq_copy_queue:
  assumes wf: "buf_wf b" and notfull: "0 < unat (Space b)"
    and k: "unat k \<le> length (buf_queue b)" "unat k \<le> length dst"
  shows "deq_copy b dst k = Some (take (unat k) (buf_queue b) @ drop (unat k) dst, taken b k)"
proof -
  let ?q = "buf_queue b" and ?n = "length (pUartBuff b)"
  let ?t = "ucast (UartBuffSize b - of_nat (pOutPos b)) :: u16"
  note h = buf_wf_holds [OF wf]
  have r: "buf_ring b" and size: "?n = unat (UartBuffSize b)" "?n < 2 ^ 16" "pOutPos b < ?n"
    using h by (simp_all add: buf_holds_def buf_ring_def)
  have q: "length ?q < ?n" using notfull size(3) by (simp add: length_buf_queue)
  have t: "unat ?t = ?n - pOutPos b"
    using size unat_tail [of "UartBuffSize b" "pOutPos b"] by simp
  consider "pOutPos b \<le> pInPos b" | "\<not> pOutPos b \<le> pInPos b" "?t < k" | "\<not> pOutPos b \<le> pInPos b" "\<not> ?t < k"
    by blast
  then show ?thesis
  proof cases
    case 1
    then have "pOutPos b + unat k < ?n" using out_before_in [OF h q] k(1) by simp
    with 1 k show ?thesis by (simp add: deq_copy_def memcpy_out_holds [OF h] taken_def)
  next
    case 2
    with deq_copy_wraps [OF h k t] show ?thesis by (simp add: deq_copy_def Let_def)
  next
    case 3
    then have "pOutPos b + unat k \<le> ?n" using t size(3) by (simp add: word_less_nat_alt)
    with 3 k show ?thesis
      by (simp add: deq_copy_def memcpy_out_holds [OF h] wrap_out_ring [OF r] taken_def)
  qed
qed

lemma unat_widen: "unat (ucast k :: u16) = unat k" for k :: u8
proof -
  have "unat k < 2 ^ LENGTH(8)" by (rule unsigned_less)
  then have "unat k < 2 ^ 16" by simp
  then show ?thesis by (simp add: unsigned_ucast_eq take_bit_nat_eq_self)
qed

lemma unat_narrow: "unat w < 2 ^ 8 \<Longrightarrow> unat (ucast w :: u8) = unat w" for w :: u16
  by (simp add: unsigned_ucast_eq take_bit_nat_eq_self)

text \<open>The loops over the FIFOs.\<close>

lemma rx_enq_loop_stores:
  "store_bytes (received h u n) b = Some b' \<Longrightarrow>
     rx_enq_loop h n b u = Some (b', u\<lparr>rx_reads := rx_reads u + n\<rparr>)"
proof (induction n arbitrary: b u)
  case 0
  then show ?case by (simp add: received_def)
next
  case (Suc n)
  then obtain b1 where "rx_store (ucast (rx_fifo h (rx_reads u) AND 0xFF)) b = Some b1"
      "store_bytes (received h (u\<lparr>rx_reads := Suc (rx_reads u)\<rparr>) n) b1 = Some b'"
    by (auto simp: received_Suc bind_eq_Some_conv)
  with Suc.IH [OF this(2)] show ?case by (simp add: read_fifo_def)
qed

lemma fifo_insert_loop_sends:
  "buf_holds b xs \<Longrightarrow> n \<le> length xs \<Longrightarrow>
     fifo_insert_loop n i b u = Some (b\<lparr>pOutPos := (pOutPos b + n) mod length (pUartBuff b)\<rparr>,
       u\<lparr>sent := sent u @ map (Pair i) (take n xs)\<rparr>)"
proof (induction n arbitrary: b xs u)
  case 0
  then show ?case by (simp add: buf_holds_def buf_ring_def)
next
  case (Suc n)
  let ?b = "b\<lparr>pOutPos := step_pos b (pOutPos b)\<rparr>"
  from Suc.prems(2) obtain x ys where xs: "xs = x # ys" by (cases xs) auto
  have r: "buf_ring b" "pUartBuff b ! pOutPos b = x"
    using Suc.prems(1) by (auto simp: buf_holds_def buf_ring_def xs dest!: spec [of _ 0])
  then have st: "step_pos b (pOutPos b) = Suc (pOutPos b) mod length (pUartBuff b)"
    by (simp add: step_pos_mod buf_ring_def)
  have "buf_holds ?b ys"
    using holds_drop [OF Suc.prems(1), of 1] by (simp add: xs st)
  from Suc.IH [OF this, of "write_fifo i x u"] Suc.prems(2) r show ?case
    by (simp add: xs st write_fifo_def mod_add_left_eq mem_simps buf_ring_def mod_simps)
qed

lemma fifo_insert_queue:
  assumes wf: "buf_wf b" and k: "unat k \<le> length (buf_queue b)"
  shows "tx_fifo_insert b k i u =
    Some (taken b (ucast k), u\<lparr>sent := sent u @ map (Pair i) (take (unat k) (buf_queue b))\<rparr>)"
proof -
  note h = buf_wf_holds [OF wf]
  have "buf_ring b" using wf by (simp add: buf_wf_def)
  then have "wrap_out (b\<lparr>pOutPos := (pOutPos b + unat k) mod length (pUartBuff b)\<rparr>) =
      Some (b\<lparr>pOutPos := (pOutPos b + unat k) mod length (pUartBuff b)\<rparr>)"
    by (auto simp: wrap_out_def wrap_pos_def buf_ring_def)
  then show ?thesis
    by (simp add: tx_fifo_insert_def fifo_insert_loop_sends [OF h k] taken_def unat_widen)
qed

section \<open>The promise\<close>

text \<open>
  The bytes received and not yet read, the bytes accepted and not yet sent, and the bytes that went
  into the send FIFO of port 0.
\<close>

record serial =
  in_q :: "u8 list"
  out_q :: "u8 list"
  wire :: "u8 list"

text \<open>Received bytes are kept if one place stays free; a block to send is accepted as a whole or not at all.\<close>

definition spec_receive :: "u8 list \<Rightarrow> serial \<Rightarrow> serial" where
  "spec_receive bs s =
     (if length (in_q s) + length bs < 256 then s\<lparr>in_q := in_q s @ bs\<rparr> else s)"

definition spec_read :: "nat \<Rightarrow> serial \<Rightarrow> u8 list \<times> serial" where
  "spec_read n s = (take n (in_q s), s\<lparr>in_q := drop n (in_q s)\<rparr>)"

definition spec_write :: "u8 list \<Rightarrow> serial \<Rightarrow> serial" where
  "spec_write bs s =
     (if length (out_q s) + length bs \<le> 256 then s\<lparr>out_q := out_q s @ bs\<rparr> else s)"

definition spec_drain :: "nat \<Rightarrow> serial \<Rightarrow> serial" where
  "spec_drain n s = s\<lparr>wire := wire s @ take n (out_q s), out_q := drop n (out_q s)\<rparr>"

text \<open>
  What happens to the port: the interrupt, the receive task, and the calls of the application.
  Each brings what the hardware answers from then on.
\<close>

datatype serial_event =
    Interrupt uart_hw
  | Task uart_hw nat
  | Read "u8 list" u16
  | Write uart_hw uart_heap "u8 list" u16
  | Put_char uart_hw uart_heap u8
  | Self_test uart_hw uart_heap

text \<open>The bytes in the receive FIFO, the room in the send FIFO, the cause of the interrupt.\<close>

definition fifo_bytes :: "uart_hw \<Rightarrow> u8 list" where
  "fifo_bytes h = map (\<lambda>k. ucast (rx_fifo h k AND 0xFF)) [0..<unat (ucast (rx_count (status h UART0 0)) :: u8)]"

definition fifo_room :: "uart_hw \<Rightarrow> nat" where
  "fifo_room h = unat (128 - ucast (tx_count (status h UART0 0)) :: u8)"

definition tx_empty_raised :: "uart_hw \<Rightarrow> bool" where
  "tx_empty_raised h \<longleftrightarrow> \<not> bit (int_st h 0) UART_FRM_ERR \<and> \<not> bit (int_st h 1) UART_RXFIFO_FULL \<and>
     \<not> bit (int_st h 2) UART_RXFIFO_TOUT \<and> bit (int_st h 3) UART_TXFIFO_EMPTY"

fun serial_spec :: "serial_event \<Rightarrow> serial \<Rightarrow> u8 list \<times> serial" where
  "serial_spec (Interrupt h) s = ([], if tx_empty_raised h then spec_drain (fifo_room h) s else s)"
| "serial_spec (Task h sig) s = ([], if sig = 0 then spec_receive (fifo_bytes h) s else s)"
| "serial_spec (Read dst n) s = spec_read (unat n) s"
| "serial_spec (Write h m bs n) s = ([], spec_write (take (unat n) bs) s)"
| "serial_spec (Put_char h m c) s =
     ([], if c = 10 then spec_write [10] (spec_write [13] s) else if c = 13 then s else spec_write [c] s)"
| "serial_spec (Self_test h m) s =
     (let (bs, s) = spec_read 128 s in ([], spec_write bs s))"

text \<open>The driver. The answers of an event start with its first question.\<close>

definition from_now :: "uart_hw \<Rightarrow> uart \<Rightarrow> uart_hw" where
  "from_now h u = h\<lparr>status := \<lambda>i n. status h i (n - polls u), rx_fifo := \<lambda>n. rx_fifo h (n - rx_reads u)\<rparr>"

fun serial_step :: "serial_event \<Rightarrow> uart \<Rightarrow> (u8 list \<times> uart) option" where
  "serial_step (Interrupt h) u = map_option (Pair []) (uart0_rx_intr_handler_buf (from_now h u) u)"
| "serial_step (Task h sig) u = map_option (Pair []) (uart_recvTask_buf (from_now h u) sig u)"
| "serial_step (Read dst n) u = map_option (\<lambda>(k, dst, u). (take (unat k) dst, u)) (rx_buff_deq dst n u)"
| "serial_step (Write h m bs n) u = map_option (Pair []) (tx_buff_enq (from_now h u) m bs n u)"
| "serial_step (Put_char h m c) u = map_option (Pair []) (uart0_write_char_no_wait_buf (from_now h u) m c u)"
| "serial_step (Self_test h m) u = map_option (Pair []) (uart_test_rx (from_now h u) m u)"

text \<open>The memory that the application hands over holds as many bytes as it says.\<close>

fun call_ok :: "serial_event \<Rightarrow> bool" where
  "call_ok (Read dst n) \<longleftrightarrow> unat n \<le> length dst"
| "call_ok (Write h m bs n) \<longleftrightarrow> unat n \<le> length bs"
| "call_ok e \<longleftrightarrow> True"

definition serial_view :: "uart \<Rightarrow> serial" where
  "serial_view u = \<lparr>in_q = buf_queue (the (pRxBuffer u)), out_q = buf_queue (the (pTxBuffer u)),
     wire = map snd (filter (\<lambda>p. fst p = UART0) (sent u))\<rparr>"

text \<open>Both buffers exist, have 256 bytes, and the receive buffer is never completely full.\<close>

definition serial_ready :: "uart \<Rightarrow> bool" where
  "serial_ready u \<longleftrightarrow> (\<exists>rx tx. pRxBuffer u = Some rx \<and> pTxBuffer u = Some tx \<and>
     buf_wf rx \<and> buf_wf tx \<and> UartBuffSize rx = 256 \<and> UartBuffSize tx = 256 \<and> 0 < unat (Space rx))"

section \<open>The driver keeps it\<close>

text \<open>Registers, recorded calls and the debug output on port 1 leave the buffers and port 0 alone.\<close>

definition untouched :: "uart \<Rightarrow> uart \<Rightarrow> bool" where
  "untouched u u' \<longleftrightarrow> pTxBuffer u' = pTxBuffer u \<and> pRxBuffer u' = pRxBuffer u \<and>
     filter (\<lambda>p. fst p = UART0) (sent u') = filter (\<lambda>p. fst p = UART0) (sent u)"

named_theorems untouched_simps \<open>operations that leave the buffers alone\<close>

lemma untouched_keeps:
  "untouched u u' \<Longrightarrow> serial_view u' = serial_view u \<and> serial_ready u' = serial_ready u"
  by (simp add: untouched_def serial_view_def serial_ready_def)

lemma debug_untouched: "untouched u (uart1_sendStr_no_wait h s u)"
proof (induction s arbitrary: u)
  case Nil
  then show ?case by (simp add: uart1_sendStr_no_wait_def untouched_def)
next
  case (Cons c s)
  have "untouched u (uart_tx_one_char_no_wait h UART1 c u)"
    by (simp add: uart_tx_one_char_no_wait_def read_status_def write_fifo_def untouched_def Let_def UART0_def UART1_def)
  then show ?case using Cons.IH [of "uart_tx_one_char_no_wait h UART1 c u"]
    by (simp add: uart1_sendStr_no_wait_def untouched_def)
qed

lemma reg_untouched:
  "untouched u (WRITE_REG r i w u)" "untouched u (SET_MASK r i w u)" "untouched u (CLEAR_MASK r i w u)"
  "untouched u (uart_rx_intr_enable i u)" "untouched u (uart_rx_intr_disable i u)"
  "untouched u (uart_do op u)"
  by (simp_all add: untouched_def SET_MASK_def CLEAR_MASK_def uart_rx_intr_enable_def
      uart_rx_intr_disable_def WRITE_REG_def uart_do_def)

lemma serial_keeps [untouched_simps]:
  "serial_view (WRITE_REG r i w u) = serial_view u" "serial_view (SET_MASK r i w u) = serial_view u"
  "serial_view (CLEAR_MASK r i w u) = serial_view u" "serial_view (uart_rx_intr_enable i u) = serial_view u"
  "serial_view (uart_rx_intr_disable i u) = serial_view u" "serial_view (uart_do op u) = serial_view u"
  "serial_view (uart1_sendStr_no_wait h s u) = serial_view u"
  "serial_ready (WRITE_REG r i w u) = serial_ready u" "serial_ready (SET_MASK r i w u) = serial_ready u"
  "serial_ready (CLEAR_MASK r i w u) = serial_ready u" "serial_ready (uart_rx_intr_enable i u) = serial_ready u"
  "serial_ready (uart_rx_intr_disable i u) = serial_ready u" "serial_ready (uart_do op u) = serial_ready u"
  "serial_ready (uart1_sendStr_no_wait h s u) = serial_ready u"
  by (simp_all add: untouched_keeps [OF reg_untouched(1)] untouched_keeps [OF reg_untouched(2)]
      untouched_keeps [OF reg_untouched(3)] untouched_keeps [OF reg_untouched(4)]
      untouched_keeps [OF reg_untouched(5)] untouched_keeps [OF reg_untouched(6)]
      untouched_keeps [OF debug_untouched])

lemma mask_buffers [untouched_simps]:
  "pTxBuffer (CLEAR_MASK r i w u) = pTxBuffer u" "pRxBuffer (CLEAR_MASK r i w u) = pRxBuffer u"
  "sent (CLEAR_MASK r i w u) = sent u" "polls (CLEAR_MASK r i w u) = polls u"
  by (simp_all add: CLEAR_MASK_def WRITE_REG_def)

lemma enq_implements:
  assumes ready: "serial_ready u" and n: "unat n \<le> length bs"
  shows "\<exists>u'. tx_buff_enq h m bs n u = Some u' \<and> serial_ready u' \<and>
    serial_view u' = spec_write (take (unat n) bs) (serial_view u)"
proof -
  obtain rx tx where tx: "pRxBuffer u = Some rx" "pTxBuffer u = Some tx" "buf_wf tx" "UartBuffSize tx = 256"
    using ready by (auto simp: serial_ready_def)
  let ?u = "CLEAR_MASK UART_INT_ENA UART0 (bits [UART_TXFIFO_EMPTY]) u"
  have len: "length (buf_queue tx) + unat (Space tx) = 256"
    using tx(3,4) by (simp_all add: length_buf_queue buf_wf_def buf_ring_def)
  show ?thesis
  proof (cases "unat n \<le> unat (Space tx)")
    case True
    then have fits: "length (buf_queue tx) + unat n \<le> 256" using len by linarith
    obtain b where b: "Uart_Buf_Cpy tx bs n = Some b" "buf_wf b"
        "buf_queue b = buf_queue tx @ take (unat n) bs" "UartBuffSize b = UartBuffSize tx"
      using cpy_queue [OF tx(3) True n] by blast
    have "serial_ready (?u\<lparr>pTxBuffer := Some b\<rparr>)"
      using ready b tx by (simp add: serial_ready_def untouched_simps)
    moreover have "serial_view (?u\<lparr>pTxBuffer := Some b\<rparr>) = spec_write (take (unat n) bs) (serial_view u)"
      using fits n b tx by (simp add: serial_view_def spec_write_def untouched_simps)
    ultimately show ?thesis
      using True tx b(1) by (simp add: tx_buff_enq_def untouched_simps Let_def)
  next
    case False
    then have "\<not> length (buf_queue tx) + unat n \<le> 256" using len by linarith
    then have "spec_write (take (unat n) bs) (serial_view u) = serial_view u"
      using n tx by (simp add: serial_view_def spec_write_def)
    with False tx ready show ?thesis
      by (simp add: tx_buff_enq_def untouched_simps Let_def DBG1_def)
  qed
qed

lemma task_implements:
  assumes ready: "serial_ready u"
  shows "\<exists>u'. Uart_rx_buff_enq (from_now h u) u = Some u' \<and> serial_ready u' \<and>
    serial_view u' = spec_receive (fifo_bytes h) (serial_view u)"
proof -
  obtain rx tx where rx: "pRxBuffer u = Some rx" "pTxBuffer u = Some tx" "buf_wf rx" "UartBuffSize rx = 256"
    using ready by (auto simp: serial_ready_def)
  let ?u = "u\<lparr>polls := Suc (polls u)\<rparr>" and ?n = "ucast (rx_count (status h UART0 0)) :: u8"
  have len: "length (buf_queue rx) + unat (Space rx) = 256" "length (pUartBuff rx) = 256"
    using rx(3,4) by (simp_all add: length_buf_queue buf_wf_def buf_ring_def)
  have bytes: "received (from_now h u) ?u (unat ?n) = fifo_bytes h"
    by (simp add: received_def fifo_bytes_def from_now_def)
  have n: "length (fifo_bytes h) = unat ?n" by (simp add: fifo_bytes_def)
  have st: "status (from_now h u) UART0 (polls u) = status h UART0 0" by (simp add: from_now_def)
  show ?thesis
  proof (cases "unat ?n < unat (Space rx)")
    case True
    then have fits: "length (buf_queue rx) + length (fifo_bytes h) < 256" using len n by linarith
    obtain b where b: "store_bytes (fifo_bytes h) rx = Some b" "buf_holds b (buf_queue rx @ fifo_bytes h)"
        "Space b = Space rx" "UartBuffSize b = UartBuffSize rx"
      using holds_stores [OF buf_wf_holds [OF rx(3)], of "fifo_bytes h"] fits len(2) by auto
    have sp: "unat (Space rx - ucast ?n) = unat (Space rx) - unat ?n"
      using True by (simp add: unat_sub word_le_nat_alt unat_widen)
    let ?b = "b\<lparr>Space := Space b - ucast ?n\<rparr>" and ?u' = "?u\<lparr>rx_reads := rx_reads u + unat ?n\<rparr>"
    have "length (pUartBuff b) = 256" using b(2,4) rx(4) by (simp add: buf_holds_def buf_ring_def)
    then have wf: "buf_wf ?b \<and> buf_queue ?b = buf_queue rx @ fifo_bytes h"
      using b(2,3) True len n sp by (intro buf_holds_wf) (simp_all, linarith?)
    have loop: "rx_enq_loop (from_now h u) (unat ?n) rx ?u = Some (b, ?u')"
      using rx_enq_loop_stores [of "from_now h u" ?u "unat ?n" rx b] b(1) bytes by simp
    have "serial_ready (?u'\<lparr>pRxBuffer := Some ?b\<rparr>)"
      using ready wf b rx True sp by (simp add: serial_ready_def)
    moreover have "serial_view (?u'\<lparr>pRxBuffer := Some ?b\<rparr>) = spec_receive (fifo_bytes h) (serial_view u)"
      using wf fits rx by (simp add: serial_view_def spec_receive_def)
    ultimately show ?thesis
      using True loop rx st by (simp add: Uart_rx_buff_enq_def read_status_def Let_def untouched_simps)
  next
    case False
    then have "\<not> length (buf_queue rx) + length (fifo_bytes h) < 256" using len n by linarith
    then have "spec_receive (fifo_bytes h) (serial_view u) = serial_view ?u"
      using rx by (simp add: serial_view_def spec_receive_def)
    moreover have "serial_ready ?u" using ready by (simp add: serial_ready_def)
    ultimately show ?thesis
      using False rx st by (simp add: Uart_rx_buff_enq_def read_status_def Let_def untouched_simps)
  qed
qed

lemma read_implements:
  assumes ready: "serial_ready u" and n: "unat n \<le> length dst"
  shows "\<exists>k dst' u'. rx_buff_deq dst n u = Some (k, dst', u') \<and> serial_ready u' \<and>
    unat k \<le> length dst' \<and> (take (unat k) dst', serial_view u') = spec_read (unat n) (serial_view u)"
proof -
  obtain rx tx where rx: "pRxBuffer u = Some rx" "pTxBuffer u = Some tx" "buf_wf rx" "UartBuffSize rx = 256"
      "0 < unat (Space rx)"
    using ready by (auto simp: serial_ready_def)
  let ?q = "buf_queue rx" and ?l = "ucast (UartBuffSize rx - ucast (Space rx)) :: u16"
  have "unat (Space rx) \<le> 256" "length ?q = 256 - unat (Space rx)"
    using rx(3,4) by (simp_all add: length_buf_queue buf_wf_def buf_ring_def)
  then have l: "unat ?l = length ?q"
    using unat_used [of "UartBuffSize rx" "Space rx"] rx(4) by simp
  define k where "k = (if n > ?l then ?l else n)"
  have k: "unat k = min (unat n) (length ?q)"
    using l by (auto simp: k_def word_less_nat_alt)
  then have kq: "unat k \<le> length ?q" "unat k \<le> length dst" using n by auto
  note t = taken_queue [OF rx(3) kq(1)] and copy = deq_copy_queue [OF rx(3,5) kq]
  let ?u = "u\<lparr>pRxBuffer := Some (taken rx k)\<rparr>" and ?dst = "take (unat k) ?q @ drop (unat k) dst"
  have "serial_ready ?u" using ready rx t by (simp add: serial_ready_def)
  moreover have "(take (unat k) ?dst, serial_view ?u) = spec_read (unat n) (serial_view u)"
    using rx t(2) k by (simp add: spec_read_def serial_view_def min_def)
  moreover have "rx_buff_deq dst n u = Some (k, ?dst,
      if unat (Space (taken rx k)) \<ge> UART_FIFO_LEN then uart_rx_intr_enable UART0 ?u else ?u)"
    using rx copy by (simp add: rx_buff_deq_def k_def Let_def)
  moreover have "unat k \<le> length ?dst" using kq by simp
  ultimately show ?thesis by (cases "unat (Space (taken rx k)) \<ge> UART_FIFO_LEN") (simp_all add: untouched_simps)
qed

lemma drain_implements:
  assumes ready: "serial_ready u"
  shows "\<exists>u'. tx_start_uart_buffer h UART0 u = Some u' \<and> serial_ready u' \<and>
    serial_view u' = spec_drain (unat (128 - ucast (tx_count (status h UART0 (polls u))) :: u8)) (serial_view u)"
proof -
  obtain rx tx where tx: "pRxBuffer u = Some rx" "pTxBuffer u = Some tx" "buf_wf tx" "UartBuffSize tx = 256"
    using ready by (auto simp: serial_ready_def)
  let ?q = "buf_queue tx" and ?l = "ucast (UartBuffSize tx - ucast (Space tx)) :: u16"
  let ?r = "128 - ucast (tx_count (status h UART0 (polls u))) :: u8"
  let ?u = "u\<lparr>polls := Suc (polls u)\<rparr>"
  have "unat (Space tx) \<le> 256" "length ?q = 256 - unat (Space tx)"
    using tx(3,4) by (simp_all add: length_buf_queue buf_wf_def buf_ring_def)
  then have l: "unat ?l = length ?q"
    using unat_used [of "UartBuffSize tx" "Space tx"] tx(4) by simp
  have moved: "\<exists>u'. tx_fifo_insert tx k UART0 ?u = Some (taken tx (ucast k), u') \<and>
      serial_ready (u'\<lparr>pTxBuffer := Some (taken tx (ucast k))\<rparr>) \<and>
      serial_view (u'\<lparr>pTxBuffer := Some (taken tx (ucast k))\<rparr>) = spec_drain (unat k) (serial_view u)"
    if k: "unat k \<le> length ?q" for k :: u8
  proof -
    have "unat (ucast k :: u16) \<le> length ?q" using k by (simp add: unat_widen)
    note t = taken_queue [OF tx(3) this]
    show ?thesis
      using fifo_insert_queue [OF tx(3) k, of UART0 ?u] ready tx t
      by (auto simp: serial_ready_def serial_view_def spec_drain_def unat_widen comp_def)
  qed
  show ?thesis
  proof (cases "unat ?l > unat ?r")
    case True
    then have "unat ?r \<le> length ?q" using l by simp
    from moved [OF this] True tx show ?thesis
      by (auto simp: tx_start_uart_buffer_def read_status_def Let_def untouched_simps)
  next
    case False
    then have k: "unat (ucast ?l :: u8) = length ?q"
    proof -
      have "unat ?r < 2 ^ LENGTH(8)" by (rule unsigned_less)
      with False have "unat ?l < 2 ^ 8" by simp
      then show ?thesis using l by (simp only: unat_narrow)
    qed
    then have "spec_drain (unat (ucast ?l :: u8)) (serial_view u) = spec_drain (unat ?r) (serial_view u)"
      using False l tx by (simp add: spec_drain_def serial_view_def)
    with moved [of "ucast ?l"] k False tx show ?thesis
      by (auto simp: tx_start_uart_buffer_def read_status_def Let_def untouched_simps)
  qed
qed

lemma interrupt_implements:
  assumes ready: "serial_ready u"
  shows "\<exists>u'. uart0_rx_intr_handler_buf (from_now h u) u = Some u' \<and> serial_ready u' \<and>
    serial_view u' = (if tx_empty_raised h then spec_drain (fifo_room h) (serial_view u) else serial_view u)"
proof (cases "tx_empty_raised h")
  case True
  let ?u = "CLEAR_MASK UART_INT_ENA UART0 (bits [UART_TXFIFO_EMPTY]) u"
  have "status (from_now h u) UART0 (polls ?u) = status h UART0 0"
    by (simp add: from_now_def untouched_simps)
  then obtain u' where "tx_start_uart_buffer (from_now h u) UART0 ?u = Some u'" "serial_ready u'"
      "serial_view u' = spec_drain (fifo_room h) (serial_view u)"
    using drain_implements [of ?u "from_now h u"] ready by (auto simp: fifo_room_def untouched_simps)
  with True show ?thesis
    by (simp add: uart0_rx_intr_handler_buf_def tx_empty_raised_def from_now_def and_bits_eq Let_def
        untouched_simps UART_FRM_ERR_def UART_RXFIFO_FULL_def UART_RXFIFO_TOUT_def UART_TXFIFO_EMPTY_def)
next
  case False
  then show ?thesis using ready
    by (auto simp: uart0_rx_intr_handler_buf_def tx_empty_raised_def from_now_def and_bits_eq Let_def
        untouched_simps UART_FRM_ERR_def UART_RXFIFO_FULL_def UART_RXFIFO_TOUT_def UART_TXFIFO_EMPTY_def)
qed

interpretation port: simulation serial_step serial_spec serial_view serial_ready call_ok
proof unfold_locales
  fix u :: uart and e :: serial_event
  assume ready: "serial_ready u" and ok: "call_ok e"
  show "\<exists>u'. serial_step e u = Some (fst (serial_spec e (serial_view u)), u') \<and> serial_ready u' \<and>
    serial_view u' = snd (serial_spec e (serial_view u))"
  proof (cases e)
    case (Interrupt h)
    with interrupt_implements [OF ready, of h] show ?thesis by auto
  next
    case (Task h sig)
    with task_implements [OF ready, of h] ready show ?thesis by (auto simp: uart_recvTask_buf_def)
  next
    case (Read dst n)
    with read_implements [OF ready, of n dst] ok show ?thesis by (auto simp: prod_eq_iff)
  next
    case (Write h m bs n)
    with enq_implements [OF ready] ok show ?thesis by auto
  next
    case (Put_char h m c)
    obtain u1 where u1: "tx_buff_enq (from_now h u) m [13] 1 u = Some u1" "serial_ready u1"
        "serial_view u1 = spec_write [13] (serial_view u)"
      using enq_implements [OF ready, of 1 "[13]"] by auto
    with Put_char enq_implements [OF u1(2), of 1 "[10]"] enq_implements [OF ready, of 1 "[c]"] ready
    show ?thesis by (auto simp: uart0_write_char_no_wait_buf_def)
  next
    case (Self_test h m)
    obtain k dst u1 where u1: "rx_buff_deq (replicate 128 0) 128 u = Some (k, dst, u1)" "serial_ready u1"
        "unat k \<le> length dst" "(take (unat k) dst, serial_view u1) = spec_read 128 (serial_view u)"
      using read_implements [OF ready, of 128 "replicate 128 0"] by auto
    with Self_test enq_implements [OF u1(2,3), of "from_now h u" m] show ?thesis
      by (auto simp: uart_test_rx_def prod_eq_iff split_beta Let_def)
  qed
qed

text \<open>So the driver runs for ever, whatever the order of the calls, the tasks and the interrupts.\<close>

lemma serial_never_stuck:
  "(\<lambda>u v. \<exists>e x. call_ok e \<and> serial_step e u = Some (x, v))\<^sup>*\<^sup>* u v \<Longrightarrow> serial_ready u \<Longrightarrow>
     call_ok e \<Longrightarrow> \<exists>x v'. serial_step e v = Some (x, v')"
  by (rule port.never_stuck)

section \<open>From the initialisation on\<close>

text \<open>The heap has a block for each buffer; the clock rates are not zero.\<close>

definition heap_has_buffer :: "uart_heap \<Rightarrow> bool" where
  "heap_has_buffer m \<longleftrightarrow> 256 < free_heap m \<and> struct_allocated m \<and> length (fresh_block m 256) = 256"

lemma fresh_buffer:
  assumes "length m = 256"
  shows "buf_wf \<lparr>UartBuffSize = 256, pUartBuff = m, pInPos = 0, pOutPos = 0, Space = 256\<rparr> \<and>
    buf_queue \<lparr>UartBuffSize = 256, pUartBuff = m, pInPos = 0, pOutPos = 0, Space = 256\<rparr> = []"
  using assms by (auto simp: buf_wf_def buf_ring_def buf_queue_def)

lemma config_sends_nothing: "uart_config i u = Some u' \<Longrightarrow> sent u' = sent u"
  by (auto simp: uart_config_def bind_eq_Some_conv Let_def SET_MASK_def CLEAR_MASK_def uart_do_def)

lemma uart_config_defined: "baut_rate (UartDev u) \<noteq> 0 \<Longrightarrow> \<exists>u'. uart_config i u = Some u'"
  by (simp add: uart_config_def baud_divider_def uart_do_def Let_def)

lemma uart_init_defined:
  assumes "r0 \<noteq> 0" and "r1 \<noteq> 0"
  shows "\<exists>u'. uart_init r0 r1 u = Some u' \<and> sent u' = sent u"
proof -
  let ?u = "set_baut_rate r0 (uart_do (Os_task 0 10) u)"
  obtain u1 where u1: "uart_config UART0 ?u = Some u1"
    using uart_config_defined [of ?u UART0] assms(1) by (auto simp: set_baut_rate_def)
  obtain u2 where u2: "uart_config UART1 (set_baut_rate r1 u1) = Some u2"
    using uart_config_defined [of "set_baut_rate r1 u1" UART1] assms(2) by (auto simp: set_baut_rate_def)
  from config_sends_nothing [OF u1] config_sends_nothing [OF u2] u1 u2 show ?thesis
    by (simp add: uart_init_def set_baut_rate_def uart_do_def)
qed

lemma init_ready:
  assumes "r0 \<noteq> 0" and "r1 \<noteq> 0" and "heap_has_buffer m" and "heap_has_buffer m'"
  shows "\<exists>u0. uart_init_buf h m m' selftest r0 r1 u = Some u0 \<and> serial_ready u0 \<and>
    serial_view u0 = \<lparr>in_q = [], out_q = [], wire = map snd (filter (\<lambda>p. fst p = UART0) (sent u))\<rparr>"
proof -
  obtain u1 where "uart_init r0 r1 u = Some u1" "sent u1 = sent u"
    using uart_init_defined [OF assms(1,2)] by blast
  moreover have "Uart_Buf_Init h m UART_BUFFER_SIZE v =
      Some (Some \<lparr>UartBuffSize = 256, pUartBuff = fresh_block m 256, pInPos = 0, pOutPos = 0, Space = 256\<rparr>, v)"
    if "heap_has_buffer m" for m v
    using that by (auto simp: heap_has_buffer_def Uart_Buf_Init_def UART_BUFFER_SIZE_def not_le)
  moreover note fresh_buffer [of "fresh_block m 256"] fresh_buffer [of "fresh_block m' 256"]
  ultimately show ?thesis using assms(3,4)
    by (simp add: uart_init_buf_def serial_ready_def serial_view_def heap_has_buffer_def uart_do_def Let_def)
qed

text \<open>
  C11. The buffered serial port implements two bounded queues. From its initialisation on, whatever
  order the interrupts, the receive task, reads, writes, single characters and the self test come
  in, the driver never leaves its buffers; every read gives the bytes that were received and kept,
  in order; what goes out on port 0 and what waits to go out is what was accepted, in order, as on
  the queues of the specification.
\<close>

theorem serial_refines:
  assumes "r0 \<noteq> 0" and "r1 \<noteq> 0" and "heap_has_buffer m" and "heap_has_buffer m'"
    and "list_all call_ok es"
    and "s0 = \<lparr>in_q = [], out_q = [], wire = map snd (filter (\<lambda>p. fst p = UART0) (sent u))\<rparr>"
  shows "\<exists>u0 u'. uart_init_buf h m m' selftest r0 r1 u = Some u0 \<and>
    run_steps serial_step es u0 = Some (fst (run_spec serial_spec es s0), u') \<and>
    serial_view u' = snd (run_spec serial_spec es s0)"
  using init_ready [OF assms(1-4), of h selftest u] port.run_simulates [OF _ assms(5)] assms(6)
  by metis

text \<open>Three bytes come in, two are read; four bytes are accepted, two fit into the send FIFO.\<close>

definition roomy :: uart_heap where
  "roomy = \<lparr>free_heap = 40000, struct_allocated = True, fresh_block = (\<lambda>n. replicate (unat n) 0)\<rparr>"

definition send_interrupt :: uart_hw where
  "send_interrupt = port\<lparr>int_st := (\<lambda>n. 2), status := (\<lambda>i n. 0x7E0000)\<rparr>"

definition traffic :: "serial_event list" where
  "traffic = [Task port 0, Read [0, 0, 0] 2, Write port roomy [1, 2, 3] 3, Put_char port roomy 10,
     Interrupt send_interrupt]"

lemma traffic_spec:
  "run_spec serial_spec traffic \<lparr>in_q = [], out_q = [], wire = []\<rparr> =
     ([[], [0x41, 0x42], [], [], []], \<lparr>in_q = [0x43], out_q = [3, 13, 10], wire = [1, 2]\<rparr>)"
  by (simp add: traffic_def spec_receive_def spec_read_def spec_write_def spec_drain_def fifo_bytes_def
      fifo_room_def tx_empty_raised_def send_interrupt_def port_def rx_count_def tx_count_def
      UART_FRM_ERR_def UART_RXFIFO_FULL_def UART_RXFIFO_TOUT_def UART_TXFIFO_EMPTY_def upt_rec bit_numeral_rec)

lemma roomy_has_buffer: "heap_has_buffer roomy"
  by (simp add: heap_has_buffer_def roomy_def)

theorem serial_refines_witness:
  "\<exists>u0 u'. uart_init_buf port roomy roomy False 115200 115200 idle_uart = Some u0 \<and>
     run_steps serial_step traffic u0 = Some ([[], [0x41, 0x42], [], [], []], u') \<and>
     serial_view u' = \<lparr>in_q = [0x43], out_q = [3, 13, 10], wire = [1, 2]\<rparr>"
proof -
  have "list_all call_ok traffic" by (simp add: traffic_def)
  moreover have "\<lparr>in_q = [], out_q = [], wire = []\<rparr> =
      \<lparr>in_q = [], out_q = [], wire = map snd (filter (\<lambda>p. fst p = UART0) (sent idle_uart))\<rparr>"
    by (simp add: idle_uart_def)
  ultimately show ?thesis
    using serial_refines [of 115200 115200 roomy roomy traffic "\<lparr>in_q = [], out_q = [], wire = []\<rparr>" idle_uart port False]
    by (simp add: roomy_has_buffer traffic_spec)
qed

text \<open>
  The buffer that the first write creates is not compared with the length. Up to twice its size the
  block is copied over itself and the free space wraps round; beyond that the copy leaves the block.
\<close>

lemma first_write_too_long:
  assumes "pTxBuffer u = None" and "heap_has_buffer m" and "256 < unat n" and "unat n \<le> length bs"
  shows "512 < unat n \<Longrightarrow> tx_buff_enq h m bs n u = None"
    and "unat n \<le> 512 \<Longrightarrow> \<exists>u' b. tx_buff_enq h m bs n u = Some u' \<and> pTxBuffer u' = Some b \<and> 256 < unat (Space b)"
proof -
  let ?m = "fresh_block m 256"
  let ?b = "\<lparr>UartBuffSize = 256, pUartBuff = ?m, pInPos = 0, pOutPos = 0, Space = 256 :: u16\<rparr>"
  let ?b1 = "\<lparr>UartBuffSize = 256, pUartBuff = take 256 bs, pInPos = 0, pOutPos = 0, Space = 0 :: u16\<rparr>"
  have init: "Uart_Buf_Init h m UART_BUFFER_SIZE v = Some (Some ?b, v)" for v
    using assms(2) by (auto simp: heap_has_buffer_def Uart_Buf_Init_def UART_BUFFER_SIZE_def not_le)
  have gt: "\<not> n \<le> 256" "n \<noteq> 0" using assms(3) by (auto simp: word_le_nat_alt)
  have "buf_memcpy_in ?b bs 256 = Some ?b1"
    using assms(2-4) by (simp add: buf_memcpy_in_def rd_block_def wr_block_def wrap_pos_def heap_has_buffer_def)
  then have cpy: "Uart_Buf_Cpy ?b bs n = buf_memcpy_in ?b1 (drop 256 bs) (unat (n - 256))"
    using gt by (simp add: Uart_Buf_Cpy_def)
  have d: "unat (n - 256) = unat n - 256" using assms(3) by (simp add: unat_sub word_le_nat_alt)
  have "Uart_Buf_Cpy ?b bs n = None" if "512 < unat n"
  proof -
    have "\<not> unat n - 256 \<le> 256" using that by linarith
    then show ?thesis using assms(4) cpy d
      by (simp add: buf_memcpy_in_def rd_block_def wr_block_def bind_eq_None_conv)
  qed
  then show "512 < unat n \<Longrightarrow> tx_buff_enq h m bs n u = None"
    using assms(1) by (simp add: tx_buff_enq_def untouched_simps init)
  have "256 < unat (256 - n)" if "unat n \<le> 512"
    using that assms(3) by (simp add: unat_sub_if' word_le_nat_alt)
  moreover have "unat (n - 256) \<le> length bs - 256" using assms(4) d by linarith
  moreover have "unat (n - 256) \<le> 256" if "unat n \<le> 512" using that d by linarith
  ultimately have "unat n \<le> 512 \<Longrightarrow> \<exists>b. Uart_Buf_Cpy ?b bs n = Some b \<and> 256 < unat (Space b)"
    using cpy by (simp add: buf_memcpy_in_def rd_block_def wr_block_def wrap_pos_def)
  then show "unat n \<le> 512 \<Longrightarrow> \<exists>u' b. tx_buff_enq h m bs n u = Some u' \<and> pTxBuffer u' = Some b \<and> 256 < unat (Space b)"
    using assms(1) by (auto simp: tx_buff_enq_def untouched_simps init SET_MASK_def WRITE_REG_def)
qed

end
