(* ===== verification/Sdio_Slave.thy ===== *)
theory Sdio_Slave
  imports Prelude
begin

text \<open>
  The SDIO slave, \<open>driver_lib/driver/sdio_slv.c\<close>: data for the host is copied into buffers that
  form two linked lists, the buffers to send (the head is the one the host reads) and the buffers
  that were sent and are free (the head may be partly filled). A pointer to a list element is the
  address of the element in \<open>heap\<close>, \<open>tail\<close> is an offset into the element's buffer. What the SDIO
  hardware does - it raises an interrupt when the host has read a started buffer or has written
  one, and it answers the interrupt status - is a parameter.
\<close>

section \<open>Registers and descriptors\<close>

datatype slc_reg = SLC_CONF0 | SLC_RX_DSCR_CONF | SLC_HOST_INTR_CLR | SLC_HOST_INTR_ENA | SLC_RX_LINK
  | SLC_TX_LINK | SLC_HOST_CONF_W2 | SLC_INT_ENA | SLC_INT_CLR | SLC_INTVEC_TOHOST

definition SLC_RX_EOF :: nat where "SLC_RX_EOF = 17"

definition SLC_TX_EOF :: nat where "SLC_TX_EOF = 15"

definition SLC_RX_UDF :: nat where "SLC_RX_UDF = 10"

definition SLC_TX_DSCR_ERR :: nat where "SLC_TX_DSCR_ERR = 19"

definition LINK_START :: nat where "LINK_START = 29"

definition RX_BUFFER_SIZE :: nat where "RX_BUFFER_SIZE = 512"

definition RX_BUFFER_NUM :: nat where "RX_BUFFER_NUM = 4"

text \<open>The status register that the host reads, with its bit fields.\<close>

record sdio_slave_status =
  wr_busy :: "1 word"
  rd_empty :: "1 word"
  comm_cnt :: "3 word"
  intr_no :: "3 word"
  rx_length :: u16
  res :: u8

definition sta_word :: "sdio_slave_status \<Rightarrow> u32" where
  "sta_word s = ucast (wr_busy s) OR push_bit 1 (ucast (rd_empty s)) OR push_bit 2 (ucast (comm_cnt s))
     OR push_bit 5 (ucast (intr_no s)) OR push_bit 8 (ucast (rx_length s)) OR push_bit 24 (ucast (res s))"

definition of_sta_word :: "u32 \<Rightarrow> sdio_slave_status" where
  "of_sta_word w = \<lparr>wr_busy = ucast w, rd_empty = ucast (drop_bit 1 w), comm_cnt = ucast (drop_bit 2 w),
     intr_no = ucast (drop_bit 5 w), rx_length = ucast (drop_bit 8 w), res = ucast (drop_bit 24 w)\<rparr>"

datatype buf_ref = Element nat | Tx_buffer | Unset

text \<open>A descriptor of the hardware (\<open>struct sdio_queue\<close>).\<close>

record sdio_queue =
  blocksize :: "12 word"
  datalen :: "12 word"
  unused :: "5 word"
  sub_sof :: "1 word"
  eof :: "1 word"
  owner :: "1 word"
  buf_ptr :: buf_ref
  next_link_ptr :: u32

section \<open>State\<close>

record sdio_list =
  buffer :: "u8 list"
  tail :: nat
  next_elem :: "nat option"

datatype sdio_op =
    Sdio_printf cstring
  | Printf_status u32
  | Sdio_intr_disable
  | Sdio_intr_enable
  | Sdio_intr_attach
  | Recv_callback nat "u8 list"

text \<open>\<open>rx_armed\<close>: the descriptor for the host was started and the host has not read it yet.\<close>

record sdio =
  slc :: "slc_reg \<Rightarrow> u32"
  heap :: "nat \<Rightarrow> sdio_list option"
  pHead_ToSend :: "nat option"
  pTail_ToSend :: "nat option"
  pHead_Sended :: "nat option"
  pTail_Sended :: "nat option"
  has_read :: bool
  rx_que :: sdio_queue
  tx_que :: sdio_queue
  tx_buffer :: "u8 list"
  recv_cb :: "nat option"
  rx_armed :: bool
  sdio_ops :: "sdio_op list"

definition sdio_do :: "sdio_op \<Rightarrow> sdio \<Rightarrow> sdio" where
  "sdio_do op s = s\<lparr>sdio_ops := sdio_ops s @ [op]\<rparr>"

text \<open>Setting the start bit of the receive link hands the descriptor to the hardware.\<close>

definition slc_write :: "slc_reg \<Rightarrow> u32 \<Rightarrow> sdio \<Rightarrow> sdio" where
  "slc_write r w s = s\<lparr>slc := (slc s)(r := w)\<rparr>"

definition slc_set :: "slc_reg \<Rightarrow> u32 \<Rightarrow> sdio \<Rightarrow> sdio" where
  "slc_set r m s =
     (let s = slc_write r (slc s r OR m) s
      in if r = SLC_RX_LINK \<and> bit m LINK_START then s\<lparr>rx_armed := True\<rparr> else s)"

definition slc_clear :: "slc_reg \<Rightarrow> u32 \<Rightarrow> sdio \<Rightarrow> sdio" where
  "slc_clear r m s = slc_write r (slc s r AND NOT m) s"

definition TRIG_TOHOST_INT :: "sdio \<Rightarrow> sdio" where
  "TRIG_TOHOST_INT s = slc_set SLC_INTVEC_TOHOST (bits [0]) s"

text \<open>Reading and changing a list element through a pointer.\<close>

definition elem :: "nat option \<Rightarrow> sdio \<Rightarrow> sdio_list option" where
  "elem p s = p \<bind> heap s"

definition set_elem :: "nat option \<Rightarrow> (sdio_list \<Rightarrow> sdio_list) \<Rightarrow> sdio \<Rightarrow> sdio option" where
  "set_elem p f s =
     do { a \<leftarrow> p; e \<leftarrow> heap s a; Some (s\<lparr>heap := (heap s)(a \<mapsto> f e)\<rparr>) }"

section \<open>The status for the host\<close>

definition update_status :: "(sdio_slave_status \<Rightarrow> sdio_slave_status) \<Rightarrow> sdio \<Rightarrow> sdio" where
  "update_status f s = slc_write SLC_HOST_CONF_W2 (sta_word (f (of_sta_word (slc s SLC_HOST_CONF_W2)))) s"

definition RX_AVAILIBLE :: "3 word" where "RX_AVAILIBLE = 2"

definition TX_AVAILIBLE :: "3 word" where "TX_AVAILIBLE = 1"

definition rx_buff_read_done :: "sdio \<Rightarrow> sdio" where
  "rx_buff_read_done s = update_status (\<lambda>t. t\<lparr>comm_cnt := comm_cnt t + 1, rd_empty := 1, rx_length := 0,
     intr_no := intr_no t AND NOT RX_AVAILIBLE\<rparr>) s"

definition tx_buff_write_done :: "sdio \<Rightarrow> sdio" where
  "tx_buff_write_done s = update_status (\<lambda>t. t\<lparr>comm_cnt := comm_cnt t + 1, wr_busy := 1,
     intr_no := intr_no t AND NOT TX_AVAILIBLE\<rparr>) s"

text \<open>The status is read before the start bit is set and written after it.\<close>

definition tx_buff_handle_done :: "sdio \<Rightarrow> sdio" where
  "tx_buff_handle_done s =
     (let s = s\<lparr>tx_que := (tx_que s)\<lparr>blocksize := 512, datalen := 0, eof := 0, owner := 1\<rparr>\<rparr>;
          sta = of_sta_word (slc s SLC_HOST_CONF_W2);
          sta = sta\<lparr>wr_busy := 0, intr_no := intr_no sta OR TX_AVAILIBLE\<rparr>;
          s = slc_set SLC_TX_LINK (bits [LINK_START]) s
      in slc_write SLC_HOST_CONF_W2 (sta_word sta) s)"

definition rx_buff_load_done :: "u16 \<Rightarrow> sdio \<Rightarrow> u16 \<times> sdio" where
  "rx_buff_load_done rx_len s =
     (if rx_len = 0 then (0, s)
      else
        let rx_len = (if unat rx_len > unat (blocksize (rx_que s)) then ucast (blocksize (rx_que s)) else rx_len);
            s = s\<lparr>rx_que := (rx_que s)\<lparr>blocksize := 512, datalen := ucast rx_len, eof := 1, owner := 1\<rparr>\<rparr>;
            sta = of_sta_word (slc s SLC_HOST_CONF_W2);
            sta = sta\<lparr>rd_empty := 0, intr_no := intr_no sta OR RX_AVAILIBLE, rx_length := rx_len\<rparr>;
            s = slc_set SLC_RX_LINK (bits [LINK_START]) s
        in (rx_len, slc_write SLC_HOST_CONF_W2 (sta_word sta) s))"

section \<open>Loading data for the host\<close>

text \<open>The element at \<open>pHead_ToSend\<close> becomes the buffer of the descriptor.\<close>

definition load_head :: "sdio \<Rightarrow> sdio option" where
  "load_head s =
     do {
       a \<leftarrow> pHead_ToSend s;
       e \<leftarrow> heap s a;
       let s = s\<lparr>rx_que := (rx_que s)\<lparr>buf_ptr := Element a\<rparr>\<rparr>;
       Some ((snd (rx_buff_load_done (of_nat (tail e)) s))\<lparr>has_read := False\<rparr>)
     }"

definition sdio_try_to_load :: "sdio \<Rightarrow> sdio option" where
  "sdio_try_to_load s =
     (if has_read s \<and> pHead_ToSend s \<noteq> None then map_option TRIG_TOHOST_INT (load_head s) else Some s)"

text \<open>The head of the free list goes to the end of the list to send, or starts it.\<close>

definition head_starts_send :: "sdio \<Rightarrow> sdio" where
  "head_starts_send s = s\<lparr>pTail_ToSend := pHead_Sended s, pHead_ToSend := pHead_Sended s\<rparr>"

definition advance_sended :: "sdio \<Rightarrow> sdio option" where
  "advance_sended s =
     do {
       e \<leftarrow> elem (pHead_Sended s) s;
       let s = s\<lparr>pHead_Sended := next_elem e\<rparr>;
       set_elem (pTail_ToSend s) (\<lambda>e. e\<lparr>next_elem := None\<rparr>) s
     }"

definition move_to_send :: "sdio \<Rightarrow> sdio option" where
  "move_to_send s =
     do {
       s \<leftarrow> (if pHead_ToSend s = None then Some (head_starts_send s)
             else do {
               s \<leftarrow> set_elem (pTail_ToSend s) (\<lambda>e. e\<lparr>next_elem := pHead_Sended s\<rparr>) s;
               e \<leftarrow> elem (pTail_ToSend s) s;
               Some (s\<lparr>pTail_ToSend := next_elem e\<rparr>)
             });
       advance_sended s
     }"

definition copy_to_head :: "u8 list \<Rightarrow> nat \<Rightarrow> sdio \<Rightarrow> sdio option" where
  "copy_to_head data n s =
     do {
       e \<leftarrow> elem (pHead_Sended s) s;
       xs \<leftarrow> rd_block data 0 n;
       b \<leftarrow> wr_block (buffer e) (tail e) xs;
       set_elem (pHead_Sended s) (\<lambda>e. e\<lparr>buffer := b, tail := tail e + n\<rparr>) s
     }"

text \<open>In the last round \<open>len\<close> is set to 0 before it is added to the count.\<close>

partial_function (option) load_loop :: "u8 list \<Rightarrow> u32 \<Rightarrow> u32 \<Rightarrow> sdio \<Rightarrow> (u32 \<times> sdio) option" where
  "load_loop data len data_len s =
     (if len = 0 then Some (data_len, s)
      else do {
        e \<leftarrow> elem (pHead_Sended s) s;
        let left_len = (512 - of_nat (tail e) :: u32);
        if len < left_len then do {
          s \<leftarrow> copy_to_head data (unat len) s;
          load_loop data 0 (data_len + 0) s
        } else do {
          s \<leftarrow> copy_to_head data (unat left_len) s;
          s \<leftarrow> move_to_send s;
          (if pHead_Sended s = None
           then Some (data_len + left_len, sdio_do (Sdio_printf (lit ''buf full'' @ [13, 10])) s)
           else load_loop (drop (unat left_len) data) (len - left_len) (data_len + left_len) s)
        }
      })"

definition sdio_load_data :: "u8 list \<Rightarrow> u32 \<Rightarrow> sdio \<Rightarrow> (u32 \<times> sdio) option" where
  "sdio_load_data data len s =
     (if pHead_Sended s = None then Some (0, sdio_do (Sdio_printf (lit ''no buf'' @ [13, 10])) s)
      else do {
        (data_len, s) \<leftarrow> load_loop data len 0 s;
        (if pHead_ToSend s = None then do {
           s \<leftarrow> advance_sended (head_starts_send s);
           s \<leftarrow> sdio_try_to_load s;
           Some (data_len, s)
         } else Some (data_len, s))
      })"

section \<open>Interrupts\<close>

text \<open>The head of the list to send was read: it is emptied and appended to the free list.\<close>

definition free_head :: "sdio \<Rightarrow> sdio option" where
  "free_head s =
     do {
       s \<leftarrow> set_elem (pHead_ToSend s) (\<lambda>e. e\<lparr>tail := 0\<rparr>) (s\<lparr>has_read := True\<rparr>);
       s \<leftarrow> (if pHead_Sended s \<noteq> None then do {
               s \<leftarrow> set_elem (pTail_Sended s) (\<lambda>e. e\<lparr>next_elem := pHead_ToSend s\<rparr>) s;
               e \<leftarrow> elem (pTail_Sended s) s;
               Some (s\<lparr>pTail_Sended := next_elem e\<rparr>)
             } else Some (s\<lparr>pTail_Sended := pHead_ToSend s, pHead_Sended := pHead_ToSend s\<rparr>));
       e \<leftarrow> elem (pHead_ToSend s) s;
       let s = s\<lparr>pHead_ToSend := next_elem e\<rparr>;
       set_elem (pTail_Sended s) (\<lambda>e. e\<lparr>next_elem := None\<rparr>) s
     }"

definition sdio_read_done_process :: "sdio \<Rightarrow> sdio option" where
  "sdio_read_done_process s =
     do {
       s \<leftarrow> free_head s;
       s \<leftarrow> (if pHead_ToSend s \<noteq> None then load_head s
             else if pHead_Sended s \<noteq> None then do {
               e \<leftarrow> elem (pHead_Sended s) s;
               if tail e \<noteq> 0 then do {
                 s \<leftarrow> advance_sended (head_starts_send s);
                 load_head s
               } else Some s
             } else Some s);
       Some (TRIG_TOHOST_INT s)
     }"

text \<open>The host has written a buffer: the callback gets its bytes, then the buffer is given back.\<close>

definition from_host_done :: "sdio \<Rightarrow> sdio option" where
  "from_host_done s =
     do {
       let s = tx_buff_write_done s;
       s \<leftarrow> (case recv_cb s of
               None \<Rightarrow> Some s
             | Some f \<Rightarrow> do {
                 xs \<leftarrow> rd_block (tx_buffer s) 0 (unat (datalen (tx_que s)));
                 Some (sdio_do (Recv_callback f xs) s)
               });
       Some (TRIG_TOHOST_INT (tx_buff_handle_done s))
     }"

text \<open>\<open>status\<close> and \<open>status2\<close> are the two answers of the interrupt status register.\<close>

definition sdio_slave_isr :: "u32 \<Rightarrow> u32 \<Rightarrow> sdio \<Rightarrow> sdio option" where
  "sdio_slave_isr status status2 s =
     (if status = 0 then Some s
      else do {
        let s = slc_write SLC_INT_CLR status s;
        s \<leftarrow> (if status AND bits [SLC_RX_EOF] \<noteq> 0 then sdio_read_done_process (rx_buff_read_done s) else Some s);
        s \<leftarrow> (if status AND bits [SLC_TX_EOF] \<noteq> 0 then from_host_done s else Some s);
       Some (if status2 \<noteq> 0 then sdio_do (Printf_status status2) (slc_write SLC_INT_CLR status2 s) else s)
      })"

definition sdio_register_recv_cb :: "nat option \<Rightarrow> sdio \<Rightarrow> bool \<times> sdio" where
  "sdio_register_recv_cb cb s = (True, s\<lparr>recv_cb := cb\<rparr>)"

section \<open>Initialisation\<close>

text \<open>
  The addresses and contents that \<open>os_malloc\<close> gives for the list elements; \<open>None\<close> is NULL, which
  the loop dereferences. \<open>p\<close> is the last element allocated.
\<close>

fun init_loop :: "(nat \<times> u8 list) option list \<Rightarrow> nat option \<Rightarrow> sdio \<Rightarrow> (nat option \<times> sdio) option" where
  "init_loop [] p s = Some (p, s)"
| "init_loop (m # ms) p s =
     do {
       (p, s) \<leftarrow> (if pHead_Sended s = None
                   then Some (map_option fst m, s\<lparr>pHead_Sended := map_option fst m\<rparr>)
                   else map_option (Pair (map_option fst m)) (set_elem p (\<lambda>e. e\<lparr>next_elem := map_option fst m\<rparr>) s));
       (a, b) \<leftarrow> m;
       init_loop ms p (s\<lparr>heap := (heap s)(a \<mapsto> \<lparr>buffer = b, tail = 0, next_elem = None\<rparr>)\<rparr>)
     }"

definition link_init :: "slc_reg \<Rightarrow> u32 \<Rightarrow> sdio \<Rightarrow> sdio" where
  "link_init r addr s = slc_set r (addr AND 0x000FFFFF) (slc_clear r 0x000FFFFF s)"

definition sdio_slave_init :: "(nat \<Rightarrow> (nat \<times> u8 list) option) \<Rightarrow> u32 \<Rightarrow> u32 \<Rightarrow> sdio \<Rightarrow> sdio option" where
  "sdio_slave_init mallocs rx_que_addr tx_que_addr s =
     do {
       let s = sdio_do Sdio_intr_disable s;
       let s = slc_clear SLC_CONF0 (bits [0, 1]) (slc_set SLC_CONF0 (bits [0, 1]) s);
       let s = sdio_do (Sdio_printf (lit ''RX&TX link reset!'' @ [10])) s;
       let s = slc_set SLC_RX_DSCR_CONF (bits [18, 19]) s;
       let s = slc_write SLC_HOST_INTR_CLR 0xffffffff s;
       let s = slc_set SLC_HOST_INTR_ENA (bits [0]) s;
       let s = s\<lparr>has_read := True, pHead_ToSend := None\<rparr>;
       (p, s) \<leftarrow> init_loop (map mallocs [0..<RX_BUFFER_NUM]) None s;
       let s = s\<lparr>pTail_Sended := p\<rparr>;
       a \<leftarrow> pHead_Sended s;
       let s = s\<lparr>rx_que := \<lparr>blocksize = 512, datalen = 0, unused = 0, sub_sof = 0, eof = 1, owner = 1,
                   buf_ptr = Element a, next_link_ptr = 0\<rparr>,
                 tx_que := \<lparr>blocksize = 512, datalen = 0, unused = 0, sub_sof = 0, eof = 0, owner = 1,
                   buf_ptr = Tx_buffer, next_link_ptr = 0\<rparr>\<rparr>;
       let s = link_init SLC_RX_LINK rx_que_addr s;
       let s = link_init SLC_TX_LINK tx_que_addr s;
       let s = slc_set SLC_RX_DSCR_CONF (bits [16]) s;
       let s = slc_set SLC_TX_LINK (bits [LINK_START]) s;
       let s = slc_write SLC_HOST_CONF_W2 (sta_word \<lparr>wr_busy = 0, rd_empty = 1, comm_cnt = 7, intr_no = 0,
                 rx_length = 0, res = 0\<rparr>) s;
       let s = sdio_do Sdio_intr_attach s;
       let s = slc_write SLC_INT_ENA (bits [SLC_TX_EOF, SLC_RX_EOF, SLC_RX_UDF, SLC_TX_DSCR_ERR]) s;
       let s = slc_write SLC_INT_CLR 0xffffffff s;
       Some (sdio_do Sdio_intr_enable s)
     }"

end
