(* ===== verification/Sdio_Spec.thy ===== *)
theory Sdio_Spec
  imports Sdio_Slave
begin

text \<open>
  What the SDIO slave promises to the host: the loaded bytes arrive in order, cut into buffers.
  The first part relates the linked lists in memory to the lists of their elements, the second
  states the promise on lists of chunks, the third shows that the driver implements it.
\<close>

section \<open>Linked lists in memory\<close>

text \<open>The pointer \<open>p\<close> leads through the elements \<open>as\<close> to NULL.\<close>

fun chain :: "(nat \<Rightarrow> sdio_list option) \<Rightarrow> nat option \<Rightarrow> nat list \<Rightarrow> bool" where
  "chain h p [] \<longleftrightarrow> p = None"
| "chain h p (a # as) \<longleftrightarrow> p = Some a \<and> (\<exists>e. h a = Some e \<and> chain h (next_elem e) as)"

lemma chain_update: "a \<notin> set as \<Longrightarrow> chain (h(a := v)) p as = chain h p as"
  by (induction as arbitrary: p) auto

lemma chain_None [simp]: "chain h None as \<longleftrightarrow> as = []"
  by (cases as) auto

lemma chain_Some: "chain h (Some a) as \<longleftrightarrow> (\<exists>bs e. as = a # bs \<and> h a = Some e \<and> chain h (next_elem e) bs)"
  by (cases as) auto

text \<open>A new last element is linked behind the old one.\<close>

lemma chain_link:
  "chain h p (as @ [t]) \<Longrightarrow> distinct (as @ [t]) \<Longrightarrow> b \<notin> set (as @ [t]) \<Longrightarrow> h t = Some et \<Longrightarrow>
     chain (h(t \<mapsto> et\<lparr>next_elem := Some b\<rparr>, b \<mapsto> eb\<lparr>next_elem := None\<rparr>)) p (as @ [t, b])"
proof (induction as arbitrary: p)
  case Nil
  then show ?case by auto
next
  case (Cons a as)
  then show ?case by auto
qed

text \<open>What an element holds, apart from its link.\<close>

definition data_of :: "(nat \<Rightarrow> sdio_list option) \<Rightarrow> nat \<Rightarrow> (u8 list \<times> nat) option" where
  "data_of h a = map_option (\<lambda>e. (buffer e, tail e)) (h a)"

definition content :: "(nat \<Rightarrow> sdio_list option) \<Rightarrow> nat \<Rightarrow> u8 list" where
  "content h a = (case data_of h a of None \<Rightarrow> [] | Some (b, t) \<Rightarrow> take t b)"

definition elem_ok :: "(nat \<Rightarrow> sdio_list option) \<Rightarrow> nat \<Rightarrow> bool" where
  "elem_ok h a \<longleftrightarrow> (\<exists>b t. data_of h a = Some (b, t) \<and> length b = RX_BUFFER_SIZE \<and> t \<le> RX_BUFFER_SIZE)"

lemma data_of_relink [simp]: "h a = Some e \<Longrightarrow> data_of (h(a \<mapsto> e\<lparr>next_elem := q\<rparr>)) = data_of h"
  by (auto simp: data_of_def)

lemma data_of_other [simp]: "a \<noteq> b \<Longrightarrow> data_of (h(a \<mapsto> e)) b = data_of h b"
  by (simp add: data_of_def)

lemma content_cong: "data_of h' = data_of h \<Longrightarrow> content h' = content h \<and> elem_ok h' = elem_ok h"
  by (auto simp: content_def elem_ok_def fun_eq_iff)

lemma elem_okD: "elem_ok h a \<Longrightarrow> \<exists>e. h a = Some e \<and> length (buffer e) = 512 \<and> tail e \<le> 512"
  by (auto simp: elem_ok_def data_of_def RX_BUFFER_SIZE_def)

lemma elem_ok_iff: "h a = Some e \<Longrightarrow> elem_ok h a \<longleftrightarrow> length (buffer e) = 512 \<and> tail e \<le> 512"
  by (auto simp: elem_ok_def data_of_def RX_BUFFER_SIZE_def)

lemma content_elem: "h a = Some e \<Longrightarrow> content h a = take (tail e) (buffer e)"
  by (simp add: content_def data_of_def)

lemma length_content: "elem_ok h a \<Longrightarrow> h a = Some e \<Longrightarrow> length (content h a) = tail e"
  by (simp add: content_elem elem_ok_iff)

section \<open>The two lists\<close>

text \<open>\<open>A\<close> are the elements to send, \<open>B\<close> the free ones; only the first free one may hold bytes.\<close>

definition two_lists :: "sdio \<Rightarrow> nat list \<Rightarrow> nat list \<Rightarrow> bool" where
  "two_lists s A B \<longleftrightarrow> chain (heap s) (pHead_ToSend s) A \<and> chain (heap s) (pHead_Sended s) B \<and>
     distinct (A @ B) \<and> (\<forall>a \<in> set (A @ B). elem_ok (heap s) a) \<and>
     (A \<noteq> [] \<longrightarrow> pTail_ToSend s = Some (last A)) \<and> (B \<noteq> [] \<longrightarrow> pTail_Sended s = Some (last B)) \<and>
     (\<forall>b \<in> set (tl B). content (heap s) b = [])"

text \<open>The parts of the state that the list operations leave alone.\<close>

definition same_rest :: "sdio \<Rightarrow> sdio \<Rightarrow> bool" where
  "same_rest s s' \<longleftrightarrow> has_read s' = has_read s \<and> rx_que s' = rx_que s \<and> rx_armed s' = rx_armed s \<and>
     tx_que s' = tx_que s \<and> tx_buffer s' = tx_buffer s \<and> recv_cb s' = recv_cb s \<and> slc s' = slc s"

lemma same_rest_refl [simp]: "same_rest s s"
  by (simp add: same_rest_def)

lemma same_rest_trans: "same_rest s t \<Longrightarrow> same_rest t u \<Longrightarrow> same_rest s u"
  by (simp add: same_rest_def)

text \<open>Copying into the first free element.\<close>

lemma copy_appends:
  assumes l: "two_lists s A (b # B)" and n: "n \<le> length data" "length (content (heap s) b) + n \<le> 512"
  shows "\<exists>s'. copy_to_head data n s = Some s' \<and> two_lists s' A (b # B) \<and> same_rest s s' \<and>
    pHead_ToSend s' = pHead_ToSend s \<and>
    map (content (heap s')) A = map (content (heap s)) A \<and>
    content (heap s') b = content (heap s) b @ take n data"
proof -
  from l obtain e where e: "heap s b = Some e" "length (buffer e) = 512" "tail e \<le> 512" "pHead_Sended s = Some b"
    using elem_okD [of "heap s" b] by (auto simp: two_lists_def)
  have len: "length (content (heap s) b) = tail e" using e by (simp add: content_elem)
  define m where "m = take (tail e) (buffer e) @ take n data @ drop (tail e + n) (buffer e)"
  define s' where "s' = s\<lparr>heap := (heap s)(b \<mapsto> e\<lparr>buffer := m, tail := tail e + n\<rparr>)\<rparr>"
  have run: "copy_to_head data n s = Some s'"
    using e n len by (simp add: copy_to_head_def elem_def set_elem_def mem_simps s'_def m_def)
  have other: "content (heap s') x = content (heap s) x" "elem_ok (heap s') x = elem_ok (heap s) x" if "x \<noteq> b" for x
    using that by (simp_all add: s'_def content_def elem_ok_def)
  have new: "content (heap s') b = content (heap s) b @ take n data" "elem_ok (heap s') b"
    using e n len by (simp_all add: s'_def content_elem elem_ok_iff m_def)
  have nb: "b \<notin> set A" "b \<notin> set B" using l by (auto simp: two_lists_def)
  have chains: "chain (heap s') (pHead_ToSend s') A" "chain (heap s') (pHead_Sended s') (b # B)"
    using l e nb by (simp_all add: two_lists_def s'_def chain_update)
  have ok: "elem_ok (heap s') x" if "x \<in> set (A @ b # B)" for x
    using that l new(2) other(2) by (cases "x = b") (simp_all add: two_lists_def)
  have empty: "content (heap s') x = []" if "x \<in> set B" for x
  proof -
    have "x \<noteq> b" using that nb by blast
    with that l other(1) show ?thesis by (simp add: two_lists_def)
  qed
  have "two_lists s' A (b # B)"
    using l chains ok empty by (simp add: two_lists_def s'_def)
  moreover have "map (content (heap s')) A = map (content (heap s)) A"
    by (intro map_cong refl) (metis other(1) nb(1))
  ultimately show ?thesis
    using run new(1) by (auto simp: same_rest_def s'_def)
qed

lemma in_set_tl: "x \<in> set (tl xs) \<Longrightarrow> x \<in> set xs"
  by (cases xs) auto

text \<open>Links change, contents do not.\<close>

lemma two_lists_relinked:
  assumes "two_lists s A B" and "data_of (heap s') = data_of (heap s)"
    and "chain (heap s') (pHead_ToSend s') A'" and "chain (heap s') (pHead_Sended s') B'"
    and "distinct (A' @ B')" and "set (A' @ B') \<subseteq> set (A @ B)" and "set (tl B') \<subseteq> set (tl B)"
    and "A' \<noteq> [] \<longrightarrow> pTail_ToSend s' = Some (last A')" and "B' \<noteq> [] \<longrightarrow> pTail_Sended s' = Some (last B')"
  shows "two_lists s' A' B'"
proof -
  have "content (heap s') = content (heap s)" "elem_ok (heap s') = elem_ok (heap s)"
    using content_cong [OF assms(2)] by simp_all
  moreover have "elem_ok (heap s) a" if "a \<in> set (A' @ B')" for a
    using that assms(1,6) by (auto simp: two_lists_def)
  moreover have "content (heap s) a = []" if "a \<in> set (tl B')" for a
    using that assms(1,7) by (auto simp: two_lists_def)
  ultimately show ?thesis using assms(3-5,8,9) by (simp add: two_lists_def)
qed

lemma start_moves:
  assumes l: "two_lists s [] (b # B)"
  shows "\<exists>s'. advance_sended (head_starts_send s) = Some s' \<and> two_lists s' [b] B \<and> same_rest s s' \<and>
    data_of (heap s') = data_of (heap s)"
proof -
  from l obtain e where e: "heap s b = Some e" "pHead_Sended s = Some b" "chain (heap s) (next_elem e) B"
    by (auto simp: two_lists_def)
  have b: "b \<notin> set B" "distinct B" using l by (auto simp: two_lists_def)
  define s' where "s' = s\<lparr>pTail_ToSend := Some b, pHead_ToSend := Some b, pHead_Sended := next_elem e,
    heap := (heap s)(b \<mapsto> e\<lparr>next_elem := None\<rparr>)\<rparr>"
  have "advance_sended (head_starts_send s) = Some s'"
    using e by (simp add: advance_sended_def head_starts_send_def elem_def set_elem_def s'_def)
  moreover have d: "data_of (heap s') = data_of (heap s)" using e by (simp add: s'_def)
  moreover have "two_lists s' [b] B"
    using e b l by (intro two_lists_relinked [OF l d])
      (auto simp: s'_def chain_update two_lists_def dest: in_set_tl)
  ultimately show ?thesis by (auto simp: same_rest_def s'_def)
qed

lemma move_moves:
  assumes l: "two_lists s A (b # B)"
  shows "\<exists>s'. move_to_send s = Some s' \<and> two_lists s' (A @ [b]) B \<and> same_rest s s' \<and>
    data_of (heap s') = data_of (heap s)"
proof (cases A rule: rev_cases)
  case Nil
  with l start_moves [of s b B] show ?thesis by (simp add: move_to_send_def two_lists_def)
next
  case (snoc A0 t)
  from l obtain e where e: "heap s b = Some e" "pHead_Sended s = Some b" "chain (heap s) (next_elem e) B"
    by (auto simp: two_lists_def)
  from l have "elem_ok (heap s) t" "pTail_ToSend s = Some t" by (simp_all add: two_lists_def snoc)
  then obtain et where t: "heap s t = Some et" "pTail_ToSend s = Some t" using elem_okD by blast
  have nb: "b \<notin> set (A0 @ [t])" "distinct (A0 @ [t])" "b \<notin> set B" "t \<notin> set B" "distinct B"
      "set (A0 @ [t]) \<inter> set B = {}"
    using l by (auto simp: two_lists_def snoc)
  obtain a where hd: "pHead_ToSend s = Some a"
    using l by (cases "pHead_ToSend s") (simp_all add: two_lists_def snoc)
  define s' where "s' = s\<lparr>heap := (heap s)(t \<mapsto> et\<lparr>next_elem := Some b\<rparr>, b \<mapsto> e\<lparr>next_elem := None\<rparr>),
    pTail_ToSend := Some b, pHead_Sended := next_elem e\<rparr>"
  have "move_to_send s = Some s'"
    using e t nb hd by (simp add: move_to_send_def advance_sended_def elem_def set_elem_def s'_def)
  moreover have d: "data_of (heap s') = data_of (heap s)"
    using e t nb(1) by (simp add: s'_def)
  moreover have "chain (heap s') (pHead_ToSend s') (A @ [b])"
    using chain_link [of "heap s" "pHead_ToSend s" A0 t b et e] nb t(1) l by (simp add: two_lists_def snoc s'_def)
  then have "two_lists s' (A @ [b]) B"
    using e nb by (intro two_lists_relinked [OF l d])
      (auto simp: s'_def chain_update snoc last_ConsR l [unfolded two_lists_def] dest: in_set_tl)
  ultimately show ?thesis by (auto simp: same_rest_def s'_def)
qed

text \<open>The element that was sent goes to the end of the free list, empty.\<close>

lemma set_tail_data:
  assumes "h a = Some e"
  shows "data_of (h(a \<mapsto> e\<lparr>tail := 0, next_elem := q\<rparr>)) = (data_of h)(a := Some (buffer e, 0))"
  using assms by (auto simp: data_of_def)

lemma free_frees:
  assumes l: "two_lists s (a # A) B"
  shows "\<exists>s'. free_head s = Some s' \<and> two_lists s' A (B @ [a]) \<and> same_rest (s\<lparr>has_read := True\<rparr>) s' \<and>
    (\<forall>x. content (heap s') x = (if x = a then [] else content (heap s) x))"
proof -
  from l obtain e where e: "heap s a = Some e" "pHead_ToSend s = Some a" "chain (heap s) (next_elem e) A"
    by (auto simp: two_lists_def)
  have na: "a \<notin> set A" "a \<notin> set B" "distinct A" "distinct B" "set A \<inter> set B = {}"
    using l by (auto simp: two_lists_def)
  have okb: "length (buffer e) = 512" using l e by (simp add: two_lists_def elem_ok_iff)
  define s1 where "s1 = s\<lparr>has_read := True, heap := (heap s)(a \<mapsto> e\<lparr>tail := 0\<rparr>)\<rparr>"
  have s1: "set_elem (pHead_ToSend s) (\<lambda>e. e\<lparr>tail := 0\<rparr>) (s\<lparr>has_read := True\<rparr>) = Some s1"
    using e by (simp add: set_elem_def s1_def)
  obtain s' where run: "free_head s = Some s'"
    and d: "data_of (heap s') = (data_of (heap s))(a := Some (buffer e, 0))"
    and rest: "same_rest (s\<lparr>has_read := True\<rparr>) s'"
    and p: "pHead_ToSend s' = next_elem e" "pTail_ToSend s' = pTail_ToSend s" "pTail_Sended s' = Some a"
    and chains: "chain (heap s') (next_elem e) A" "chain (heap s') (pHead_Sended s') (B @ [a])"
  proof (cases B rule: rev_cases)
    case Nil
    then have q: "pHead_Sended s = None" using l by (simp add: two_lists_def)
    let ?s = "s1\<lparr>pTail_Sended := Some a, pHead_Sended := Some a, pHead_ToSend := next_elem e,
      heap := (heap s)(a \<mapsto> e\<lparr>tail := 0, next_elem := None\<rparr>)\<rparr>"
    have "free_head s = Some ?s"
      using e q s1 by (simp add: free_head_def set_elem_def elem_def s1_def)
    then show thesis
      using that [of ?s] e na q Nil by (simp add: set_tail_data chain_update s1_def same_rest_def)
  next
    case (snoc B0 t)
    obtain c where q: "pHead_Sended s = Some c"
      using l by (cases "pHead_Sended s") (simp_all add: two_lists_def snoc)
    from l have "elem_ok (heap s) t" "pTail_Sended s = Some t" by (simp_all add: two_lists_def snoc)
    then obtain et where t: "heap s t = Some et" "pTail_Sended s = Some t" using elem_okD by blast
    have nt: "t \<noteq> a" "t \<notin> set A" "distinct (B0 @ [t])" "a \<notin> set (B0 @ [t])" using na by (auto simp: snoc)
    let ?h = "(heap s)(t \<mapsto> et\<lparr>next_elem := Some a\<rparr>, a \<mapsto> (e\<lparr>tail := 0\<rparr>)\<lparr>next_elem := None\<rparr>)"
    let ?s = "s1\<lparr>pTail_Sended := Some a, pHead_ToSend := next_elem e, heap := ?h\<rparr>"
    have "free_head s = Some ?s"
      using e q s1 t nt by (simp add: free_head_def set_elem_def elem_def s1_def fun_upd_twist)
    moreover have "chain ?h (pHead_Sended s) (B @ [a])"
      using chain_link [of "heap s" "pHead_Sended s" B0 t a et "e\<lparr>tail := 0\<rparr>"] nt t(1) l
      by (simp add: two_lists_def snoc)
    moreover have "data_of ?h = (data_of (heap s))(a := Some (buffer e, 0))"
      using set_tail_data [of "(heap s)(t \<mapsto> et\<lparr>next_elem := Some a\<rparr>)" a e None] e t nt(1) by simp
    ultimately show thesis
      using that [of ?s] e na nt by (simp add: chain_update s1_def same_rest_def)
  qed
  have con: "content (heap s') x = (if x = a then [] else content (heap s) x)" for x
    by (simp add: content_def d)
  have "elem_ok (heap s') x" if "x \<in> set (A @ B @ [a])" for x
    using that l okb by (auto simp: two_lists_def elem_ok_def d RX_BUFFER_SIZE_def)
  moreover have "content (heap s') x = []" if "x \<in> set (tl (B @ [a]))" for x
    using that l by (cases B) (auto simp: con two_lists_def)
  ultimately have "two_lists s' A (B @ [a])"
    using chains p na l by (auto simp: two_lists_def)
  then show ?thesis using run rest con by blast
qed

section \<open>The promise\<close>

text \<open>
  The chunks for the host, the bytes in the partly filled buffer, the number of free buffers
  (this one included); \<open>idle\<close>: nothing was given to the hardware since the last read; \<open>armed\<close>:
  the first chunk waits for the host.
\<close>

record link =
  queued :: "u8 list list"
  partial :: "u8 list"
  frees :: nat
  idle :: bool
  armed :: bool

text \<open>Filling buffers: only full buffers are counted and queued.\<close>

function spec_fill :: "u8 list \<Rightarrow> link \<Rightarrow> nat \<times> link" where
  "spec_fill data l =
     (let room = 512 - length (partial l)
      in if data = [] \<or> frees l = 0 then (0, l)
         else if length data < room then (0, l\<lparr>partial := partial l @ data\<rparr>)
         else let (n, l') = spec_fill (drop room data)
                (l\<lparr>queued := queued l @ [partial l @ take room data], partial := [], frees := frees l - 1\<rparr>)
              in (room + n, l'))"
  by pat_completeness auto
termination by (relation "measure (\<lambda>(d, l). frees l)") auto

declare spec_fill.simps [simp del]

text \<open>A driver with nothing queued offers what is in the partly filled buffer.\<close>

definition spec_load :: "u8 list \<Rightarrow> link \<Rightarrow> nat \<times> link" where
  "spec_load data l =
     (if frees l = 0 then (0, l)
      else let (n, l) = spec_fill data l
           in if queued l = [] then
                (n, l\<lparr>queued := [partial l], partial := [], frees := frees l - 1, idle := False,
                       armed := partial l \<noteq> []\<rparr>)
              else (n, l))"

definition spec_read :: "link \<Rightarrow> u8 list \<times> link" where
  "spec_read l =
     (if \<not> armed l then ([], l)
      else (hd (queued l),
        let l = l\<lparr>queued := tl (queued l), frees := frees l + 1\<rparr>
        in if queued l \<noteq> [] then l\<lparr>idle := False, armed := hd (queued l) \<noteq> []\<rparr>
           else if partial l \<noteq> [] then
             l\<lparr>queued := [partial l], partial := [], frees := frees l - 1, idle := False, armed := True\<rparr>
           else l\<lparr>idle := True, armed := False\<rparr>))"

text \<open>The lists of elements, read from memory.\<close>

fun elems :: "nat \<Rightarrow> (nat \<Rightarrow> sdio_list option) \<Rightarrow> nat option \<Rightarrow> nat list" where
  "elems 0 h p = []"
| "elems (Suc n) h p =
     (case p of None \<Rightarrow> []
      | Some a \<Rightarrow> a # (case h a of None \<Rightarrow> [] | Some e \<Rightarrow> elems n h (next_elem e)))"

lemma elems_chain: "chain h p as \<Longrightarrow> length as \<le> n \<Longrightarrow> elems n h p = as"
proof (induction as arbitrary: n p)
  case Nil
  then show ?case by (cases n) auto
next
  case (Cons a as)
  then show ?case by (cases n) auto
qed

definition view_of :: "sdio \<Rightarrow> nat list \<Rightarrow> nat list \<Rightarrow> link" where
  "view_of s A B = \<lparr>queued = map (content (heap s)) A,
     partial = (case B of [] \<Rightarrow> [] | b # _ \<Rightarrow> content (heap s) b), frees = length B,
     idle = has_read s, armed = rx_armed s\<rparr>"

definition sdio_view :: "sdio \<Rightarrow> link" where
  "sdio_view s = view_of s (elems RX_BUFFER_NUM (heap s) (pHead_ToSend s))
     (elems RX_BUFFER_NUM (heap s) (pHead_Sended s))"

section \<open>Loading implements it\<close>

definition head_room :: "sdio \<Rightarrow> nat list \<Rightarrow> bool" where
  "head_room s B \<longleftrightarrow> (B \<noteq> [] \<longrightarrow> length (content (heap s) (hd B)) < 512)"

lemma lists_do [simp]:
  "two_lists (sdio_do op s) A B = two_lists s A B" "head_room (sdio_do op s) B = head_room s B"
  "view_of (sdio_do op s) A B = view_of s A B" "same_rest s' (sdio_do op s) = same_rest s' s"
  by (simp_all add: two_lists_def head_room_def view_of_def same_rest_def sdio_do_def split: list.split)

lemma load_loop_0 [simp]: "load_loop data 0 c s = Some (c, s)"
  by (subst load_loop.simps) simp

lemma left_len:
  assumes "t < 512"
  shows "unat (512 - of_nat t :: u32) = 512 - t"
  using assms by (simp add: unat_sub word_le_nat_alt unat_of_nat)

text \<open>One round: the rest fits, or the first free buffer is filled and queued.\<close>

lemma round_partial:
  assumes l: "two_lists s A (b # B)" and len: "len \<noteq> 0" "unat len \<le> length data"
    and fits: "length (content (heap s) b) + unat len < 512"
  shows "\<exists>s'. load_loop data len c s = Some (c, s') \<and> two_lists s' A (b # B) \<and> head_room s' (b # B) \<and>
    same_rest s s' \<and>
    view_of s' A (b # B) = (view_of s A (b # B))\<lparr>partial := content (heap s) b @ take (unat len) data\<rparr>"
proof -
  from l obtain e where e: "heap s b = Some e" "pHead_Sended s = Some b" "elem_ok (heap s) b"
    by (auto simp: two_lists_def)
  then have t: "tail e = length (content (heap s) b)" by (simp add: length_content)
  then have "unat (512 - of_nat (tail e) :: u32) = 512 - tail e" using left_len fits by simp
  then have lt: "len < 512 - of_nat (tail e)" using fits t by (simp add: word_less_nat_alt)
  have "length (content (heap s) b) + unat len \<le> 512" using fits by simp
  then obtain s1 where s1: "copy_to_head data (unat len) s = Some s1" "two_lists s1 A (b # B)" "same_rest s s1"
      "map (content (heap s1)) A = map (content (heap s)) A"
      "content (heap s1) b = content (heap s) b @ take (unat len) data"
    using copy_appends [OF l len(2)] by blast
  have "load_loop data len c s = Some (c, s1)"
    using len lt e s1(1) by (subst load_loop.simps) (simp add: elem_def)
  then show ?thesis using s1 fits len(2)
    by (intro exI [of _ s1]) (simp add: view_of_def head_room_def same_rest_def)
qed

lemma round_full:
  assumes l: "two_lists s A (b # B)" and n: "length (content (heap s) b) + n = 512" "n \<le> length data"
  shows "\<exists>s1 s'. copy_to_head data n s = Some s1 \<and> move_to_send s1 = Some s' \<and>
    two_lists s' (A @ [b]) B \<and> head_room s' B \<and> same_rest s s' \<and>
    view_of s' (A @ [b]) B = (view_of s A (b # B))\<lparr>
      queued := map (content (heap s)) A @ [content (heap s) b @ take n data], partial := [],
      frees := length B\<rparr>"
proof -
  obtain s1 where s1: "copy_to_head data n s = Some s1" "two_lists s1 A (b # B)" "same_rest s s1"
      "map (content (heap s1)) A = map (content (heap s)) A"
      "content (heap s1) b = content (heap s) b @ take n data"
    using copy_appends [OF l n(2)] n(1) by auto
  obtain s2 where s2: "move_to_send s1 = Some s2" "two_lists s2 (A @ [b]) B" "same_rest s1 s2"
      "data_of (heap s2) = data_of (heap s1)"
    using move_moves [OF s1(2)] by blast
  note same = content_cong [OF s2(4), THEN conjunct1]
  have empty: "content (heap s2) x = []" if "x \<in> set B" for x
    using s1(2) that by (simp add: two_lists_def same)
  have "view_of s2 (A @ [b]) B = (view_of s A (b # B))\<lparr>
      queued := map (content (heap s)) A @ [content (heap s) b @ take n data], partial := [], frees := length B\<rparr>"
    using s1(3-5) s2(3) empty by (simp add: view_of_def same same_rest_def split: list.split)
  moreover have "head_room s2 B" using empty by (simp add: head_room_def)
  moreover have "same_rest s s2" using s1(3) s2(3) by (rule same_rest_trans)
  ultimately show ?thesis using s1(1) s2(1,2) by blast
qed

text \<open>What the loop has done when it ends: the specification's filling, on the two lists.\<close>

definition filled ::
  "sdio \<Rightarrow> nat list \<Rightarrow> nat list \<Rightarrow> u8 list \<Rightarrow> sdio \<Rightarrow> nat list \<Rightarrow> nat list \<Rightarrow> bool" where
  "filled s A B data s' A' B' \<longleftrightarrow>
     two_lists s' A' B' \<and> head_room s' B' \<and> length A' + length B' = length A + length B \<and> same_rest s s' \<and>
     view_of s' A' B' = snd (spec_fill data (view_of s A B)) \<and>
     (A \<noteq> [] \<longrightarrow> A' \<noteq> [] \<and> hd A' = hd A) \<and> (A' = [] \<longrightarrow> B' \<noteq> [])"

text \<open>A pass that fills the first free chunk: it moves to the send list, and the loop goes on or stops.\<close>

lemma spec_fill_full:
  assumes "data \<noteq> []" and "512 - length p \<le> length data" and "partial v = p" and "frees v \<noteq> 0"
  defines "r \<equiv> 512 - length p"
  defines "v2 \<equiv> v\<lparr>queued := queued v @ [p @ take r data], partial := [], frees := frees v - 1\<rparr>"
  shows "spec_fill data v = (r + fst (spec_fill (drop r data) v2), snd (spec_fill (drop r data) v2))"
  using assms by (subst spec_fill.simps) (simp add: Let_def split_beta)

lemma load_loop_pass:
  assumes l: "two_lists s A (b # B)" "head_room s (b # B)" and len: "unat len \<le> length data" "len \<noteq> 0"
    and full: "512 - length (content (heap s) b) \<le> unat len"
  defines "r \<equiv> 512 - length (content (heap s) b)"
  shows "\<exists>s2. two_lists s2 (A @ [b]) B \<and> head_room s2 B \<and> same_rest s s2 \<and>
    spec_fill (take (unat len) data) (view_of s A (b # B)) =
      (r + fst (spec_fill (drop r (take (unat len) data)) (view_of s2 (A @ [b]) B)),
       snd (spec_fill (drop r (take (unat len) data)) (view_of s2 (A @ [b]) B))) \<and>
    load_loop data len c s =
      (if B = [] then Some (c + of_nat r, sdio_do (Sdio_printf (lit ''buf full'' @ [13, 10])) s2)
       else load_loop (drop r data) (len - of_nat r) (c + of_nat r) s2)"
proof -
  let ?v = "view_of s A (b # B)" and ?data = "take (unat len) data" and ?p = "content (heap s) b"
  from l(1) obtain e where e: "heap s b = Some e" "pHead_Sended s = Some b" "elem_ok (heap s) b"
    by (auto simp: two_lists_def)
  have t: "tail e = length ?p" "length ?p < 512"
    using e l(2) length_content by (simp_all add: head_room_def)
  let ?l = "512 - of_nat (tail e) :: u32"
  have lu: "unat ?l = r" using left_len [of "tail e"] t by (simp add: r_def)
  have cnt: "of_nat r = ?l" using lu by (metis of_nat_unat ucast_id)
  have notless: "\<not> len < ?l" using full lu by (simp add: word_less_nat_alt r_def)
  have sum: "length ?p + r = 512" "r \<le> length data" using t full len(1) by (simp_all add: r_def)
  obtain s1 s2 where s2: "copy_to_head data r s = Some s1" "move_to_send s1 = Some s2"
      "two_lists s2 (A @ [b]) B" "head_room s2 B" "same_rest s s2"
      "view_of s2 (A @ [b]) B = ?v\<lparr>queued := map (content (heap s)) A @ [?p @ take r data],
         partial := [], frees := length B\<rparr>"
    using round_full [OF l(1) sum] by blast
  have "?data \<noteq> []" using len by (auto simp: unat_eq_0)
  moreover have "512 - length ?p \<le> length ?data" using full len(1) by simp
  moreover have "partial ?v = ?p" "frees ?v = Suc (length B)" "queued ?v = map (content (heap s)) A"
    by (simp_all add: view_of_def)
  moreover have "take r ?data = take r data" using full by (simp add: r_def min_def)
  ultimately have spec: "spec_fill ?data ?v = (r + fst (spec_fill (drop r ?data) (view_of s2 (A @ [b]) B)),
      snd (spec_fill (drop r ?data) (view_of s2 (A @ [b]) B)))"
    using spec_fill_full [of ?data ?p ?v] s2(6) by (simp add: r_def)
  have "pHead_Sended s2 = None \<longleftrightarrow> B = []" using s2(3) by (cases B) (simp_all add: two_lists_def)
  then have "load_loop data len c s =
      (if B = [] then Some (c + ?l, sdio_do (Sdio_printf (lit ''buf full'' @ [13, 10])) s2)
       else load_loop (drop r data) (len - ?l) (c + ?l) s2)"
    using len(2) notless e s2(1,2) lu by (subst load_loop.simps) (auto simp: elem_def Let_def)
  with s2(3-5) spec cnt show ?thesis by auto
qed

lemma load_loop_fills:
  "two_lists s A B \<Longrightarrow> head_room s B \<Longrightarrow> B \<noteq> [] \<Longrightarrow> unat len \<le> length data \<Longrightarrow>
     \<exists>s' A' B'. load_loop data len c s =
         Some (c + of_nat (fst (spec_fill (take (unat len) data) (view_of s A B))), s') \<and>
       filled s A B (take (unat len) data) s' A' B'"
proof (induction B arbitrary: s A data len c)
  case Nil
  then show ?case by simp
next
  case (Cons b B)
  let ?v = "view_of s A (b # B)" and ?data = "take (unat len) data" and ?p = "content (heap s) b"
  define r where "r = 512 - length ?p"
  have v: "partial ?v = ?p" "frees ?v = Suc (length B)" by (simp_all add: view_of_def)
  consider "len = 0" | "len \<noteq> 0" "unat len < r" | "len \<noteq> 0" "r \<le> unat len" by linarith
  then show ?case
  proof cases
    case 1
    then show ?thesis using Cons.prems
      by (intro exI [of _ s] exI [of _ A] exI [of _ "b # B"]) (simp add: spec_fill.simps filled_def)
  next
    case 2
    have fits: "length ?p + unat len < 512" using 2(2) unfolding r_def by linarith
    have "?data \<noteq> []" using 2(1) Cons.prems(4) by (auto simp: unat_eq_0)
    then have spec: "spec_fill ?data ?v = (0, ?v\<lparr>partial := ?p @ ?data\<rparr>)"
      using 2(2) v Cons.prems(4) by (subst spec_fill.simps) (simp add: r_def)
    from round_partial [OF Cons.prems(1) 2(1) Cons.prems(4) fits] spec show ?thesis
      unfolding filled_def by fastforce
  next
    case 3
    obtain s2 where s2: "two_lists s2 (A @ [b]) B" "head_room s2 B" "same_rest s s2"
        "spec_fill ?data ?v = (r + fst (spec_fill (drop r ?data) (view_of s2 (A @ [b]) B)),
           snd (spec_fill (drop r ?data) (view_of s2 (A @ [b]) B)))"
        "load_loop data len c s =
          (if B = [] then Some (c + of_nat r, sdio_do (Sdio_printf (lit ''buf full'' @ [13, 10])) s2)
           else load_loop (drop r data) (len - of_nat r) (c + of_nat r) s2)"
      using load_loop_pass [OF Cons.prems(1,2,4) 3 [unfolded r_def], of c] unfolding r_def by blast
    show ?thesis
    proof (cases "B = []")
      case True
      let ?s = "sdio_do (Sdio_printf (lit ''buf full'' @ [13, 10])) s2"
      have "spec_fill (drop r ?data) (view_of s2 (A @ [b]) B) = (0, view_of s2 (A @ [b]) B)"
        using True by (subst spec_fill.simps) (simp add: view_of_def)
      with s2 True show ?thesis
        by (intro exI [of _ ?s] exI [of _ "A @ [b]"] exI [of _ B]) (simp add: filled_def)
    next
      case more: False
      have "unat (of_nat r :: u32) = r" by (simp add: unat_of_nat r_def)
      then have sub: "unat (len - of_nat r) = unat len - r"
        using 3(2) by (simp add: unat_sub word_le_nat_alt)
      then have "unat (len - of_nat r) \<le> length (drop r data)"
        "take (unat (len - of_nat r)) (drop r data) = drop r ?data"
        using Cons.prems(4) by (simp_all add: drop_take)
      with Cons.IH [OF s2(1,2) more, of "len - of_nat r" "drop r data" "c + of_nat r"] s2(3-5) more
      show ?thesis by (fastforce simp: add.assoc filled_def intro: same_rest_trans)
    qed
  qed
qed

section \<open>The hardware reads and writes\<close>

text \<open>
  What holds between the calls. The start bit of the descriptor is set exactly while the first
  chunk waits for the host, and then the descriptor shows this chunk.
\<close>

definition offers :: "sdio \<Rightarrow> nat \<Rightarrow> bool" where
  "offers s a \<longleftrightarrow> buf_ptr (rx_que s) = Element a \<and> unat (datalen (rx_que s)) = length (content (heap s) a)"

definition tx_ok :: "sdio \<Rightarrow> bool" where
  "tx_ok s \<longleftrightarrow> length (tx_buffer s) = 512 \<and> unat (datalen (tx_que s)) \<le> 512"

definition sdio_inv :: "sdio \<Rightarrow> nat list \<Rightarrow> nat list \<Rightarrow> bool" where
  "sdio_inv s A B \<longleftrightarrow> two_lists s A B \<and> head_room s B \<and> length A + length B = RX_BUFFER_NUM \<and>
     blocksize (rx_que s) = 512 \<and> (\<not> has_read s \<longrightarrow> A \<noteq> []) \<and>
     (rx_armed s \<longleftrightarrow> \<not> has_read s \<and> content (heap s) (hd A) \<noteq> []) \<and>
     (rx_armed s \<longrightarrow> offers s (hd A)) \<and> tx_ok s"

lemma slc_simps [simp]:
  "two_lists (s\<lparr>slc := x\<rparr>) A B = two_lists s A B" "head_room (s\<lparr>slc := x\<rparr>) B = head_room s B"
  "view_of (s\<lparr>slc := x\<rparr>) A B = view_of s A B" "sdio_inv (s\<lparr>slc := x\<rparr>) A B = sdio_inv s A B"
  "two_lists (s\<lparr>rx_armed := r\<rparr>) A B = two_lists s A B" "head_room (s\<lparr>rx_armed := r\<rparr>) B = head_room s B"
  by (simp_all add: two_lists_def head_room_def view_of_def sdio_inv_def offers_def tx_ok_def split: list.split)

lemma TRIG_slc: "TRIG_TOHOST_INT s = s\<lparr>slc := (slc s)(SLC_INTVEC_TOHOST := slc s SLC_INTVEC_TOHOST OR bits [0])\<rparr>"
  by (simp add: TRIG_TOHOST_INT_def slc_set_def slc_write_def)

lemma load_head_offers:
  assumes l: "two_lists s (a # A) B" and bs: "blocksize (rx_que s) = 512" and off: "\<not> rx_armed s"
  shows "\<exists>s'. load_head s = Some s' \<and> two_lists s' (a # A) B \<and> heap s' = heap s \<and> \<not> has_read s' \<and>
    (rx_armed s' \<longleftrightarrow> content (heap s) a \<noteq> []) \<and> (rx_armed s' \<longrightarrow> offers s' a) \<and>
    blocksize (rx_que s') = 512 \<and> tx_ok s' = tx_ok s"
proof -
  from l obtain e where e: "heap s a = Some e" "pHead_ToSend s = Some a" "elem_ok (heap s) a"
    by (auto simp: two_lists_def)
  have t: "tail e \<le> 512" "length (content (heap s) a) = tail e"
    using e by (simp_all add: elem_ok_iff length_content)
  have w: "unat (of_nat (tail e) :: u16) = tail e"
    using t(1) by (simp add: unat_of_nat)
  then have z: "(of_nat (tail e) :: u16) = 0 \<longleftrightarrow> content (heap s) a = []"
    using t(2) by (metis length_0_conv unat_eq_zero)
  have d: "unat (ucast (of_nat (tail e) :: u16) :: 12 word) = tail e"
    using w t(1) by (simp add: unsigned_ucast_eq take_bit_nat_eq_self)
  show ?thesis
  proof (cases "content (heap s) a = []")
    case True
    with z e l bs off show ?thesis
      by (simp add: load_head_def rx_buff_load_done_def two_lists_def tx_ok_def)
  next
    case False
    have "\<not> 512 < unat (of_nat (tail e) :: u16)" using w t(1) by simp
    with False z e l d t bs show ?thesis
      by (simp add: load_head_def rx_buff_load_done_def Let_def slc_set_def slc_write_def bit_bits
          LINK_START_def two_lists_def offers_def tx_ok_def)
  qed
qed

text \<open>A call that loads data.\<close>

lemma spec_fill_bound: "fst (spec_fill data l) \<le> 512 * frees l"
proof (induction data l rule: spec_fill.induct)
  case (1 data l)
  show ?case
  proof (cases "data = [] \<or> frees l = 0 \<or> length data < 512 - length (partial l)")
    case True
    then show ?thesis by (subst spec_fill.simps) (auto simp: Let_def)
  next
    case False
    let ?r = "512 - length (partial l)"
    let ?l = "l\<lparr>queued := queued l @ [partial l @ take ?r data], partial := [], frees := frees l - 1\<rparr>"
    have "fst (spec_fill data l) = ?r + fst (spec_fill (drop ?r data) ?l)"
      using False by (subst spec_fill.simps) (simp add: Let_def split_beta)
    moreover have "fst (spec_fill (drop ?r data) ?l) \<le> 512 * (frees l - 1)"
      using 1 [OF refl] False by simp
    moreover have "512 * frees l = 512 + 512 * (frees l - 1)" using False by (cases "frees l") simp_all
    ultimately show ?thesis by linarith
  qed
qed

lemma spec_fill_queued: "\<exists>xs. queued (snd (spec_fill data l)) = queued l @ xs"
proof (induction data l rule: spec_fill.induct)
  case (1 data l)
  then show ?case by (subst spec_fill.simps) (auto simp: Let_def split_beta)
qed

text \<open>After the loop nothing else is done when a chunk is queued; the driver's offer stands.\<close>

lemma kept_inv:
  assumes inv: "sdio_inv s A B" and l: "two_lists s1 A1 B1" "head_room s1 B1" "length A1 + length B1 = 4"
    and rest: "same_rest s s1" and A1: "A1 \<noteq> []"
    and hd: "A \<noteq> [] \<Longrightarrow> content (heap s1) (hd A1) = content (heap s) (hd A) \<and> hd A1 = hd A"
  shows "sdio_inv s1 A1 B1"
proof -
  have "rx_armed s1 \<longleftrightarrow> \<not> has_read s1 \<and> content (heap s1) (hd A1) \<noteq> []" "rx_armed s1 \<longrightarrow> offers s1 (hd A1)"
    using inv rest hd by (cases "A = []"; simp add: sdio_inv_def same_rest_def offers_def)+
  then show ?thesis
    using inv l rest A1 by (simp add: sdio_inv_def same_rest_def RX_BUFFER_NUM_def tx_ok_def)
qed

lemma try_to_load_offers:
  assumes l: "two_lists s (a # A) B" "head_room s B" "length A + length B = 3"
    and s: "blocksize (rx_que s) = 512" "\<not> rx_armed s" "has_read s" "tx_ok s"
  shows "\<exists>s'. sdio_try_to_load s = Some s' \<and> sdio_inv s' (a # A) B \<and>
    view_of s' (a # A) B = (view_of s (a # A) B)\<lparr>idle := False, armed := content (heap s) a \<noteq> []\<rparr>"
proof -
  obtain s' where s': "load_head s = Some s'" "two_lists s' (a # A) B" "heap s' = heap s" "\<not> has_read s'"
      "rx_armed s' \<longleftrightarrow> content (heap s) a \<noteq> []" "rx_armed s' \<longrightarrow> offers s' a"
      "blocksize (rx_que s') = 512" "tx_ok s' = tx_ok s"
    using load_head_offers [OF l(1) s(1,2)] by blast
  have "pHead_ToSend s \<noteq> None" using l(1) by (simp add: two_lists_def)
  then have "sdio_try_to_load s = Some (TRIG_TOHOST_INT s')"
    using s(3) s'(1) by (simp add: sdio_try_to_load_def)
  moreover have "sdio_inv s' (a # A) B"
    using s' l(2,3) s(4) by (simp add: sdio_inv_def head_room_def RX_BUFFER_NUM_def)
  moreover have "view_of s' (a # A) B = (view_of s (a # A) B)\<lparr>idle := False, armed := content (heap s) a \<noteq> []\<rparr>"
    using s'(3-5) by (simp add: view_of_def split: list.split)
  ultimately show ?thesis by (simp add: TRIG_slc)
qed

lemma filled_queued:
  assumes "filled s A B data s1 A1 B1"
  shows "queued (snd (spec_fill data (view_of s A B))) = map (content (heap s1)) A1"
proof -
  have "snd (spec_fill data (view_of s A B)) = view_of s1 A1 B1" using assms by (simp add: filled_def)
  then show ?thesis by (simp add: view_of_def)
qed

lemma spec_load_eq:
  "frees v \<noteq> 0 \<Longrightarrow> queued (snd (spec_fill data v)) \<noteq> [] \<Longrightarrow> spec_load data v = spec_fill data v"
  by (simp add: spec_load_def split_beta)

text \<open>A chunk was queued: nothing more to do.\<close>

lemma load_queued:
  assumes inv: "sdio_inv s A B" and B: "B \<noteq> []" and f: "filled s A B data s1 (a # A2) B1"
  shows "sdio_inv s1 (a # A2) B1" and "pHead_ToSend s1 = Some a"
    and "snd (spec_load data (view_of s A B)) = view_of s1 (a # A2) B1"
    and "fst (spec_load data (view_of s A B)) = fst (spec_fill data (view_of s A B))"
proof -
  have l: "two_lists s1 (a # A2) B1" "head_room s1 B1" "length (a # A2) + length B1 = 4" "same_rest s s1"
    using f inv by (simp_all add: filled_def sdio_inv_def RX_BUFFER_NUM_def)
  obtain xs where "map (content (heap s1)) (a # A2) = map (content (heap s)) A @ xs"
    using spec_fill_queued [of data "view_of s A B"] filled_queued [OF f] by (auto simp: view_of_def)
  then have "content (heap s1) (hd (a # A2)) = content (heap s) (hd A)" if "A \<noteq> []"
    using that by (cases A) auto
  then show "sdio_inv s1 (a # A2) B1" using kept_inv [OF inv l] f by (simp add: filled_def)
  show "pHead_ToSend s1 = Some a" using l(1) by (simp add: two_lists_def)
  have "spec_load data (view_of s A B) = spec_fill data (view_of s A B)"
    using filled_queued [OF f] B by (intro spec_load_eq) (simp_all add: view_of_def)
  with f show "snd (spec_load data (view_of s A B)) = view_of s1 (a # A2) B1"
    "fst (spec_load data (view_of s A B)) = fst (spec_fill data (view_of s A B))"
    by (simp_all add: filled_def)
qed

text \<open>Nothing was queued: the partly filled chunk is sent as it is, and offered to the host.\<close>

lemma load_started:
  assumes inv: "sdio_inv s A B" and B: "B \<noteq> []" and f: "filled s A B data s1 [] B1"
  shows "\<exists>s2 s3 b C. advance_sended (head_starts_send s1) = Some s2 \<and> sdio_try_to_load s2 = Some s3 \<and>
    sdio_inv s3 [b] C \<and> snd (spec_load data (view_of s A B)) = view_of s3 [b] C"
    and "pHead_ToSend s1 = None"
    and "fst (spec_load data (view_of s A B)) = fst (spec_fill data (view_of s A B))"
proof -
  let ?v = "view_of s A B"
  have l: "two_lists s1 [] B1" "length B1 = 4" "same_rest s s1" "A = []" "B1 \<noteq> []"
    using f inv by (auto simp: filled_def sdio_inv_def RX_BUFFER_NUM_def)
  then obtain b C where B1: "B1 = b # C" by (cases B1) auto
  have A: "has_read s" "\<not> rx_armed s" using inv l(4) by (auto simp: sdio_inv_def)
  obtain s2 where s2: "advance_sended (head_starts_send s1) = Some s2" "two_lists s2 [b] C"
      "same_rest s1 s2" "data_of (heap s2) = data_of (heap s1)"
    using start_moves [of s1 b C] l(1) B1 by auto
  note same = content_cong [OF s2(4), THEN conjunct1]
  have empty: "\<forall>b \<in> set C. content (heap s1) b = []" using l(1) B1 by (simp add: two_lists_def)
  have rest: "blocksize (rx_que s2) = 512" "\<not> rx_armed s2" "has_read s2" "tx_ok s2"
    using inv l(3) s2(3) A by (simp_all add: sdio_inv_def same_rest_def tx_ok_def)
  have room: "head_room s2 C" "length ([] :: nat list) + length C = 3"
    using empty l(2) B1 by (simp_all add: head_room_def same)
  obtain s3 where s3: "sdio_try_to_load s2 = Some s3" "sdio_inv s3 [b] C"
      "view_of s3 [b] C = (view_of s2 [b] C)\<lparr>idle := False, armed := content (heap s2) b \<noteq> []\<rparr>"
    using try_to_load_offers [OF s2(2) room rest] by blast
  have fr: "frees ?v \<noteq> 0" using B by (simp add: view_of_def)
  have vw: "snd (spec_fill data ?v) = view_of s1 [] B1" using f by (simp add: filled_def)
  have "snd (spec_fill data ?v) = \<lparr>queued = [], partial = content (heap s1) b,
      frees = Suc (length C), idle = has_read s1, armed = rx_armed s1\<rparr>"
    unfolding vw by (simp add: view_of_def B1)
  moreover have "view_of s3 [b] C = \<lparr>queued = [content (heap s1) b], partial = [],
      frees = length C, idle = False, armed = content (heap s1) b \<noteq> []\<rparr>"
    unfolding s3(3) using empty by (simp add: view_of_def same split: list.split)
  ultimately have "snd (spec_load data ?v) = view_of s3 [b] C"
    using fr by (simp add: spec_load_def split_beta)
  with s2(1) s3(1,2) show "\<exists>s2 s3 b C. advance_sended (head_starts_send s1) = Some s2 \<and>
      sdio_try_to_load s2 = Some s3 \<and> sdio_inv s3 [b] C \<and> snd (spec_load data ?v) = view_of s3 [b] C" by blast
  show "pHead_ToSend s1 = None" using l(1) by (simp add: two_lists_def)
  show "fst (spec_load data ?v) = fst (spec_fill data ?v)" using fr by (simp add: spec_load_def split_beta)
qed

lemma sdio_load_implements:
  assumes inv: "sdio_inv s A B" and len: "unat len \<le> length data"
  shows "\<exists>r s' A' B'. sdio_load_data data len s = Some (r, s') \<and> sdio_inv s' A' B' \<and>
    (unat r, view_of s' A' B') = spec_load (take (unat len) data) (view_of s A B)"
proof (cases "B = []")
  case True
  let ?s = "sdio_do (Sdio_printf (lit ''no buf'' @ [13, 10])) s"
  have "pHead_Sended s = None" using True inv by (simp add: sdio_inv_def two_lists_def)
  moreover have "spec_load (take (unat len) data) (view_of s A B) = (0, view_of s A B)"
    using True by (simp add: spec_load_def view_of_def)
  moreover have "sdio_inv ?s A B"
    using inv by (simp add: sdio_inv_def) (simp add: sdio_do_def offers_def tx_ok_def)
  ultimately show ?thesis
    by (intro exI [of _ 0] exI [of _ ?s] exI [of _ A] exI [of _ B]) (simp add: sdio_load_data_def)
next
  case False
  let ?v = "view_of s A B" and ?data = "take (unat len) data"
  define n where "n = fst (spec_fill ?data ?v)"
  have l: "two_lists s A B" "head_room s B" and num: "length A + length B = 4"
    using inv by (simp_all add: sdio_inv_def RX_BUFFER_NUM_def)
  obtain s1 A1 B1 where s1: "load_loop data len 0 s = Some (of_nat n, s1)" "filled s A B ?data s1 A1 B1"
    using load_loop_fills [OF l False len, of 0] by (auto simp: n_def)
  have hd: "pHead_Sended s \<noteq> None" using l(1) False by (cases B) (auto simp: two_lists_def)
  have "frees ?v \<le> 4" using num by (simp add: view_of_def)
  then have "n \<le> 2048" using spec_fill_bound [of ?data ?v] by (simp add: n_def)
  then have n: "unat (of_nat n :: u32) = n" by (simp add: unat_of_nat)
  show ?thesis
  proof (cases A1)
    case (Cons a A2)
    note q = load_queued [OF inv False s1(2) [unfolded Cons]]
    have "sdio_load_data data len s = Some (of_nat n, s1)"
      using s1(1) hd q(2) by (auto simp: sdio_load_data_def)
    with q(1,3,4) n show ?thesis by (metis n_def prod.collapse)
  next
    case Nil
    note q = load_started [OF inv False s1(2) [unfolded Nil]]
    from q(1) obtain s2 s3 b C where s3: "advance_sended (head_starts_send s1) = Some s2"
        "sdio_try_to_load s2 = Some s3" "sdio_inv s3 [b] C" "snd (spec_load ?data ?v) = view_of s3 [b] C"
      by blast
    have "sdio_load_data data len s = Some (of_nat n, s3)"
      using s1(1) hd q(2) s3(1,2) by (auto simp: sdio_load_data_def)
    with s3(3,4) q(3) n show ?thesis by (metis n_def prod.collapse)
  qed
qed

text \<open>The interrupt after the host has read a chunk.\<close>

lemma free_keeps:
  assumes inv: "sdio_inv s (a # A) B" and s0: "s0 = s\<lparr>rx_armed := False, slc := x\<rparr>"
  shows "\<exists>s1. free_head s0 = Some s1 \<and> two_lists s1 A (B @ [a]) \<and> head_room s1 (B @ [a]) \<and>
    has_read s1 \<and> \<not> rx_armed s1 \<and> blocksize (rx_que s1) = 512 \<and> tx_ok s1 \<and>
    map (content (heap s1)) A = map (content (heap s)) A \<and>
    (case B @ [a] of c # C \<Rightarrow> content (heap s1) c = partial (view_of s (a # A) B))"
proof -
  have l: "two_lists s0 (a # A) B" "head_room s B" and na: "a \<notin> set A" "a \<notin> set B"
    using inv by (auto simp: sdio_inv_def s0 two_lists_def)
  obtain s1 where s1: "free_head s0 = Some s1" "two_lists s1 A (B @ [a])"
      "same_rest (s0\<lparr>has_read := True\<rparr>) s1"
      "\<forall>x. content (heap s1) x = (if x = a then [] else content (heap s0) x)"
    using free_frees [OF l(1)] by blast
  have con: "content (heap s1) x = (if x = a then [] else content (heap s) x)" for x
    using s1(4) by (simp add: s0)
  have "map (content (heap s1)) A = map (content (heap s)) A"
    using con na(1) by (intro map_cong refl) metis
  moreover have "head_room s1 (B @ [a])"
    using l(2) con by (cases B) (simp_all add: head_room_def)
  moreover have "case B @ [a] of c # C \<Rightarrow> content (heap s1) c = partial (view_of s (a # A) B)"
    using con na(2) by (cases B) (auto simp: view_of_def)
  moreover have "has_read s1" "\<not> rx_armed s1" "blocksize (rx_que s1) = 512" "tx_ok s1"
    using s1(3) inv by (simp_all add: same_rest_def s0 sdio_inv_def tx_ok_def)
  ultimately show ?thesis using s1(1,2) by blast
qed

text \<open>The state after the chunk is freed; the partly filled one is the first of the free chunks.\<close>

definition chunk_freed :: "sdio \<Rightarrow> nat list \<Rightarrow> nat \<Rightarrow> nat list \<Rightarrow> u8 list \<Rightarrow> bool" where
  "chunk_freed s A c C p \<longleftrightarrow> two_lists s A (c # C) \<and> head_room s (c # C) \<and> has_read s \<and> \<not> rx_armed s \<and>
     blocksize (rx_que s) = 512 \<and> tx_ok s \<and> length A + length (c # C) = 4 \<and> content (heap s) c = p"

text \<open>Another chunk waits: it is offered.\<close>

lemma read_next:
  assumes f: "chunk_freed s (a # A) c C p"
  shows "\<exists>s'. load_head s = Some s' \<and> pHead_ToSend s \<noteq> None \<and> sdio_inv s' (a # A) (c # C) \<and>
    view_of s' (a # A) (c # C) = \<lparr>queued = map (content (heap s)) (a # A), partial = p,
      frees = Suc (length C), idle = False, armed = content (heap s) a \<noteq> []\<rparr>"
proof -
  note f = f [unfolded chunk_freed_def]
  obtain s' where s': "load_head s = Some s'" "two_lists s' (a # A) (c # C)" "heap s' = heap s" "\<not> has_read s'"
      "rx_armed s' \<longleftrightarrow> content (heap s) a \<noteq> []" "rx_armed s' \<longrightarrow> offers s' a"
      "blocksize (rx_que s') = 512" "tx_ok s' = tx_ok s"
    using load_head_offers [of s a A "c # C"] f by blast
  then show ?thesis
    using f by (auto simp: sdio_inv_def head_room_def RX_BUFFER_NUM_def view_of_def two_lists_def)
qed

text \<open>No chunk waits, but a partly filled one: it is sent as it is.\<close>

lemma read_partial:
  assumes f: "chunk_freed s [] c C p" and p: "p \<noteq> []"
  shows "\<exists>s2 s'. advance_sended (head_starts_send s) = Some s2 \<and> load_head s2 = Some s' \<and> sdio_inv s' [c] C \<and>
    view_of s' [c] C = \<lparr>queued = [p], partial = [], frees = length C, idle = False, armed = True\<rparr>"
proof -
  note f = f [unfolded chunk_freed_def]
  obtain s2 where s2: "advance_sended (head_starts_send s) = Some s2" "two_lists s2 [c] C"
      "same_rest s s2" "data_of (heap s2) = data_of (heap s)"
    using start_moves [of s c C] f by auto
  note same = content_cong [OF s2(4), THEN conjunct1]
  have "blocksize (rx_que s2) = 512" "\<not> rx_armed s2" "tx_ok s2 = tx_ok s"
    using f s2(3) by (simp_all add: same_rest_def tx_ok_def)
  then obtain s3 where s3: "load_head s2 = Some s3" "two_lists s3 [c] C" "heap s3 = heap s2" "\<not> has_read s3"
      "rx_armed s3" "offers s3 c" "blocksize (rx_que s3) = 512" "tx_ok s3 = tx_ok s"
    using load_head_offers [OF s2(2)] f p by (auto simp: same)
  have "\<forall>b \<in> set C. content (heap s3) b = []"
    using f s3(3) by (simp add: two_lists_def same)
  then have "view_of s3 [c] C = \<lparr>queued = [p], partial = [], frees = length C, idle = False, armed = True\<rparr>"
    "sdio_inv s3 [c] C"
    using s3 f p
    by (simp_all add: sdio_inv_def head_room_def same RX_BUFFER_NUM_def view_of_def split: list.split)
  with s2(1) s3(1) show ?thesis by blast
qed

lemma sdio_read_implements:
  assumes inv: "sdio_inv s (a # A) B" and armed: "rx_armed s" and s0: "s0 = s\<lparr>rx_armed := False, slc := x\<rparr>"
  shows "\<exists>s' A' B'. sdio_read_done_process s0 = Some s' \<and> sdio_inv s' A' B' \<and>
    view_of s' A' B' = snd (spec_read (view_of s (a # A) B))"
proof -
  obtain c C where cC: "B @ [a] = c # C" by (cases "B @ [a]") auto
  define p where "p = partial (view_of s (a # A) B)"
  have len: "length A + length (c # C) = 4" "length C = length B"
    using inv arg_cong [OF cC, of length] by (simp_all add: sdio_inv_def RX_BUFFER_NUM_def)
  obtain s1 where s1: "free_head s0 = Some s1" "chunk_freed s1 A c C p"
      "map (content (heap s1)) A = map (content (heap s)) A"
    using free_keeps [OF inv s0] len unfolding chunk_freed_def p_def by (auto simp: cC)
  note f = s1(2) [unfolded chunk_freed_def]
  have spec: "snd (spec_read (view_of s (a # A) B)) =
      (if A \<noteq> [] then \<lparr>queued = map (content (heap s1)) A, partial = p, frees = Suc (length C),
         idle = False, armed = hd (map (content (heap s1)) A) \<noteq> []\<rparr>
       else if p \<noteq> [] then \<lparr>queued = [p], partial = [], frees = length C, idle = False, armed = True\<rparr>
       else \<lparr>queued = [], partial = [], frees = Suc (length C), idle = True, armed = False\<rparr>)"
    using armed by (simp add: s1(3) len(2) spec_read_def view_of_def p_def)
  obtain e where e: "heap s1 c = Some e" "pHead_Sended s1 = Some c" "tail e = length p"
    using f length_content by (fastforce simp: two_lists_def)
  show ?thesis
  proof (cases A)
    case (Cons a2 A2)
    obtain s2 where s2: "load_head s1 = Some s2" "pHead_ToSend s1 \<noteq> None" "sdio_inv s2 A (c # C)"
        "view_of s2 A (c # C) = snd (spec_read (view_of s (a # A) B))"
      using read_next [OF s1(2) [unfolded Cons]] unfolding spec by (auto simp: Cons)
    then have "sdio_read_done_process s0 = Some (TRIG_TOHOST_INT s2)"
      using s1(1) by (simp add: sdio_read_done_process_def)
    with s2 show ?thesis by (auto simp: TRIG_slc)
  next
    case Nil
    then have none: "pHead_ToSend s1 = None" using f by (simp add: two_lists_def)
    show ?thesis
    proof (cases "p = []")
      case True
      then have "sdio_read_done_process s0 = Some (TRIG_TOHOST_INT s1)"
        using s1(1) none e by (simp add: sdio_read_done_process_def elem_def)
      moreover have "sdio_inv s1 [] (c # C)"
        using f Nil by (simp add: sdio_inv_def RX_BUFFER_NUM_def)
      moreover have "view_of s1 [] (c # C) = snd (spec_read (view_of s (a # A) B))"
        unfolding spec using True Nil f by (simp add: view_of_def)
      ultimately show ?thesis by (auto simp: TRIG_slc)
    next
      case False
      obtain s2 s3 where s3: "advance_sended (head_starts_send s1) = Some s2" "load_head s2 = Some s3"
          "sdio_inv s3 [c] C" "view_of s3 [c] C = snd (spec_read (view_of s (a # A) B))"
        using read_partial [OF s1(2) [unfolded Nil] False] False unfolding spec by (auto simp: Nil)
      then have "sdio_read_done_process s0 = Some (TRIG_TOHOST_INT s3)"
        using s1(1) none e False by (simp add: sdio_read_done_process_def elem_def)
      with s3 show ?thesis by (auto simp: TRIG_slc)
    qed
  qed
qed

section \<open>Events\<close>

text \<open>
  The application loads data; the interrupt comes with the two answers of the status register and
  the bytes that the host has written. The hardware reports a chunk as read only if it was started,
  and then the host got what the descriptor shows.
\<close>

datatype sdio_event = Load "u8 list" u32 | Host_intr u32 u32 "u8 list"

text \<open>What an event answers: the bytes that the host got, or the number that the call returns.\<close>

datatype sdio_out = Host_got "u8 list" | Returned nat

definition intr_status :: "sdio \<Rightarrow> u32 \<Rightarrow> u32" where
  "intr_status s st = (if rx_armed s then st else st AND NOT (bits [SLC_RX_EOF]))"

definition shown :: "sdio \<Rightarrow> u8 list" where
  "shown s = (case buf_ptr (rx_que s) of
     Element a \<Rightarrow> (case heap s a of None \<Rightarrow> [] | Some e \<Rightarrow> take (unat (datalen (rx_que s))) (buffer e))
   | _ \<Rightarrow> [])"

definition host_writes :: "u8 list \<Rightarrow> sdio \<Rightarrow> sdio" where
  "host_writes xs s = s\<lparr>tx_buffer := xs @ drop (length xs) (tx_buffer s),
     tx_que := (tx_que s)\<lparr>datalen := of_nat (length xs)\<rparr>\<rparr>"

fun sdio_step :: "sdio_event \<Rightarrow> sdio \<Rightarrow> (sdio_out \<times> sdio) option" where
  "sdio_step (Load data len) s = map_option (\<lambda>(r, s). (Returned (unat r), s)) (sdio_load_data data len s)"
| "sdio_step (Host_intr st st2 xs) s =
     (let st = intr_status s st;
          read = bit st SLC_RX_EOF;
          s' = (if bit st SLC_TX_EOF then host_writes xs s else s)
      in map_option (Pair (Host_got (if read then shown s else [])))
           (sdio_slave_isr st st2 (if read then s'\<lparr>rx_armed := False\<rparr> else s')))"

fun sdio_spec :: "sdio_event \<Rightarrow> link \<Rightarrow> sdio_out \<times> link" where
  "sdio_spec (Load data len) l = (let (n, l) = spec_load (take (unat len) data) l in (Returned n, l))"
| "sdio_spec (Host_intr st st2 xs) l =
     (if bit st SLC_RX_EOF then (let (xs, l) = spec_read l in (Host_got xs, l)) else (Host_got [], l))"

fun sdio_event_ok :: "sdio_event \<Rightarrow> bool" where
  "sdio_event_ok (Load data len) \<longleftrightarrow> unat len \<le> length data"
| "sdio_event_ok (Host_intr st st2 xs) \<longleftrightarrow> length xs \<le> 512"

definition sdio_ready :: "sdio \<Rightarrow> bool" where
  "sdio_ready s \<longleftrightarrow> (\<exists>A B. sdio_inv s A B)"

lemma sdio_view_eq: "sdio_inv s A B \<Longrightarrow> sdio_view s = view_of s A B"
proof -
  assume "sdio_inv s A B"
  then have "chain (heap s) (pHead_ToSend s) A" "chain (heap s) (pHead_Sended s) B" "length A + length B = RX_BUFFER_NUM"
    by (simp_all add: sdio_inv_def two_lists_def)
  then show ?thesis by (simp add: sdio_view_def elems_chain)
qed

lemma offers_shown:
  assumes "sdio_inv s (a # A) B" and "rx_armed s"
  shows "shown s = content (heap s) a"
proof -
  from assms have "elem_ok (heap s) a" "offers s a" by (auto simp: sdio_inv_def two_lists_def)
  then show ?thesis using elem_okD [of "heap s" a] by (auto simp: shown_def offers_def content_elem)
qed

text \<open>The rest of the handler changes registers, the send descriptor and the record of calls.\<close>

definition other_part :: "sdio \<Rightarrow> sdio \<Rightarrow> bool" where
  "other_part s s' \<longleftrightarrow> (\<exists>x q b ops. s' = s\<lparr>slc := x, tx_que := q, tx_buffer := b, sdio_ops := ops\<rparr> \<and>
     (tx_ok s \<longrightarrow> tx_ok s'))"

lemma other_part_update:
  "two_lists (s\<lparr>slc := x, tx_que := q, tx_buffer := b, sdio_ops := ops\<rparr>) A B = two_lists s A B"
  "head_room (s\<lparr>slc := x, tx_que := q, tx_buffer := b, sdio_ops := ops\<rparr>) B = head_room s B"
  "offers (s\<lparr>slc := x, tx_que := q, tx_buffer := b, sdio_ops := ops\<rparr>) a = offers s a"
  "view_of (s\<lparr>slc := x, tx_que := q, tx_buffer := b, sdio_ops := ops\<rparr>) A B = view_of s A B"
  by (simp_all add: two_lists_def head_room_def offers_def view_of_def split: list.split)

lemma other_part_inv:
  "other_part s s' \<Longrightarrow> sdio_inv s A B \<Longrightarrow> sdio_inv s' A B \<and> view_of s' A B = view_of s A B"
  unfolding other_part_def by (elim exE conjE) (simp add: sdio_inv_def other_part_update)

lemma other_part_regs [simp]:
  "other_part s s" "other_part s (slc_write r w s)" "other_part s (TRIG_TOHOST_INT s)" "other_part s (sdio_do op s)"
  by (cases s; simp add: other_part_def slc_write_def TRIG_slc sdio_do_def tx_ok_def)+

lemma other_part_trans: "other_part s t \<Longrightarrow> other_part t u \<Longrightarrow> other_part s u"
  by (force simp: other_part_def)

lemma host_writes_other: "length xs \<le> 512 \<Longrightarrow> other_part s (host_writes xs s)"
  by (cases s) (simp add: other_part_def host_writes_def tx_ok_def unat_of_nat)

lemma from_host_other:
  assumes "tx_ok s"
  shows "\<exists>s'. from_host_done s = Some s' \<and> other_part s s'"
  using assms
  by (cases s) (simp add: from_host_done_def tx_buff_write_done_def update_status_def tx_buff_handle_done_def
      Let_def slc_set_def slc_write_def TRIG_TOHOST_INT_def rd_block_def sdio_do_def other_part_def tx_ok_def
      split: option.split)

lemma armed_cons: "sdio_inv s A B \<Longrightarrow> rx_armed s \<Longrightarrow> \<exists>a A'. A = a # A'"
  unfolding sdio_inv_def by (cases A) blast+

lemma read_stage:
  assumes inv: "sdio_inv s A B" and read: "read \<Longrightarrow> rx_armed s"
    and s3: "s3 = slc_write r w (if read then s\<lparr>rx_armed := False\<rparr> else s)"
  shows "\<exists>s' A' B'. (if read then sdio_read_done_process (rx_buff_read_done s3) else Some s3) = Some s' \<and>
    sdio_inv s' A' B' \<and> view_of s' A' B' = (if read then snd (spec_read (view_of s A B)) else view_of s A B)"
proof (cases read)
  case True
  then obtain a A2 where A: "A = a # A2" using armed_cons [OF inv read] by blast
  obtain x where "rx_buff_read_done s3 = s\<lparr>rx_armed := False, slc := x\<rparr>"
    using True by (cases s) (simp add: s3 rx_buff_read_done_def update_status_def slc_write_def)
  with sdio_read_implements [OF inv [unfolded A] read [OF True]] True show ?thesis unfolding A by simp
next
  case False
  with inv other_part_inv [of s s3 A B] show ?thesis by (auto simp: s3)
qed

text \<open>The whole handler when there is something to do: the read stage, then the rest.\<close>

lemma isr_runs:
  assumes inv: "sdio_inv s A B" and st: "st \<noteq> 0" and read: "bit st SLC_RX_EOF \<Longrightarrow> rx_armed s"
  shows "\<exists>s' A' B'. sdio_slave_isr st st2 (if bit st SLC_RX_EOF then s\<lparr>rx_armed := False\<rparr> else s) = Some s' \<and>
    sdio_inv s' A' B' \<and>
    view_of s' A' B' = (if bit st SLC_RX_EOF then snd (spec_read (view_of s A B)) else view_of s A B)"
proof -
  let ?s3 = "slc_write SLC_INT_CLR st (if bit st SLC_RX_EOF then s\<lparr>rx_armed := False\<rparr> else s)"
  obtain s4 A' B' where
    s4: "(if bit st SLC_RX_EOF then sdio_read_done_process (rx_buff_read_done ?s3) else Some ?s3) = Some s4"
      "sdio_inv s4 A' B'"
      "view_of s4 A' B' = (if bit st SLC_RX_EOF then snd (spec_read (view_of s A B)) else view_of s A B)"
    using read_stage [where r = SLC_INT_CLR and w = st, OF inv read refl] by blast
  obtain s5 where s5: "from_host_done s4 = Some s5" "other_part s4 s5"
    using from_host_other [of s4] s4(2) by (auto simp: sdio_inv_def)
  define s6 where "s6 = (if bit st SLC_TX_EOF then s5 else s4)"
  define s7 where "s7 = (if st2 \<noteq> 0 then sdio_do (Printf_status st2) (slc_write SLC_INT_CLR st2 s6) else s6)"
  have "other_part s4 s6" using s5(2) by (simp add: s6_def)
  moreover have "other_part s6 s7"
    using other_part_trans [of s6 "slc_write SLC_INT_CLR st2 s6"] by (simp add: s7_def)
  ultimately have "other_part s4 s7" by (rule other_part_trans)
  moreover have "sdio_slave_isr st st2 (if bit st SLC_RX_EOF then s\<lparr>rx_armed := False\<rparr> else s) = Some s7"
    using st s4(1) s5(1)
    by (simp add: sdio_slave_isr_def and_bits_nonzero SLC_RX_EOF_def SLC_TX_EOF_def s6_def s7_def Let_def
        cong: if_cong)
  ultimately show ?thesis
    using s4(2,3) other_part_inv [of s4 s7 A' B'] by metis
qed

lemma isr_implements:
  assumes inv: "sdio_inv s A B" and len: "length xs \<le> 512"
  shows "\<exists>s' A' B'. sdio_step (Host_intr st st2 xs) s =
      Some (fst (sdio_spec (Host_intr st st2 xs) (view_of s A B)), s') \<and>
    sdio_inv s' A' B' \<and> view_of s' A' B' = snd (sdio_spec (Host_intr st st2 xs) (view_of s A B))"
proof -
  let ?st = "intr_status s st" and ?v = "view_of s A B"
  define read where "read = bit ?st SLC_RX_EOF"
  have read: "read \<longleftrightarrow> bit st SLC_RX_EOF \<and> rx_armed s"
    by (auto simp: read_def intr_status_def bit_and_iff bit_not_iff bit_bits SLC_RX_EOF_def)
  define s1 where "s1 = (if bit ?st SLC_TX_EOF then host_writes xs s else s)"
  have "other_part s s1" using host_writes_other [OF len] by (simp add: s1_def)
  from other_part_inv [OF this inv] have s1: "sdio_inv s1 A B" "view_of s1 A B = ?v" by simp_all
  have armed1: "rx_armed s1 = rx_armed s" by (simp add: s1_def host_writes_def)
  have out: "fst (sdio_spec (Host_intr st st2 xs) ?v) = Host_got (if read then shown s else [])"
  proof (cases read)
    case True
    then obtain a A2 where "A = a # A2" using armed_cons [OF inv] read by blast
    with True read inv offers_shown [of s a A2 B] show ?thesis
      by (simp add: spec_read_def view_of_def)
  qed (use read in \<open>auto simp: spec_read_def view_of_def\<close>)
  have view: "snd (sdio_spec (Host_intr st st2 xs) ?v) = (if read then snd (spec_read ?v) else ?v)"
    using read by (auto simp: split_beta spec_read_def view_of_def)
  have step: "sdio_step (Host_intr st st2 xs) s = map_option (Pair (Host_got (if read then shown s else [])))
      (sdio_slave_isr ?st st2 (if read then s1\<lparr>rx_armed := False\<rparr> else s1))"
    by (simp add: s1_def read_def Let_def)
  show ?thesis
  proof (cases "?st = 0")
    case True
    then have "\<not> read" by (simp add: read_def)
    with step True s1 show ?thesis
      unfolding out view by (intro exI [of _ s1] exI [of _ A] exI [of _ B]) (simp add: sdio_slave_isr_def)
  next
    case False
    have "bit ?st SLC_RX_EOF \<Longrightarrow> rx_armed s1" using read armed1 by (simp add: read_def)
    from isr_runs [OF s1(1) False this, of st2] show ?thesis
      unfolding step out view s1(2) read_def [symmetric] by auto
  qed
qed

interpretation sdio: simulation sdio_step sdio_spec sdio_view sdio_ready sdio_event_ok
proof unfold_locales
  fix s :: sdio and e :: sdio_event
  assume "sdio_ready s" and ok: "sdio_event_ok e"
  then obtain A B where inv: "sdio_inv s A B" by (auto simp: sdio_ready_def)
  have "\<exists>s' A' B'. sdio_step e s = Some (fst (sdio_spec e (view_of s A B)), s') \<and> sdio_inv s' A' B' \<and>
      view_of s' A' B' = snd (sdio_spec e (view_of s A B))"
  proof (cases e)
    case (Load data len)
    with ok have "unat len \<le> length data" by simp
    from sdio_load_implements [OF inv this] show ?thesis
      unfolding Load by (auto simp: split_beta prod_eq_iff)
  next
    case (Host_intr st st2 xs)
    with ok have "length xs \<le> 512" by simp
    from isr_implements [OF inv this] show ?thesis unfolding Host_intr .
  qed
  then show "\<exists>s'. sdio_step e s = Some (fst (sdio_spec e (sdio_view s)), s') \<and> sdio_ready s' \<and>
      sdio_view s' = snd (sdio_spec e (sdio_view s))"
    using inv by (metis sdio_view_eq sdio_ready_def)
qed

text \<open>So no sequence of loads and interrupts, however long, leads the driver to undefined behaviour.\<close>

lemma sdio_never_stuck:
  "(\<lambda>s t. \<exists>e x. sdio_event_ok e \<and> sdio_step e s = Some (x, t))\<^sup>*\<^sup>* s t \<Longrightarrow> sdio_ready s \<Longrightarrow>
     sdio_event_ok e \<Longrightarrow> \<exists>x t'. sdio_step e t = Some (x, t')"
  by (rule sdio.never_stuck)

section \<open>From the initialisation on\<close>

text \<open>\<open>os_malloc\<close> gives four different elements; the driver has not been initialised before.\<close>

definition four_elements :: "(nat \<Rightarrow> (nat \<times> u8 list) option) \<Rightarrow> bool" where
  "four_elements mallocs \<longleftrightarrow> (\<exists>as. length as = 4 \<and> distinct as \<and>
     (\<forall>i < 4. \<exists>b. mallocs i = Some (as ! i, b) \<and> length b = 512))"

definition fresh_driver :: "sdio \<Rightarrow> bool" where
  "fresh_driver s \<longleftrightarrow> pHead_Sended s = None \<and> \<not> rx_armed s \<and> length (tx_buffer s) = 512"

definition empty_link :: link where
  "empty_link = \<lparr>queued = [], partial = [], frees = 4, idle = True, armed = False\<rparr>"

lemma link_init_slc: "\<exists>x. link_init r a s = s\<lparr>slc := x\<rparr>"
proof -
  have "\<not> bit (a AND 0x000FFFFF) LINK_START"
    by (simp add: bit_and_iff LINK_START_def bit_numeral_rec)
  then show ?thesis by (cases s) (simp add: link_init_def slc_set_def slc_clear_def slc_write_def)
qed

lemma init_loop_four:
  assumes "distinct [a0, a1, a2, a3]" and "pHead_Sended s = None"
  shows "init_loop [Some (a0, b0), Some (a1, b1), Some (a2, b2), Some (a3, b3)] None s =
    Some (Some a3, s\<lparr>pHead_Sended := Some a0, heap := (heap s)(
      a0 \<mapsto> \<lparr>buffer = b0, tail = 0, next_elem = Some a1\<rparr>, a1 \<mapsto> \<lparr>buffer = b1, tail = 0, next_elem = Some a2\<rparr>,
      a2 \<mapsto> \<lparr>buffer = b2, tail = 0, next_elem = Some a3\<rparr>, a3 \<mapsto> \<lparr>buffer = b3, tail = 0, next_elem = None\<rparr>)\<rparr>)"
  using assms by (cases s) (auto simp: set_elem_def fun_eq_iff)

lemma sdio_init_ready:
  assumes "four_elements mallocs" and fresh: "fresh_driver s"
  shows "\<exists>s0. sdio_slave_init mallocs rx_addr tx_addr s = Some s0 \<and> sdio_ready s0 \<and> sdio_view s0 = empty_link"
proof -
  from assms(1) obtain as where as: "length as = 4" "distinct as"
      "\<forall>i < 4. \<exists>b. mallocs i = Some (as ! i, b) \<and> length b = 512"
    by (auto simp: four_elements_def)
  obtain a0 a1 a2 a3 where a: "as = [a0, a1, a2, a3]"
    using as(1) by (auto simp: length_Suc_conv numeral_eq_Suc)
  from as(3) have "\<forall>i \<in> {0, 1, 2, 3}. \<exists>b. mallocs i = Some (as ! i, b) \<and> length b = 512" by simp
  then obtain b0 b1 b2 b3 where b: "mallocs 0 = Some (a0, b0)" "mallocs 1 = Some (a1, b1)"
      "mallocs 2 = Some (a2, b2)" "mallocs 3 = Some (a3, b3)"
      "length b0 = 512" "length b1 = 512" "length b2 = 512" "length b3 = 512"
    by (auto simp: a)
  have "[0..<4] = [0 :: nat, 1, 2, 3]" by code_simp
  then have list: "map mallocs [0..<RX_BUFFER_NUM] = [Some (a0, b0), Some (a1, b1), Some (a2, b2), Some (a3, b3)]"
    using b by (simp add: RX_BUFFER_NUM_def)
  have d: "distinct [a0, a1, a2, a3]" using as(2) by (simp only: a)
  define h where "h = (heap s)(
      a0 \<mapsto> \<lparr>buffer = b0, tail = 0, next_elem = Some a1\<rparr>, a1 \<mapsto> \<lparr>buffer = b1, tail = 0, next_elem = Some a2\<rparr>,
      a2 \<mapsto> \<lparr>buffer = b2, tail = 0, next_elem = Some a3\<rparr>, a3 \<mapsto> \<lparr>buffer = b3, tail = 0, next_elem = None\<rparr>)"
  obtain x y where x: "\<And>r. link_init SLC_RX_LINK rx_addr r = r\<lparr>slc := x r\<rparr>" "\<And>r. link_init SLC_TX_LINK tx_addr r = r\<lparr>slc := y r\<rparr>"
    using link_init_slc by metis
  obtain s0 where s0: "sdio_slave_init mallocs rx_addr tx_addr s = Some s0" "heap s0 = h"
      "pHead_Sended s0 = Some a0" "pTail_Sended s0 = Some a3" "pHead_ToSend s0 = None" "has_read s0"
      "\<not> rx_armed s0" "blocksize (rx_que s0) = 512" "tx_ok s0"
    using fresh by (simp add: sdio_slave_init_def list init_loop_four [OF d] x fresh_driver_def Let_def sdio_do_def
        slc_set_def slc_clear_def slc_write_def tx_ok_def h_def del: init_loop.simps)
  have l: "two_lists s0 [] [a0, a1, a2, a3]"
    using d s0 b by (simp add: two_lists_def h_def elem_ok_iff content_elem)
  have c: "content (heap s0) a0 = []" using d s0(2) by (simp add: h_def content_elem)
  then have inv: "sdio_inv s0 [] [a0, a1, a2, a3]"
    using l s0 by (simp add: sdio_inv_def head_room_def RX_BUFFER_NUM_def)
  then have "sdio_view s0 = empty_link"
    using c s0(6,7) by (simp add: sdio_view_eq view_of_def empty_link_def)
  then show ?thesis using s0(1) inv by (auto simp: sdio_ready_def)
qed

end
