(* ===== verification/Sdio_Props.thy ===== *)
theory Sdio_Props
  imports Sdio_Spec
begin

text \<open>
  What the host of the SDIO slave sees: the driver implements its specification, the accepted
  bytes arrive in order, a short message is offered at once - and a message of at least one buffer
  that finds the driver idle is never offered.
\<close>

section \<open>The stream of bytes\<close>

definition link_wf :: "link \<Rightarrow> bool" where
  "link_wf l \<longleftrightarrow> length (partial l) < 512 \<and> (frees l = 0 \<longrightarrow> partial l = []) \<and> (armed l \<longrightarrow> queued l \<noteq> [])"

definition stream :: "link \<Rightarrow> u8 list" where
  "stream l = concat (queued l) @ partial l"

definition link_room :: "link \<Rightarrow> nat" where
  "link_room l = 512 * frees l - length (partial l)"

lemma fill_stream:
  "link_wf l \<Longrightarrow> link_wf (snd (spec_fill data l)) \<and>
     stream (snd (spec_fill data l)) = stream l @ take (link_room l) data \<and>
     idle (snd (spec_fill data l)) = idle l \<and> armed (snd (spec_fill data l)) = armed l \<and>
     (queued l \<noteq> [] \<longrightarrow> queued (snd (spec_fill data l)) \<noteq> []) \<and>
     (queued (snd (spec_fill data l)) = [] \<longrightarrow> frees (snd (spec_fill data l)) = frees l)"
proof (induction data l rule: spec_fill.induct)
  case (1 data l)
  let ?r = "512 - length (partial l)"
  let ?l = "l\<lparr>queued := queued l @ [partial l @ take ?r data], partial := [], frees := frees l - 1\<rparr>"
  consider "data = [] \<or> frees l = 0" | "data \<noteq> []" "frees l \<noteq> 0" "length data < ?r"
    | "data \<noteq> []" "frees l \<noteq> 0" "?r \<le> length data" by linarith
  then show ?case
  proof cases
    case 1
    then have "spec_fill data l = (0, l)" by (subst spec_fill.simps) (simp add: Let_def)
    then show ?thesis using "1.prems" 1 by (auto simp: link_room_def)
  next
    case 2
    then have "spec_fill data l = (0, l\<lparr>partial := partial l @ data\<rparr>)"
      by (subst spec_fill.simps) (simp add: Let_def)
    moreover have "length data \<le> link_room l" using 2 by (cases "frees l") (simp_all add: link_room_def)
    ultimately show ?thesis using "1.prems" 2 by (simp add: link_wf_def stream_def)
  next
    case 3
    then have s: "snd (spec_fill data l) = snd (spec_fill (drop ?r data) ?l)"
      by (subst spec_fill.simps) (simp add: Let_def split_beta)
    have wf: "link_wf ?l" using "1.prems" by (simp add: link_wf_def)
    have "link_room l = ?r + link_room ?l"
      using 3(2) "1.prems" by (cases "frees l") (simp_all add: link_room_def link_wf_def)
    then have "stream ?l @ take (link_room ?l) (drop ?r data) = stream l @ take (link_room l) data"
      by (simp add: stream_def take_add)
    then show ?thesis using "1.IH" [OF refl _ _ wf] 3 unfolding s by simp
  qed
qed

lemma load_stream:
  assumes wf: "link_wf l"
  shows "link_wf (snd (spec_load data l)) \<and> stream (snd (spec_load data l)) = stream l @ take (link_room l) data"
proof (cases "frees l = 0")
  case True
  then show ?thesis using wf by (simp add: spec_load_def link_room_def)
next
  case False
  let ?l = "snd (spec_fill data l)"
  show ?thesis
  proof (cases "queued ?l = []")
    case True
    then have "snd (spec_load data l) = ?l\<lparr>queued := [partial ?l], partial := [], frees := frees ?l - 1,
        idle := False, armed := partial ?l \<noteq> []\<rparr>"
      using False by (simp add: spec_load_def split_beta)
    with True fill_stream [OF wf, of data] show ?thesis by (simp add: link_wf_def stream_def)
  next
    case queued: False
    then have "snd (spec_load data l) = ?l" using False by (simp add: spec_load_def split_beta)
    with fill_stream [OF wf, of data] show ?thesis by simp
  qed
qed

lemma read_stream:
  assumes "link_wf l"
  shows "link_wf (snd (spec_read l)) \<and> fst (spec_read l) @ stream (snd (spec_read l)) = stream l"
  using assms by (cases "queued l") (auto simp: spec_read_def link_wf_def stream_def Let_def)

text \<open>What the host got in a run, and what the calls accepted: as much as fits at that moment.\<close>

fun host_bytes :: "sdio_out list \<Rightarrow> u8 list" where
  "host_bytes [] = []"
| "host_bytes (Host_got xs # outs) = xs @ host_bytes outs"
| "host_bytes (Returned n # outs) = host_bytes outs"

fun accepted :: "sdio_event list \<Rightarrow> sdio \<Rightarrow> u8 list" where
  "accepted [] s = []"
| "accepted (e # es) s =
     (case e of Load data len \<Rightarrow> take (link_room (sdio_view s)) (take (unat len) data) | _ \<Rightarrow> []) @
     (case sdio_step e s of None \<Rightarrow> [] | Some (x, s) \<Rightarrow> accepted es s)"

lemma run_in_order:
  "sdio_ready s \<Longrightarrow> link_wf (sdio_view s) \<Longrightarrow> list_all sdio_event_ok es \<Longrightarrow>
     \<exists>outs s'. run_steps sdio_step es s = Some (outs, s') \<and>
       host_bytes outs @ stream (sdio_view s') = stream (sdio_view s) @ accepted es s"
proof (induction es arbitrary: s)
  case Nil
  then show ?case by simp
next
  case (Cons e es)
  then obtain s1 where s1: "sdio_step e s = Some (fst (sdio_spec e (sdio_view s)), s1)" "sdio_ready s1"
      "sdio_view s1 = snd (sdio_spec e (sdio_view s))"
    using sdio.simulates [of s e] by auto
  have spec: "link_wf (snd (sdio_spec e (sdio_view s))) \<and>
      host_bytes [fst (sdio_spec e (sdio_view s))] @ stream (snd (sdio_spec e (sdio_view s))) =
      stream (sdio_view s) @
      (case e of Load data len \<Rightarrow> take (link_room (sdio_view s)) (take (unat len) data) | _ \<Rightarrow> [])"
    using load_stream [OF Cons.prems(2)] read_stream [OF Cons.prems(2)] Cons.prems(2)
    by (cases e) (simp_all add: split_beta Let_def)
  obtain outs s' where s': "run_steps sdio_step es s1 = Some (outs, s')"
      "host_bytes outs @ stream (sdio_view s') = stream (sdio_view s1) @ accepted es s1"
    using Cons.IH [OF s1(2)] spec s1(3) Cons.prems(3) by auto
  have "host_bytes (x # outs) = host_bytes [x] @ host_bytes outs" for x by (cases x) simp_all
  then show ?case
    using s1(1,3) s' spec by (auto simp del: sdio_step.simps sdio_spec.simps)
qed

lemma empty_link_wf: "link_wf empty_link" "stream empty_link = []"
  by (simp_all add: empty_link_def link_wf_def stream_def)

section \<open>The properties\<close>

text \<open>A board before the driver is initialised, and its memory.\<close>

definition sdio_mem :: "nat \<Rightarrow> (nat \<times> u8 list) option" where
  "sdio_mem i = Some (100 + i, replicate 512 0)"

definition sdio_boot :: sdio where
  "sdio_boot = (let q = \<lparr>blocksize = 0, datalen = 0, unused = 0, sub_sof = 0, eof = 0, owner = 0,
       buf_ptr = Unset, next_link_ptr = 0\<rparr>
     in \<lparr>slc = (\<lambda>r. 0), heap = Map.empty, pHead_ToSend = None, pTail_ToSend = None,
         pHead_Sended = None, pTail_Sended = None, has_read = False, rx_que = q, tx_que = q,
         tx_buffer = replicate 512 0, recv_cb = None, rx_armed = False, sdio_ops = []\<rparr>)"

lemma sdio_mem_four: "four_elements sdio_mem"
  unfolding four_elements_def
  by (rule exI [of _ "[100, 101, 102, 103]"]) (auto simp: sdio_mem_def numeral_eq_Suc less_Suc_eq)

lemma sdio_boot_fresh: "fresh_driver sdio_boot"
  by (simp add: fresh_driver_def sdio_boot_def Let_def)

text \<open>
  C12. The SDIO slave implements its specification. After the initialisation, with any order of
  calls that load data and of interrupts, whatever the host writes meanwhile, no pointer of the two
  linked lists is followed to NULL, no buffer is overrun, and the chunks that the host gets and the
  numbers that the calls return are those of the specification on lists of chunks.
\<close>

theorem sdio_refines:
  assumes "four_elements mallocs" and "fresh_driver s" and "list_all sdio_event_ok es"
  shows "\<exists>s0 s'. sdio_slave_init mallocs rx_addr tx_addr s = Some s0 \<and>
    run_steps sdio_step es s0 = Some (fst (run_spec sdio_spec es empty_link), s') \<and>
    sdio_view s' = snd (run_spec sdio_spec es empty_link)"
  using sdio_init_ready [OF assms(1,2)] sdio.run_simulates [OF _ assms(3)] by metis

text \<open>Two messages are loaded, the host reads the first, then the second.\<close>

definition talk :: "sdio_event list" where
  "talk = [Load [1, 2, 3] 3, Load [4, 5] 2, Host_intr (bits [17]) 0 [], Host_intr (bits [17]) 0 []]"

lemma talk_spec:
  "run_spec sdio_spec talk empty_link =
     ([Returned 0, Returned 0, Host_got [1, 2, 3], Host_got [4, 5]], empty_link)"
proof -
  have "bit (bits [17]) SLC_RX_EOF" by (simp add: bit_bits SLC_RX_EOF_def)
  then show ?thesis
    by (simp add: talk_def empty_link_def spec_load_def spec_fill.simps spec_read_def Let_def)
qed

theorem sdio_refines_witness:
  "\<exists>s0 s'. sdio_slave_init sdio_mem 0 0 sdio_boot = Some s0 \<and>
     run_steps sdio_step talk s0 = Some ([Returned 0, Returned 0, Host_got [1, 2, 3], Host_got [4, 5]], s') \<and>
     sdio_view s' = empty_link"
  using sdio_refines [OF sdio_mem_four sdio_boot_fresh, of talk 0 0]
  by (simp add: talk_spec) (simp add: talk_def)

text \<open>
  C32. The host gets the accepted bytes in order. In any run from the initialisation the chunks that
  the host has read, followed by what is still stored, are exactly the bytes that the calls
  accepted, each call as many as the free buffers had room for: nothing is lost, repeated or
  swapped.
\<close>

theorem sdio_in_order:
  assumes "four_elements mallocs" and "fresh_driver s" and "list_all sdio_event_ok es"
  shows "\<exists>s0 outs s'. sdio_slave_init mallocs rx_addr tx_addr s = Some s0 \<and>
    run_steps sdio_step es s0 = Some (outs, s') \<and>
    host_bytes outs @ stream (sdio_view s') = accepted es s0"
  using sdio_init_ready [OF assms(1,2)] run_in_order [OF _ _ assms(3)] empty_link_wf
  by (metis append_Nil)

theorem sdio_in_order_witness:
  "\<exists>s0 outs s'. sdio_slave_init sdio_mem 0 0 sdio_boot = Some s0 \<and>
     run_steps sdio_step talk s0 = Some (outs, s') \<and> host_bytes outs @ stream (sdio_view s') = accepted talk s0"
  by (rule sdio_in_order [OF sdio_mem_four sdio_boot_fresh]) (simp add: talk_def)

text \<open>
  A short message reaches the host. A message of less than one buffer that finds the driver
  empty is offered at once: the next interrupt for a read chunk gives the host exactly the message,
  and the driver is empty again. The call returns 0, not the number of bytes that it took.
\<close>

lemma sdio_delivers:
  assumes "four_elements mallocs" and "fresh_driver s" and "0 < unat len" and "unat len < 512"
    and "unat len \<le> length data" and "bit st SLC_RX_EOF" and "length xs \<le> 512"
  shows "\<exists>s0 s'. sdio_slave_init mallocs rx_addr tx_addr s = Some s0 \<and>
    run_steps sdio_step [Load data len, Host_intr st st2 xs] s0 =
      Some ([Returned 0, Host_got (take (unat len) data)], s') \<and>
    sdio_view s' = empty_link"
proof -
  have "take (unat len) data \<noteq> []" using assms(3,5) by auto
  then have "run_spec sdio_spec [Load data len, Host_intr st st2 xs] empty_link =
      ([Returned 0, Host_got (take (unat len) data)], empty_link)"
    using assms(4-6) by (simp add: empty_link_def spec_load_def spec_fill.simps spec_read_def Let_def)
  moreover have "list_all sdio_event_ok [Load data len, Host_intr st st2 xs]" using assms(5,7) by simp
  ultimately show ?thesis
    using sdio_init_ready [OF assms(1,2), of rx_addr tx_addr]
      sdio.run_simulates [of _ "[Load data len, Host_intr st st2 xs]"]
    by (metis fst_conv snd_conv)
qed

lemma sdio_delivers_witness:
  "\<exists>s0 s'. sdio_slave_init sdio_mem 0 0 sdio_boot = Some s0 \<and>
     run_steps sdio_step [Load [7, 8, 9] 3, Host_intr (bits [17]) 0 []] s0 =
       Some ([Returned 0, Host_got (take (unat (3 :: u32)) [7, 8, 9])], s') \<and>
     sdio_view s' = empty_link"
  by (rule sdio_delivers [OF sdio_mem_four sdio_boot_fresh]) (simp_all add: bit_bits SLC_RX_EOF_def)

text \<open>A driver that has chunks queued but never gave one to the hardware stays so.\<close>

lemma stuck_forever:
  "sdio_ready s \<Longrightarrow> link_wf (sdio_view s) \<Longrightarrow> list_all sdio_event_ok es \<Longrightarrow>
     queued (sdio_view s) \<noteq> [] \<and> \<not> armed (sdio_view s) \<Longrightarrow>
     \<exists>outs s'. run_steps sdio_step es s = Some (outs, s') \<and> host_bytes outs = []"
proof (induction es arbitrary: s)
  case Nil
  then show ?case by simp
next
  case (Cons e es)
  then obtain s1 where s1: "sdio_step e s = Some (fst (sdio_spec e (sdio_view s)), s1)" "sdio_ready s1"
      "sdio_view s1 = snd (sdio_spec e (sdio_view s))"
    using sdio.simulates [of s e] by auto
  have "host_bytes [fst (sdio_spec e (sdio_view s))] = [] \<and> link_wf (sdio_view s1) \<and>
      queued (sdio_view s1) \<noteq> [] \<and> \<not> armed (sdio_view s1)"
  proof (cases e)
    case (Load data len)
    then show ?thesis
      using Cons.prems(2,4) load_stream [OF Cons.prems(2), of "take (unat len) data"]
        fill_stream [OF Cons.prems(2), of "take (unat len) data"]
      by (auto simp: s1(3) spec_load_def split_beta Let_def)
  next
    case (Host_intr st st2 xs)
    then show ?thesis using Cons.prems(2,4) by (simp add: s1(3) spec_read_def)
  qed
  then have h: "host_bytes [fst (sdio_spec e (sdio_view s))] = []" and
    "link_wf (sdio_view s1)" "queued (sdio_view s1) \<noteq> [] \<and> \<not> armed (sdio_view s1)" by simp_all
  then obtain outs s' where "run_steps sdio_step es s1 = Some (outs, s')" "host_bytes outs = []"
    using Cons.IH [OF s1(2)] Cons.prems(3) by auto
  moreover have "host_bytes (x # outs) = host_bytes [x] @ host_bytes outs" for x by (cases x) simp_all
  ultimately show ?case using s1(1) h by (auto simp del: sdio_step.simps sdio_spec.simps)
qed

text \<open>
  C33. A long message blocks the slave for ever. When the driver is empty and a call loads at least
  one full buffer, the buffers are queued but the descriptor is never started: whatever is loaded
  and whatever interrupts come afterwards, the host never gets a byte.
\<close>

theorem sdio_blocked:
  assumes "four_elements mallocs" and "fresh_driver s" and "512 \<le> unat len"
    and "unat len \<le> length data" and "list_all sdio_event_ok es"
  shows "\<exists>s0 outs s'. sdio_slave_init mallocs rx_addr tx_addr s = Some s0 \<and>
    run_steps sdio_step (Load data len # es) s0 = Some (outs, s') \<and> host_bytes outs = []"
proof -
  let ?d = "take (unat len) data" and ?l = "snd (spec_fill (take (unat len) data) empty_link)"
  obtain s0 where s0: "sdio_slave_init mallocs rx_addr tx_addr s = Some s0" "sdio_ready s0"
      "sdio_view s0 = empty_link"
    using sdio_init_ready [OF assms(1,2)] by blast
  then obtain s1 where s1: "sdio_step (Load data len) s0 = Some (fst (sdio_spec (Load data len) empty_link), s1)"
      "sdio_ready s1" "sdio_view s1 = snd (sdio_spec (Load data len) empty_link)"
    using sdio.simulates [of s0 "Load data len"] assms(4) by auto
  have "?d \<noteq> []" "\<not> length ?d < 512" using assms(3,4) by auto
  then have f: "?l = snd (spec_fill (drop 512 ?d) \<lparr>queued = [take 512 ?d], partial = [], frees = 3,
      idle = True, armed = False\<rparr>)" (is "_ = snd (spec_fill _ ?e)")
    by (subst spec_fill.simps) (simp add: empty_link_def split_beta)
  have "link_wf ?e" by (simp add: link_wf_def)
  then have q: "queued ?l \<noteq> []" "\<not> armed ?l"
    using fill_stream [of ?e "drop 512 ?d"] unfolding f by simp_all
  then have "snd (spec_load ?d empty_link) = ?l"
    by (simp add: spec_load_def split_beta) (simp add: empty_link_def)
  then have "queued (sdio_view s1) \<noteq> [] \<and> \<not> armed (sdio_view s1)" "link_wf (sdio_view s1)"
    using q load_stream [OF empty_link_wf(1), of ?d] s1(3) by (simp_all add: split_beta Let_def)
  then obtain outs s' where "run_steps sdio_step es s1 = Some (outs, s')" "host_bytes outs = []"
    using stuck_forever [OF s1(2) _ assms(5)] by blast
  moreover obtain n where "fst (sdio_spec (Load data len) empty_link) = Returned n"
    by (simp add: split_beta Let_def)
  ultimately have "run_steps sdio_step (Load data len # es) s0 = Some (Returned n # outs, s')"
      "host_bytes (Returned n # outs) = []"
    using s1(1) by (simp_all del: sdio_step.simps sdio_spec.simps)
  then show ?thesis using s0(1) by blast
qed

theorem sdio_blocked_witness:
  "\<exists>s0 outs s'. sdio_slave_init sdio_mem 0 0 sdio_boot = Some s0 \<and>
     run_steps sdio_step (Load (replicate 600 7) 600 # [Load [1] 1, Host_intr (bits [17]) 0 []]) s0 = Some (outs, s') \<and>
     host_bytes outs = []"
  by (rule sdio_blocked [OF sdio_mem_four sdio_boot_fresh]) simp_all

end
