(* ===== verification/Spi.thy ===== *)
theory Spi
  imports Prelude
begin

text \<open>
  The SPI drivers: \<open>driver_lib/driver/spi_interface.c\<close> (master and slave by descriptors) and
  \<open>driver_lib/driver/spi.c\<close> (single bytes, the slave's interrupt). The registers are memory cells by
  their addresses, so that a loop over the buffer registers that runs too far is seen to reach
  others. What the hardware answers - the command register of a running transfer, the slave
  register, received words, the interrupt source - are parameters, one sequence of answers each;
  a busy wait is a \<open>partial_function\<close>. The debugging code under \<open>SPI_SLAVE_DEBUG\<close> is left out.
\<close>

section \<open>Registers (spi\_register.h)\<close>

definition spi_reg :: "u32 \<Rightarrow> u32 \<Rightarrow> u32" where
  "spi_reg i offset = 0x60000200 - i * 0x100 + offset"

abbreviation SPI_CMD :: "u32 \<Rightarrow> u32" where "SPI_CMD i \<equiv> spi_reg i 0"
abbreviation SPI_ADDR :: "u32 \<Rightarrow> u32" where "SPI_ADDR i \<equiv> spi_reg i 4"
abbreviation SPI_CTRL :: "u32 \<Rightarrow> u32" where "SPI_CTRL i \<equiv> spi_reg i 8"
abbreviation SPI_CTRL2 :: "u32 \<Rightarrow> u32" where "SPI_CTRL2 i \<equiv> spi_reg i 0x14"
abbreviation SPI_CLOCK :: "u32 \<Rightarrow> u32" where "SPI_CLOCK i \<equiv> spi_reg i 0x18"
abbreviation SPI_USER :: "u32 \<Rightarrow> u32" where "SPI_USER i \<equiv> spi_reg i 0x1C"
abbreviation SPI_USER1 :: "u32 \<Rightarrow> u32" where "SPI_USER1 i \<equiv> spi_reg i 0x20"
abbreviation SPI_USER2 :: "u32 \<Rightarrow> u32" where "SPI_USER2 i \<equiv> spi_reg i 0x24"
abbreviation SPI_PIN :: "u32 \<Rightarrow> u32" where "SPI_PIN i \<equiv> spi_reg i 0x2C"
abbreviation SPI_SLAVE :: "u32 \<Rightarrow> u32" where "SPI_SLAVE i \<equiv> spi_reg i 0x30"
abbreviation SPI_SLAVE1 :: "u32 \<Rightarrow> u32" where "SPI_SLAVE1 i \<equiv> spi_reg i 0x34"
abbreviation SPI_EXT2 :: "u32 \<Rightarrow> u32" where "SPI_EXT2 i \<equiv> spi_reg i 0xF8"
abbreviation SPI_EXT3 :: "u32 \<Rightarrow> u32" where "SPI_EXT3 i \<equiv> spi_reg i 0xFC"

text \<open>The buffer registers, W0 and W8 on.\<close>

definition SPI_W :: "u32 \<Rightarrow> nat \<Rightarrow> u32" where
  "SPI_W i k = spi_reg i (0x40 + of_nat (4 * k))"

definition HSPI :: u32 where "HSPI = 1"

definition SPI_USR :: nat where "SPI_USR = 18"
definition SPI_USR_COMMAND :: nat where "SPI_USR_COMMAND = 31"
definition SPI_USR_ADDR :: nat where "SPI_USR_ADDR = 30"
definition SPI_USR_DUMMY :: nat where "SPI_USR_DUMMY = 29"
definition SPI_USR_MISO :: nat where "SPI_USR_MISO = 28"
definition SPI_USR_MOSI :: nat where "SPI_USR_MOSI = 27"
definition SPI_TRANS_DONE :: nat where "SPI_TRANS_DONE = 4"

section \<open>State\<close>

datatype spi_op =
    Spi_pin_func string nat
  | Gpio_out nat nat
  | Spi_printf cstring
  | Spi_intr_attach
  | Spi_intr_enable

text \<open>\<open>xfers\<close> is the transfers started, with the registers at the start.\<close>

record spi =
  mem :: "u32 \<Rightarrow> u32"
  xfers :: "(u32 \<times> (u32 \<Rightarrow> u32)) list"
  cmd_polls :: nat
  slave_polls :: nat
  ext2_polls :: nat
  spi_data :: "u8 list"
  spi_ops :: "spi_op list"

text \<open>
  The answers: to the polls of the command, the slave and the second extension register, the words
  in the buffer after the n-th transfer, the cache control and the interrupt source register, and
  the words of the flash chip that a flash read with a given address register brings.
\<close>

record spi_hw =
  cmd_answer :: "nat \<Rightarrow> u32"
  slave_answer :: "nat \<Rightarrow> u32"
  w_answer :: "nat \<Rightarrow> nat \<Rightarrow> u32"
  cache_answer :: "nat \<Rightarrow> u32"
  int_source :: "nat \<Rightarrow> u32"
  ext2_answer :: "nat \<Rightarrow> u32"
  flash_word :: "u32 \<Rightarrow> nat \<Rightarrow> u32"

definition spi_do :: "spi_op \<Rightarrow> spi \<Rightarrow> spi" where
  "spi_do op s = s\<lparr>spi_ops := spi_ops s @ [op]\<rparr>"

definition WRITE_PERI_REG :: "u32 \<Rightarrow> u32 \<Rightarrow> spi \<Rightarrow> spi" where
  "WRITE_PERI_REG r w s = s\<lparr>mem := (mem s)(r := w)\<rparr>"

definition SET_PERI_REG_MASK :: "u32 \<Rightarrow> u32 \<Rightarrow> spi \<Rightarrow> spi" where
  "SET_PERI_REG_MASK r m s = WRITE_PERI_REG r (mem s r OR m) s"

definition CLEAR_PERI_REG_MASK :: "u32 \<Rightarrow> u32 \<Rightarrow> spi \<Rightarrow> spi" where
  "CLEAR_PERI_REG_MASK r m s = WRITE_PERI_REG r (mem s r AND NOT m) s"

definition SET_PERI_REG_BITS :: "u32 \<Rightarrow> u32 \<Rightarrow> u32 \<Rightarrow> nat \<Rightarrow> spi \<Rightarrow> spi" where
  "SET_PERI_REG_BITS r bit_map v shift s =
     WRITE_PERI_REG r ((mem s r AND NOT (push_bit shift bit_map)) OR push_bit shift v) s"

text \<open>A polled register takes the value that the hardware answers.\<close>

definition read_cmd :: "spi_hw \<Rightarrow> u32 \<Rightarrow> spi \<Rightarrow> u32 \<times> spi" where
  "read_cmd h i s =
     (let w = cmd_answer h (cmd_polls s)
      in (w, WRITE_PERI_REG (SPI_CMD i) w (s\<lparr>cmd_polls := Suc (cmd_polls s)\<rparr>)))"

definition read_slave :: "spi_hw \<Rightarrow> u32 \<Rightarrow> spi \<Rightarrow> u32 \<times> spi" where
  "read_slave h i s =
     (let w = slave_answer h (slave_polls s)
      in (w, WRITE_PERI_REG (SPI_SLAVE i) w (s\<lparr>slave_polls := Suc (slave_polls s)\<rparr>)))"

text \<open>Waiting until the running transfer is over, and until one is reported done.\<close>

partial_function (option) wait_idle :: "spi_hw \<Rightarrow> u32 \<Rightarrow> spi \<Rightarrow> spi option" where
  "wait_idle h i s =
     (let (w, s) = read_cmd h i s
      in if w AND bits [SPI_USR] = 0 then Some s else wait_idle h i s)"

partial_function (option) wait_done :: "spi_hw \<Rightarrow> u32 \<Rightarrow> spi \<Rightarrow> spi option" where
  "wait_done h i s =
     (let (w, s) = read_slave h i s
      in if w AND bits [SPI_TRANS_DONE] \<noteq> 0 then Some s else wait_done h i s)"

definition start_transfer :: "u32 \<Rightarrow> spi \<Rightarrow> spi" where
  "start_transfer i s =
     (let s = SET_PERI_REG_MASK (SPI_CMD i) (bits [SPI_USR]) s
      in s\<lparr>xfers := xfers s @ [(i, mem s)]\<rparr>)"

section \<open>Initialisation by attributes\<close>

record SpiAttr =
  mode :: u32
  subMode :: u32
  speed :: u32
  bitOrder :: u32

definition set_sub_mode :: "u32 \<Rightarrow> u32 \<Rightarrow> spi \<Rightarrow> spi" where
  "set_sub_mode i m s =
     (if m = 1 then SET_PERI_REG_MASK (SPI_USER i) (bits [7]) (CLEAR_PERI_REG_MASK (SPI_PIN i) (bits [29]) s)
      else if m = 2 then SET_PERI_REG_MASK (SPI_USER i) (bits [7]) (SET_PERI_REG_MASK (SPI_PIN i) (bits [29]) s)
      else if m = 3 then CLEAR_PERI_REG_MASK (SPI_USER i) (bits [7]) (SET_PERI_REG_MASK (SPI_PIN i) (bits [29]) s)
      else CLEAR_PERI_REG_MASK (SPI_USER i) (bits [7]) (CLEAR_PERI_REG_MASK (SPI_PIN i) (bits [29]) s))"

definition set_bit_order :: "u32 \<Rightarrow> u32 \<Rightarrow> spi \<Rightarrow> spi" where
  "set_bit_order i ord s =
     (if ord = 0 then CLEAR_PERI_REG_MASK (SPI_CTRL i) (bits [25]) (CLEAR_PERI_REG_MASK (SPI_CTRL i) (bits [26]) s)
      else if ord = 1 then SET_PERI_REG_MASK (SPI_CTRL i) (bits [25]) (SET_PERI_REG_MASK (SPI_CTRL i) (bits [26]) s)
      else s)"

text \<open>The clock register; \<open>i\<close> and \<open>k\<close> are bytes, and \<open>i\<close> may come out as 0.\<close>

definition clock_word :: "u32 \<Rightarrow> u32 option" where
  "clock_word sp =
     (if 1 < sp then
        let i = (if sp div 40 \<noteq> 0 then ucast (sp div 40) else 1) :: u8
        in if i = 0 then None
           else let k = ucast (sp div ucast i) :: u8;
                    kk = ucast k :: u32
                in Some (push_bit 18 ((ucast i - 1) AND 0x1FFF) OR push_bit 12 ((kk - 1) AND 0x3F)
                     OR push_bit 6 (((kk + 1) div 2 - 1) AND 0x3F) OR ((kk - 1) AND 0x3F))
      else Some (bits [31]))"

definition master_mode :: "u32 \<Rightarrow> u32 \<Rightarrow> spi \<Rightarrow> spi option" where
  "master_mode i sp s =
     do {
       let s = CLEAR_PERI_REG_MASK (SPI_SLAVE i) (bits [30]) s;
       let s = CLEAR_PERI_REG_MASK (SPI_USER i) (bits [24]) s;
       w \<leftarrow> clock_word sp;
       let s = (if 1 < sp then CLEAR_PERI_REG_MASK (SPI_CLOCK i) (bits [31]) s else s);
       let s = WRITE_PERI_REG (SPI_CLOCK i) w s;
       let s = SET_PERI_REG_MASK (SPI_USER i) (bits [5, 4, SPI_USR_MOSI]) s;
       Some (SET_PERI_REG_MASK (SPI_CTRL2 i) (push_bit 18 (1 AND 7)) s)
     }"

definition slave_mode :: "u32 \<Rightarrow> spi \<Rightarrow> spi" where
  "slave_mode i s =
     (let s = SET_PERI_REG_MASK (SPI_PIN i) (bits [19]) s;
          s = SET_PERI_REG_MASK (SPI_SLAVE i) (bits [30]) s;
          s = SET_PERI_REG_MASK (SPI_USER i) (bits [24]) s;
          s = SET_PERI_REG_MASK (SPI_USER i) (bits [SPI_USR_MOSI]) s;
          s = SET_PERI_REG_MASK (SPI_CTRL2 i) (push_bit 23 (1 AND 7)) s;
          s = WRITE_PERI_REG (SPI_CLOCK i) 0 s;
          s = SET_PERI_REG_BITS (SPI_USER2 i) 0xF 7 28 s;
          s = SET_PERI_REG_BITS (SPI_SLAVE1 i) 0x3F 7 4 s;
          s = SET_PERI_REG_BITS (SPI_SLAVE1 i) 0x3F 7 10 s;
          s = SET_PERI_REG_BITS (SPI_SLAVE1 i) 0x1FF 255 16 s
      in SET_PERI_REG_BITS (SPI_SLAVE1 i) 0x1F 7 27 s)"

definition SPIInit :: "u32 \<Rightarrow> SpiAttr option \<Rightarrow> spi \<Rightarrow> spi option" where
  "SPIInit i pAttr s =
     (case pAttr of
        None \<Rightarrow> Some s
      | Some a \<Rightarrow>
          if i > 1 then Some s
          else do {
            let s = set_sub_mode i (subMode a) s;
            let s = set_bit_order i (bitOrder a) s;
            let s = CLEAR_PERI_REG_MASK (SPI_USER i) (bits [2]) s;
            s \<leftarrow> (if mode a = 0 then master_mode i (speed a) s
                   else if mode a = 1 then Some (slave_mode i s) else Some s);
            let s = CLEAR_PERI_REG_MASK (SPI_CTRL i) (bits [24, 23, 14, 20]) s;
            Some (fold (\<lambda>k. WRITE_PERI_REG (SPI_W i k) 0) [0..<16] s)
          })"

section \<open>Transfers of the master\<close>

text \<open>A data package; NULL is the empty list, an address is a pointer to one word.\<close>

record SpiData =
  cmd :: u16
  cmdLen :: u8
  addr :: "u32 list"
  addrLen :: u8
  data_words :: "u32 list"
  dataLen :: u8

definition SPIMasterCfgAddr :: "u32 \<Rightarrow> u32 \<Rightarrow> spi \<Rightarrow> spi" where
  "SPIMasterCfgAddr i a s = (if i > 1 then s else WRITE_PERI_REG (SPI_ADDR i) a s)"

definition SPIMasterCfgCmd :: "u32 \<Rightarrow> u32 \<Rightarrow> spi \<Rightarrow> spi" where
  "SPIMasterCfgCmd i c s = (if i > 1 then s else SET_PERI_REG_BITS (SPI_USER2 i) 0xFFFF c 0 s)"

text \<open>\<open>(len << 3) - 1\<close>, the number of bits less one.\<close>

definition bitlen :: "u8 \<Rightarrow> u32" where
  "bitlen len = push_bit 3 (ucast len) - 1"

definition cfg_cmd_part :: "u32 \<Rightarrow> SpiData \<Rightarrow> spi \<Rightarrow> spi" where
  "cfg_cmd_part i d s =
     (if cmdLen d \<noteq> 0 then
        let s = SET_PERI_REG_BITS (SPI_USER2 i) 0xF (bitlen (cmdLen d)) 28 s;
            s = SET_PERI_REG_MASK (SPI_USER i) (bits [SPI_USR_COMMAND]) s
        in SPIMasterCfgCmd i (ucast (cmd d)) s
      else
        let s = CLEAR_PERI_REG_MASK (SPI_USER i) (bits [SPI_USR_COMMAND]) s
        in SET_PERI_REG_BITS (SPI_USER2 i) 0xF 0 28 s)"

text \<open>The address part; \<open>False\<close>: the address pointer is NULL and the function returns -1.\<close>

definition cfg_addr_part :: "u32 \<Rightarrow> SpiData \<Rightarrow> spi \<Rightarrow> bool \<times> spi" where
  "cfg_addr_part i d s =
     (if addrLen d = 0 then
        let s = CLEAR_PERI_REG_MASK (SPI_USER i) (bits [SPI_USR_ADDR]) s
        in (True, SET_PERI_REG_BITS (SPI_USER1 i) 0x3F 0 26 s)
      else case addr d of
        [] \<Rightarrow> (False, s)
      | a # _ \<Rightarrow>
          let s = SET_PERI_REG_BITS (SPI_USER1 i) 0x3F (bitlen (addrLen d)) 26 s;
              s = SET_PERI_REG_MASK (SPI_USER i) (bits [SPI_USR_ADDR]) s
          in (True, SPIMasterCfgAddr i a s))"

definition word_count :: "u8 \<Rightarrow> nat" where
  "word_count len = unat len div 4 + (if unat len mod 4 \<noteq> 0 then 1 else 0)"

text \<open>The do-while loops over the buffer registers: at least one word.\<close>

function spi_send_loop :: "u32 \<Rightarrow> u32 list \<Rightarrow> nat \<Rightarrow> nat \<Rightarrow> spi \<Rightarrow> spi option" where
  "spi_send_loop i value n idx s =
     do {
       w \<leftarrow> rd value idx;
       let s = WRITE_PERI_REG (SPI_W i idx) w s;
       if Suc idx < n then spi_send_loop i value n (Suc idx) s else Some s
     }"
  by pat_completeness auto
termination by (relation "measure (\<lambda>(i, v, n, idx, s). n - idx)") auto

function spi_recv_loop :: "spi_hw \<Rightarrow> u32 list \<Rightarrow> nat \<Rightarrow> nat \<Rightarrow> spi \<Rightarrow> u32 list option" where
  "spi_recv_loop h value n idx s =
     do {
       value \<leftarrow> wr value idx (w_answer h (length (xfers s)) idx);
       if Suc idx < n then spi_recv_loop h value n (Suc idx) s else Some value
     }"
  by pat_completeness auto
termination by (relation "measure (\<lambda>(h, v, n, idx, s). n - idx)") auto

declare spi_send_loop.simps [simp del] spi_recv_loop.simps [simp del]

text \<open>The data part of a package sent.\<close>

definition data_part :: "u32 \<Rightarrow> SpiData \<Rightarrow> spi \<Rightarrow> spi option" where
  "data_part i d s =
     (if dataLen d \<noteq> 0 then do {
        let s = SET_PERI_REG_MASK (SPI_USER i) (bits [SPI_USR_MOSI]) s;
        let s = CLEAR_PERI_REG_MASK (SPI_USER i) (bits [SPI_USR_MISO]) s;
        s \<leftarrow> spi_send_loop i (data_words d) (word_count (dataLen d)) 0 s;
        Some (SET_PERI_REG_BITS (SPI_USER1 i) 0x1FF (bitlen (dataLen d)) 17 s)
      } else
        let s = CLEAR_PERI_REG_MASK (SPI_USER i) (bits [SPI_USR_MOSI]) s
        in Some (SET_PERI_REG_BITS (SPI_USER1 i) 0x1FF 0 17 s))"

definition SPIMasterSendData :: "spi_hw \<Rightarrow> u32 \<Rightarrow> SpiData option \<Rightarrow> spi \<Rightarrow> (int \<times> spi) option" where
  "SPIMasterSendData h i pInData s =
     (case pInData of
        None \<Rightarrow> Some (-1, s)
      | Some d \<Rightarrow>
          if i > 1 \<or> 64 < dataLen d then Some (-1, s)
          else do {
            s \<leftarrow> wait_idle h i s;
            let (ok, s) = cfg_addr_part i d (cfg_cmd_part i d s);
            if \<not> ok then Some (-1, s)
            else if dataLen d \<noteq> 0 \<and> data_words d = [] then Some (-1, s)
            else do {
              s \<leftarrow> data_part i d s;
              s \<leftarrow> wait_done h i (start_transfer i s);
              Some (0, CLEAR_PERI_REG_MASK (SPI_SLAVE i) (bits [SPI_TRANS_DONE]) s)
            }
          })"

text \<open>The words received replace the first words of the package.\<close>

definition SPIMasterRecvData :: "spi_hw \<Rightarrow> u32 \<Rightarrow> SpiData option \<Rightarrow> spi \<Rightarrow> (int \<times> u32 list \<times> spi) option" where
  "SPIMasterRecvData h i pOutData s =
     (case pOutData of
        None \<Rightarrow> Some (-1, [], s)
      | Some d \<Rightarrow>
          if i > 1 then Some (-1, data_words d, s)
          else do {
            s \<leftarrow> wait_idle h i s;
            let (ok, s) = cfg_addr_part i d (cfg_cmd_part i d s);
            if \<not> ok then Some (-1, data_words d, s)
            else if dataLen d \<noteq> 0 \<and> data_words d = [] then Some (-1, data_words d, s)
            else do {
              let s = (if dataLen d \<noteq> 0 then
                  let s = CLEAR_PERI_REG_MASK (SPI_USER i) (bits [SPI_USR_MOSI]) s;
                      s = SET_PERI_REG_MASK (SPI_USER i) (bits [SPI_USR_MISO]) s
                  in SET_PERI_REG_BITS (SPI_USER1 i) 0x1FF (bitlen (dataLen d)) 8 s
                else
                  let s = CLEAR_PERI_REG_MASK (SPI_USER i) (bits [SPI_USR_MOSI]) s;
                      s = CLEAR_PERI_REG_MASK (SPI_USER i) (bits [SPI_USR_MISO]) s
                  in SET_PERI_REG_BITS (SPI_USER1 i) 0x1FF 0 8 s);
              s \<leftarrow> wait_idle h i (start_transfer i s);
              value \<leftarrow> spi_recv_loop h (data_words d) (word_count (dataLen d)) 0 s;
              Some (0, value, s)
            }
          })"

section \<open>The slave and the status commands\<close>

text \<open>\<open>inLen\<close> counts words here; nothing bounds it, and the number of the module is not checked.\<close>

definition SPISlaveSendData :: "u32 \<Rightarrow> u32 list \<Rightarrow> u8 \<Rightarrow> spi \<Rightarrow> (int \<times> spi) option" where
  "SPISlaveSendData i pInData inLen s =
     (if pInData = [] then Some (-1, s)
      else do {
        xs \<leftarrow> rd_block pInData 0 (unat inLen);
        let s = fold (\<lambda>k. WRITE_PERI_REG (SPI_W i (8 + k)) (xs ! k)) [0..<unat inLen] s;
        Some (0, start_transfer i s)
      })"

definition SPISlaveRecvData :: "u32 \<Rightarrow> spi \<Rightarrow> int \<times> spi" where
  "SPISlaveRecvData i s = (if i > 1 then (-1, s) else (0, start_transfer i s))"

definition SPIMasterSendStatus :: "spi_hw \<Rightarrow> u32 \<Rightarrow> u8 \<Rightarrow> spi \<Rightarrow> spi option" where
  "SPIMasterSendStatus h i d s =
     (if i > 1 then Some s
      else do {
        s \<leftarrow> wait_idle h i s;
        let s = SET_PERI_REG_MASK (SPI_USER i) (bits [SPI_USR_MOSI]) s;
        let s = CLEAR_PERI_REG_MASK (SPI_USER i) (bits [SPI_USR_MISO, SPI_USR_DUMMY, SPI_USR_ADDR]) s;
        let s = WRITE_PERI_REG (SPI_USER2 i) (push_bit 28 (7 AND 0xF) OR 1) s;
        let s = SET_PERI_REG_BITS (SPI_USER1 i) 0x1FF 7 17 s;
        let s = WRITE_PERI_REG (SPI_W i 0) (ucast d) s;
        Some (start_transfer i s)
      })"

definition SPIMasterRecvStatus :: "spi_hw \<Rightarrow> u32 \<Rightarrow> spi \<Rightarrow> (int \<times> spi) option" where
  "SPIMasterRecvStatus h i s =
     (if i > 1 then Some (-1, s)
      else do {
        s \<leftarrow> wait_idle h i s;
        let s = SET_PERI_REG_MASK (SPI_USER i) (bits [SPI_USR_MISO]) s;
        let s = CLEAR_PERI_REG_MASK (SPI_USER i) (bits [SPI_USR_MOSI, SPI_USR_DUMMY, SPI_USR_ADDR]) s;
        let s = WRITE_PERI_REG (SPI_USER2 i) (push_bit 28 (7 AND 0xF) OR 4) s;
        let s = SET_PERI_REG_BITS (SPI_USER1 i) 0x1FF 7 8 s;
        s \<leftarrow> wait_idle h i (start_transfer i s);
        Some (uint (ucast (w_answer h (length (xfers s)) 0 AND 0xFF) :: u8), s)
      })"

definition SPICsPinSelect :: "u32 \<Rightarrow> u32 \<Rightarrow> spi \<Rightarrow> spi" where
  "SPICsPinSelect i pinCs s =
     (if i > 1 then s else SET_PERI_REG_MASK (SPI_PIN i) pinCs (SET_PERI_REG_BITS (SPI_PIN i) 3 0 0 s))"

text \<open>Interrupt sources are the bits 0 to 4 of the slave register, their enables the bits 5 to 9.\<close>

definition SPIIntEnable :: "u32 \<Rightarrow> u32 \<Rightarrow> spi \<Rightarrow> spi" where
  "SPIIntEnable i intSrc s = (if i > 1 then s else SET_PERI_REG_MASK (SPI_SLAVE i) (push_bit 5 intSrc) s)"

definition SPIIntDisable :: "u32 \<Rightarrow> u32 \<Rightarrow> spi \<Rightarrow> spi" where
  "SPIIntDisable i intSrc s = (if i > 1 then s else CLEAR_PERI_REG_MASK (SPI_SLAVE i) intSrc s)"

definition SPIIntClear :: "u32 \<Rightarrow> spi \<Rightarrow> spi" where
  "SPIIntClear i s = (if i > 1 then s else CLEAR_PERI_REG_MASK (SPI_SLAVE i) (bits [0, 1, 2, 3, 4]) s)"

definition SPIIntCfg :: "u32 \<Rightarrow> u32 option \<Rightarrow> cstring \<Rightarrow> spi \<Rightarrow> spi" where
  "SPIIntCfg i src report s =
     (case src of
        None \<Rightarrow> s
      | Some src \<Rightarrow>
          if i > 1 then s
          else let s = CLEAR_PERI_REG_MASK (SPI_SLAVE i) 0x3FF s;
                   s = SPIIntEnable i src s;
                   s = spi_do (Spi_printf report) s
               in spi_do Spi_intr_enable (spi_do Spi_intr_attach s))"

section \<open>Single bytes (spi.c)\<close>

definition spi_master_init :: "u8 \<Rightarrow> spi \<Rightarrow> spi" where
  "spi_master_init spi_no s =
     (let i = ucast spi_no
      in if spi_no > 1 then s
         else let s = SET_PERI_REG_MASK (SPI_USER i) (bits [5, 4, SPI_USR_COMMAND]) s;
                  s = CLEAR_PERI_REG_MASK (SPI_USER i) (bits [2]) s
              in WRITE_PERI_REG (SPI_CLOCK i)
                   (push_bit 12 (3 AND 0x3F) OR push_bit 6 (1 AND 0x3F) OR (3 AND 0x3F)) s)"

text \<open>Nine bits: the high bit and seven data bits in the low byte, the last one in bit 15.\<close>

definition spi_lcd_9bit_write :: "spi_hw \<Rightarrow> u8 \<Rightarrow> u8 \<Rightarrow> u8 \<Rightarrow> spi \<Rightarrow> spi option" where
  "spi_lcd_9bit_write h spi_no high_bit low_8bit s =
     (let i = ucast spi_no
      in if spi_no > 1 then Some s
         else do {
           let bytetemp = (if high_bit \<noteq> 0 then drop_bit 1 low_8bit OR 0x80 else drop_bit 1 low_8bit AND 0x7F);
           let regvalue = push_bit 28 (8 AND 0xF) OR ucast bytetemp;
           let regvalue = (if low_8bit AND 1 \<noteq> 0 then regvalue OR bits [15] else regvalue);
           s \<leftarrow> wait_idle h i s;
           let s = WRITE_PERI_REG (SPI_USER2 i) regvalue s;
           Some (start_transfer i s)
         })"

definition spi_mast_byte_write :: "spi_hw \<Rightarrow> u8 \<Rightarrow> u8 \<Rightarrow> spi \<Rightarrow> spi option" where
  "spi_mast_byte_write h spi_no d s =
     (let i = ucast spi_no
      in if spi_no > 1 then Some s
         else do {
           s \<leftarrow> wait_idle h i s;
           let s = CLEAR_PERI_REG_MASK (SPI_USER i) (bits [SPI_USR_MOSI, SPI_USR_MISO]) s;
           let s = WRITE_PERI_REG (SPI_USER2 i) (push_bit 28 (7 AND 0xF) OR ucast d) s;
           wait_idle h i (start_transfer i s)
         })"

definition spi_byte_write_espslave :: "spi_hw \<Rightarrow> u8 \<Rightarrow> u8 \<Rightarrow> spi \<Rightarrow> spi option" where
  "spi_byte_write_espslave h spi_no d s =
     (let i = ucast spi_no
      in if spi_no > 1 then Some s
         else do {
           s \<leftarrow> wait_idle h i s;
           let s = SET_PERI_REG_MASK (SPI_USER i) (bits [SPI_USR_MOSI]) s;
           let s = CLEAR_PERI_REG_MASK (SPI_USER i) (bits [SPI_USR_MISO, SPI_USR_ADDR, SPI_USR_DUMMY]) s;
           let s = WRITE_PERI_REG (SPI_USER2 i) (push_bit 28 (7 AND 0xF) OR 4) s;
           let s = WRITE_PERI_REG (SPI_W i 0) (ucast d) s;
           Some (start_transfer i s)
         })"

text \<open>\<open>None\<close> as the byte read: the number of the module is out of range, \<open>data\<close> is left as it is.\<close>

definition spi_byte_read_espslave :: "spi_hw \<Rightarrow> u8 \<Rightarrow> spi \<Rightarrow> (u8 option \<times> spi) option" where
  "spi_byte_read_espslave h spi_no s =
     (let i = ucast spi_no
      in if spi_no > 1 then Some (None, s)
         else do {
           s \<leftarrow> wait_idle h i s;
           let s = SET_PERI_REG_MASK (SPI_USER i) (bits [SPI_USR_MISO]) s;
           let s = CLEAR_PERI_REG_MASK (SPI_USER i) (bits [SPI_USR_MOSI, SPI_USR_ADDR, SPI_USR_DUMMY]) s;
           let s = WRITE_PERI_REG (SPI_USER2 i) (push_bit 28 (7 AND 0xF) OR 6) s;
           s \<leftarrow> wait_idle h i (start_transfer i s);
           Some (Some (ucast (w_answer h (length (xfers s)) 0 AND 0xFF)), s)
         })"

text \<open>The cache: flushed while it reports empty, then waited for. \<open>k\<close> counts the answers.\<close>

definition CACHE_FLASH_CTRL_REG :: u32 where "CACHE_FLASH_CTRL_REG = 0x3ff0000C"

partial_function (option) cache_flush_loop :: "spi_hw \<Rightarrow> nat \<Rightarrow> spi \<Rightarrow> (nat \<times> spi) option" where
  "cache_flush_loop h k s =
     (if cache_answer h k AND bits [1] \<noteq> 0
      then cache_flush_loop h (Suc k) (SET_PERI_REG_MASK CACHE_FLASH_CTRL_REG (bits [0])
             (CLEAR_PERI_REG_MASK CACHE_FLASH_CTRL_REG (bits [0]) s))
      else Some (Suc k, s))"

partial_function (option) cache_wait_loop :: "spi_hw \<Rightarrow> nat \<Rightarrow> nat option" where
  "cache_wait_loop h k =
     (if cache_answer h k AND bits [1] \<noteq> 0 then Some (Suc k) else cache_wait_loop h (Suc k))"

definition cache_flush :: "spi_hw \<Rightarrow> spi \<Rightarrow> spi option" where
  "cache_flush h s =
     do {
       (k, s) \<leftarrow> cache_flush_loop h 0 s;
       k \<leftarrow> cache_wait_loop h k;
       Some (CLEAR_PERI_REG_MASK CACHE_FLASH_CTRL_REG (bits [0]) s)
     }"

section \<open>The slave and its interrupt (spi.c)\<close>

definition slave_bit_len :: "u8 \<Rightarrow> u32" where
  "slave_bit_len data_len =
     (if data_len \<le> 1 then 7 else if data_len \<ge> 32 then 0xff else push_bit 3 (ucast data_len) - 1)"

definition spi_slave_init :: "u8 \<Rightarrow> u8 \<Rightarrow> cstring \<Rightarrow> spi \<Rightarrow> spi" where
  "spi_slave_init spi_no data_len report s =
     (let i = ucast spi_no
      in if spi_no > 1 then s
         else
           let data_bit_len = slave_bit_len data_len;
               s = fold (\<lambda>p. spi_do (Spi_pin_func p (if spi_no = 0 then 1 else 2)))
                     (if spi_no = 0 then [''SD_CLK_U'', ''SD_CMD_U'', ''SD_DATA0_U'', ''SD_DATA1_U'']
                      else [''MTDI_U'', ''MTCK_U'', ''MTMS_U'', ''MTDO_U'']) s;
               s = SET_PERI_REG_MASK (SPI_SLAVE i) (bits [30, 29, 6, 5, 8, 7, 9]) s;
               s = CLEAR_PERI_REG_MASK (SPI_USER i) (bits [2]) s;
               s = SET_PERI_REG_MASK (SPI_USER i) (bits [24]) s;
               s = SET_PERI_REG_MASK (SPI_CTRL2 i) (push_bit 23 (2 AND 7)) s;
               s = spi_do (Spi_printf report) s;
               s = WRITE_PERI_REG (SPI_CLOCK i) 0 s;
               s = WRITE_PERI_REG (SPI_USER2 i) (push_bit 28 (7 AND 0xF)) s;
               s = SET_PERI_REG_MASK (SPI_SLAVE1 i)
                     (push_bit 16 (data_bit_len AND 0x1FF) OR push_bit 27 (7 AND 0x1F)
                      OR push_bit 4 (7 AND 0x3F) OR push_bit 10 (7 AND 0x3F)) s;
               s = SET_PERI_REG_MASK (SPI_PIN i) (bits [19]) s;
               s = start_transfer i s
           in spi_do Spi_intr_enable (spi_do Spi_intr_attach s))"

definition gpio_init :: "spi \<Rightarrow> spi" where
  "gpio_init s =
     fold spi_do [Spi_pin_func ''GPIO0_U'' 0, Spi_pin_func ''GPIO2_U'' 0, Gpio_out 0 1, Gpio_out 2 0] s"

text \<open>The four bytes of a received word, lowest first; \<open>spi_data\<close> has 32 bytes.\<close>

fun isr_copy :: "(nat \<Rightarrow> u32) \<Rightarrow> nat list \<Rightarrow> u8 list \<Rightarrow> u8 list option" where
  "isr_copy w [] d = Some d"
| "isr_copy w (k # ks) d =
     do {
       d \<leftarrow> wr d (4 * k) (ucast (w k AND 0xFF));
       d \<leftarrow> wr d (4 * k + 1) (ucast (drop_bit 8 (w k) AND 0xFF));
       d \<leftarrow> wr d (4 * k + 2) (ucast (drop_bit 16 (w k) AND 0xFF));
       d \<leftarrow> wr d (4 * k + 3) (ucast (drop_bit 24 (w k) AND 0xFF));
       isr_copy w ks d
     }"

definition spi_slave_isr_handler :: "spi_hw \<Rightarrow> spi \<Rightarrow> spi option" where
  "spi_slave_isr_handler h s =
     (if int_source h 0 AND bits [4] \<noteq> 0 then Some (CLEAR_PERI_REG_MASK (SPI_SLAVE 0) 0x3ff s)
      else if int_source h 1 AND bits [7] \<noteq> 0 then do {
        let (regvalue, s) = read_slave h HSPI s;
        let s = CLEAR_PERI_REG_MASK (SPI_SLAVE HSPI) (bits [9, 8, 7, 6, 5]) s;
        let s = SET_PERI_REG_MASK (SPI_SLAVE HSPI) (bits [31]) s;
        let s = CLEAR_PERI_REG_MASK (SPI_SLAVE HSPI) (bits [4, 3, 2, 1, 0]) s;
        let s = SET_PERI_REG_MASK (SPI_SLAVE HSPI) (bits [9, 8, 7, 6, 5]) s;
        s \<leftarrow> (if regvalue AND bits [1] \<noteq> 0 then do {
                let s = spi_do (Gpio_out 0 0) s;
                d \<leftarrow> isr_copy (w_answer h (length (xfers s))) [0..<8] (spi_data s);
                Some (spi_do (Gpio_out 0 1) (s\<lparr>spi_data := d\<rparr>))
              } else Some s);
        Some (if regvalue AND bits [0] \<noteq> 0 then spi_do (Gpio_out 2 0) s else s)
      }
      else Some s)"

end
