(* ===== verification/Spi_Overlap.thy ===== *)
theory Spi_Overlap
  imports Spi
begin

text \<open>
  The overlap mode of the SPI modules, \<open>driver_lib/driver/spi_overlap.c\<close>: the HSPI module drives
  its own device, or shares the pins of the flash module with two more chip selects and with the
  flash chip itself; \<open>hspi_dev_sel\<close> switches between them, and the flash is read through HSPI in
  pieces of 32 bytes.
\<close>

section \<open>State\<close>

text \<open>The configuration of a device (\<open>active\<close>, \<open>clk_polar\<close>: one bit, \<open>clk_div\<close>: five bits).\<close>

record hspi_device_config =
  active :: bool
  clk_polar :: bool
  clk_div :: "5 word"

record overlap =
  base :: spi
  flash_reg_backup :: "u32 list"
  dev_reg_backup :: "u32 list"
  hspi_dev_conf :: "nat \<Rightarrow> hspi_device_config"
  selected_dev_num :: nat
  spi_io_80m :: bool
  reg_backup_flag :: bool

definition on_base :: "(spi \<Rightarrow> spi) \<Rightarrow> overlap \<Rightarrow> overlap" where
  "on_base f v = v\<lparr>base := f (base v)\<rparr>"

definition HOST_INF_SEL :: u32 where "HOST_INF_SEL = 0x3ff00028"

definition PERIPHS_IO_MUX :: u32 where "PERIPHS_IO_MUX = 0x60000800"

definition HSPI_CS_DEV :: nat where "HSPI_CS_DEV = 0"
definition SPI_CS1_DEV :: nat where "SPI_CS1_DEV = 1"
definition SPI_CS2_DEV :: nat where "SPI_CS2_DEV = 2"
definition SPI_CS0_FLASH :: nat where "SPI_CS0_FLASH = 3"
definition HSPI_IDLE :: nat where "HSPI_IDLE = 4"

lemmas dev_nums = HSPI_CS_DEV_def SPI_CS1_DEV_def SPI_CS2_DEV_def SPI_CS0_FLASH_def HSPI_IDLE_def

section \<open>The macros\<close>

partial_function (option) WAIT_HSPI_IDLE :: "spi_hw \<Rightarrow> spi \<Rightarrow> spi option" where
  "WAIT_HSPI_IDLE h s =
     (let e = ext2_answer h (ext2_polls s);
          s = s\<lparr>ext2_polls := Suc (ext2_polls s)\<rparr>
      in if e \<noteq> 0 then WAIT_HSPI_IDLE h s
         else let (w, s) = read_cmd h HSPI s
              in if w AND 0xfffc0000 = 0 then Some s else WAIT_HSPI_IDLE h s)"

definition clk_word :: "5 word \<Rightarrow> u32" where
  "clk_word d = (let w = ucast d in push_bit 12 (push_bit 1 w + 1) + push_bit 6 w + push_bit 1 w + 1)"

definition CONF_HSPI_CLK_DIV :: "5 word \<Rightarrow> spi \<Rightarrow> spi" where
  "CONF_HSPI_CLK_DIV d s = WRITE_PERI_REG (SPI_CLOCK HSPI) (clk_word d) s"

definition HSPI_FALLING_EDGE_SAMPLE :: "spi \<Rightarrow> spi" where
  "HSPI_FALLING_EDGE_SAMPLE s = SET_PERI_REG_MASK (SPI_USER HSPI) (bits [7]) s"

definition HSPI_RISING_EDGE_SAMPLE :: "spi \<Rightarrow> spi" where
  "HSPI_RISING_EDGE_SAMPLE s = CLEAR_PERI_REG_MASK (SPI_USER HSPI) (bits [7]) s"

definition ACTIVE_HSPI_CS0 :: "spi \<Rightarrow> spi" where
  "ACTIVE_HSPI_CS0 s = SET_PERI_REG_MASK (SPI_PIN HSPI) (bits [1, 2]) (CLEAR_PERI_REG_MASK (SPI_PIN HSPI) (bits [0]) s)"

definition ACTIVE_HSPI_CS1 :: "spi \<Rightarrow> spi" where
  "ACTIVE_HSPI_CS1 s = SET_PERI_REG_MASK (SPI_PIN HSPI) (bits [0, 2]) (CLEAR_PERI_REG_MASK (SPI_PIN HSPI) (bits [1]) s)"

definition ACTIVE_HSPI_CS2 :: "spi \<Rightarrow> spi" where
  "ACTIVE_HSPI_CS2 s = SET_PERI_REG_MASK (SPI_PIN HSPI) (bits [0, 1]) (CLEAR_PERI_REG_MASK (SPI_PIN HSPI) (bits [2]) s)"

definition ENABLE_HSPI_DEV_CS :: "spi \<Rightarrow> spi" where
  "ENABLE_HSPI_DEV_CS s = spi_do (Spi_pin_func ''MTDO_U'' 2) s"

definition DISABLE_HSPI_DEV_CS :: "spi \<Rightarrow> spi" where
  "DISABLE_HSPI_DEV_CS s = spi_do (Spi_pin_func ''MTDO_U'' 3) (spi_do (Gpio_out 15 1) s)"

section \<open>Overlap mode and register backup\<close>

definition hspi_overlap_init :: "spi \<Rightarrow> spi" where
  "hspi_overlap_init s =
     SET_PERI_REG_MASK (SPI_USER HSPI) (bits [5]) (SET_PERI_REG_MASK (SPI_EXT3 HSPI) 3
       (SET_PERI_REG_MASK (SPI_EXT3 0) 1 (SET_PERI_REG_MASK HOST_INF_SEL (bits [7]) s)))"

definition hspi_overlap_deinit :: "spi \<Rightarrow> spi" where
  "hspi_overlap_deinit s =
     CLEAR_PERI_REG_MASK (SPI_USER HSPI) (bits [5]) (CLEAR_PERI_REG_MASK (SPI_EXT3 HSPI) 3
       (CLEAR_PERI_REG_MASK (SPI_EXT3 0) 1 (CLEAR_PERI_REG_MASK HOST_INF_SEL (bits [7]) s)))"

text \<open>Nine words: the pin multiplexer, USER, CTRL, CLOCK, USER1, USER2, CMD, PIN, SLAVE.\<close>

definition spi_reg_backup :: "u8 \<Rightarrow> u32 list \<Rightarrow> spi \<Rightarrow> u32 list" where
  "spi_reg_backup spi_no backup_mem s =
     (let i = ucast spi_no
      in if spi_no > 1 then backup_mem
         else map (mem s) [PERIPHS_IO_MUX, SPI_USER i, SPI_CTRL i, SPI_CLOCK i, SPI_USER1 i, SPI_USER2 i,
                SPI_CMD i, SPI_PIN i, SPI_SLAVE i])"

definition spi_reg_recover :: "u8 \<Rightarrow> u32 list \<Rightarrow> spi \<Rightarrow> spi option" where
  "spi_reg_recover spi_no backup_mem s =
     (let i = ucast spi_no
      in if spi_no > 1 then Some s
         else do {
           user \<leftarrow> rd backup_mem 1; ctrl \<leftarrow> rd backup_mem 2; clk \<leftarrow> rd backup_mem 3;
           user1 \<leftarrow> rd backup_mem 4; user2 \<leftarrow> rd backup_mem 5; cmd \<leftarrow> rd backup_mem 6;
           pin \<leftarrow> rd backup_mem 7;
           let s = WRITE_PERI_REG (SPI_USER i) user s;
           let s = WRITE_PERI_REG (SPI_CTRL i) ctrl s;
           let s = WRITE_PERI_REG (SPI_CLOCK i) clk s;
           let s = WRITE_PERI_REG (SPI_USER1 i) user1 s;
           let s = WRITE_PERI_REG (SPI_USER2 i) user2 s;
           let s = WRITE_PERI_REG (SPI_CMD i) cmd s;
           Some (WRITE_PERI_REG (SPI_PIN i) pin s)
         })"

section \<open>Devices\<close>

text \<open>The first call takes the two backups: the registers as the flash needs them, and for devices.\<close>

definition first_backup :: "overlap \<Rightarrow> overlap" where
  "first_backup v =
     (if reg_backup_flag v then v
      else
        let fast = (mem (base v) PERIPHS_IO_MUX AND bits [8] \<noteq> 0);
            s = (if fast then SET_PERI_REG_MASK (SPI_CLOCK HSPI) (bits [31]) (base v)
                 else CLEAR_PERI_REG_MASK (SPI_CLOCK HSPI) (bits [31]) (base v));
            regtemp = mem s (SPI_CTRL 0) AND 0x196000;
            s = CLEAR_PERI_REG_MASK (SPI_CTRL HSPI) 0x196000 s;
            s = SET_PERI_REG_MASK (SPI_CTRL HSPI) regtemp s;
            flash = spi_reg_backup 1 (flash_reg_backup v) s;
            s = spi_master_init 1 s
        in v\<lparr>base := s, spi_io_80m := fast, flash_reg_backup := flash,
             dev_reg_backup := spi_reg_backup 1 (dev_reg_backup v) s, reg_backup_flag := True,
             selected_dev_num := HSPI_IDLE\<rparr>)"

definition hspi_master_dev_init :: "spi_hw \<Rightarrow> u8 \<Rightarrow> u8 \<Rightarrow> u8 \<Rightarrow> overlap \<Rightarrow> overlap option" where
  "hspi_master_dev_init h dev_no polar clkdiv v =
     (if dev_no > 3 \<or> polar > 1 \<or> clkdiv > 0x1f
      then Some (on_base (spi_do (Spi_printf (lit ''hspi_master_dev_init parameter is out of range!'' @ [10, 13]))) v)
      else do {
        s \<leftarrow> WAIT_HSPI_IDLE h (base v);
        let v = first_backup (v\<lparr>base := s\<rparr>);
        let dev = unat dev_no;
        let v = v\<lparr>hspi_dev_conf := (hspi_dev_conf v)(dev := \<lparr>active = True, clk_polar = (polar \<noteq> 0), clk_div = ucast clkdiv\<rparr>)\<rparr>;
        Some (if dev = HSPI_CS_DEV then
                on_base (\<lambda>s. CLEAR_PERI_REG_MASK PERIPHS_IO_MUX (bits [9])
                  (fold (\<lambda>p. spi_do (Spi_pin_func p 2)) [''MTDI_U'', ''MTCK_U'', ''MTMS_U'', ''MTDO_U''] s)) v
              else if dev = SPI_CS1_DEV \<or> dev = SPI_CS2_DEV then
                on_base (\<lambda>s.
                  let s = spi_do (Spi_pin_func (if dev = SPI_CS1_DEV then ''U0TXD_U'' else ''GPIO0_U'') 1) s
                  in if spi_io_80m v then
                       spi_do (Spi_printf (lit (if dev = SPI_CS1_DEV then ''SPI CS1 device must work at 80Mhz''
                         else ''SPI CS2 device must work at 80Mhz''))) s
                     else s) v
              else v)
      })"

text \<open>Parts that the cases of \<open>hspi_dev_sel\<close> share; \<open>c\<close> is the configuration of the new device.\<close>

definition sel_clock :: "bool \<Rightarrow> hspi_device_config \<Rightarrow> spi \<Rightarrow> spi" where
  "sel_clock fast c s =
     (if fast then SET_PERI_REG_MASK (SPI_CLOCK HSPI) (bits [31]) s else CONF_HSPI_CLK_DIV (clk_div c) s)"

definition sel_polar :: "hspi_device_config \<Rightarrow> spi \<Rightarrow> spi" where
  "sel_polar c s = (if clk_polar c then HSPI_FALLING_EDGE_SAMPLE s else HSPI_RISING_EDGE_SAMPLE s)"

definition sel_cs12 :: "nat \<Rightarrow> spi \<Rightarrow> spi" where
  "sel_cs12 dev s = (if dev = SPI_CS1_DEV then ACTIVE_HSPI_CS1 s else ACTIVE_HSPI_CS2 s)"

text \<open>The device on the module's own pins, out of overlap mode.\<close>

definition sel_own :: "hspi_device_config \<Rightarrow> spi \<Rightarrow> spi" where
  "sel_own c s = ACTIVE_HSPI_CS0 (sel_polar c (CONF_HSPI_CLK_DIV (clk_div c) s))"

text \<open>The cases: \<open>old\<close> is the device selected before, \<open>fast\<close> is \<open>spi_io_80m\<close>.\<close>

definition sel_switch :: "spi_hw \<Rightarrow> nat \<Rightarrow> nat \<Rightarrow> overlap \<Rightarrow> spi option" where
  "sel_switch h old dev v =
     (let s = base v; c = hspi_dev_conf v dev; fast = spi_io_80m v;
          cs12 = (dev = SPI_CS1_DEV \<or> dev = SPI_CS2_DEV)
      in if old = HSPI_CS_DEV then
           if cs12 then do {
             s \<leftarrow> WAIT_HSPI_IDLE h s;
             let s = hspi_overlap_init (DISABLE_HSPI_DEV_CS s);
             Some (sel_cs12 dev (sel_polar c (sel_clock fast c s)))
           } else if dev = SPI_CS0_FLASH then do {
             s \<leftarrow> WAIT_HSPI_IDLE h s;
             s \<leftarrow> spi_reg_recover 1 (flash_reg_backup v) (hspi_overlap_init (DISABLE_HSPI_DEV_CS s));
             let s = (if fast then SET_PERI_REG_MASK (SPI_CLOCK HSPI) (bits [31]) s else s);
             Some (ACTIVE_HSPI_CS0 (HSPI_RISING_EDGE_SAMPLE s))
           } else Some s
         else if old = SPI_CS1_DEV \<or> old = SPI_CS2_DEV then
           if cs12 \<and> dev \<noteq> old then do {
             s \<leftarrow> WAIT_HSPI_IDLE h s;
             let s = (if fast then s else CONF_HSPI_CLK_DIV (clk_div c) s);
             Some (sel_cs12 dev (sel_polar c s))
           } else if dev = SPI_CS0_FLASH then do {
             s \<leftarrow> WAIT_HSPI_IDLE h s;
             s \<leftarrow> spi_reg_recover 1 (flash_reg_backup v) s;
             Some (ACTIVE_HSPI_CS0 (HSPI_RISING_EDGE_SAMPLE s))
           } else if dev = HSPI_CS_DEV then do {
             s \<leftarrow> WAIT_HSPI_IDLE h s;
             Some (sel_own c (hspi_overlap_deinit (ENABLE_HSPI_DEV_CS s)))
           } else Some s
         else if old = SPI_CS0_FLASH then
           if cs12 then do {
             s \<leftarrow> WAIT_HSPI_IDLE h s;
             s \<leftarrow> spi_reg_recover 1 (dev_reg_backup v) s;
             Some (sel_cs12 dev (sel_polar c (sel_clock fast c s)))
           } else if dev = HSPI_CS_DEV then do {
             s \<leftarrow> WAIT_HSPI_IDLE h s;
             s \<leftarrow> spi_reg_recover 1 (dev_reg_backup v) (hspi_overlap_deinit (ENABLE_HSPI_DEV_CS s));
             Some (sel_own c s)
           } else Some s
         else
           if cs12 then do {
             s \<leftarrow> WAIT_HSPI_IDLE h s;
             s \<leftarrow> spi_reg_recover 1 (dev_reg_backup v) (hspi_overlap_init (DISABLE_HSPI_DEV_CS s));
             Some (sel_cs12 dev (sel_polar c (sel_clock fast c s)))
           } else if dev = SPI_CS0_FLASH then do {
             s \<leftarrow> WAIT_HSPI_IDLE h s;
             s \<leftarrow> spi_reg_recover 1 (flash_reg_backup v) (hspi_overlap_init (DISABLE_HSPI_DEV_CS s));
             let s = (if fast then SET_PERI_REG_MASK (SPI_CLOCK HSPI) (bits [31]) s else s);
             Some (ACTIVE_HSPI_CS0 (HSPI_RISING_EDGE_SAMPLE s))
           } else if dev = HSPI_CS_DEV then do {
             s \<leftarrow> WAIT_HSPI_IDLE h s;
             s \<leftarrow> spi_reg_recover 1 (dev_reg_backup v) (hspi_overlap_deinit (ENABLE_HSPI_DEV_CS s));
             Some (sel_own c s)
           } else Some s)"

definition hspi_dev_sel :: "spi_hw \<Rightarrow> u8 \<Rightarrow> overlap \<Rightarrow> overlap option" where
  "hspi_dev_sel h dev_no v =
     (let dev = unat dev_no
      in if dev_no > 3
         then Some (on_base (spi_do (Spi_printf (lit ''hspi_dev_sel parameter is out of range!'' @ [10, 13]))) v)
         else if \<not> active (hspi_dev_conf v dev)
         then Some (on_base (spi_do (Spi_printf (lit ''device'' @ [of_nat (48 + dev)]
                @ lit '' has not been initialized!'' @ [10, 13]))) v)
         else map_option (\<lambda>s. v\<lparr>base := s, selected_dev_num := dev\<rparr>) (sel_switch h (selected_dev_num v) dev v))"

section \<open>Reading the flash chip\<close>

text \<open>A flash read is started by writing the command register; the words come from the chip.\<close>

partial_function (option) wait_cmd_zero :: "spi_hw \<Rightarrow> spi \<Rightarrow> spi option" where
  "wait_cmd_zero h s = (let (w, s) = read_cmd h HSPI s in if w = 0 then Some s else wait_cmd_zero h s)"

definition flash_read_cmd :: "u32 \<Rightarrow> spi \<Rightarrow> spi" where
  "flash_read_cmd a s =
     (let s = WRITE_PERI_REG (SPI_CMD HSPI) (bits [31]) (WRITE_PERI_REG (SPI_ADDR HSPI) a s)
      in s\<lparr>xfers := xfers s @ [(HSPI, mem s)]\<rparr>)"

text \<open>\<open>d\<close> is the position of \<open>addr_dest\<close> in the destination.\<close>

definition read_words :: "spi_hw \<Rightarrow> u32 \<Rightarrow> u32 list \<Rightarrow> nat \<Rightarrow> nat \<Rightarrow> u32 list option" where
  "read_words h a dest d n = wr_block dest d (map (flash_word h a) [0..<n])"

function flash_loop :: "spi_hw \<Rightarrow> u32 \<Rightarrow> int \<Rightarrow> u32 list \<Rightarrow> nat \<Rightarrow> spi \<Rightarrow> (u32 list \<times> spi) option" where
  "flash_loop h temp_addr temp_length dest d s =
     (if temp_length > 0 then
        if temp_length \<ge> 32 then
          let a = temp_addr OR push_bit 24 32
          in do {
               s \<leftarrow> wait_cmd_zero h (flash_read_cmd a s);
               dest \<leftarrow> read_words h a dest d 8;
               flash_loop h (temp_addr + 32) (temp_length - 32) dest (d + 8) s
             }
        else
          let a = temp_addr OR push_bit 24 (word_of_int temp_length);
              n = nat (if temp_length mod 4 = 0 then temp_length div 4 else temp_length div 4 + 1)
          in do {
               s \<leftarrow> wait_cmd_zero h (flash_read_cmd a s);
               dest \<leftarrow> read_words h a dest d n;
               Some (dest, s)
             }
      else Some (dest, s))"
  by pat_completeness auto
termination by (relation "measure (\<lambda>(h, a, l, dest, d, s). nat l)") auto

declare flash_loop.simps [simp del]

datatype flash_result = SPI_FLASH_RESULT_OK | SPI_FLASH_RESULT_ERR

text \<open>The range check adds in 32 bits; the length becomes a signed number.\<close>

definition hspi_overlap_read_flash_data ::
  "spi_hw \<Rightarrow> u32 \<Rightarrow> u32 \<Rightarrow> u32 list \<Rightarrow> u32 \<Rightarrow> overlap \<Rightarrow> (flash_result \<times> u32 list \<times> overlap) option" where
  "hspi_overlap_read_flash_data h chip_size flash_addr dest byte_length v =
     do {
       v \<leftarrow> hspi_dev_sel h 3 v;
       if flash_addr + byte_length > chip_size then Some (SPI_FLASH_RESULT_ERR, dest, v)
       else do {
         (dest, s) \<leftarrow> flash_loop h flash_addr (sint byte_length) dest 0 (base v);
         Some (SPI_FLASH_RESULT_OK, dest, v\<lparr>base := s\<rparr>)
       }
     }"

definition hspi_overlap_flash_init :: "spi_hw \<Rightarrow> overlap \<Rightarrow> overlap option" where
  "hspi_overlap_flash_init h v = hspi_master_dev_init h 3 0 0 v"

end
