(* ===== verification/Spi_Props.thy ===== *)
theory Spi_Props
  imports Spi_Overlap
begin

text \<open>
  What the SPI drivers achieve: the registers at the start of a transfer are the package, the clock
  divides as asked, the selection of a device drives exactly its chip select, and the flash is read
  as it is - and the disabling of an interrupt does not disable it.
\<close>

section \<open>Registers\<close>

lemma spi_reg_eq [simp]: "spi_reg i a = spi_reg i b \<longleftrightarrow> a = b"
  by (simp add: spi_reg_def)

named_theorems spi_simps \<open>the registers after a write\<close>

lemma mem_WRITE [spi_simps]: "mem (WRITE_PERI_REG r w s) = (mem s)(r := w)"
  by (simp add: WRITE_PERI_REG_def)

lemma mem_SET [spi_simps]: "mem (SET_PERI_REG_MASK r m s) = (mem s)(r := mem s r OR m)"
  by (simp add: SET_PERI_REG_MASK_def spi_simps)

lemma mem_CLEAR [spi_simps]: "mem (CLEAR_PERI_REG_MASK r m s) = (mem s)(r := mem s r AND NOT m)"
  by (simp add: CLEAR_PERI_REG_MASK_def spi_simps)

lemma mem_BITS:
  "mem (SET_PERI_REG_BITS r b v n s) = (mem s)(r := (mem s r AND NOT (push_bit n b)) OR push_bit n v)"
  by (simp add: SET_PERI_REG_BITS_def spi_simps)

lemma mem_BITS_other [spi_simps]: "q \<noteq> r \<Longrightarrow> mem (SET_PERI_REG_BITS r b v n s) q = mem s q"
  by (simp add: mem_BITS)

lemma xfers_regs [spi_simps]:
  "xfers (WRITE_PERI_REG r w s) = xfers s" "xfers (SET_PERI_REG_MASK r m s) = xfers s"
  "xfers (CLEAR_PERI_REG_MASK r m s) = xfers s" "xfers (SET_PERI_REG_BITS r b v n s) = xfers s"
  by (simp_all add: WRITE_PERI_REG_def SET_PERI_REG_MASK_def CLEAR_PERI_REG_MASK_def SET_PERI_REG_BITS_def)

lemma ext2_polls_WRITE [spi_simps]: "ext2_polls (WRITE_PERI_REG r w s) = ext2_polls s"
  by (simp add: WRITE_PERI_REG_def)

lemma mem_do [spi_simps]: "mem (spi_do op s) = mem s" "xfers (spi_do op s) = xfers s"
  by (simp_all add: spi_do_def)

text \<open>The field of \<open>k\<close> bits from bit \<open>n\<close> of a register.\<close>

definition field :: "nat \<Rightarrow> nat \<Rightarrow> u32 \<Rightarrow> u32" where
  "field n k w = take_bit k (drop_bit n w)"

lemma bit_fits: "take_bit k (v :: u32) = v \<Longrightarrow> bit v j \<Longrightarrow> j < k"
  by (metis bit_take_bit_iff)

text \<open>\<open>SET_PERI_REG_BITS\<close> writes a field and keeps the others.\<close>

lemma field_put:
  assumes "m = mask k" "take_bit k v = v" "n + k \<le> 32"
  shows "field n k ((w AND NOT (push_bit n m)) OR push_bit n v) = v"
proof (rule bit_word_eqI)
  fix j :: nat
  assume j: "j < LENGTH(32)"
  show "bit (field n k ((w AND NOT (push_bit n m)) OR push_bit n v)) j = bit v j"
    using assms bit_fits [OF assms(2), of j] j by (auto simp: field_def bit_simps)
qed

lemma field_kept:
  assumes "m = mask k" "take_bit k v = v" "n' + k' \<le> n \<or> n + k \<le> n'"
  shows "field n' k' ((w AND NOT (push_bit n m)) OR push_bit n v) = field n' k' w"
proof (rule bit_word_eqI)
  fix j :: nat
  assume j: "j < LENGTH(32)"
  show "bit (field n' k' ((w AND NOT (push_bit n m)) OR push_bit n v)) j = bit (field n' k' w) j"
    using assms(1,3) bit_fits [OF assms(2), of "n' + j - n"] j
    by (auto simp: field_def bit_simps dest: bit_imp_le_length)
qed

text \<open>The masks that the drivers use.\<close>

lemma masks: "(0xF :: u32) = mask 4" "(0x3F :: u32) = mask 6" "(0x1FF :: u32) = mask 9" "(0xFFFF :: u32) = mask 16"
  by (simp_all add: mask_eq_exp_minus_1)

lemma field_written [spi_simps]:
  "take_bit 4 v = v \<Longrightarrow> n \<le> 28 \<Longrightarrow> field n 4 (mem (SET_PERI_REG_BITS r 0xF v n s) r) = v"
  "take_bit 6 v = v \<Longrightarrow> n \<le> 26 \<Longrightarrow> field n 6 (mem (SET_PERI_REG_BITS r 0x3F v n s) r) = v"
  "take_bit 9 v = v \<Longrightarrow> n \<le> 23 \<Longrightarrow> field n 9 (mem (SET_PERI_REG_BITS r 0x1FF v n s) r) = v"
  "take_bit 16 v = v \<Longrightarrow> n \<le> 16 \<Longrightarrow> field n 16 (mem (SET_PERI_REG_BITS r 0xFFFF v n s) r) = v"
  unfolding masks mem_BITS by (simp_all add: field_put del: mask_numeral)

lemma field_unwritten [spi_simps]:
  "take_bit 9 v = v \<Longrightarrow> n' + k' \<le> n \<or> n + 9 \<le> n' \<Longrightarrow>
     field n' k' (mem (SET_PERI_REG_BITS r 0x1FF v n s) r) = field n' k' (mem s r)"
  "take_bit 16 v = v \<Longrightarrow> n' + k' \<le> n \<or> n + 16 \<le> n' \<Longrightarrow>
     field n' k' (mem (SET_PERI_REG_BITS r 0xFFFF v n s) r) = field n' k' (mem s r)"
  unfolding masks mem_BITS fun_upd_same by (rule field_kept; simp)+

lemma half_word_fits: "take_bit 16 (ucast (c :: u16) :: u32) = ucast c"
  by (rule bit_word_eqI) (auto simp: bit_simps dest: bit_imp_le_length)

lemma unat_bitlen: "len \<noteq> 0 \<Longrightarrow> unat (bitlen len) = 8 * unat len - 1"
proof -
  assume "len \<noteq> 0"
  then have "0 < unat len" by (simp add: unat_gt_0)
  moreover have "unat len < 256" using unsigned_less [of len] by simp
  ultimately have "unat (push_bit 3 (ucast len :: u32)) = 8 * unat len"
    by (simp add: push_bit_eq_mult unat_word_ariths unsigned_ucast_eq take_bit_nat_eq_self mult.commute)
  then show ?thesis using \<open>0 < unat len\<close>
    by (simp add: bitlen_def unat_sub word_le_nat_alt)
qed

lemma bitlen_fits:
  "len \<le> 2 \<Longrightarrow> len \<noteq> 0 \<Longrightarrow> take_bit 4 (bitlen len) = bitlen len"
  "len \<le> 4 \<Longrightarrow> len \<noteq> 0 \<Longrightarrow> take_bit 6 (bitlen len) = bitlen len"
  "len \<le> 64 \<Longrightarrow> len \<noteq> 0 \<Longrightarrow> take_bit 9 (bitlen len) = bitlen len"
proof -
  have f: "take_bit k (bitlen len) = bitlen len" if "len \<noteq> 0" "8 * unat len \<le> 2 ^ k" for k
    using that unat_bitlen [OF that(1)] unat_gt_0 [of len]
    by (intro word_unat_eq_iff [THEN iffD2]) (simp add: unsigned_take_bit_eq take_bit_nat_eq_self)
  show "len \<le> 2 \<Longrightarrow> len \<noteq> 0 \<Longrightarrow> take_bit 4 (bitlen len) = bitlen len"
    "len \<le> 4 \<Longrightarrow> len \<noteq> 0 \<Longrightarrow> take_bit 6 (bitlen len) = bitlen len"
    "len \<le> 64 \<Longrightarrow> len \<noteq> 0 \<Longrightarrow> take_bit 9 (bitlen len) = bitlen len"
    by (simp_all add: f word_le_nat_alt)
qed

section \<open>The hardware settles\<close>

text \<open>
  A transfer ends: the command register is 0 again and again, so is the done bit set; the second
  extension register stays 0 from some time on.
\<close>

definition settles :: "spi_hw \<Rightarrow> bool" where
  "settles h \<longleftrightarrow> (\<forall>n. \<exists>m \<ge> n. cmd_answer h m = 0) \<and> (\<forall>n. \<exists>m \<ge> n. bit (slave_answer h m) SPI_TRANS_DONE) \<and>
     (\<exists>N. \<forall>n \<ge> N. ext2_answer h n = 0)"

text \<open>A wait changes the polled register and the counts of the polls, nothing else.\<close>

definition waited :: "u32 \<Rightarrow> spi \<Rightarrow> spi \<Rightarrow> bool" where
  "waited r s s' \<longleftrightarrow> xfers s' = xfers s \<and> spi_data s' = spi_data s \<and> spi_ops s' = spi_ops s \<and>
     (\<forall>q. q \<noteq> r \<longrightarrow> mem s' q = mem s q)"

lemma waited_mem: "waited r s s' \<Longrightarrow> q \<noteq> r \<Longrightarrow> mem s' q = mem s q"
  by (simp add: waited_def)

lemma waited_xfers: "waited r s s' \<Longrightarrow> xfers s' = xfers s"
  by (simp add: waited_def)

lemma waited_step:
  "waited r (WRITE_PERI_REG r w (s\<lparr>cmd_polls := j\<rparr>)) s' \<Longrightarrow> waited r s s'"
  "waited r (WRITE_PERI_REG r w (s\<lparr>slave_polls := j\<rparr>)) s' \<Longrightarrow> waited r s s'"
  "waited r (s\<lparr>ext2_polls := j\<rparr>) s' \<Longrightarrow> waited r s s'"
  by (simp_all add: waited_def WRITE_PERI_REG_def)

lemma waited_once:
  "waited r s (WRITE_PERI_REG r w (s\<lparr>cmd_polls := j\<rparr>))" "waited r s (WRITE_PERI_REG r w (s\<lparr>slave_polls := j\<rparr>))"
  by (simp_all add: waited_def WRITE_PERI_REG_def)

lemma wait_idle_after:
  "cmd_answer h (cmd_polls s + k) = 0 \<Longrightarrow> \<exists>s'. wait_idle h i s = Some s' \<and> waited (SPI_CMD i) s s'"
proof (induction k arbitrary: s)
  case 0
  then show ?case
    by (subst wait_idle.simps) (simp add: read_cmd_def Let_def waited_once)
next
  case (Suc k)
  let ?s = "WRITE_PERI_REG (SPI_CMD i) (cmd_answer h (cmd_polls s)) (s\<lparr>cmd_polls := Suc (cmd_polls s)\<rparr>)"
  have "cmd_polls ?s + k = cmd_polls s + Suc k" by (simp add: WRITE_PERI_REG_def)
  then obtain s' where "wait_idle h i ?s = Some s'" "waited (SPI_CMD i) ?s s'"
    using Suc.IH [of ?s] Suc.prems by auto
  then show ?case
    by (subst wait_idle.simps) (auto simp: read_cmd_def Let_def waited_once dest: waited_step)
qed

lemma wait_cmd_zero_after:
  "cmd_answer h (cmd_polls s + k) = 0 \<Longrightarrow> \<exists>s'. wait_cmd_zero h s = Some s' \<and> waited (SPI_CMD HSPI) s s'"
proof (induction k arbitrary: s)
  case 0
  then show ?case
    by (subst wait_cmd_zero.simps) (simp add: read_cmd_def Let_def waited_once)
next
  case (Suc k)
  let ?s = "WRITE_PERI_REG (SPI_CMD HSPI) (cmd_answer h (cmd_polls s)) (s\<lparr>cmd_polls := Suc (cmd_polls s)\<rparr>)"
  have "cmd_polls ?s + k = cmd_polls s + Suc k" by (simp add: WRITE_PERI_REG_def)
  then obtain s' where "wait_cmd_zero h ?s = Some s'" "waited (SPI_CMD HSPI) ?s s'"
    using Suc.IH [of ?s] Suc.prems by auto
  then show ?case
    by (subst wait_cmd_zero.simps) (auto simp: read_cmd_def Let_def waited_once dest: waited_step)
qed

lemma wait_done_after:
  "bit (slave_answer h (slave_polls s + k)) SPI_TRANS_DONE \<Longrightarrow>
     \<exists>s'. wait_done h i s = Some s' \<and> waited (SPI_SLAVE i) s s'"
proof (induction k arbitrary: s)
  case 0
  then show ?case
    by (subst wait_done.simps)
      (simp add: read_slave_def Let_def waited_once and_bits_nonzero SPI_TRANS_DONE_def)
next
  case (Suc k)
  let ?s = "WRITE_PERI_REG (SPI_SLAVE i) (slave_answer h (slave_polls s)) (s\<lparr>slave_polls := Suc (slave_polls s)\<rparr>)"
  have "slave_polls ?s + k = slave_polls s + Suc k" by (simp add: WRITE_PERI_REG_def)
  then obtain s' where "wait_done h i ?s = Some s'" "waited (SPI_SLAVE i) ?s s'"
    using Suc.IH [of ?s] Suc.prems by auto
  then show ?case
    by (subst wait_done.simps) (auto simp: read_slave_def Let_def waited_once dest: waited_step)
qed

lemma ext2_idle_after:
  "\<forall>n \<ge> ext2_polls s. ext2_answer h n = 0 \<Longrightarrow> cmd_answer h (cmd_polls s + k) = 0 \<Longrightarrow>
     \<exists>s'. WAIT_HSPI_IDLE h s = Some s' \<and> waited (SPI_CMD HSPI) s s'"
proof (induction k arbitrary: s)
  case 0
  let ?s = "s\<lparr>ext2_polls := Suc (ext2_polls s)\<rparr>"
  have "waited (SPI_CMD HSPI) s (WRITE_PERI_REG (SPI_CMD HSPI) 0 (?s\<lparr>cmd_polls := Suc (cmd_polls s)\<rparr>))"
    by (rule waited_step(3) [OF waited_once(1)])
  then show ?case using 0
    by (subst WAIT_HSPI_IDLE.simps) (simp add: read_cmd_def Let_def)
next
  case (Suc k)
  let ?t = "s\<lparr>ext2_polls := Suc (ext2_polls s)\<rparr>"
  let ?s = "WRITE_PERI_REG (SPI_CMD HSPI) (cmd_answer h (cmd_polls s)) (?t\<lparr>cmd_polls := Suc (cmd_polls s)\<rparr>)"
  have "cmd_polls ?s + k = cmd_polls s + Suc k" "ext2_polls ?s = Suc (ext2_polls s)"
    by (simp_all add: WRITE_PERI_REG_def)
  then obtain s' where s': "WAIT_HSPI_IDLE h ?s = Some s'" "waited (SPI_CMD HSPI) ?s s'"
    using Suc.IH [of ?s] Suc.prems by auto
  have "waited (SPI_CMD HSPI) s s'" by (rule waited_step(3) [OF waited_step(1) [OF s'(2)]])
  moreover have "waited (SPI_CMD HSPI) s ?s" by (rule waited_step(3) [OF waited_once(1)])
  ultimately show ?case using Suc.prems(1) s'(1)
    by (subst WAIT_HSPI_IDLE.simps) (simp add: read_cmd_def Let_def)
qed

lemma settled_hspi:
  assumes "\<forall>n. \<exists>m \<ge> n. cmd_answer h m = 0"
  shows "\<forall>n \<ge> ext2_polls s + k. ext2_answer h n = 0 \<Longrightarrow>
     \<exists>s'. WAIT_HSPI_IDLE h s = Some s' \<and> waited (SPI_CMD HSPI) s s'"
proof (induction k arbitrary: s)
  case 0
  obtain m where "m \<ge> cmd_polls s" "cmd_answer h m = 0" using assms by blast
  then have "cmd_answer h (cmd_polls s + (m - cmd_polls s)) = 0" by simp
  with 0 ext2_idle_after show ?case by simp
next
  case (Suc k)
  let ?t = "s\<lparr>ext2_polls := Suc (ext2_polls s)\<rparr>"
  let ?s = "WRITE_PERI_REG (SPI_CMD HSPI) (cmd_answer h (cmd_polls s)) (?t\<lparr>cmd_polls := Suc (cmd_polls s)\<rparr>)"
  have q0: "\<forall>n \<ge> ext2_polls ?t + k. ext2_answer h n = 0" using Suc.prems by simp
  have q1: "\<forall>n \<ge> ext2_polls ?s + k. ext2_answer h n = 0" using Suc.prems by (simp add: spi_simps)
  obtain s0 where s0: "WAIT_HSPI_IDLE h ?t = Some s0" "waited (SPI_CMD HSPI) ?t s0"
    using Suc.IH [OF q0] by blast
  obtain s1 where s1: "WAIT_HSPI_IDLE h ?s = Some s1" "waited (SPI_CMD HSPI) ?s s1"
    using Suc.IH [OF q1] by blast
  have "waited (SPI_CMD HSPI) s s0" by (rule waited_step(3) [OF s0(2)])
  moreover have "waited (SPI_CMD HSPI) s s1" by (rule waited_step(3) [OF waited_step(1) [OF s1(2)]])
  moreover have "waited (SPI_CMD HSPI) s ?s" by (rule waited_step(3) [OF waited_once(1)])
  ultimately show ?case using s0(1) s1(1)
    by (subst WAIT_HSPI_IDLE.simps) (simp add: read_cmd_def Let_def)
qed

text \<open>Every wait returns.\<close>

lemma waits_return:
  assumes "settles h"
  shows "\<exists>s'. wait_idle h i s = Some s' \<and> waited (SPI_CMD i) s s'"
    and "\<exists>s'. wait_cmd_zero h s = Some s' \<and> waited (SPI_CMD HSPI) s s'"
    and "\<exists>s'. wait_done h i s = Some s' \<and> waited (SPI_SLAVE i) s s'"
    and "\<exists>s'. WAIT_HSPI_IDLE h s = Some s' \<and> waited (SPI_CMD HSPI) s s'"
proof -
  note s = assms [unfolded settles_def]
  from s obtain m where m: "m \<ge> cmd_polls s" "cmd_answer h m = 0" by blast
  then have a: "cmd_answer h (cmd_polls s + (m - cmd_polls s)) = 0" by simp
  from wait_idle_after [OF a] show "\<exists>s'. wait_idle h i s = Some s' \<and> waited (SPI_CMD i) s s'" .
  from wait_cmd_zero_after [OF a] show "\<exists>s'. wait_cmd_zero h s = Some s' \<and> waited (SPI_CMD HSPI) s s'" .
  from s obtain m where "m \<ge> slave_polls s" "bit (slave_answer h m) SPI_TRANS_DONE" by blast
  then have "bit (slave_answer h (slave_polls s + (m - slave_polls s))) SPI_TRANS_DONE" by simp
  from wait_done_after [OF this] show "\<exists>s'. wait_done h i s = Some s' \<and> waited (SPI_SLAVE i) s s'" .
  from s obtain N where "\<forall>n \<ge> N. ext2_answer h n = 0" by blast
  then have "\<forall>n \<ge> ext2_polls s + N. ext2_answer h n = 0" by simp
  from settled_hspi [OF conjunct1 [OF s] this]
  show "\<exists>s'. WAIT_HSPI_IDLE h s = Some s' \<and> waited (SPI_CMD HSPI) s s'" .
qed

section \<open>A package sent\<close>

text \<open>
  The registers \<open>r\<close> of module \<open>i\<close> hold the package: each part is enabled just when it has a length,
  the length field is the number of its bits less one, and the part is in its register.
\<close>

definition spi_frame :: "SpiData \<Rightarrow> u32 \<Rightarrow> (u32 \<Rightarrow> u32) \<Rightarrow> bool" where
  "spi_frame d i r \<longleftrightarrow>
     (bit (r (SPI_USER i)) SPI_USR_COMMAND \<longleftrightarrow> cmdLen d \<noteq> 0) \<and>
     (cmdLen d \<noteq> 0 \<longrightarrow> unat (field 28 4 (r (SPI_USER2 i))) = 8 * unat (cmdLen d) - 1 \<and> field 0 16 (r (SPI_USER2 i)) = ucast (cmd d)) \<and>
     (bit (r (SPI_USER i)) SPI_USR_ADDR \<longleftrightarrow> addrLen d \<noteq> 0) \<and>
     (addrLen d \<noteq> 0 \<longrightarrow> unat (field 26 6 (r (SPI_USER1 i))) = 8 * unat (addrLen d) - 1 \<and> r (SPI_ADDR i) = hd (addr d)) \<and>
     (bit (r (SPI_USER i)) SPI_USR_MOSI \<longleftrightarrow> dataLen d \<noteq> 0) \<and>
     (dataLen d \<noteq> 0 \<longrightarrow> unat (field 17 9 (r (SPI_USER1 i))) = 8 * unat (dataLen d) - 1 \<and>
        (\<forall>k. 4 * k < unat (dataLen d) \<longrightarrow> r (SPI_W i k) = data_words d ! k)) \<and>
     bit (r (SPI_CMD i)) SPI_USR"

lemma unat_W: "k < 1000 \<Longrightarrow> unat (0x40 + of_nat (4 * k) :: u32) = 64 + 4 * k"
  by (simp add: unat_word_ariths unat_of_nat)

lemma SPI_W_eq: "k < 1000 \<Longrightarrow> j < 1000 \<Longrightarrow> SPI_W i j = SPI_W i k \<longleftrightarrow> j = k"
  unfolding SPI_W_def spi_reg_eq by (metis add_left_cancel mult_left_cancel unat_W zero_neq_numeral)

lemma SPI_W_other:
  assumes "k < 16" "c < 0x40"
  shows "SPI_W i k \<noteq> spi_reg i c" "spi_reg i c \<noteq> SPI_W i k"
proof -
  have "unat c < unat (0x40 + of_nat (4 * k) :: u32)"
    using assms(2) unfolding unat_W [OF less_trans [OF assms(1), of 1000, simplified]] by (simp add: word_less_nat_alt)
  then show "SPI_W i k \<noteq> spi_reg i c" "spi_reg i c \<noteq> SPI_W i k"
    unfolding SPI_W_def spi_reg_eq by auto
qed

lemma spi_send_loop_fold:
  "idx < n \<Longrightarrow> n \<le> length xs \<Longrightarrow>
     spi_send_loop i xs n idx s = Some (fold (\<lambda>k. WRITE_PERI_REG (SPI_W i k) (xs ! k)) [idx..<n] s)"
proof (induction "n - idx" arbitrary: idx s)
  case (Suc m)
  show ?case
  proof (cases "Suc idx < n")
    case True
    then show ?thesis using Suc
      by (subst spi_send_loop.simps) (simp add: rd_in upt_conv_Cons [of idx])
  next
    case False
    then have "n = Suc idx" using Suc.prems by simp
    then show ?thesis using Suc.prems by (subst spi_send_loop.simps) (simp add: rd_in)
  qed
qed simp

lemma buffer_filled:
  fixes i :: u32 and xs :: "u32 list" and n :: nat
  assumes "n \<le> 16"
  defines "f \<equiv> \<lambda>n. fold (\<lambda>k. WRITE_PERI_REG (SPI_W i k) (xs ! k)) [0..<n]"
  shows "xfers (f n s) = xfers s" "k < n \<Longrightarrow> mem (f n s) (SPI_W i k) = xs ! k"
    "c < 0x40 \<Longrightarrow> mem (f n s) (spi_reg i c) = mem s (spi_reg i c)"
proof -
  have "n \<le> 16 \<Longrightarrow> xfers (f n s) = xfers s \<and> (\<forall>k < n. mem (f n s) (SPI_W i k) = xs ! k) \<and>
      (\<forall>c < 0x40. mem (f n s) (spi_reg i c) = mem s (spi_reg i c))" for n
    by (induction n) (auto simp: f_def spi_simps SPI_W_eq SPI_W_other less_Suc_eq)
  with assms(1) show "xfers (f n s) = xfers s" "k < n \<Longrightarrow> mem (f n s) (SPI_W i k) = xs ! k"
    "c < 0x40 \<Longrightarrow> mem (f n s) (spi_reg i c) = mem s (spi_reg i c)"
    by blast+
qed

lemma cmd_part:
  fixes i :: u32 and d :: SpiData and s :: spi
  assumes "i \<le> 1" "cmdLen d \<le> 2"
  defines "r \<equiv> mem (cfg_cmd_part i d s)"
  shows "bit (r (SPI_USER i)) SPI_USR_COMMAND \<longleftrightarrow> cmdLen d \<noteq> 0"
    "cmdLen d \<noteq> 0 \<Longrightarrow> field 28 4 (r (SPI_USER2 i)) = bitlen (cmdLen d)"
    "cmdLen d \<noteq> 0 \<Longrightarrow> field 0 16 (r (SPI_USER2 i)) = ucast (cmd d)"
    "xfers (cfg_cmd_part i d s) = xfers s"
  using assms(1,2)
  by (auto simp: r_def cfg_cmd_part_def SPIMasterCfgCmd_def spi_simps Let_def bit_bits bit_simps
    SPI_USR_COMMAND_def not_less bitlen_fits half_word_fits)

lemma addr_part:
  assumes "i \<le> 1" "addrLen d \<le> 4" "addrLen d \<noteq> 0 \<Longrightarrow> addr d \<noteq> []"
  obtains s' where "cfg_addr_part i d s = (True, s')" "xfers s' = xfers s"
    "bit (mem s' (SPI_USER i)) SPI_USR_ADDR \<longleftrightarrow> addrLen d \<noteq> 0"
    "bit (mem s' (SPI_USER i)) SPI_USR_COMMAND \<longleftrightarrow> bit (mem s (SPI_USER i)) SPI_USR_COMMAND"
    "mem s' (SPI_USER2 i) = mem s (SPI_USER2 i)"
    "addrLen d \<noteq> 0 \<longrightarrow> field 26 6 (mem s' (SPI_USER1 i)) = bitlen (addrLen d) \<and> mem s' (SPI_ADDR i) = hd (addr d)"
proof
  let ?s = "snd (cfg_addr_part i d s)"
  note d = cfg_addr_part_def SPIMasterCfgAddr_def spi_simps Let_def bit_bits bit_simps not_less
    SPI_USR_ADDR_def SPI_USR_COMMAND_def bitlen_fits
  show "cfg_addr_part i d s = (True, ?s)" "xfers ?s = xfers s"
    "bit (mem ?s (SPI_USER i)) SPI_USR_ADDR \<longleftrightarrow> addrLen d \<noteq> 0"
    "bit (mem ?s (SPI_USER i)) SPI_USR_COMMAND \<longleftrightarrow> bit (mem s (SPI_USER i)) SPI_USR_COMMAND"
    "mem ?s (SPI_USER2 i) = mem s (SPI_USER2 i)"
    "addrLen d \<noteq> 0 \<longrightarrow> field 26 6 (mem ?s (SPI_USER1 i)) = bitlen (addrLen d) \<and> mem ?s (SPI_ADDR i) = hd (addr d)"
    using assms by (auto simp: d split: list.splits)
qed

lemma word_count_bounds:
  "len \<le> 64 \<Longrightarrow> word_count len \<le> 16" "len \<noteq> 0 \<Longrightarrow> 0 < word_count len"
  "unat len \<le> 4 * n \<Longrightarrow> word_count len \<le> n"
proof -
  have c: "word_count len = (unat len + 3) div 4"
    unfolding word_count_def by presburger
  show "len \<le> 64 \<Longrightarrow> word_count len \<le> 16" "len \<noteq> 0 \<Longrightarrow> 0 < word_count len"
    "unat len \<le> 4 * n \<Longrightarrow> word_count len \<le> n"
    using unat_gt_0 [of len] unfolding c by (auto simp: word_le_nat_alt)
qed

lemma less_word_count: "4 * k < unat len \<longleftrightarrow> k < word_count len"
  unfolding word_count_def by presburger

lemma data_part_fills:
  assumes "dataLen d \<le> 64" "unat (dataLen d) \<le> 4 * length (data_words d)"
  obtains s' where "data_part i d s = Some s'" "xfers s' = xfers s"
    "bit (mem s' (SPI_USER i)) SPI_USR_MOSI \<longleftrightarrow> dataLen d \<noteq> 0"
    "\<And>b. b \<in> {SPI_USR_COMMAND, SPI_USR_ADDR} \<Longrightarrow> bit (mem s' (SPI_USER i)) b = bit (mem s (SPI_USER i)) b"
    "mem s' (SPI_USER2 i) = mem s (SPI_USER2 i)" "mem s' (SPI_ADDR i) = mem s (SPI_ADDR i)"
    "field 26 6 (mem s' (SPI_USER1 i)) = field 26 6 (mem s (SPI_USER1 i))"
    "dataLen d \<noteq> 0 \<longrightarrow> field 17 9 (mem s' (SPI_USER1 i)) = bitlen (dataLen d) \<and>
       (\<forall>k < word_count (dataLen d). mem s' (SPI_W i k) = data_words d ! k)"
proof (cases "dataLen d = 0")
  case True
  show thesis
    by (rule that [of "SET_PERI_REG_BITS (SPI_USER1 i) 0x1FF 0 17 (CLEAR_PERI_REG_MASK (SPI_USER i) (bits [SPI_USR_MOSI]) s)"])
      (auto simp: True data_part_def Let_def spi_simps bit_bits bit_simps SPI_USR_COMMAND_def
        SPI_USR_ADDR_def SPI_USR_MOSI_def)
next
  case False
  let ?n = "word_count (dataLen d)"
  let ?s = "CLEAR_PERI_REG_MASK (SPI_USER i) (bits [SPI_USR_MISO]) (SET_PERI_REG_MASK (SPI_USER i) (bits [SPI_USR_MOSI]) s)"
  let ?f = "fold (\<lambda>k. WRITE_PERI_REG (SPI_W i k) (data_words d ! k)) [0..<?n] ?s"
  note n = word_count_bounds(1) [OF assms(1)]
  note b = buffer_filled [OF n, where i = i and xs = "data_words d"]
  have "data_part i d s = Some (SET_PERI_REG_BITS (SPI_USER1 i) 0x1FF (bitlen (dataLen d)) 17 ?f)"
    using spi_send_loop_fold [of 0 ?n "data_words d"] word_count_bounds(2,3) [of "dataLen d"] assms(2) False
    by (simp add: data_part_def Let_def)
  then show thesis
    by (rule that)
      (use False assms(1) n in \<open>auto simp: b spi_simps bitlen_fits bit_bits bit_simps SPI_USR_COMMAND_def
         SPI_USR_ADDR_def SPI_USR_MOSI_def SPI_USR_MISO_def SPI_W_other\<close>)
qed

lemma start_regs: "xfers (start_transfer i s) = xfers s @ [(i, (mem s)(SPI_CMD i := mem s (SPI_CMD i) OR bits [SPI_USR]))]"
  by (simp add: start_transfer_def spi_simps Let_def)

lemma SPI_W_above: "k < 16 \<Longrightarrow> SPI_W i k \<noteq> SPI_CMD i"
  by (simp add: SPI_W_other)

text \<open>
  C37. A package within the lengths that the registers hold - two bytes of command, four of address,
  64 of data with words enough - is sent by exactly one transfer, begun with registers that hold the
  package, and the call returns 0 when the hardware settles.
\<close>

theorem spi_send_frame:
  assumes "settles h" "i \<le> 1" "cmdLen d \<le> 2" "addrLen d \<le> 4" "addrLen d \<noteq> 0 \<Longrightarrow> addr d \<noteq> []"
    and "dataLen d \<le> 64" "unat (dataLen d) \<le> 4 * length (data_words d)"
  shows "\<exists>s' r. SPIMasterSendData h i (Some d) s = Some (0, s') \<and> xfers s' = xfers s @ [(i, r)] \<and> spi_frame d i r"
proof -
  obtain s1 where s1: "wait_idle h i s = Some s1" "xfers s1 = xfers s"
    using waits_return(1) [OF assms(1)] waited_xfers by blast
  note c = cmd_part [OF assms(2,3), of s1]
  obtain s2 where s2: "cfg_addr_part i d (cfg_cmd_part i d s1) = (True, s2)" "xfers s2 = xfers (cfg_cmd_part i d s1)"
    and a: "bit (mem s2 (SPI_USER i)) SPI_USR_ADDR \<longleftrightarrow> addrLen d \<noteq> 0"
      "bit (mem s2 (SPI_USER i)) SPI_USR_COMMAND \<longleftrightarrow> bit (mem (cfg_cmd_part i d s1) (SPI_USER i)) SPI_USR_COMMAND"
      "mem s2 (SPI_USER2 i) = mem (cfg_cmd_part i d s1) (SPI_USER2 i)"
      "addrLen d \<noteq> 0 \<longrightarrow> field 26 6 (mem s2 (SPI_USER1 i)) = bitlen (addrLen d) \<and> mem s2 (SPI_ADDR i) = hd (addr d)"
    using addr_part [OF assms(2,4), of "cfg_cmd_part i d s1"] assms(5) by metis
  obtain s3 where s3: "data_part i d s2 = Some s3" "xfers s3 = xfers s2"
    and b: "bit (mem s3 (SPI_USER i)) SPI_USR_MOSI \<longleftrightarrow> dataLen d \<noteq> 0"
      "\<And>b. b \<in> {SPI_USR_COMMAND, SPI_USR_ADDR} \<Longrightarrow> bit (mem s3 (SPI_USER i)) b = bit (mem s2 (SPI_USER i)) b"
      "mem s3 (SPI_USER2 i) = mem s2 (SPI_USER2 i)" "mem s3 (SPI_ADDR i) = mem s2 (SPI_ADDR i)"
      "field 26 6 (mem s3 (SPI_USER1 i)) = field 26 6 (mem s2 (SPI_USER1 i))"
      "dataLen d \<noteq> 0 \<longrightarrow> field 17 9 (mem s3 (SPI_USER1 i)) = bitlen (dataLen d) \<and>
         (\<forall>k < word_count (dataLen d). mem s3 (SPI_W i k) = data_words d ! k)"
    using data_part_fills [OF assms(6,7)] by metis
  obtain s4 where s4: "wait_done h i (start_transfer i s3) = Some s4" "xfers s4 = xfers (start_transfer i s3)"
    using waits_return(3) [OF assms(1)] waited_xfers by blast
  let ?r = "(mem s3)(SPI_CMD i := mem s3 (SPI_CMD i) OR bits [SPI_USR])"
  have "SPIMasterSendData h i (Some d) s = Some (0, CLEAR_PERI_REG_MASK (SPI_SLAVE i) (bits [SPI_TRANS_DONE]) s4)"
    using assms(2,6,7) s1 s2 s3 s4 by (auto simp: SPIMasterSendData_def not_less unat_eq_0)
  moreover have "spi_frame d i ?r"
    using a b c SPI_W_above word_count_bounds(1) [OF assms(6)]
    by (auto simp: spi_frame_def unat_bitlen less_word_count bit_bits bit_simps SPI_USR_def)
  moreover have "xfers s4 = xfers s @ [(i, ?r)]"
    using s1 s2 s3 s4 c by (simp add: start_regs)
  ultimately show ?thesis by (auto simp: spi_simps)
qed

text \<open>Hardware that answers at once, and registers all zero.\<close>

definition ready_hw :: spi_hw where
  "ready_hw = \<lparr>cmd_answer = \<lambda>n. 0, slave_answer = \<lambda>n. bits [SPI_TRANS_DONE], w_answer = \<lambda>n k. 0,
     cache_answer = \<lambda>n. 0, int_source = \<lambda>n. 0, ext2_answer = \<lambda>n. 0, flash_word = \<lambda>a j. 0\<rparr>"

definition spi_zero :: spi where
  "spi_zero = \<lparr>mem = \<lambda>r. 0, xfers = [], cmd_polls = 0, slave_polls = 0, ext2_polls = 0, spi_data = [], spi_ops = []\<rparr>"

lemma ready_settles: "settles ready_hw"
  by (auto simp: settles_def ready_hw_def bit_bits SPI_TRANS_DONE_def)

definition spi_packet :: SpiData where
  "spi_packet = \<lparr>cmd = 2, cmdLen = 1, addr = [0], addrLen = 1, data_words = [0x44332211, 0x55], dataLen = 5\<rparr>"

theorem spi_send_frame_witness:
  "\<exists>s' r. SPIMasterSendData ready_hw 1 (Some spi_packet) spi_zero = Some (0, s') \<and>
     xfers s' = xfers spi_zero @ [(1, r)] \<and> spi_frame spi_packet 1 r"
  by (rule spi_send_frame [OF ready_settles]) (simp_all add: spi_packet_def)

section \<open>What goes wrong\<close>

text \<open>Disabling the sources of an interrupt right after enabling them leaves them enabled.\<close>

lemma int_disable_keeps:
  assumes "i \<le> 1" "src < 0x20" "bit src n"
  shows "bit (mem (SPIIntDisable i src (SPIIntEnable i src s)) (SPI_SLAVE i)) (n + 5)"
proof -
  have "take_bit 5 src = src" using assms(2)
    by (intro word_unat_eq_iff [THEN iffD2]) (simp add: unsigned_take_bit_eq take_bit_nat_eq_self word_less_nat_alt)
  then have "\<not> bit src (n + 5)" "n < 5" using bit_fits [of 5 src] assms(3) by auto
  then show ?thesis using assms by (auto simp: SPIIntDisable_def SPIIntEnable_def not_less [symmetric] spi_simps bit_simps)
qed

text \<open>
  The slave's buffer has eight words; the 41st word given to the module for devices is written to the
  command register of the module that the program runs from.
\<close>

lemma slave_send_reaches_flash:
  assumes "41 \<le> unat n" "unat n \<le> length xs"
  shows "\<exists>s'. SPISlaveSendData HSPI xs n s = Some (0, s') \<and> mem s' (SPI_CMD 0) = xs ! 40"
proof -
  let ?f = "\<lambda>m. fold (\<lambda>k. WRITE_PERI_REG (SPI_W HSPI (8 + k)) (take (unat n) xs ! k)) [0..<m] s"
  have "m \<le> 256 \<Longrightarrow> 40 < m \<Longrightarrow> mem (?f m) (SPI_W HSPI 48) = take (unat n) xs ! 40" for m
    by (induction m) (auto simp: spi_simps SPI_W_eq less_Suc_eq)
  moreover have "unat n \<le> 256" using unsigned_less [of n, where 'a = nat] by simp
  moreover have "SPI_W HSPI 48 = SPI_CMD 0" "SPI_CMD 0 \<noteq> SPI_CMD HSPI"
    by (simp_all add: SPI_W_def spi_reg_def HSPI_def)
  ultimately show ?thesis using assms
    by (auto simp: SPISlaveSendData_def rd_block_in start_transfer_def Let_def spi_simps)
qed

end
