(* ===== verification/Spi_Overlap_Props.thy ===== *)
theory Spi_Overlap_Props
  imports Spi_Props
begin

text \<open>
  The overlap mode: whatever devices are selected one after the other, the registers and the pin are
  those of the last one; and the flash chip is read as it is, the last bytes included.
\<close>

section \<open>Registers\<close>

lemma plus_eq_word: "k + a = x \<longleftrightarrow> a = x - k" for a k x :: u32
  by (simp only: eq_diff_eq add.commute)

lemma hspi_reg: "spi_reg HSPI c = 0x60000100 + c"
  by (simp add: spi_reg_def HSPI_def)

lemma host_reg: "HOST_INF_SEL = spi_reg HSPI c \<longleftrightarrow> c = - 537919704" "spi_reg HSPI c = HOST_INF_SEL \<longleftrightarrow> c = - 537919704"
  unfolding HOST_INF_SEL_def hspi_reg eq_commute [of "0x3ff00028 :: u32"] plus_eq_word by simp_all

lemma spi0_reg: "spi_reg 0 a = spi_reg HSPI c \<longleftrightarrow> c = a + 0x100" "spi_reg HSPI c = spi_reg 0 a \<longleftrightarrow> c = a + 0x100"
proof -
  have "spi_reg 0 a = 0x60000200 + a" by (simp add: spi_reg_def)
  then show "spi_reg HSPI c = spi_reg 0 a \<longleftrightarrow> c = a + 0x100"
    unfolding hspi_reg plus_eq_word by (simp add: algebra_simps)
  then show "spi_reg 0 a = spi_reg HSPI c \<longleftrightarrow> c = a + 0x100" by metis
qed

lemma ops_regs [spi_simps]:
  "spi_ops (WRITE_PERI_REG r w s) = spi_ops s" "spi_ops (SET_PERI_REG_MASK r m s) = spi_ops s"
  "spi_ops (CLEAR_PERI_REG_MASK r m s) = spi_ops s" "spi_ops (spi_do op s) = spi_ops s @ [op]"
  by (simp_all add: WRITE_PERI_REG_def SET_PERI_REG_MASK_def CLEAR_PERI_REG_MASK_def spi_do_def)

section \<open>What is selected\<close>

text \<open>The function of a pin that was set last.\<close>

definition pin_func :: "string \<Rightarrow> spi_op list \<Rightarrow> nat option" where
  "pin_func p ops = foldl (\<lambda>f op. case op of Spi_pin_func q n \<Rightarrow> if q = p then Some n else f | _ \<Rightarrow> f) None ops"

lemma pin_func_snoc [simp]:
  "pin_func p (ops @ [Spi_pin_func q n]) = (if q = p then Some n else pin_func p ops)"
  "pin_func p (ops @ [Gpio_out a b]) = pin_func p ops" "pin_func p (ops @ [Spi_printf x]) = pin_func p ops"
  by (simp_all add: pin_func_def)

text \<open>The chip select of a device: the flash chip is on the first one, in overlap mode.\<close>

definition cs_line :: "nat \<Rightarrow> nat" where
  "cs_line d = (if d = SPI_CS0_FLASH then 0 else d)"

text \<open>
  Device \<open>d\<close> is selected: its chip select alone is not disabled, the modules share their pins unless
  it is the device on the module's own pins, whose own chip select pin is a pin of the module then
  and else a plain output, and edge and clock are as configured.
\<close>

definition selection :: "nat \<Rightarrow> overlap \<Rightarrow> bool" where
  "selection d v \<longleftrightarrow>
     (let r = mem (base v); c = hspi_dev_conf v d
      in (\<forall>k < 3. bit (r (SPI_PIN HSPI)) k \<longleftrightarrow> k \<noteq> cs_line d) \<and>
         (bit (r HOST_INF_SEL) 7 \<longleftrightarrow> d \<noteq> HSPI_CS_DEV) \<and>
         pin_func ''MTDO_U'' (spi_ops (base v)) = Some (if d = HSPI_CS_DEV then 2 else 3) \<and>
         (bit (r (SPI_USER HSPI)) 7 \<longleftrightarrow> d \<noteq> SPI_CS0_FLASH \<and> clk_polar c) \<and>
         (if d = HSPI_CS_DEV \<or> d \<noteq> SPI_CS0_FLASH \<and> \<not> spi_io_80m v then r (SPI_CLOCK HSPI) = clk_word (clk_div c)
          else if spi_io_80m v then bit (r (SPI_CLOCK HSPI)) 31
          else r (SPI_CLOCK HSPI) = flash_reg_backup v ! 3))"

text \<open>The backups are taken, and the one for the flash has the fast clock when the flash has it.\<close>

definition backed_up :: "overlap \<Rightarrow> bool" where
  "backed_up v \<longleftrightarrow> reg_backup_flag v \<and> length (flash_reg_backup v) = 9 \<and> length (dev_reg_backup v) = 9 \<and>
     (spi_io_80m v \<longrightarrow> bit (flash_reg_backup v ! 3) 31)"

text \<open>The registers at stake survive a wait.\<close>

lemma hspi_waits:
  assumes "settles h"
  obtains s' where "WAIT_HSPI_IDLE h s = Some s'" "spi_ops s' = spi_ops s" "\<And>q. q \<noteq> SPI_CMD HSPI \<Longrightarrow> mem s' q = mem s q"
  using waits_return(4) [OF assms] unfolding waited_def by blast

lemma below_three: "(\<forall>k < 3. P k) \<longleftrightarrow> P 0 \<and> P 1 \<and> P (2 :: nat)"
  by (auto simp: numeral_3_eq_3 numeral_2_eq_2 less_Suc_eq)

text \<open>The modules share their pins, or the module is alone; what ends each case then selects the device.\<close>

definition shared :: "spi \<Rightarrow> bool" where
  "shared s \<longleftrightarrow> bit (mem s HOST_INF_SEL) 7 \<and> pin_func ''MTDO_U'' (spi_ops s) = Some 3"

definition alone :: "spi \<Rightarrow> bool" where
  "alone s \<longleftrightarrow> \<not> bit (mem s HOST_INF_SEL) 7 \<and> pin_func ''MTDO_U'' (spi_ops s) = Some 2"

lemmas reg_bits = spi_simps host_reg spi0_reg bit_bits bit_simps

lemma made_shared: "shared (hspi_overlap_init (DISABLE_HSPI_DEV_CS s))"
  by (simp add: shared_def hspi_overlap_init_def DISABLE_HSPI_DEV_CS_def pin_func_def reg_bits)

lemma made_alone: "alone (hspi_overlap_deinit (ENABLE_HSPI_DEV_CS s))"
  by (simp add: alone_def hspi_overlap_deinit_def ENABLE_HSPI_DEV_CS_def reg_bits)

lemma shared_kept:
  "shared s \<Longrightarrow> shared (sel_clock fast c s)" "shared s \<Longrightarrow> shared (CONF_HSPI_CLK_DIV e s)"
  "shared s \<Longrightarrow> shared (SET_PERI_REG_MASK (SPI_CLOCK HSPI) m s)"
  "shared s \<Longrightarrow> spi_ops s' = spi_ops s \<Longrightarrow> mem s' HOST_INF_SEL = mem s HOST_INF_SEL \<Longrightarrow> shared s'"
  "alone s \<Longrightarrow> spi_ops s' = spi_ops s \<Longrightarrow> mem s' HOST_INF_SEL = mem s HOST_INF_SEL \<Longrightarrow> alone s'"
  by (auto simp: shared_def alone_def sel_clock_def CONF_HSPI_CLK_DIV_def reg_bits)

definition clocked :: "bool \<Rightarrow> hspi_device_config \<Rightarrow> spi \<Rightarrow> bool" where
  "clocked fast c s \<longleftrightarrow> (if fast then bit (mem s (SPI_CLOCK HSPI)) 31 else mem s (SPI_CLOCK HSPI) = clk_word (clk_div c))"

lemma sel_clocked: "clocked fast c (sel_clock fast c s)" "clocked False c (CONF_HSPI_CLK_DIV (clk_div c) s)"
  by (simp_all add: clocked_def sel_clock_def CONF_HSPI_CLK_DIV_def reg_bits)

lemma ends_cs12:
  assumes "d = SPI_CS1_DEV \<or> d = SPI_CS2_DEV" "shared s" "clocked (spi_io_80m v) (hspi_dev_conf v d) s"
  shows "selection d (v\<lparr>base := sel_cs12 d (sel_polar (hspi_dev_conf v d) s)\<rparr>)"
  using assms
  by (elim disjE) (auto simp: selection_def Let_def sel_cs12_def sel_polar_def HSPI_FALLING_EDGE_SAMPLE_def cs_line_def
    HSPI_RISING_EDGE_SAMPLE_def ACTIVE_HSPI_CS1_def ACTIVE_HSPI_CS2_def shared_def clocked_def dev_nums below_three reg_bits)

lemma ends_flash:
  assumes "shared s" "if spi_io_80m v then bit (mem s (SPI_CLOCK HSPI)) 31 else mem s (SPI_CLOCK HSPI) = flash_reg_backup v ! 3"
  shows "selection SPI_CS0_FLASH (v\<lparr>base := ACTIVE_HSPI_CS0 (HSPI_RISING_EDGE_SAMPLE s)\<rparr>)"
  using assms
  by (auto simp: selection_def Let_def HSPI_RISING_EDGE_SAMPLE_def cs_line_def ACTIVE_HSPI_CS0_def shared_def
    dev_nums below_three reg_bits split: if_splits)

lemma ends_own:
  assumes "alone s"
  shows "selection HSPI_CS_DEV (v\<lparr>base := sel_own (hspi_dev_conf v HSPI_CS_DEV) s\<rparr>)"
  using assms
  by (auto simp: selection_def Let_def sel_own_def sel_polar_def CONF_HSPI_CLK_DIV_def HSPI_FALLING_EDGE_SAMPLE_def
    HSPI_RISING_EDGE_SAMPLE_def cs_line_def ACTIVE_HSPI_CS0_def alone_def dev_nums below_three reg_bits)

lemma module_one: "spi_reg 1 c = spi_reg HSPI c"
  by (simp add: HSPI_def)

lemma reg_recover:
  assumes "length b = 9"
  obtains s' where "spi_reg_recover 1 b s = Some s'" "mem s' (SPI_CLOCK HSPI) = b ! 3"
    "shared s \<Longrightarrow> shared s'" "alone s \<Longrightarrow> alone s'"
  using assms by (auto simp: spi_reg_recover_def rd_in Let_def reg_bits module_one shared_def alone_def)

lemma hspi_waits_shared:
  assumes "settles h"
  obtains s' where "WAIT_HSPI_IDLE h s = Some s'" "shared s \<Longrightarrow> shared s'" "clocked fast c s \<Longrightarrow> clocked fast c s'"
    "mem s' (SPI_CLOCK HSPI) = mem s (SPI_CLOCK HSPI)"
proof -
  obtain s' where s': "WAIT_HSPI_IDLE h s = Some s'" "spi_ops s' = spi_ops s" "\<And>q. q \<noteq> SPI_CMD HSPI \<Longrightarrow> mem s' q = mem s q"
    using hspi_waits [OF assms] by metis
  then show thesis
    by (intro that [of s']) (simp_all add: host_reg clocked_def shared_kept(4))
qed

lemma sets_fast: "bit (mem (SET_PERI_REG_MASK (SPI_CLOCK HSPI) (bits [31]) s) (SPI_CLOCK HSPI)) 31"
  by (simp add: reg_bits)

text \<open>The cases, by the device selected before.\<close>

lemma dev_cases:
  assumes "d < 4" "d \<noteq> old"
  obtains "d = HSPI_CS_DEV" | "d = SPI_CS1_DEV \<or> d = SPI_CS2_DEV" | "d = SPI_CS0_FLASH"
  using assms by (auto simp: dev_nums less_Suc_eq numeral_eq_Suc)

lemma from_other:
  assumes "settles h" "backed_up v" "d < 4" "old = HSPI_IDLE \<or> old = HSPI_CS_DEV" "d \<noteq> old"
  shows "\<exists>s'. sel_switch h old d v = Some s' \<and> selection d (v\<lparr>base := s'\<rparr>)"
proof -
  obtain s1 where s1: "WAIT_HSPI_IDLE h (base v) = Some s1" using hspi_waits [OF assms(1)] by metis
  let ?o = "hspi_overlap_init (DISABLE_HSPI_DEV_CS s1)"
  let ?e = "hspi_overlap_deinit (ENABLE_HSPI_DEV_CS s1)"
  have len: "length (flash_reg_backup v) = 9" "length (dev_reg_backup v) = 9"
    and fast: "spi_io_80m v \<Longrightarrow> bit (flash_reg_backup v ! 3) 31"
    using assms(2) by (simp_all add: backed_up_def)
  obtain f where f: "spi_reg_recover 1 (flash_reg_backup v) ?o = Some f" "mem f (SPI_CLOCK HSPI) = flash_reg_backup v ! 3" "shared f"
    using reg_recover [OF len(1)] made_shared by metis
  obtain g where g: "spi_reg_recover 1 (dev_reg_backup v) ?o = Some g" "shared g"
    using reg_recover [OF len(2)] made_shared by metis
  obtain e where e: "spi_reg_recover 1 (dev_reg_backup v) ?e = Some e" "alone e"
    using reg_recover [OF len(2)] made_alone by metis
  from dev_cases [OF assms(3,5)] show ?thesis
  proof cases
    case 1
    then show ?thesis using s1 e assms(4,5) ends_own [OF e(2), of v]
      by (auto simp: sel_switch_def dev_nums Let_def)
  next
    case 2
    let ?c = "hspi_dev_conf v d"
    have "selection d (v\<lparr>base := sel_cs12 d (sel_polar ?c (sel_clock (spi_io_80m v) ?c g))\<rparr>)"
      "selection d (v\<lparr>base := sel_cs12 d (sel_polar ?c (sel_clock (spi_io_80m v) ?c ?o))\<rparr>)"
      using ends_cs12 [OF 2] shared_kept(1) sel_clocked(1) g(2) made_shared by blast+
    then show ?thesis using s1 g(1) assms(4) 2 by (auto simp: sel_switch_def dev_nums Let_def)
  next
    case 3
    have "selection SPI_CS0_FLASH (v\<lparr>base := ACTIVE_HSPI_CS0 (HSPI_RISING_EDGE_SAMPLE
        (if spi_io_80m v then SET_PERI_REG_MASK (SPI_CLOCK HSPI) (bits [31]) f else f))\<rparr>)"
      by (rule ends_flash) (simp_all add: f shared_kept(3) sets_fast)
    then show ?thesis using s1 f(1) assms(4) 3 by (auto simp: sel_switch_def dev_nums Let_def)
  qed
qed

lemma selected_shared: "selection d v \<Longrightarrow> d \<noteq> HSPI_CS_DEV \<Longrightarrow> shared (base v)"
  by (simp add: selection_def shared_def Let_def)

lemma from_cs12:
  assumes "settles h" "backed_up v" "d < 4" "old = SPI_CS1_DEV \<or> old = SPI_CS2_DEV" "d \<noteq> old" "selection old v"
  shows "\<exists>s'. sel_switch h old d v = Some s' \<and> selection d (v\<lparr>base := s'\<rparr>)"
proof -
  have sh: "shared (base v)" using selected_shared [OF assms(6)] assms(4) by (auto simp: dev_nums)
  obtain s1 where s1: "WAIT_HSPI_IDLE h (base v) = Some s1" "shared s1"
      "mem s1 (SPI_CLOCK HSPI) = mem (base v) (SPI_CLOCK HSPI)"
    using hspi_waits_shared [OF assms(1)] sh by metis
  have len: "length (flash_reg_backup v) = 9" and fast: "spi_io_80m v \<Longrightarrow> bit (flash_reg_backup v ! 3) 31"
    using assms(2) by (simp_all add: backed_up_def)
  obtain f where f: "spi_reg_recover 1 (flash_reg_backup v) s1 = Some f" "mem f (SPI_CLOCK HSPI) = flash_reg_backup v ! 3" "shared f"
    using reg_recover [OF len] s1(2) by metis
  from dev_cases [OF assms(3,5)] show ?thesis
  proof cases
    case 1
    then show ?thesis using s1 assms(4,5) ends_own [OF made_alone [of s1], of v]
      by (auto simp: sel_switch_def dev_nums Let_def)
  next
    case 2
    let ?c = "hspi_dev_conf v d"
    have "clocked (spi_io_80m v) ?c (if spi_io_80m v then s1 else CONF_HSPI_CLK_DIV (clk_div ?c) s1)"
      using assms(4,6) s1(3) sel_clocked(2) [of ?c]
      by (auto simp: selection_def Let_def dev_nums clocked_def split: if_splits)
    moreover have "shared (if spi_io_80m v then s1 else CONF_HSPI_CLK_DIV (clk_div ?c) s1)"
      using s1(2) shared_kept(2) by simp
    ultimately have "selection d (v\<lparr>base := sel_cs12 d (sel_polar ?c
        (if spi_io_80m v then s1 else CONF_HSPI_CLK_DIV (clk_div ?c) s1))\<rparr>)"
      using ends_cs12 [OF 2] by blast
    then show ?thesis using s1 assms(4,5) 2 by (auto simp: sel_switch_def dev_nums Let_def)
  next
    case 3
    have "selection SPI_CS0_FLASH (v\<lparr>base := ACTIVE_HSPI_CS0 (HSPI_RISING_EDGE_SAMPLE f)\<rparr>)"
      by (rule ends_flash) (simp_all add: f fast)
    then show ?thesis using s1 f(1) assms(4) 3 by (auto simp: sel_switch_def dev_nums Let_def)
  qed
qed

lemma from_flash:
  assumes "settles h" "backed_up v" "d < 4" "d \<noteq> SPI_CS0_FLASH" "selection SPI_CS0_FLASH v"
  shows "\<exists>s'. sel_switch h SPI_CS0_FLASH d v = Some s' \<and> selection d (v\<lparr>base := s'\<rparr>)"
proof -
  have sh: "shared (base v)" using selected_shared [OF assms(5)] by (auto simp: dev_nums)
  obtain s1 where s1: "WAIT_HSPI_IDLE h (base v) = Some s1" "shared s1"
    using hspi_waits_shared [OF assms(1)] sh by metis
  have len: "length (dev_reg_backup v) = 9" using assms(2) by (simp add: backed_up_def)
  obtain g where g: "spi_reg_recover 1 (dev_reg_backup v) s1 = Some g" "shared g"
    using reg_recover [OF len] s1(2) by metis
  obtain e where e: "spi_reg_recover 1 (dev_reg_backup v) (hspi_overlap_deinit (ENABLE_HSPI_DEV_CS s1)) = Some e" "alone e"
    using reg_recover [OF len] made_alone by metis
  from dev_cases [OF assms(3,4)] show ?thesis
  proof cases
    case 1
    then show ?thesis using s1 e ends_own [OF e(2), of v] by (auto simp: sel_switch_def dev_nums Let_def)
  next
    case 2
    let ?c = "hspi_dev_conf v d"
    have "selection d (v\<lparr>base := sel_cs12 d (sel_polar ?c (sel_clock (spi_io_80m v) ?c g))\<rparr>)"
      using ends_cs12 [OF 2] shared_kept(1) sel_clocked(1) g(2) by blast
    then show ?thesis using s1 g(1) 2 by (auto simp: sel_switch_def dev_nums Let_def)
  qed (use assms(4) in simp)
qed

lemma same_device: "d < 4 \<Longrightarrow> sel_switch h d d v = Some (base v)"
  by (auto simp: sel_switch_def dev_nums Let_def less_Suc_eq numeral_eq_Suc)

text \<open>A state between two selections: nothing is selected yet, or the device that is noted.\<close>

definition sel_inv :: "overlap \<Rightarrow> bool" where
  "sel_inv v \<longleftrightarrow> backed_up v \<and>
     (selected_dev_num v = HSPI_IDLE \<or> selected_dev_num v < 4 \<and> selection (selected_dev_num v) v)"

lemma dev_selected:
  assumes "settles h" "sel_inv v" "n \<le> 3" "active (hspi_dev_conf v (unat n))"
  shows "\<exists>s'. hspi_dev_sel h n v = Some (v\<lparr>base := s', selected_dev_num := unat n\<rparr>) \<and>
     selection (unat n) (v\<lparr>base := s', selected_dev_num := unat n\<rparr>)"
proof -
  let ?old = "selected_dev_num v" and ?d = "unat n"
  have d: "?d < 4" using assms(3) by (simp add: word_le_nat_alt)
  have b: "backed_up v" and o: "?old = HSPI_IDLE \<or> ?old < 4 \<and> selection ?old v" using assms(2) by (auto simp: sel_inv_def)
  have "\<exists>s'. sel_switch h ?old ?d v = Some s' \<and> selection ?d (v\<lparr>base := s'\<rparr>)"
  proof (cases "?d = ?old")
    case True
    then show ?thesis using o d same_device [OF d] by (auto simp: dev_nums)
  next
    case False
    then consider "?old = HSPI_IDLE \<or> ?old = HSPI_CS_DEV"
      | "?old = SPI_CS1_DEV \<or> ?old = SPI_CS2_DEV" "selection ?old v"
      | "?old = SPI_CS0_FLASH" "selection ?old v"
      using o by (auto simp: dev_nums less_Suc_eq numeral_eq_Suc)
    then show ?thesis
      using from_other [OF assms(1) b d] from_cs12 [OF assms(1) b d] from_flash [OF assms(1) b d] False
      by cases metis+
  qed
  then show ?thesis using assms(3,4) by (auto simp: hspi_dev_sel_def Let_def not_less selection_def)
qed

section \<open>Initialisation\<close>

lemma first_backup_backs_up:
  assumes "\<not> reg_backup_flag v \<or> backed_up v \<and> selected_dev_num v = HSPI_IDLE"
  shows "backed_up (first_backup v) \<and> selected_dev_num (first_backup v) = HSPI_IDLE \<and>
    hspi_dev_conf (first_backup v) = hspi_dev_conf v"
proof (cases "reg_backup_flag v")
  case False
  then show ?thesis
    by (auto simp: first_backup_def backed_up_def spi_reg_backup_def Let_def module_one reg_bits spi0_reg)
qed (use assms in \<open>simp add: first_backup_def\<close>)

definition dev_ok :: "u8 \<times> u8 \<times> u8 \<Rightarrow> bool" where
  "dev_ok c = (case c of (n, polar, clkdiv) \<Rightarrow> n \<le> 3 \<and> polar \<le> 1 \<and> clkdiv \<le> 0x1f)"

lemma dev_initialised:
  assumes "settles h" "dev_ok (n, polar, clkdiv)" "\<not> reg_backup_flag v \<or> backed_up v \<and> selected_dev_num v = HSPI_IDLE"
  shows "\<exists>v'. hspi_master_dev_init h n polar clkdiv v = Some v' \<and> backed_up v' \<and> selected_dev_num v' = HSPI_IDLE \<and>
    hspi_dev_conf v' = (hspi_dev_conf v)(unat n := \<lparr>active = True, clk_polar = (polar \<noteq> 0), clk_div = ucast clkdiv\<rparr>)"
proof -
  obtain s where s: "WAIT_HSPI_IDLE h (base v) = Some s" using hspi_waits [OF assms(1)] by metis
  have "backed_up (v\<lparr>base := s\<rparr>) = backed_up v" by (simp add: backed_up_def)
  then have "backed_up (first_backup (v\<lparr>base := s\<rparr>)) \<and> selected_dev_num (first_backup (v\<lparr>base := s\<rparr>)) = HSPI_IDLE \<and>
      hspi_dev_conf (first_backup (v\<lparr>base := s\<rparr>)) = hspi_dev_conf v"
    using first_backup_backs_up [of "v\<lparr>base := s\<rparr>"] assms(3) by simp
  then show ?thesis using assms(2) s
    by (auto simp: hspi_master_dev_init_def dev_ok_def Let_def not_less on_base_def backed_up_def)
qed

text \<open>Devices initialised one after the other, and selected one after the other.\<close>

fun init_devs :: "spi_hw \<Rightarrow> (u8 \<times> u8 \<times> u8) list \<Rightarrow> overlap \<Rightarrow> overlap option" where
  "init_devs h [] v = Some v"
| "init_devs h ((n, polar, clkdiv) # cs) v = do { v \<leftarrow> hspi_master_dev_init h n polar clkdiv v; init_devs h cs v }"

fun sel_devs :: "spi_hw \<Rightarrow> u8 list \<Rightarrow> overlap \<Rightarrow> overlap option" where
  "sel_devs h [] v = Some v"
| "sel_devs h (n # ns) v = do { v \<leftarrow> hspi_dev_sel h n v; sel_devs h ns v }"

lemma devs_initialised:
  assumes "settles h"
  shows "\<forall>c \<in> set cs. dev_ok c \<Longrightarrow> (\<not> reg_backup_flag v \<and> cs \<noteq> []) \<or> backed_up v \<and> selected_dev_num v = HSPI_IDLE \<Longrightarrow>
    \<exists>v'. init_devs h cs v = Some v' \<and> backed_up v' \<and> selected_dev_num v' = HSPI_IDLE \<and>
      (\<forall>d. active (hspi_dev_conf v' d) \<longleftrightarrow> active (hspi_dev_conf v d) \<or> d \<in> (\<lambda>(n, _). unat n) ` set cs)"
proof (induction cs arbitrary: v)
  case (Cons c cs)
  obtain n polar clkdiv where c: "c = (n, polar, clkdiv)" by (cases c)
  obtain v1 where v1: "hspi_master_dev_init h n polar clkdiv v = Some v1" "backed_up v1" "selected_dev_num v1 = HSPI_IDLE"
      "hspi_dev_conf v1 = (hspi_dev_conf v)(unat n := \<lparr>active = True, clk_polar = (polar \<noteq> 0), clk_div = ucast clkdiv\<rparr>)"
    using dev_initialised [OF assms, of n polar clkdiv v] Cons.prems c by auto
  obtain v2 where "init_devs h cs v1 = Some v2" "backed_up v2" "selected_dev_num v2 = HSPI_IDLE"
      "\<forall>d. active (hspi_dev_conf v2 d) \<longleftrightarrow> active (hspi_dev_conf v1 d) \<or> d \<in> (\<lambda>(n, _). unat n) ` set cs"
    using Cons.IH [of v1] Cons.prems(1) v1(2,3) by auto
  then show ?case using v1 by (auto simp: c)
qed auto

lemma devs_selected:
  assumes "settles h"
  shows "\<forall>n \<in> set ns. n \<le> 3 \<and> active (hspi_dev_conf v (unat n)) \<Longrightarrow> ns \<noteq> [] \<Longrightarrow> sel_inv v \<Longrightarrow>
    \<exists>v'. sel_devs h ns v = Some v' \<and> selected_dev_num v' = unat (last ns) \<and> selection (unat (last ns)) v' \<and> sel_inv v'"
proof (induction ns arbitrary: v)
  case (Cons n ns)
  obtain s' where s': "hspi_dev_sel h n v = Some (v\<lparr>base := s', selected_dev_num := unat n\<rparr>)"
      "selection (unat n) (v\<lparr>base := s', selected_dev_num := unat n\<rparr>)"
    using dev_selected [OF assms, of v n] Cons.prems by auto
  then have "sel_inv (v\<lparr>base := s', selected_dev_num := unat n\<rparr>)"
    using Cons.prems(1,3) by (auto simp: sel_inv_def backed_up_def word_le_nat_alt)
  with Cons s' show ?case by (cases "ns = []") auto
qed simp


definition overlap_zero :: overlap where
  "overlap_zero = \<lparr>base = spi_zero, flash_reg_backup = [], dev_reg_backup = [],
     hspi_dev_conf = \<lambda>d. \<lparr>active = False, clk_polar = False, clk_div = 0\<rparr>, selected_dev_num = 0,
     spi_io_80m = False, reg_backup_flag = False\<rparr>"


section \<open>The flash chip\<close>

text \<open>Byte \<open>k\<close> of a word, lowest first, and what the chip answers: as many bytes as asked for.\<close>

definition word_byte :: "u32 \<Rightarrow> nat \<Rightarrow> u8" where
  "word_byte w k = ucast (drop_bit (8 * k) w)"

definition reads_flash :: "spi_hw \<Rightarrow> (nat \<Rightarrow> u8) \<Rightarrow> bool" where
  "reads_flash h flash \<longleftrightarrow> (\<forall>a b. b < unat (drop_bit 24 a) \<longrightarrow>
     word_byte (flash_word h a (b div 4)) (b mod 4) = flash (unat (take_bit 24 a) + b))"

lemma addr_and_count:
  assumes "unat a < 2 ^ 24" "k \<le> 32"
  shows "unat (drop_bit 24 (a OR push_bit 24 (of_nat k :: u32))) = k" "take_bit 24 (a OR push_bit 24 (of_nat k :: u32)) = a"
proof -
  have a: "take_bit 24 a = a" using assms(1)
    by (intro word_unat_eq_iff [THEN iffD2]) (simp add: unsigned_take_bit_eq take_bit_nat_eq_self)
  have uk: "unat (of_nat k :: u32) = k" using assms(2) by (simp add: unat_of_nat)
  then have k: "take_bit 8 (of_nat k :: u32) = of_nat k" using assms(2)
    by (intro word_unat_eq_iff [THEN iffD2]) (simp add: unsigned_take_bit_eq take_bit_nat_eq_self)
  have "drop_bit 24 (a OR push_bit 24 (of_nat k :: u32)) = of_nat k"
  proof (rule bit_word_eqI)
    fix j :: nat
    assume "j < LENGTH(32)"
    then show "bit (drop_bit 24 (a OR push_bit 24 (of_nat k :: u32))) j = bit (of_nat k :: u32) j"
      using bit_fits [OF a, of "24 + j"] bit_fits [OF k, of j]
      by (auto simp: bit_or_iff bit_push_bit_iff bit_drop_bit_eq)
  qed
  then show "unat (drop_bit 24 (a OR push_bit 24 (of_nat k :: u32))) = k" using uk by simp
  show "take_bit 24 (a OR push_bit 24 (of_nat k :: u32)) = a"
  proof (rule bit_word_eqI)
    fix j :: nat
    assume "j < LENGTH(32)"
    then show "bit (take_bit 24 (a OR push_bit 24 (of_nat k :: u32))) j = bit a j"
      using bit_fits [OF a, of j] by (auto simp: bit_or_iff bit_push_bit_iff bit_take_bit_iff)
  qed
qed

lemma piece_read:
  assumes "reads_flash h flash" "unat a < 2 ^ 24" "k \<le> 32" "d + n \<le> length dest" "k \<le> 4 * n"
  obtains dest' where "read_words h (a OR push_bit 24 (of_nat k)) dest d n = Some dest'" "length dest' = length dest"
    "\<And>b. b < k \<Longrightarrow> word_byte (dest' ! (d + b div 4)) (b mod 4) = flash (unat a + b)"
    "\<And>j. j < length dest \<Longrightarrow> j < d \<or> d + n \<le> j \<Longrightarrow> dest' ! j = dest ! j"
proof
  let ?a = "a OR push_bit 24 (of_nat k :: u32)"
  let ?m = "take d dest @ map (flash_word h ?a) [0..<n] @ drop (d + n) dest"
  show "read_words h ?a dest d n = Some ?m" "length ?m = length dest"
    using assms(4) by (simp_all add: read_words_def wr_block_in)
  show "?m ! j = dest ! j" if "j < length dest" "j < d \<or> d + n \<le> j" for j
    using that assms(4) by (auto simp: nth_append)
  show "word_byte (?m ! (d + b div 4)) (b mod 4) = flash (unat a + b)" if b: "b < k" for b
  proof -
    have "b div 4 < n" using b assms(5) by (simp add: div_less_iff_less_mult mult.commute)
    then have "?m ! (d + b div 4) = flash_word h ?a (b div 4)"
      using assms(4) by (simp add: nth_append)
    then show ?thesis
      using assms(1) b addr_and_count [OF assms(2,3)] by (simp add: reads_flash_def)
  qed
qed

lemma words_of_bytes: "nat (if int l mod 4 = 0 then int l div 4 else int l div 4 + 1) = (l + 3) div 4"
proof -
  have "(if int l mod 4 = 0 then int l div 4 else int l div 4 + 1) = int ((l + 3) div 4)"
    unfolding zdiv_int by simp presburger
  then show ?thesis by simp
qed

text \<open>A piece of 32 bytes and what is read after it make up the whole.\<close>

lemma pieces_joined:
  assumes "32 \<le> l" "d + 8 \<le> length dest" "length m = length dest"
    "\<And>b. b < 32 \<Longrightarrow> word_byte (m ! (d + b div 4)) (b mod 4) = f (p + b)"
    "\<And>j. j < length dest \<Longrightarrow> j < d \<or> d + 8 \<le> j \<Longrightarrow> m ! j = dest ! j"
    "\<forall>b < l - 32. word_byte (dest' ! (d + 8 + b div 4)) (b mod 4) = f (p + 32 + b)"
    "\<forall>j < length dest. j < d + 8 \<or> (d + 8) + (l - 32 + 3) div 4 \<le> j \<longrightarrow> dest' ! j = m ! j"
  shows "\<forall>b < l. word_byte (dest' ! (d + b div 4)) (b mod 4) = f (p + b)"
    "\<forall>j < length dest. j < d \<or> (d + 8) + (l - 32 + 3) div 4 \<le> j \<longrightarrow> dest' ! j = dest ! j"
proof -
  have "word_byte (dest' ! (d + b div 4)) (b mod 4) = f (p + b)" if b: "b < l" for b
  proof (cases "b < 32")
    case True
    then have "b div 4 < 8" by simp
    then have "dest' ! (d + b div 4) = m ! (d + b div 4)" using assms(2,7) by simp
    then show ?thesis using assms(4) True by simp
  next
    case False
    then obtain c where c: "b = c + 32" using le_Suc_ex [of 32 b] by (auto simp: add.commute)
    then have "d + 8 + c div 4 = d + b div 4" "p + 32 + c = p + b" by simp_all
    moreover have "c mod 4 = b mod 4" unfolding c by presburger
    moreover have "c < l - 32" using b c by simp
    ultimately show ?thesis using assms(6) by metis
  qed
  then show "\<forall>b < l. word_byte (dest' ! (d + b div 4)) (b mod 4) = f (p + b)" by blast
  show "\<forall>j < length dest. j < d \<or> (d + 8) + (l - 32 + 3) div 4 \<le> j \<longrightarrow> dest' ! j = dest ! j"
    using assms(5,7) by simp
qed

lemma flash_loop_reads:
  assumes "settles h" "reads_flash h flash"
  shows "unat a + l \<le> 2 ^ 24 \<Longrightarrow> d + (l + 3) div 4 \<le> length dest \<Longrightarrow>
    \<exists>dest' s'. flash_loop h a (int l) dest d s = Some (dest', s') \<and> length dest' = length dest \<and>
      (\<forall>b < l. word_byte (dest' ! (d + b div 4)) (b mod 4) = flash (unat a + b)) \<and>
      (\<forall>j < length dest. j < d \<or> d + (l + 3) div 4 \<le> j \<longrightarrow> dest' ! j = dest ! j)"
proof (induction l arbitrary: a dest d s rule: less_induct)
  case (less l)
  have wait: "\<exists>s1. wait_cmd_zero h (flash_read_cmd x s) = Some s1" for x
    using waits_return(2) [OF assms(1)] by blast
  consider "l = 0" | "0 < l" "l < 32" | "32 \<le> l" by linarith
  then show ?case
  proof cases
    case 1
    then show ?thesis by (subst flash_loop.simps) simp
  next
    case 2
    obtain s1 where s1: "wait_cmd_zero h (flash_read_cmd (a OR push_bit 24 (of_nat l)) s) = Some s1" using wait by blast
    note n = words_of_bytes [of l]
    have l: "l \<le> 4 * ((l + 3) div 4)" by presburger
    obtain dest' where "read_words h (a OR push_bit 24 (of_nat l)) dest d ((l + 3) div 4) = Some dest'" "length dest' = length dest"
      "\<And>b. b < l \<Longrightarrow> word_byte (dest' ! (d + b div 4)) (b mod 4) = flash (unat a + b)"
      "\<And>j. j < length dest \<Longrightarrow> j < d \<or> d + (l + 3) div 4 \<le> j \<Longrightarrow> dest' ! j = dest ! j"
      using piece_read [OF assms(2) _ _ less.prems(2) l, of a] less.prems(1) 2 by auto
    then show ?thesis using 2 s1 n by (subst flash_loop.simps) (auto simp: Let_def)
  next
    case 3
    obtain s1 where s1: "wait_cmd_zero h (flash_read_cmd (a OR push_bit 24 32) s) = Some s1" using wait by blast
    obtain k where k: "l = k + 32" using 3 le_Suc_ex [of 32 l] by (auto simp: add.commute)
    have "(k + 35) div 4 = 8 + (k + 3) div 4" using div_mult_self1 [of 4 "k + 3" 8] by (simp add: add.commute)
    then have d8: "d + 8 \<le> length dest" "(d + 8) + (l - 32 + 3) div 4 = d + (l + 3) div 4"
      using less.prems(2) by (simp_all add: k)
    obtain m where m: "read_words h (a OR push_bit 24 32) dest d 8 = Some m" "length m = length dest"
      "\<And>b. b < 32 \<Longrightarrow> word_byte (m ! (d + b div 4)) (b mod 4) = flash (unat a + b)"
      "\<And>j. j < length dest \<Longrightarrow> j < d \<or> d + 8 \<le> j \<Longrightarrow> m ! j = dest ! j"
      using piece_read [OF assms(2) _ _ d8(1), of a 32] less.prems(1) 3 by auto
    have a32: "unat (a + 32) = unat a + 32" using less.prems(1) 3 by (simp add: unat_word_ariths)
    obtain dest' s' where r: "flash_loop h (a + 32) (int (l - 32)) m (d + 8) s1 = Some (dest', s')" "length dest' = length m"
      "\<forall>b < l - 32. word_byte (dest' ! (d + 8 + b div 4)) (b mod 4) = flash (unat a + 32 + b)"
      "\<forall>j < length m. j < d + 8 \<or> d + (l + 3) div 4 \<le> j \<longrightarrow> dest' ! j = m ! j"
      using less.IH [of "l - 32" "a + 32" "d + 8" m s1] less.prems 3 d8 m(2) a32 by auto
    note j = pieces_joined [OF 3 d8(1) m(2,3,4) r(3,4) [unfolded m(2), folded d8(2)]]
    show ?thesis using 3 s1 m(1,2) r(1,2) j by (subst flash_loop.simps) (simp add: Let_def of_nat_diff d8(2))
  qed
qed


text \<open>Hardware that answers at once, with a flash chip that holds its addresses.\<close>

definition word_of_bytes :: "(nat \<Rightarrow> u8) \<Rightarrow> u32" where
  "word_of_bytes f = ucast (f 0) OR push_bit 8 (ucast (f 1)) OR push_bit 16 (ucast (f 2)) OR push_bit 24 (ucast (f 3))"

lemma no_bit: "8 \<le> k \<Longrightarrow> \<not> bit (w :: u8) (k + n)"
  using bit_imp_le_length [of w "k + n"] by auto

lemma byte_of_bytes: "k < 4 \<Longrightarrow> word_byte (word_of_bytes f) k = f k"
proof -
  assume "k < 4"
  then consider "k = 0" | "k = 1" | "k = 2" | "k = 3" by linarith
  then show ?thesis
    by cases (auto simp: word_byte_def word_of_bytes_def bit_simps no_bit intro!: bit_word_eqI)
qed

definition flash_hw :: "(nat \<Rightarrow> u8) \<Rightarrow> spi_hw" where
  "flash_hw f = ready_hw\<lparr>flash_word := \<lambda>a j. word_of_bytes (\<lambda>k. f (unat (take_bit 24 a) + 4 * j + k))\<rparr>"

lemma flash_hw_ok: "settles (flash_hw f)" "reads_flash (flash_hw f) f"
  using ready_settles by (auto simp: settles_def reads_flash_def flash_hw_def byte_of_bytes add.assoc)

definition flash_only :: overlap where
  "flash_only = overlap_zero\<lparr>flash_reg_backup := replicate 9 0, dev_reg_backup := replicate 9 0, reg_backup_flag := True,
     selected_dev_num := HSPI_IDLE, hspi_dev_conf := \<lambda>d. \<lparr>active = True, clk_polar = False, clk_div = 0\<rparr>\<rparr>"


text \<open>A device that is initialised again while it is selected keeps its old clock and edge.\<close>

lemma reselect_keeps:
  "n \<le> 3 \<Longrightarrow> active (hspi_dev_conf v (unat n)) \<Longrightarrow> selected_dev_num v = unat n \<Longrightarrow> hspi_dev_sel h n v = Some v"
  by (auto simp: hspi_dev_sel_def Let_def not_less [symmetric] same_device word_less_nat_alt)

end
