(* ===== verification/Spec2Isabelle.thy ===== *)
theory Spec2Isabelle
  imports Mqtt_Receive Mqtt_Session Mqtt_System_Props Utils Config Gpio16 Wifi Firmware_Session
    Http_Types I2c_Master Key Hw_Timer Serial_Spec Sdio_Props Spi_Overlap_Props
begin

text \<open>
  A verification library for the ESP8266 firmware "MQTT auto light sleep": a battery-powered
  sensor that wakes up on an interrupt, measures eight analogue channels, publishes them over MQTT
  and goes back to light sleep when everything has been sent. Source paths are given below as
  they are under \<open>src/\<close> of the repository; the firmware itself is in \<open>src/src/\<close>.

  \<^bold>\<open>The program and the theories that model it.\<close>

  \<^item> \<open>Prelude\<close>: the integers of the target (\<open>u8\<close>, \<open>u16\<close>, \<open>u32\<close>), memory blocks with checked
    accesses, C strings; and the locale \<open>simulation\<close>, that a step function implements a specification
    through a view of its state (its condition is then an invariant of all reachable states, a
    sublocale of \<open>step_invariant\<close>). \<open>None\<close> is an undefined behaviour of C everywhere in the development
    (access outside a block, NULL dereference, signed overflow, oversized shift); an error code of
    the program is an ordinary result. A theorem that a function returns \<open>Some\<close> is therefore a
    proof of its memory safety.
  \<^item> \<open>Ringbuf\<close> (\<open>mqtt/ringbuf.c\<close>), \<open>Proto\<close> (\<open>mqtt/proto.c\<close>), \<open>Queue\<close> (\<open>mqtt/queue.c\<close>): the
    outbound queue, three layers deep. The ring buffer implements a list of bytes
    (\<open>rb_contents\<close>, \<open>rb_wf\<close>); the byte stuffing frames messages in it (\<open>frame\<close>, \<open>messages\<close>);
    the queue is then a list of messages (\<open>queue_msgs\<close>, \<open>queue_inv\<close>). The interface
    \<open>evicting_queue\<close> states what the insertion loop of the client needs from a queue, and is
    interpreted on the queue of the code.
  \<^item> \<open>Mqtt_Msg\<close> (\<open>mqtt/mqtt_msg.c\<close>): the builders and decoders of MQTT 3.1 packets over the output
    buffer. \<open>Mqtt_Msg_Props\<close> gives the packet format independently (\<open>packet\<close>,
    \<open>connect_body\<close>, \<open>publish_body\<close>, \<open>subscribe_body\<close>) and proves that the builders
    write it or report length 0; \<open>Mqtt_Decode\<close> proves that the decoders read it back.
  \<^item> \<open>Mqtt_Client\<close> (\<open>mqtt/mqtt.c\<close>): the client's record, every handler the SDK calls, every API
    function. Calls that leave the client - sends, posts, timers, callbacks - are appended to the
    ghost field \<open>trace\<close>. The SDK's answers and the application's callbacks are the parameter
    \<open>env\<close>, with \<open>env_ok\<close> for what the client relies on. \<open>Mqtt_Client_Props\<close> holds the invariant
    \<open>client_ok\<close> and its preservation by every handler; \<open>Mqtt_System\<close> makes events and handlers a
    step relation with reachable states; \<open>Mqtt_System_Props\<close>, \<open>Mqtt_Receive\<close> and
    \<open>Mqtt_Session\<close> prove what the client does: sending its queue, receiving segments, keep-alive,
    reconnect and handshake. \<open>Mqtt_Recovery\<close> composes handlers to runs over sequences of events, and
    \<open>Mqtt_Order\<close> says for every run what leaves the client (\<open>run_sends\<close>) and that only a CONNACK
    connects it.
  \<^item> \<open>Utils\<close> (\<open>mqtt/utils.c\<close>): addresses and hexadecimal numbers from strings.
  \<^item> \<open>Config\<close> (\<open>modules/config.c\<close>): the configuration in flash, in two slots and a flag sector. What
    saving and loading need of the chip is the locale \<open>flash_chip\<close>, interpreted on a chip whose writes only
    clear bits.
  \<^item> \<open>Gpio16\<close> (\<open>modules/gpio16.c\<close>), \<open>Wifi\<close> (\<open>modules/wifi.c\<close>), \<open>Sleep\<close> and \<open>Sleep_Props\<close>
    (\<open>modules/sleep.c\<close>): the pin, the station, and measuring, waking and sleeping.
  \<^item> \<open>User_Main\<close> (\<open>user/user_main.c\<close>): the callbacks and \<open>user_init\<close>, which put the components
    together. \<open>Firmware\<close> is the whole: its events are the SDK's callbacks, the interrupts and the WiFi
    events, its invariant is carried from step to step (locale \<open>step_invariant\<close>), and the cycle from
    an interrupt over measuring and sending to the next sleep is followed to its end.
    \<open>Firmware_Session\<close> follows two more: from \<open>user_init\<close> to a connected client that has announced itself,
    and from a lost connection back to it, with everything that was queued.
  \<^item> \<open>Http_Config\<close> and \<open>Http_Props\<close> (\<open>modules/http_config.c\<close>): the web page that edits the
    configuration. The strings of the C library that it uses are translated as well. A form
    submitted as browsers encode it is stored exactly; the fixed and resized buffers overflow.
    \<open>Http_Types\<close>: whatever is received, the configuration keeps its type.
  \<^item> \<open>I2c_Master\<close>, \<open>Key\<close>, \<open>Hw_Timer\<close>, \<open>Uart\<close> (\<open>driver_lib/driver\<close>): the drivers that come
    with the firmware. The I2C operations are read as a receiver on the bus reads them; the keys
    are a step relation with an invariant; the serial port is a set of registers and sequences
    of answers of the hardware.
  \<^item> \<open>Uart_Buffer\<close>, \<open>Serial_Spec\<close> (\<open>driver_lib/driver/uart.c\<close>, the parts under \<open>UART_BUFF_EN\<close>): the
    receive and transmit rings of the port with their copies in one or two blocks, which equal a loop over
    the bytes. \<open>serial\<close> is what a port with buffers promises - two bounded lists of bytes - and the
    code implements it (an interpretation of \<open>simulation\<close>).
  \<^item> \<open>Sdio_Slave\<close>, \<open>Sdio_Spec\<close>, \<open>Sdio_Props\<close> (\<open>driver_lib/driver/sdio_slv.c\<close>): the list elements are a
    heap of addresses, the three lists of the driver are chains in it that share nothing and lose
    nothing (\<open>sdio_inv\<close>). The specification \<open>link\<close> has the messages that wait and a count of free
    buffers; the driver implements it, and from there follow the order of the bytes, their
    delivery, and the case in which nothing is ever sent.
  \<^item> \<open>Spi\<close>, \<open>Spi_Overlap\<close>, \<open>Spi_Props\<close>, \<open>Spi_Overlap_Props\<close> (\<open>driver_lib/driver/spi_interface.c\<close>,
    \<open>spi.c\<close>, \<open>spi_overlap.c\<close>): the registers are memory cells by address; a transfer is the contents of the
    registers at its start. \<open>spi_frame\<close>, \<open>selection\<close> and \<open>reads_flash\<close> say what a transfer, the selection of
    a device and the flash chip mean on the wire.

  \<^bold>\<open>How the components interact.\<close> The interrupt handler of \<open>Sleep\<close> starts a measurement, which
  calls \<open>MQTT_Publish\<close> nine times; each builds its packet with \<open>Mqtt_Msg\<close> into the output buffer
  and puts it into the \<open>Queue\<close>; the client's task takes one message at a time and hands it to TCP,
  and the SDK's sent callback posts the task again; \<open>goToSleep\<close> looks at the ring buffer of the same
  queue and sleeps when it is empty. Received segments go through the decoders of \<open>Mqtt_Msg\<close> to
  the callbacks of \<open>User_Main\<close>, which may publish from inside the receiver.

  \<^bold>\<open>Bounds and fuel.\<close> Loops over bytes are structural recursions or recursions over the number of
  remaining bytes. The insertion loop with eviction is a \<open>partial_function\<close>: that it returns is
  part of its theorem (at most one more pass than there are queued messages). The receiver's
  \<open>goto READPACKET\<close> takes fuel, one unit per packet; \<open>Some None\<close> means that the fuel was not
  enough. The busy waits of the serial port and of the SPI modules are
  \<open>partial_function\<close>s over the sequence of the hardware's answers: they return because among
  these there is one with room (\<open>drains\<close>), or one that ends the transfer (\<open>settles\<close>). A segment
  of n complete packets needs at most n + 1 passes, and this is what the
  theorems give it; the theorem on the endless loop is for every amount of fuel.

  \<^bold>\<open>What is not modelled.\<close> Debug output (\<open>INFO\<close>, \<open>os_printf\<close>) and busy-wait delays are left out,
  as they do not change the state. TLS is a flag of the client that chooses between two sets of SDK
  calls. The SDK, its TCP stack, the flash chip, the allocator and floating-point arithmetic are
  parameters. Interrupts are taken between the
  calls of a driver, not inside one: \<open>sdio_load_data\<close> does not protect its lists against them. Left out
  are the test code under \<open>SPI_SLAVE_DEBUG\<close>, \<open>SPI_MASTER_DEBUG\<close> and \<open>#if 0\<close>, and what the flash or the
  allocator does to a program that ran out of memory before: a measurement leaks 104 bytes, which is a finding and not
  part of the theorems. \<open>secrets.h\<close>, which is not in the repository, provides arguments
  (\<open>MQTT_BUF_SIZE\<close>, \<open>MQTT_CLIENT_ID\<close>). Vendored code (lwIP, mbedTLS, SDK headers, examples,
  tools) is outside the scope.
\<close>

end
